(* ===== verification/Prelude.thy ===== *)
theory Prelude
  imports Main "HOL-Library.Word"
begin

text \<open>
  Shared ground of the development: machine types, the six-byte mesh address, error values,
  the collections of simp rules, and the generic facts on lists that several components use.
  Nothing in this theory models a particular function of the repository.
\<close>

unbundle bit_operations_syntax

named_theorems wire_simps "unfolding rules for 9P wire encodings"
named_theorems text_simps "unfolding rules for text formatting and scanning"
named_theorems net_simps "unfolding rules for the conversation layer"
named_theorems relay_simps "unfolding rules for the relay"

type_synonym byte = "8 word"
type_synonym u16 = "16 word"
type_synonym u32 = "32 word"
type_synonym u64 = "64 word"

lemma unat_byte: "unat (b :: byte) < 256"
  using unsigned_less [where 'b = 8 and 'a = nat, of b] by simp

lemma unat_u16: "unat (b :: u16) < 65536"
  using unsigned_less [where 'b = 16 and 'a = nat, of b] by simp

lemma unat_u32: "unat (b :: u32) < 4294967296"
  using unsigned_less [where 'b = 32 and 'a = nat, of b] by simp

subsection \<open>The six-byte address\<close>

text \<open>
  A \<open>uint8_t[6]\<close> has exactly six bytes, so it is a datatype of six bytes rather than a list;
  \<open>memcmp(a, b, 6) == 0\<close> is equality.
\<close>

datatype addr6 = Addr6 byte byte byte byte byte byte

fun addr_bytes :: "addr6 \<Rightarrow> byte list" where
  "addr_bytes (Addr6 a b c d e f) = [a, b, c, d, e, f]"

text \<open>\<open>memcpy(out, p, 6)\<close> from a buffer that holds at least six bytes.\<close>

definition addr_at :: "byte list \<Rightarrow> addr6" where
  "addr_at p = Addr6 (p ! 0) (p ! 1) (p ! 2) (p ! 3) (p ! 4) (p ! 5)"

definition addr_zero :: addr6 where
  "addr_zero = Addr6 0 0 0 0 0 0"

definition addr_bcast :: addr6 where
  "addr_bcast = Addr6 0xff 0xff 0xff 0xff 0xff 0xff"

lemma length_addr_bytes [simp]: "length (addr_bytes a) = 6"
  by (cases a) simp

lemma addr_bytes_inject [simp]: "addr_bytes a = addr_bytes b \<longleftrightarrow> a = b"
  by (cases a; cases b) auto

lemma addr_at_bytes [simp]: "addr_at (addr_bytes a @ xs) = a"
  by (cases a) (simp add: addr_at_def)

lemma addr_bytes_at [simp]: "6 \<le> length p \<Longrightarrow> addr_bytes (addr_at p) = take 6 p"
  by (rule nth_equalityI)
    (auto simp: addr_at_def nth_Cons' numeral_eq_Suc less_Suc_eq)

subsection \<open>Error values\<close>

text \<open>
  The error numbers the sources return, and \<open>Errno n\<close> for any other code that an external
  function may return. A C function that returns a count or a negated error number is a
  function into \<open>errno + 'a\<close>.
\<close>

datatype errno =
    EINVAL | ENOSPC | EMSGSIZE | ENOTCONN | EROFS | EIO | EPIPE | ENODEV | EBUSY | EAGAIN
  | ENOENT | ENOTSUP | Errno nat

type_synonym 'a res = "errno + 'a"

fun is_ok :: "'a res \<Rightarrow> bool" where
  "is_ok (Inl e) = False"
| "is_ok (Inr x) = True"

subsection \<open>Lists as buffers\<close>

text \<open>A read of \<open>cnt\<close> bytes at offset \<open>off\<close> of a buffer that ends at its last byte.\<close>

definition segment :: "nat \<Rightarrow> nat \<Rightarrow> 'a list \<Rightarrow> 'a list" where
  "segment off cnt xs = take cnt (drop off xs)"

lemma length_segment [simp]: "length (segment off cnt xs) = min cnt (length xs - off)"
  by (simp add: segment_def min.commute)

lemma segment_past_end [simp]: "length xs \<le> off \<Longrightarrow> segment off cnt xs = []"
  by (simp add: segment_def)

lemma segment_append:
  "segment off m xs @ segment (off + m) n xs = segment off (m + n) xs"
  by (simp add: segment_def take_add add.commute)

lemma segment_then_drop: "segment off cnt xs @ drop (off + length (segment off cnt xs)) xs = drop off xs"
proof (cases "cnt \<le> length xs - off")
  case True
  then have "drop (off + length (segment off cnt xs)) xs = drop cnt (drop off xs)"
    by (simp add: add.commute)
  then show ?thesis
    unfolding segment_def using append_take_drop_id [of cnt "drop off xs"] by simp
next
  case False
  then show ?thesis by (simp add: segment_def)
qed

lemma segment_all: "length xs \<le> cnt \<Longrightarrow> segment 0 cnt xs = xs"
  by (simp add: segment_def)

text \<open>
  What a client gets that reads a file in pieces of \<open>cnt\<close> bytes from offset \<open>off\<close> until a read
  returns no byte: the reads are \<open>rd off\<close>, \<open>rd (off + n)\<close>, \dots
\<close>

fun read_to_end :: "nat \<Rightarrow> (nat \<Rightarrow> 'a list) \<Rightarrow> nat \<Rightarrow> 'a list" where
  "read_to_end 0 rd off = []"
| "read_to_end (Suc fuel) rd off =
     (let p = rd off in if p = [] then [] else p @ read_to_end fuel rd (off + length p))"

lemma read_to_end_segment:
  assumes "0 < cnt" and "length xs - off < fuel"
  shows "read_to_end fuel (\<lambda>o'. segment o' cnt xs) off = drop off xs"
  using assms(2)
proof (induction fuel arbitrary: off)
  case 0
  then show ?case by simp
next
  case (Suc fuel)
  show ?case
  proof (cases "length xs \<le> off")
    case True
    then show ?thesis by simp
  next
    case False
    let ?p = "segment off cnt xs"
    have ne: "?p \<noteq> []" using False \<open>0 < cnt\<close> by (simp add: segment_def)
    have lp: "length ?p = min cnt (length xs - off)" by simp
    then have "length xs - (off + length ?p) < fuel"
      using Suc.prems False \<open>0 < cnt\<close> by linarith
    then have "read_to_end fuel (\<lambda>o'. segment o' cnt xs) (off + length ?p)
        = drop (off + length ?p) xs"
      by (rule Suc.IH)
    moreover have "?p @ drop (off + length ?p) xs = drop off xs"
      by (rule segment_then_drop)
    ultimately show ?thesis using ne by (simp add: Let_def)
  qed
qed

text \<open>Strip trailing elements, the loop \<open>while (k && p(cmd[k-1])) k--\<close>.\<close>

definition strip_end :: "('a \<Rightarrow> bool) \<Rightarrow> 'a list \<Rightarrow> 'a list" where
  "strip_end p xs = rev (dropWhile p (rev xs))"

lemma length_strip_end: "length (strip_end p xs) \<le> length xs"
  unfolding strip_end_def by (metis length_dropWhile_le length_rev)

lemma strip_end_last: "strip_end p xs \<noteq> [] \<Longrightarrow> \<not> p (last (strip_end p xs))"
  by (simp add: strip_end_def last_rev hd_dropWhile)

lemma strip_end_id: "xs \<noteq> [] \<Longrightarrow> \<not> p (last xs) \<Longrightarrow> strip_end p xs = xs"
  unfolding strip_end_def
  by (metis dropWhile_eq_self_iff hd_rev rev_rev_ident rev_is_Nil_conv)

lemma strip_end_append [simp]: "p x \<Longrightarrow> strip_end p (xs @ [x]) = strip_end p xs"
  by (simp add: strip_end_def)

lemma nth_list_update_map:
  "i < length xs \<Longrightarrow> map f (xs[i := x]) = (map f xs)[i := f x]"
  by (simp add: map_update)

end
