(* ===== verification/Text.thy ===== *)
theory Text
  imports Prelude
begin

text \<open>
  The part of C strings and stdio that the sources use. A C string is the list of its bytes
  before the terminating NUL; \<open>cstr\<close> reads one out of a buffer. Conversions write the bytes
  \<open>snprintf\<close> would produce without its size limit; the limit is \<open>snprintf_out\<close>. The scanner
  is the \<open>%x\<close> conversion of \<open>sscanf\<close>: white space, an optional sign, an optional \<open>0x\<close>, at
  least one hexadecimal digit; the value is reduced modulo \<open>2 ^ 32\<close> (the C standard leaves an
  overflow of the conversion undefined).
\<close>

subsection \<open>Characters and strings\<close>

definition ascii :: "string \<Rightarrow> byte list" where
  "ascii s = map of_char s"

definition cstr :: "byte list \<Rightarrow> byte list" where
  "cstr buf = takeWhile (\<lambda>b. b \<noteq> 0) buf"

text \<open>\<open>snprintf(buf, cap, \<dots>)\<close>: the bytes stored before the NUL; its result is the full length.\<close>

definition snprintf_out :: "nat \<Rightarrow> byte list \<Rightarrow> byte list" where
  "snprintf_out cap s = take (cap - 1) s"

text \<open>
  The bytes written when \<open>snprintf(buf, cap, \<dots>)\<close> made \<open>s\<close> and its result, the full length, is taken as
  the length of \<open>buf\<close>.
\<close>

definition snprintf_send :: "nat \<Rightarrow> byte list \<Rightarrow> byte list option" where
  "snprintf_send cap s =
     (if cap < length s then None else Some (snprintf_out cap s @ (if length s = cap then [0] else [])))"

abbreviation nl :: byte where "nl \<equiv> 10"
abbreviation cr :: byte where "cr \<equiv> 13"
abbreviation space :: byte where "space \<equiv> 32"
abbreviation colon :: byte where "colon \<equiv> 58"

definition is_prefix :: "byte list \<Rightarrow> byte list \<Rightarrow> bool" where
  "is_prefix p s \<longleftrightarrow> take (length p) s = p"

lemma is_prefix_append [simp]: "is_prefix p (p @ s)"
  by (simp add: is_prefix_def)

lemma is_prefixD: "is_prefix p s \<Longrightarrow> s = p @ drop (length p) s"
  unfolding is_prefix_def by (metis append_take_drop_id)

text \<open>\<open>strstr(hay, needle)\<close>: the suffix of \<open>hay\<close> at the first occurrence.\<close>

fun strstr :: "byte list \<Rightarrow> byte list \<Rightarrow> byte list option" where
  "strstr hay needle =
     (if is_prefix needle hay then Some hay
      else case hay of [] \<Rightarrow> None | _ # hay' \<Rightarrow> strstr hay' needle)"

declare strstr.simps [simp del]

text \<open>\<open>strchr\<close> as a split: the bytes before the first \<open>c\<close> and those after it.\<close>

fun split_at :: "byte \<Rightarrow> byte list \<Rightarrow> (byte list \<times> byte list) option" where
  "split_at c [] = None"
| "split_at c (x # xs) =
     (if x = c then Some ([], xs)
      else case split_at c xs of None \<Rightarrow> None | Some (a, b) \<Rightarrow> Some (x # a, b))"

lemma split_at_append [simp]: "c \<notin> set a \<Longrightarrow> split_at c (a @ c # b) = Some (a, b)"
  by (induction a) auto

lemma split_at_None: "split_at c xs = None \<longleftrightarrow> c \<notin> set xs"
  by (induction xs) (auto split: option.splits)

lemma split_at_Some: "split_at c xs = Some (a, b) \<Longrightarrow> xs = a @ c # b \<and> c \<notin> set a"
  by (induction xs arbitrary: a) (auto split: if_splits option.splits)

subsection \<open>Printing\<close>

definition hexd :: "nat \<Rightarrow> byte" where
  "hexd n = ascii ''0123456789abcdef'' ! n"

definition fmt_02x :: "byte \<Rightarrow> byte list" where
  "fmt_02x b = [hexd (unat b div 16), hexd (unat b mod 16)]"

fun dec_nat :: "nat \<Rightarrow> byte list" where
  "dec_nat n = (if n < 10 then [of_nat (48 + n)] else dec_nat (n div 10) @ [of_nat (48 + n mod 10)])"

declare dec_nat.simps [simp del]

definition dec_int :: "int \<Rightarrow> byte list" where
  "dec_int n = (if n < 0 then 45 # dec_nat (nat (- n)) else dec_nat (nat n))"

text \<open>\<open>%0wx\<close> for a value of \<open>w\<close> nibbles.\<close>

fun fmt_0x :: "nat \<Rightarrow> nat \<Rightarrow> byte list" where
  "fmt_0x 0 n = []"
| "fmt_0x (Suc w) n = fmt_0x w (n div 16) @ [hexd (n mod 16)]"

subsection \<open>Scanning\<close>

definition is_space :: "byte \<Rightarrow> bool" where
  "is_space b \<longleftrightarrow> b = 32 \<or> 9 \<le> b \<and> b \<le> 13"

definition hexval :: "byte \<Rightarrow> nat option" where
  "hexval b =
     (if 48 \<le> b \<and> b \<le> 57 then Some (unat b - 48)
      else if 97 \<le> b \<and> b \<le> 102 then Some (unat b - 87)
      else if 65 \<le> b \<and> b \<le> 70 then Some (unat b - 55)
      else None)"

fun scan_hexdigits :: "nat \<Rightarrow> byte list \<Rightarrow> nat \<times> byte list" where
  "scan_hexdigits acc [] = (acc, [])"
| "scan_hexdigits acc (b # s) =
     (case hexval b of None \<Rightarrow> (acc, b # s) | Some d \<Rightarrow> scan_hexdigits (16 * acc + d) s)"

definition skip_0x :: "byte list \<Rightarrow> byte list" where
  "skip_0x s =
     (case s of z # x # d # _ \<Rightarrow>
        if z = 48 \<and> (x = 120 \<or> x = 88) \<and> hexval d \<noteq> None then drop 2 s else s
      | _ \<Rightarrow> s)"

definition scan_x :: "byte list \<Rightarrow> (u32 \<times> byte list) option" where
  "scan_x s0 =
     (let s1 = dropWhile is_space s0;
          neg = (s1 \<noteq> [] \<and> hd s1 = 45);
          s2 = (if s1 \<noteq> [] \<and> (hd s1 = 43 \<or> hd s1 = 45) then tl s1 else s1);
          s3 = skip_0x s2
      in if s3 = [] \<or> hexval (hd s3) = None then None
         else (let (v, rest) = scan_hexdigits 0 s3
               in Some (if neg then - of_nat v else of_nat v, rest)))"

text \<open>\<open>%2x\<close>: the width counts from the first byte that is no white space.\<close>

definition scan_2x :: "byte list \<Rightarrow> (u32 \<times> byte list) option" where
  "scan_2x s0 =
     (let s1 = dropWhile is_space s0
      in case scan_x (take 2 s1) of None \<Rightarrow> None | Some (v, rest) \<Rightarrow> Some (v, rest @ drop 2 s1))"

text \<open>\<open>atoi\<close>; a value that is no \<open>int\<close> is undefined in C.\<close>

definition atoi :: "byte list \<Rightarrow> int" where
  "atoi s =
     (let s1 = dropWhile is_space s;
          neg = (s1 \<noteq> [] \<and> hd s1 = 45);
          s2 = (if s1 \<noteq> [] \<and> (hd s1 = 43 \<or> hd s1 = 45) then tl s1 else s1);
          v = foldl (\<lambda>a d. 10 * a + (uint d - 48)) 0 (takeWhile (\<lambda>b. 48 \<le> b \<and> b \<le> 57) s2)
      in if neg then - v else v)"

subsection \<open>Facts\<close>

definition hex_digits :: "byte list" where
  "hex_digits = [48, 49, 50, 51, 52, 53, 54, 55, 56, 57, 97, 98, 99, 100, 101, 102]"

lemma hexd_digits: "hexd n = hex_digits ! n"
  by (simp add: hexd_def ascii_def hex_digits_def)

lemma length_hex_digits [simp]: "length hex_digits = 16"
  by (simp add: hex_digits_def)

lemma hexval_digits: "map hexval hex_digits = map Some [0..<16]"
  by code_simp

lemma hexval_hexd [simp]:
  assumes "n < 16" shows "hexval (hexd n) = Some n"
proof -
  have "hexval (hexd n) = map hexval hex_digits ! n" using assms by (simp add: hexd_digits)
  also have "\<dots> = Some n" using assms by (simp add: hexval_digits)
  finally show ?thesis .
qed

lemma hexd_mem: "n < 16 \<Longrightarrow> hexd n \<in> set hex_digits"
  by (simp add: hexd_digits)

lemma hex_digits_plain: "b \<in> set hex_digits \<Longrightarrow> \<not> is_space b \<and> b \<noteq> 43 \<and> b \<noteq> 45 \<and> b \<noteq> 120
    \<and> b \<noteq> 88 \<and> b \<noteq> 0 \<and> b \<noteq> colon \<and> b \<noteq> nl \<and> b \<noteq> space \<and> b \<noteq> cr"
  by (auto simp: hex_digits_def is_space_def)

lemmas hexd_not = hex_digits_plain [OF hexd_mem]

lemma nibbles_lt16: "unat (b :: byte) div 16 < 16" "unat (b :: byte) mod 16 < 16"
  using unat_byte [of b] by auto

lemma scan_x_fmt_02x:
  assumes "rest = [] \<or> hexval (hd rest) = None"
  shows "scan_x (fmt_02x b @ rest) = Some (ucast b, rest)"
proof -
  let ?h = "unat b div 16" and ?l = "unat b mod 16"
  note hl = nibbles_lt16 [of b]
  have stop: "scan_hexdigits n rest = (n, rest)" for n
    using assms by (cases rest) auto
  have skip: "skip_0x (hexd ?h # hexd ?l # rest) = hexd ?h # hexd ?l # rest"
    using hexd_not [OF hl(2)] by (auto simp: skip_0x_def split: list.splits)
  have "scan_x (fmt_02x b @ rest) = Some (of_nat (16 * ?h + ?l), rest)"
    using hexd_not [OF hl(1)] hl
    by (simp add: scan_x_def fmt_02x_def skip stop Let_def)
  also have "16 * ?h + ?l = unat b" by simp
  finally show ?thesis by simp
qed

lemma scan_2x_fmt_02x: "scan_2x (fmt_02x b @ rest) = Some (ucast b, rest)"
proof -
  have "dropWhile is_space (fmt_02x b @ rest) = fmt_02x b @ rest" "length (fmt_02x b) = 2"
    using hexd_not [OF nibbles_lt16(1)] by (simp_all add: fmt_02x_def)
  then show ?thesis using scan_x_fmt_02x [of "[]" b] by (simp add: scan_2x_def)
qed

lemma length_fmt_02x [simp]: "length (fmt_02x b) = 2"
  by (simp add: fmt_02x_def)

lemma fmt_02x_no_nul: "0 \<notin> set (fmt_02x b)" "nl \<notin> set (fmt_02x b)" "colon \<notin> set (fmt_02x b)"
  "space \<notin> set (fmt_02x b)" "cr \<notin> set (fmt_02x b)"
  using hexd_not [OF nibbles_lt16(1) [of b]] hexd_not [OF nibbles_lt16(2) [of b]]
  by (auto simp: fmt_02x_def)

lemma cstr_id: "0 \<notin> set s \<Longrightarrow> cstr s = s"
  by (auto simp: cstr_def takeWhile_eq_all_conv)

lemma length_cstr: "length (cstr s) \<le> length s"
  by (simp add: cstr_def length_takeWhile_le)

lemma set_dec_nat: "set (dec_nat n) \<subseteq> {48, 49, 50, 51, 52, 53, 54, 55, 56, 57}"
proof (induction n rule: dec_nat.induct)
  case (1 n)
  have d: "(of_nat (48 + m) :: byte) \<in> {48, 49, 50, 51, 52, 53, 54, 55, 56, 57}" if "m < 10" for m :: nat
  proof -
    from that have "m \<in> {0, 1, 2, 3, 4, 5, 6, 7, 8, 9}" by auto
    then show ?thesis by auto
  qed
  show ?case
  proof (cases "n < 10")
    case True
    then show ?thesis using d [of n] by (subst dec_nat.simps) simp
  next
    case False
    then show ?thesis using "1.IH" d [of "n mod 10"] by (subst dec_nat.simps) simp
  qed
qed

lemma dec_nat_nonempty [simp]: "dec_nat n \<noteq> []"
  by (subst dec_nat.simps) simp

end
