(* ===== verification/Wire.thy ===== *)
theory Wire
  imports Text
begin

text \<open>
  The little-endian fields of 9P messages (\<open>np16\<close>, \<open>np32\<close>, \<open>ng16\<close>, \<open>ng32\<close> of
  \<open>aether_net.c\<close>; the forwarder and the relay have their own copies with the same bodies) and
  the T-messages the in-process mesh client builds. A message is written here without its first
  four bytes: \<open>m9_rpc\<close> stamps the size there, which is \<open>m9_frame\<close>.
\<close>

subsection \<open>Fields\<close>

definition np16 :: "u16 \<Rightarrow> byte list" where
  "np16 v = [ucast v, ucast (drop_bit 8 v)]"

definition np32 :: "u32 \<Rightarrow> byte list" where
  "np32 v = [ucast v, ucast (drop_bit 8 v), ucast (drop_bit 16 v), ucast (drop_bit 24 v)]"

definition ng16 :: "byte list \<Rightarrow> u16" where
  "ng16 b = ucast (b ! 0) OR push_bit 8 (ucast (b ! 1))"

definition ng32 :: "byte list \<Rightarrow> u32" where
  "ng32 b = ucast (b ! 0) OR push_bit 8 (ucast (b ! 1)) OR push_bit 16 (ucast (b ! 2))
            OR push_bit 24 (ucast (b ! 3))"

text \<open>
  What a field's reader and writer owe each other: the reader returns the value from the front
  of any buffer the writer's bytes begin, and the width is fixed.
\<close>

locale field_codec =
  fixes put :: "'v \<Rightarrow> byte list" and get :: "byte list \<Rightarrow> 'v" and width :: nat
  assumes get_put: "get (put v @ rest) = v"
    and put_width: "length (put v) = width"
begin

lemma get_at: "get (drop (length pre) (pre @ put v @ rest)) = v"
  by (simp add: get_put)

lemma get_exact: "get (put v) = v"
  using get_put [of v "[]"] by simp

lemma put_inject: "put v @ r = put w @ s \<longleftrightarrow> v = w \<and> r = s"
proof
  assume eq: "put v @ r = put w @ s"
  then have "get (put v @ r) = get (put w @ s)" by simp
  then have "v = w" by (simp add: get_put)
  then show "v = w \<and> r = s" using eq by simp
qed simp

end

lemma length_np16 [simp]: "length (np16 v) = 2"
  by (simp add: np16_def)

lemma length_np32 [simp]: "length (np32 v) = 4"
  by (simp add: np32_def)

lemma ng16_np16 [simp]: "ng16 (np16 v @ xs) = v"
proof (rule bit_word_eqI)
  fix n assume "n < LENGTH(16)"
  then show "bit (ng16 (np16 v @ xs)) n = bit v n"
    by (cases "n < 8") (auto simp: ng16_def np16_def bit_simps)
qed

lemma ng32_np32 [simp]: "ng32 (np32 v @ xs) = v"
proof (rule bit_word_eqI)
  fix n assume n: "n < LENGTH(32)"
  consider "n < 8" | "8 \<le> n" "n < 16" | "16 \<le> n" "n < 24" | "24 \<le> n" by linarith
  then show "bit (ng32 (np32 v @ xs)) n = bit v n"
    using n by cases (auto simp: ng32_def np32_def bit_simps)
qed

interpretation p16: field_codec np16 ng16 2
  by unfold_locales simp_all

interpretation p32: field_codec np32 ng32 4
  by unfold_locales simp_all

subsection \<open>Messages\<close>

text \<open>\<open>np32(msg, len)\<close>, \<open>len\<close> counting the four bytes themselves.\<close>

definition m9_frame :: "byte list \<Rightarrow> byte list" where
  "m9_frame body = np32 (of_nat (4 + length body)) @ body"

definition m9_tversion :: "nat \<Rightarrow> byte list" where
  "m9_tversion max_msg = [100] @ np16 0xffff @ np32 (of_nat max_msg) @ np16 6 @ ascii ''9P2000''"

definition m9_tattach :: "u16 \<Rightarrow> byte list" where
  "m9_tattach tag =
     [104] @ np16 tag @ np32 0 @ np32 0xffffffff @ np16 1 @ ascii ''t'' @ np16 0"

definition m9_twalk_dev :: "u16 \<Rightarrow> byte list \<Rightarrow> byte list" where
  "m9_twalk_dev tag file =
     [110] @ np16 tag @ np32 0 @ np32 2 @ np16 2 @ np16 3 @ ascii ''dev''
     @ np16 (of_nat (length file)) @ file"

definition m9_topen :: "u16 \<Rightarrow> byte \<Rightarrow> byte list" where
  "m9_topen tag mode = [112] @ np16 tag @ np32 2 @ [mode]"

definition m9_tread0 :: "u16 \<Rightarrow> u32 \<Rightarrow> byte list" where
  "m9_tread0 tag want = [116] @ np16 tag @ np32 2 @ np32 0 @ np32 0 @ np32 want"

definition m9_twrite :: "u16 \<Rightarrow> u32 \<Rightarrow> u64 \<Rightarrow> byte list \<Rightarrow> byte list" where
  "m9_twrite tag fid off payload =
     [118] @ np16 tag @ np32 fid @ np32 (ucast off) @ np32 (ucast (drop_bit 32 off))
     @ np32 (of_nat (length payload)) @ payload"

definition m9_tclunk :: "u16 \<Rightarrow> u32 \<Rightarrow> byte list" where
  "m9_tclunk tag fid = [120] @ np16 tag @ np32 fid"

text \<open>The fields of a received message.\<close>

definition m9_type :: "byte list \<Rightarrow> byte" where
  "m9_type m = m ! 4"

definition m9_tag :: "byte list \<Rightarrow> u16" where
  "m9_tag m = ng16 (drop 5 m)"

subsection \<open>Facts\<close>

lemma length_m9_frame [simp]: "length (m9_frame b) = 4 + length b"
  by (simp add: m9_frame_def)

lemma ascii_length [simp]: "length (ascii s) = length s"
  by (simp add: ascii_def)

lemma m9_lengths [simp]:
  "length (m9_tversion m) = 15"
  "length (m9_tattach t) = 16"
  "length (m9_twalk_dev t f) = 20 + length f"
  "length (m9_topen t md) = 8"
  "length (m9_tread0 t w) = 19"
  "length (m9_twrite t fid off p) = 19 + length p"
  "length (m9_tclunk t fid) = 7"
  by (simp_all add: m9_tversion_def m9_tattach_def m9_twalk_dev_def m9_topen_def
      m9_tread0_def m9_twrite_def m9_tclunk_def)

lemma m9_frame_size:
  assumes "length b + 4 < 2 ^ 32"
  shows "unat (ng32 (m9_frame b)) = length (m9_frame b)"
proof -
  have "ng32 (m9_frame b) = of_nat (4 + length b)" by (simp add: m9_frame_def)
  then show ?thesis
    using assms by (simp only: unat_of_nat length_m9_frame) (simp add: take_bit_nat_eq_self)
qed

lemma m9_frame_drop4 [simp]: "drop 4 (m9_frame b) = b"
  by (simp add: m9_frame_def)

lemma m9_type_frame [simp]: "b \<noteq> [] \<Longrightarrow> m9_type (m9_frame b) = hd b"
  by (simp add: m9_type_def m9_frame_def nth_append hd_conv_nth)

lemma m9_tag_frame: "m9_tag (m9_frame (t # np16 g @ rest)) = g"
  by (simp add: m9_tag_def m9_frame_def)

lemma m9_tags [simp]:
  "m9_tag (m9_frame (m9_tversion m)) = 0xffff"
  "m9_tag (m9_frame (m9_tattach t)) = t"
  "m9_tag (m9_frame (m9_twalk_dev t f)) = t"
  "m9_tag (m9_frame (m9_topen t md)) = t"
  "m9_tag (m9_frame (m9_tread0 t w)) = t"
  "m9_tag (m9_frame (m9_twrite t fid off p)) = t"
  "m9_tag (m9_frame (m9_tclunk t fid)) = t"
  by (simp_all add: m9_tversion_def m9_tattach_def m9_twalk_dev_def m9_topen_def
      m9_tread0_def m9_twrite_def m9_tclunk_def m9_tag_frame)

text \<open>The fields of a Twrite read back from the wire.\<close>

definition twrite_offset :: "byte list \<Rightarrow> u64" where
  "twrite_offset m = ucast (ng32 (drop 11 m)) OR push_bit 32 (ucast (ng32 (drop 15 m)))"

definition twrite_data :: "byte list \<Rightarrow> byte list" where
  "twrite_data m = take (unat (ng32 (drop 19 m))) (drop 23 m)"

lemma split64: "(ucast (ucast (w :: u64) :: u32) :: u64) OR push_bit 32 (ucast (ucast (drop_bit 32 w) :: u32)) = w"
  by (rule bit_word_eqI) (auto simp: bit_simps)

lemma twrite_offset_frame: "twrite_offset (m9_frame (m9_twrite t f off p)) = off"
  by (simp add: twrite_offset_def m9_frame_def m9_twrite_def split64)

lemma twrite_data_frame:
  "length p < 2 ^ 32 \<Longrightarrow> twrite_data (m9_frame (m9_twrite t f off p)) = p"
  by (simp add: twrite_data_def m9_frame_def m9_twrite_def unat_of_nat take_bit_nat_eq_self)

end
