(* ===== verification/Cga.thy ===== *)
theory Cga
  imports Text
begin

text \<open>
  \<open>cga.c\<close>: the node's identity. A P-256 seed is loaded from settings, or drawn and saved; the
  address is the first six bytes of the hash of the public key, with the locally-administered
  bit set and the multicast bit cleared. The crypto library, the random source and the settings
  store are not part of the repository: they are the fields of \<open>cga_env\<close>. The store is seen
  through the list of the saves made so far (\<open>cg_saves\<close>, what survives a reboot), the random
  source through the number of draws.
\<close>

record cga_env =
  cx_psa_init :: bool
  cx_settings_init :: "errno option"
  cx_name_steq :: "byte list \<Rightarrow> byte list \<Rightarrow> byte list option option"
    \<comment> \<open>\<open>settings_name_steq\<close>: \<open>None\<close> no match, \<open>Some next\<close> a match with the rest after a slash\<close>
  cx_load :: "(byte list \<times> byte list) list \<Rightarrow> (byte list \<times> nat \<times> byte list res) list"
    \<comment> \<open>the handler calls of \<open>settings_load_subtree\<close>: name, length, what \<open>read_cb\<close> delivers\<close>
  cx_save :: "(byte list \<times> byte list) list \<Rightarrow> byte list \<Rightarrow> byte list \<Rightarrow> errno option"
  cx_random :: "nat \<Rightarrow> byte list option"
  cx_pubkey :: "byte list \<Rightarrow> byte list option"
  cx_sha256 :: "byte list \<Rightarrow> byte list"
  cx_ecdsa_sign :: "byte list \<Rightarrow> byte list \<Rightarrow> byte list \<Rightarrow> byte list option"
    \<comment> \<open>message, seed, per-signature nonce\<close>

record cga =
  cg_seed :: "byte list"
  cg_have_seed :: bool
  cg_pub :: "byte list"
  cg_pub_ready :: bool
  cg_saves :: "(byte list \<times> byte list) list"
  cg_draws :: nat

definition cga_seed_len :: nat where "cga_seed_len = 32"

definition cga_boot :: "(byte list \<times> byte list) list \<Rightarrow> nat \<Rightarrow> cga" where
  "cga_boot saves draws = \<lparr>cg_seed = replicate cga_seed_len 0, cg_have_seed = False,
     cg_pub = replicate 64 0, cg_pub_ready = False, cg_saves = saves, cg_draws = draws\<rparr>"

text \<open>A reboot keeps only the settings store (and the random source moves on).\<close>

definition cga_reboot :: "cga \<Rightarrow> cga" where
  "cga_reboot g = cga_boot (cg_saves g) (cg_draws g)"

subsection \<open>Identity\<close>

definition cga_seed_set ::
    "cga_env \<Rightarrow> byte list \<Rightarrow> nat \<Rightarrow> byte list res \<Rightarrow> cga \<Rightarrow> errno option \<times> cga" where
  "cga_seed_set X name len rd g =
     (if cx_name_steq X name (ascii ''seed'') \<noteq> Some None then (Some ENOENT, g)
      else if len \<noteq> cga_seed_len then (Some EINVAL, g)
      else case rd of
        Inl e \<Rightarrow> (Some e, g)
      | Inr d \<Rightarrow>
          (let d' = take cga_seed_len d;
               g' = g\<lparr>cg_seed := d' @ drop (length d') (cg_seed g)\<rparr>
           in (None, if length d' = cga_seed_len then g'\<lparr>cg_have_seed := True\<rparr> else g')))"

fun cga_load :: "cga_env \<Rightarrow> (byte list \<times> nat \<times> byte list res) list \<Rightarrow> cga \<Rightarrow> cga" where
  "cga_load X [] g = g"
| "cga_load X ((name, len, rd) # cs) g = cga_load X cs (snd (cga_seed_set X name len rd g))"

fun cga_new_seed :: "cga_env \<Rightarrow> nat \<Rightarrow> cga \<Rightarrow> byte list res \<times> cga" where
  "cga_new_seed X 0 g = (Inl EIO, g)"
| "cga_new_seed X (Suc tries) g =
     (case cx_random X (cg_draws g) of
        None \<Rightarrow> (Inl EIO, g\<lparr>cg_draws := cg_draws g + 1\<rparr>)
      | Some seed \<Rightarrow>
          (let g' = g\<lparr>cg_seed := seed, cg_draws := cg_draws g + 1\<rparr>
           in case cx_pubkey X seed of
                Some pub \<Rightarrow> (Inr pub, g')
              | None \<Rightarrow> cga_new_seed X tries g'))"

definition cga_identity_pubkey :: "cga_env \<Rightarrow> cga \<Rightarrow> byte list res \<times> cga" where
  "cga_identity_pubkey X g =
     (case cx_settings_init X of
        Some e \<Rightarrow> (Inl e, g)
      | None \<Rightarrow>
          (let g1 = cga_load X (cx_load X (cg_saves g)) g
           in case (if cg_have_seed g1 then cx_pubkey X (cg_seed g1) else None) of
                Some pub \<Rightarrow> (Inr pub, g1)
              | None \<Rightarrow>
                  (case cga_new_seed X 8 g1 of
                     (Inl e, g2) \<Rightarrow> (Inl EIO, g2)
                   | (Inr pub, g2) \<Rightarrow>
                       (case cx_save X (cg_saves g2) (ascii ''cga/seed'') (cg_seed g2) of
                          Some e \<Rightarrow> (Inl e, g2)
                        | None \<Rightarrow> (Inr pub,
                            g2\<lparr>cg_saves := cg_saves g2 @ [(ascii ''cga/seed'', cg_seed g2)],
                               cg_have_seed := True\<rparr>)))))"

definition cga_addr :: "cga_env \<Rightarrow> byte list \<Rightarrow> addr6" where
  "cga_addr X pub =
     (case addr_at (cx_sha256 X pub) of
        Addr6 a b c d e f \<Rightarrow> Addr6 ((a OR 0x02) AND 0xFE) b c d e f)"

definition aether_node_identity_override :: "cga_env \<Rightarrow> cga \<Rightarrow> addr6 res \<times> cga" where
  "aether_node_identity_override X g =
     (if \<not> cx_psa_init X then (Inl EIO, g)
      else case cga_identity_pubkey X g of
        (Inl e, g1) \<Rightarrow> (Inl EIO, g1)
      | (Inr pub, g1) \<Rightarrow> (Inr (cga_addr X pub), g1\<lparr>cg_pub := pub, cg_pub_ready := True\<rparr>))"

subsection \<open>Ownership proof\<close>

definition cga_get_pubkey :: "cga \<Rightarrow> byte list res" where
  "cga_get_pubkey g = (if cg_pub_ready g then Inr (cg_pub g) else Inl EAGAIN)"

fun cga_sign_loop :: "cga_env \<Rightarrow> nat \<Rightarrow> byte list \<Rightarrow> cga \<Rightarrow> byte list res \<times> cga" where
  "cga_sign_loop X 0 msg g = (Inl EIO, g)"
| "cga_sign_loop X (Suc tries) msg g =
     (let g' = g\<lparr>cg_draws := cg_draws g + 1\<rparr>
      in case cx_random X (cg_draws g) of
           None \<Rightarrow> (Inl EIO, g')
         | Some ek \<Rightarrow>
             (case cx_ecdsa_sign X msg (cg_seed g) ek of
                Some sig \<Rightarrow> (Inr sig, g')
              | None \<Rightarrow> cga_sign_loop X tries msg g'))"

definition cga_sign :: "cga_env \<Rightarrow> byte list \<Rightarrow> cga \<Rightarrow> byte list res \<times> cga" where
  "cga_sign X msg g = (if \<not> cg_have_seed g then (Inl EAGAIN, g) else cga_sign_loop X 8 msg g)"

subsection \<open>What the identity rests on\<close>

text \<open>
  The documented behaviour of the crypto and settings libraries: keys and signatures have their
  sizes, a random draw has the requested size, a name matches itself with nothing left, and a
  successful save is what the next load delivers.
\<close>

definition cga_env_ok :: "cga_env \<Rightarrow> bool" where
  "cga_env_ok X \<longleftrightarrow>
     (\<forall>s p. cx_pubkey X s = Some p \<longrightarrow> length p = 64) \<and>
     (\<forall>m s k sig. cx_ecdsa_sign X m s k = Some sig \<longrightarrow> length sig = 64) \<and>
     (\<forall>m. length (cx_sha256 X m) = 32) \<and>
     (\<forall>n r. cx_random X n = Some r \<longrightarrow> length r = cga_seed_len) \<and>
     cx_name_steq X (ascii ''seed'') (ascii ''seed'') = Some None \<and>
     (\<forall>saves seed. length seed = cga_seed_len \<longrightarrow>
        cx_load X (saves @ [(ascii ''cga/seed'', seed)]) = [(ascii ''seed'', cga_seed_len, Inr seed)])"

text \<open>The identity is settled: the public key in use is the one of the saved seed.\<close>

definition cga_settled :: "cga_env \<Rightarrow> cga \<Rightarrow> bool" where
  "cga_settled X g \<longleftrightarrow> cg_pub_ready g \<and> cg_have_seed g \<and> length (cg_seed g) = cga_seed_len \<and>
     cx_pubkey X (cg_seed g) = Some (cg_pub g)"

lemma cga_new_seed_ok:
  assumes "cga_env_ok X" and "cga_new_seed X n g = (Inr pub, g')"
  shows "cx_pubkey X (cg_seed g') = Some pub \<and> length (cg_seed g') = cga_seed_len \<and>
    cg_saves g' = cg_saves g \<and> length pub = 64"
  using assms(2)
proof (induction n arbitrary: g)
  case 0
  then show ?case by simp
next
  case (Suc n)
  then show ?case
    using assms(1) by (fastforce simp: cga_env_ok_def Let_def split: option.splits)
qed

lemma cga_load_shape:
  assumes "length (cg_seed g) = cga_seed_len"
  shows "length (cg_seed (cga_load X cs g)) = cga_seed_len \<and> cg_saves (cga_load X cs g) = cg_saves g"
  using assms
proof (induction X cs g rule: cga_load.induct)
  case (2 X name len rd cs g)
  have "length (cg_seed (snd (cga_seed_set X name len rd g))) = cga_seed_len"
    "cg_saves (snd (cga_seed_set X name len rd g)) = cg_saves g"
    using "2.prems" by (auto simp: cga_seed_set_def Let_def split: sum.splits)
  then show ?case using "2.IH" by simp
qed simp

lemma cga_load_draws: "cga_load X cs (g\<lparr>cg_draws := n\<rparr>) = (cga_load X cs g)\<lparr>cg_draws := n\<rparr>"
proof (induction X cs g rule: cga_load.induct)
  case (2 X name len rd cs g)
  have "snd (cga_seed_set X name len rd (g\<lparr>cg_draws := n\<rparr>))
      = (snd (cga_seed_set X name len rd g))\<lparr>cg_draws := n\<rparr>"
    by (auto simp: cga_seed_set_def Let_def split: sum.splits)
  then show ?case using "2.IH" by simp
qed simp

lemma cga_load_saved:
  assumes "cga_env_ok X" and "length seed = cga_seed_len"
  shows "cga_load X (cx_load X (saves @ [(ascii ''cga/seed'', seed)])) (cga_boot saves' n)
    = (cga_boot saves' n)\<lparr>cg_seed := seed, cg_have_seed := True\<rparr>"
  using assms by (simp add: cga_env_ok_def cga_seed_set_def cga_boot_def Let_def)

text \<open>Both ways \<open>cga_identity_pubkey\<close> succeeds: the seed was in the store, or is now.\<close>

lemma cga_identity_pubkey_cases:
  assumes ok: "cga_env_ok X"
    and run: "cga_identity_pubkey X (cga_boot saves n) = (Inr pub, g)"
  obtains (loaded) "g = cga_load X (cx_load X saves) (cga_boot saves n)" "cg_have_seed g"
      "cx_pubkey X (cg_seed g) = Some pub"
  | (drawn) "cg_saves g = saves @ [(ascii ''cga/seed'', cg_seed g)]" "cg_have_seed g"
      "cx_pubkey X (cg_seed g) = Some pub" "length (cg_seed g) = cga_seed_len"
proof -
  let ?b = "cga_boot saves n"
  let ?g1 = "cga_load X (cx_load X saves) ?b"
  have boot: "cg_saves ?b = saves" "length (cg_seed ?b) = cga_seed_len"
    by (simp_all add: cga_boot_def)
  note shape = cga_load_shape [OF boot(2), of X "cx_load X saves"]
  have init: "cx_settings_init X = None"
    using run by (simp add: cga_identity_pubkey_def split: option.splits)
  show thesis
  proof (cases "if cg_have_seed ?g1 then cx_pubkey X (cg_seed ?g1) else None")
    case (Some p)
    then have "g = ?g1" "pub = p"
      using run init boot by (simp_all add: cga_identity_pubkey_def Let_def split: if_splits)
    then show thesis using Some loaded by (auto split: if_splits)
  next
    case None
    obtain r g2 where draw: "cga_new_seed X 8 ?g1 = (r, g2)" by fastforce
    show thesis
    proof (cases r)
      case (Inl e)
      then show thesis using run init boot None draw by (simp add: cga_identity_pubkey_def Let_def)
    next
      case (Inr p)
      then have g: "pub = p"
          "g = g2\<lparr>cg_saves := cg_saves g2 @ [(ascii ''cga/seed'', cg_seed g2)], cg_have_seed := True\<rparr>"
        using run init boot None draw
        by (auto simp: cga_identity_pubkey_def Let_def split: option.splits)
      have "cx_pubkey X (cg_seed g2) = Some p \<and> length (cg_seed g2) = cga_seed_len \<and> cg_saves g2 = saves"
        using cga_new_seed_ok [OF ok] draw Inr shape boot by fastforce
      then show thesis using g drawn by simp
    qed
  qed
qed

lemma override_okD:
  assumes "aether_node_identity_override X g = (Inr a, g')"
  obtains pub g1 where "cx_psa_init X" "cx_settings_init X = None"
    "cga_identity_pubkey X g = (Inr pub, g1)"
    "a = cga_addr X pub" "g' = g1\<lparr>cg_pub := pub, cg_pub_ready := True\<rparr>"
  using assms
  by (fastforce simp: aether_node_identity_override_def cga_identity_pubkey_def Let_def
      split: if_splits prod.splits sum.splits option.splits)

text \<open>
  C26. The address is stable: whatever is in the settings store at boot, if the node gets an
  identity, then after a reboot it gets the same address again, from the same public key, and
  saves no further seed.
\<close>

theorem cga_identity_stable:
  assumes ok: "cga_env_ok X"
    and run: "aether_node_identity_override X (cga_boot saves n) = (Inr a, g)"
  shows "\<exists>g'. aether_node_identity_override X (cga_reboot g) = (Inr a, g') \<and>
    cg_pub g' = cg_pub g \<and> cg_saves g' = cg_saves g \<and> cga_settled X g \<and> cga_settled X g'"
proof -
  from run obtain pub g1 where psa: "cx_psa_init X" and init: "cx_settings_init X = None"
    and id: "cga_identity_pubkey X (cga_boot saves n) = (Inr pub, g1)"
    and a: "a = cga_addr X pub" and g: "g = g1\<lparr>cg_pub := pub, cg_pub_ready := True\<rparr>"
    by (rule override_okD)
  let ?l = "cga_load X (cx_load X (cg_saves g1)) (cga_boot (cg_saves g1) (cg_draws g1))"
  have bootlen: "length (cg_seed (cga_boot s m)) = cga_seed_len" for s m
    by (simp add: cga_boot_def)
  have "cg_have_seed ?l \<and> cg_seed ?l = cg_seed g1 \<and> cg_saves ?l = cg_saves g1
      \<and> cg_have_seed g1 \<and> cx_pubkey X (cg_seed g1) = Some pub \<and> length (cg_seed g1) = cga_seed_len"
    using ok id
  proof (cases rule: cga_identity_pubkey_cases)
    case loaded
    have sv: "cg_saves g1 = saves" "length (cg_seed g1) = cga_seed_len"
      using loaded(1) cga_load_shape [OF bootlen, of X "cx_load X saves" saves n]
      by (simp_all add: cga_boot_def)
    have "cga_boot saves m = (cga_boot saves n)\<lparr>cg_draws := m\<rparr>" for m
      by (simp add: cga_boot_def)
    then have "?l = g1\<lparr>cg_draws := cg_draws g1\<rparr>"
      unfolding sv(1) by (metis cga_load_draws loaded(1))
    then show ?thesis using loaded sv by simp
  next
    case drawn
    have "?l = (cga_boot (cg_saves g1) (cg_draws g1))\<lparr>cg_seed := cg_seed g1, cg_have_seed := True\<rparr>"
      using cga_load_saved [OF ok drawn(4)] drawn(1) by metis
    then show ?thesis using drawn by (simp add: cga_boot_def)
  qed
  then show ?thesis
    using psa init a g
    by (simp add: aether_node_identity_override_def cga_identity_pubkey_def cga_reboot_def
        cga_settled_def Let_def) (simp add: cga_boot_def)
qed

text \<open>
  The address is a locally administered unicast address: bit 1 of its first byte is set and
  bit 0 clear, whatever the key; it is never the broadcast address and never the null address.
\<close>

theorem cga_addr_unicast:
  "\<exists>h b c d e f. cga_addr X pub = Addr6 h b c d e f \<and> bit h 1 \<and> \<not> bit h 0 \<and>
     drop_bit 2 h = drop_bit 2 (hd (addr_bytes (addr_at (cx_sha256 X pub)))) \<and>
     cga_addr X pub \<noteq> addr_bcast \<and> cga_addr X pub \<noteq> addr_zero"
proof -
  obtain h b c d e f where s: "addr_at (cx_sha256 X pub) = Addr6 h b c d e f"
    by (metis addr6.exhaust)
  let ?h = "(h OR 0x02) AND 0xFE"
  have one: "bit ?h 1" and zero: "\<not> bit ?h 0" by (simp_all add: bit_simps)
  have "drop_bit 2 ?h = drop_bit 2 h"
  proof (rule bit_word_eqI)
    fix n assume "n < LENGTH(8)"
    then have "n \<in> {0, 1, 2, 3, 4, 5, 6, 7}" by auto
    moreover have "\<not> bit h m" if "8 \<le> m" for m using that by (auto dest: bit_imp_le_length)
    ultimately show "bit (drop_bit 2 ?h) n = bit (drop_bit 2 h) n"
      by (elim insertE) (simp_all add: bit_simps)
  qed
  moreover have "?h \<noteq> 0xff"
  proof
    assume "?h = 0xff"
    with zero have "\<not> bit (0xff :: byte) 0" by metis
    then show False by simp
  qed
  moreover have "?h \<noteq> 0"
  proof
    assume "?h = 0"
    with one have "bit (0 :: byte) 1" by metis
    then show False by simp
  qed
  ultimately show ?thesis
    using one zero by (simp add: cga_addr_def s addr_bcast_def addr_zero_def)
qed

end
