(* ===== verification/Net.thy ===== *)
theory Net
  imports Wire Cga
begin

text \<open>
  \<open>aether_net.c\<close>: the conversation layer served at \<open>/net/aether\<close>. Data and operations in the
  order of the source. A node of the tree is named by an element of \<open>nid\<close>, because every
  \<open>struct ninep_fs_node\<close> is a static member of \<open>g_fs\<close> or of one of its four conversations;
  the intrusive sibling list of a directory is the list of its children, newest first.

  What the sources call and do not contain is a field of \<open>env\<close>: the mesh (sends, address
  binding, registration), the kernel's message queue, the PHY statistics, \<open>ninep_write_stat\<close>
  and the configuration. A mesh call may depend on everything called before: \<open>n_trace\<close> records
  the calls, and is also what the properties on traffic speak of.
\<close>

subsection \<open>Data\<close>

datatype dgram = Dgram (dg_src: addr6) (dg_data: "byte list")

definition dgram_eof :: dgram where
  "dgram_eof = Dgram addr_zero []"

datatype frame = Frame (fr_src: addr6) (fr_payload: "byte list") (fr_bcast: bool)

datatype mesh_call =
    CSend addr6 "byte list"
  | CReliable addr6 "byte list" nat
  | CResolve addr6
  | CReverse addr6
  | CWait nat
  | CBackoff

datatype conv_state = CONV_UNCONNECTED | CONV_CONNECTED | CONV_ANNOUNCED | CONV_BCAST

datatype anode_kind =
    K_ROOT | K_CLONE | K_TOPSTATUS | K_ADDR | K_STATS | K_MAXMSG
  | K_CONVDIR | K_CTL | K_DATA | K_LOCAL | K_REMOTE | K_CSTATUS | K_PROVE

datatype nid =
    NRoot | NClone | NTopstatus | NAddr | NStats | NMaxmsg | NProve
  | NDir nat | NCtl nat | NData nat | NLocal nat | NRemote nat | NStatus nat

record node =
  nd_name :: "byte list"
  nd_isdir :: bool
  nd_mode :: u32
  nd_qpath :: u32
  nd_qtype :: byte
  nd_length :: nat
  nd_kind :: anode_kind
  nd_conv :: "nat option"
  nd_parent :: "nid option"
  nd_children :: "nid list"

record 'q conv =
  cv_in_use :: bool
  cv_slot :: nat
  cv_state :: conv_state
  cv_peer :: addr6
  cv_rxq :: 'q

record 'q net =
  n_myaddr :: addr6
  n_next_qid :: u32
  n_nodes :: "nid \<Rightarrow> node"
  n_prove_out :: "byte list"
  n_tx :: u32
  n_tx_bytes :: u32
  n_tx_err :: u32
  n_rx :: u32
  n_rx_bytes :: u32
  n_rx_drop :: u32
  n_convs :: "'q conv list"
  n_cga :: cga
  n_drain_sr :: int
  n_drain_gr :: int
  n_trace :: "mesh_call list"

record 'q env =
  e_max_msg :: nat
  e_name_cap :: nat
  e_dmdir :: u32
  e_qtdir :: byte
  e_qtfile :: byte
  e_errno :: "errno \<Rightarrow> nat"
  e_mq_init :: "nat \<Rightarrow> 'q"
  e_mq_put :: "'q \<Rightarrow> dgram \<Rightarrow> 'q option"
  e_mq_get :: "'q \<Rightarrow> (dgram \<times> 'q) option"
  e_mq_purge :: "'q \<Rightarrow> 'q"
  e_eui_to_addr :: "mesh_call list \<Rightarrow> addr6 \<Rightarrow> addr6 option"
  e_eui_err :: int \<comment> \<open>what \<open>aether_mesh_eui_to_addr\<close> returns when it knows no route\<close>
  e_addr_to_eui :: "mesh_call list \<Rightarrow> addr6 \<Rightarrow> addr6 option"
  e_send :: "mesh_call list \<Rightarrow> addr6 \<Rightarrow> byte list \<Rightarrow> nat res"
  e_send_reliable :: "mesh_call list \<Rightarrow> addr6 \<Rightarrow> byte list \<Rightarrow> nat res"
  e_arrivals :: "mesh_call list \<Rightarrow> frame list"
  e_node_eui :: "mesh_call list \<Rightarrow> addr6 option"
  e_phy :: "mesh_call list \<Rightarrow> (int \<times> int) option"
  e_write_stat :: "nat \<Rightarrow> node \<Rightarrow> byte list res"
  e_register :: "nat res"
  e_cga :: cga_env

abbreviation (input) AETHER_MAX_CONNS :: nat where "AETHER_MAX_CONNS \<equiv> 4"
abbreviation (input) AETHER_RXQ_DEPTH :: nat where "AETHER_RXQ_DEPTH \<equiv> 16"
abbreviation (input) AETHER_NET_RETRIES :: nat where "AETHER_NET_RETRIES \<equiv> 5"
abbreviation (input) NET_BCAST_BUSY_RETRIES :: nat where "NET_BCAST_BUSY_RETRIES \<equiv> 6"

abbreviation conv_of :: "'q net \<Rightarrow> nat \<Rightarrow> 'q conv" where
  "conv_of N i \<equiv> n_convs N ! i"

definition upd_conv :: "nat \<Rightarrow> ('q conv \<Rightarrow> 'q conv) \<Rightarrow> 'q net \<Rightarrow> 'q net" where
  "upd_conv i f N = N\<lparr>n_convs := (n_convs N)[i := f (n_convs N ! i)]\<rparr>"

definition upd_node :: "nid \<Rightarrow> (node \<Rightarrow> node) \<Rightarrow> 'q net \<Rightarrow> 'q net" where
  "upd_node n f N = N\<lparr>n_nodes := (n_nodes N)(n := f (n_nodes N n))\<rparr>"

definition log_call :: "mesh_call \<Rightarrow> 'q net \<Rightarrow> 'q net" where
  "log_call c N = N\<lparr>n_trace := n_trace N @ [c]\<rparr>"

text \<open>The external calls: answer, and the call recorded.\<close>

definition eui_to_addr :: "'q env \<Rightarrow> addr6 \<Rightarrow> 'q net \<Rightarrow> addr6 option \<times> 'q net" where
  "eui_to_addr E a N = (e_eui_to_addr E (n_trace N) a, log_call (CResolve a) N)"

definition addr_to_eui :: "'q env \<Rightarrow> addr6 \<Rightarrow> 'q net \<Rightarrow> addr6 option \<times> 'q net" where
  "addr_to_eui E a N = (e_addr_to_eui E (n_trace N) a, log_call (CReverse a) N)"

definition mesh_send :: "'q env \<Rightarrow> addr6 \<Rightarrow> byte list \<Rightarrow> 'q net \<Rightarrow> nat res \<times> 'q net" where
  "mesh_send E a m N = (e_send E (n_trace N) a m, log_call (CSend a m) N)"

definition mesh_send_reliable :: "'q env \<Rightarrow> addr6 \<Rightarrow> byte list \<Rightarrow> 'q net \<Rightarrow> nat res \<times> 'q net" where
  "mesh_send_reliable E a m N =
     (e_send_reliable E (n_trace N) a m, log_call (CReliable a m AETHER_NET_RETRIES) N)"

subsection \<open>Addresses\<close>

definition fmt_addr :: "addr6 \<Rightarrow> byte list" where
  "fmt_addr a = (case a of Addr6 a0 a1 a2 a3 a4 a5 \<Rightarrow>
     fmt_02x a0 @ [colon] @ fmt_02x a1 @ [colon] @ fmt_02x a2 @ [colon]
     @ fmt_02x a3 @ [colon] @ fmt_02x a4 @ [colon] @ fmt_02x a5)"

definition my_identity :: "'q env \<Rightarrow> 'q net \<Rightarrow> addr6" where
  "my_identity E N = (case e_node_eui E (n_trace N) of Some a \<Rightarrow> a | None \<Rightarrow> n_myaddr N)"

text \<open>\<open>sscanf(s, "%x:%x:\<dots>")\<close> with \<open>n\<close> conversions: the values converted.\<close>

fun scan_colon_x :: "nat \<Rightarrow> byte list \<Rightarrow> u32 list" where
  "scan_colon_x 0 s = []"
| "scan_colon_x (Suc n) s =
     (case scan_x s of
        None \<Rightarrow> []
      | Some (v, rest) \<Rightarrow>
          v # (case rest of c # rest' \<Rightarrow> if c = colon then scan_colon_x n rest' else [] | [] \<Rightarrow> []))"

definition parse_addr :: "byte list \<Rightarrow> addr6 res" where
  "parse_addr s =
     (let b = scan_colon_x 6 s
      in if length b \<noteq> 6 then Inl EINVAL
         else if list_ex (\<lambda>v. 0xff < v) b then Inl EINVAL
         else Inr (addr_at (map ucast b)))"

subsection \<open>The node tree\<close>

definition node_zero :: node where
  "node_zero = \<lparr>nd_name = [], nd_isdir = False, nd_mode = 0, nd_qpath = 0, nd_qtype = 0,
     nd_length = 0, nd_kind = K_ROOT, nd_conv = None, nd_parent = None, nd_children = []\<rparr>"

definition node_init ::
    "'q env \<Rightarrow> nid \<Rightarrow> byte list \<Rightarrow> bool \<Rightarrow> anode_kind \<Rightarrow> nat option \<Rightarrow> 'q net \<Rightarrow> 'q net" where
  "node_init E n name isdir kind c N =
     upd_node n (\<lambda>_. node_zero\<lparr>nd_name := take (e_name_cap E - 1) name, nd_isdir := isdir,
         nd_mode := (if isdir then 493 OR e_dmdir E else 438), nd_qpath := n_next_qid N,
         nd_qtype := (if isdir then e_qtdir E else e_qtfile E), nd_kind := kind, nd_conv := c\<rparr>)
       (N\<lparr>n_next_qid := n_next_qid N + 1\<rparr>)"

definition link_child :: "nid \<Rightarrow> nid \<Rightarrow> 'q net \<Rightarrow> 'q net" where
  "link_child parent child N =
     upd_node parent (\<lambda>p. p\<lparr>nd_children := child # nd_children p\<rparr>)
       (upd_node child (\<lambda>c. c\<lparr>nd_parent := Some parent\<rparr>) N)"

definition unlink_child :: "nid \<Rightarrow> nid \<Rightarrow> 'q net \<Rightarrow> 'q net" where
  "unlink_child parent child N =
     upd_node parent (\<lambda>p. p\<lparr>nd_children := remove1 child (nd_children p)\<rparr>) N"

definition conv_build_nodes :: "'q env \<Rightarrow> nat \<Rightarrow> 'q net \<Rightarrow> 'q net" where
  "conv_build_nodes E i N =
     (let nm = snprintf_out 8 (dec_nat (cv_slot (conv_of N i)));
          N1 = node_init E (NDir i) nm True K_CONVDIR (Some i) N;
          N2 = node_init E (NCtl i) (ascii ''ctl'') False K_CTL (Some i) N1;
          N3 = node_init E (NData i) (ascii ''data'') False K_DATA (Some i) N2;
          N4 = node_init E (NLocal i) (ascii ''local'') False K_LOCAL (Some i) N3;
          N5 = node_init E (NRemote i) (ascii ''remote'') False K_REMOTE (Some i) N4;
          N6 = node_init E (NStatus i) (ascii ''status'') False K_CSTATUS (Some i) N5;
          L1 = link_child (NDir i) (NCtl i) N6;
          L2 = link_child (NDir i) (NData i) L1;
          L3 = link_child (NDir i) (NLocal i) L2;
          L4 = link_child (NDir i) (NRemote i) L3;
          L5 = link_child (NDir i) (NStatus i) L4
      in link_child NRoot (NDir i) L5)"

subsection \<open>Conversations\<close>

definition conv_take_slot :: "'q env \<Rightarrow> nat \<Rightarrow> 'q net \<Rightarrow> 'q net" where
  "conv_take_slot E i N =
     conv_build_nodes E i
       (upd_conv i (\<lambda>c. c\<lparr>cv_peer := addr_zero, cv_in_use := True, cv_slot := i,
            cv_state := CONV_UNCONNECTED, cv_rxq := e_mq_init E AETHER_RXQ_DEPTH\<rparr>) N)"

fun conv_alloc_from :: "'q env \<Rightarrow> nat list \<Rightarrow> 'q net \<Rightarrow> nat option \<times> 'q net" where
  "conv_alloc_from E [] N = (None, N)"
| "conv_alloc_from E (i # is) N =
     (if \<not> cv_in_use (conv_of N i) then (Some i, conv_take_slot E i N)
      else conv_alloc_from E is N)"

definition conv_alloc :: "'q env \<Rightarrow> 'q net \<Rightarrow> nat option \<times> 'q net" where
  "conv_alloc E N = conv_alloc_from E [0..<AETHER_MAX_CONNS] N"

text \<open>\<open>(void)k_msgq_put(q, d, K_NO_WAIT)\<close>: a full queue is left as it is.\<close>

definition mq_put_or_drop :: "'q env \<Rightarrow> dgram \<Rightarrow> 'q \<Rightarrow> 'q" where
  "mq_put_or_drop E d q = (case e_mq_put E q d of Some q' \<Rightarrow> q' | None \<Rightarrow> q)"

definition conv_free :: "'q env \<Rightarrow> nat \<Rightarrow> 'q net \<Rightarrow> 'q net" where
  "conv_free E i N =
     (if \<not> cv_in_use (conv_of N i) then N
      else upd_conv i (\<lambda>c. c\<lparr>cv_rxq := mq_put_or_drop E dgram_eof (e_mq_purge E (cv_rxq c)),
               cv_in_use := False, cv_state := CONV_UNCONNECTED\<rparr>)
             (unlink_child NRoot (NDir i) N))"

subsection \<open>Mesh receive\<close>

definition conv_takes ::
    "'q env \<Rightarrow> addr6 \<Rightarrow> addr6 \<Rightarrow> bool \<Rightarrow> 'q conv \<Rightarrow> 'q net \<Rightarrow> bool \<times> 'q net" where
  "conv_takes E src ident broadcast c N =
     (if broadcast then (cv_state c = CONV_BCAST, N)
      else case cv_state c of
        CONV_ANNOUNCED \<Rightarrow> (True, N)
      | CONV_CONNECTED \<Rightarrow>
          (let (route, N') = eui_to_addr E (cv_peer c) N
           in (route = Some src \<or> cv_peer c = ident \<or> cv_peer c = src, N'))
      | _ \<Rightarrow> (False, N))"

definition recv_conv ::
    "'q env \<Rightarrow> addr6 \<Rightarrow> addr6 \<Rightarrow> bool \<Rightarrow> byte list \<Rightarrow> nat \<Rightarrow> 'q net \<Rightarrow> 'q net" where
  "recv_conv E src ident broadcast payload i N =
     (if \<not> cv_in_use (conv_of N i) then N
      else (let (tk, N1) = conv_takes E src ident broadcast (conv_of N i) N
            in if \<not> tk then N1
               else case e_mq_put E (cv_rxq (conv_of N1 i)) (Dgram ident payload) of
                 None \<Rightarrow> N1\<lparr>n_rx_drop := n_rx_drop N1 + 1\<rparr>
               | Some q \<Rightarrow> upd_conv i (\<lambda>c. c\<lparr>cv_rxq := q\<rparr>) N1))"

definition recv_ident :: "'q env \<Rightarrow> frame \<Rightarrow> 'q net \<Rightarrow> addr6 \<times> 'q net" where
  "recv_ident E f N =
     (if fr_bcast f then (fr_src f, N)
      else case addr_to_eui E (fr_src f) N of
        (Some eui, N') \<Rightarrow> (eui, N')
      | (None, N') \<Rightarrow> (fr_src f, N'))"

definition aether_recv_cb :: "'q env \<Rightarrow> frame \<Rightarrow> 'q net \<Rightarrow> 'q net" where
  "aether_recv_cb E f N =
     (let payload = take (e_max_msg E) (fr_payload f);
          (ident, N1) = recv_ident E f N;
          N2 = N1\<lparr>n_rx := n_rx N1 + 1, n_rx_bytes := n_rx_bytes N1 + of_nat (length payload)\<rparr>
      in fold (recv_conv E (fr_src f) ident (fr_bcast f) payload) [0..<AETHER_MAX_CONNS] N2)"

end
