(* ===== verification/NetFs.thy ===== *)
theory NetFs
  imports Net
begin

text \<open>
  The file operations of \<open>aether_net.c\<close>: the ctl grammar, walk, directory reads, read, write,
  stat, clunk, and the start-up that builds the tree.
\<close>

subsection \<open>ctl\<close>

definition ctl_exec :: "'q env \<Rightarrow> nat \<Rightarrow> byte list \<Rightarrow> 'q net \<Rightarrow> unit res \<times> 'q net" where
  "ctl_exec E i cmd N =
     (if is_prefix (ascii ''connect '') cmd then
        (if cv_state (conv_of N i) \<noteq> CONV_UNCONNECTED then (Inl EINVAL, N)
         else case parse_addr (drop 8 cmd) of
           Inl e \<Rightarrow> (Inl EINVAL, N)
         | Inr a \<Rightarrow>
             (if a = addr_bcast
              then (Inr (), upd_conv i (\<lambda>c. c\<lparr>cv_state := CONV_BCAST\<rparr>) N)
              else (Inr (), upd_conv i (\<lambda>c. c\<lparr>cv_peer := a, cv_state := CONV_CONNECTED\<rparr>) N)))
      else if cmd = ascii ''announce'' then
        (if cv_state (conv_of N i) \<noteq> CONV_UNCONNECTED then (Inl EINVAL, N)
         else (Inr (), upd_conv i (\<lambda>c. c\<lparr>cv_state := CONV_ANNOUNCED\<rparr>) N))
      else if cmd = ascii ''hangup'' then
        (Inr (), upd_conv i (\<lambda>c. c\<lparr>cv_state := CONV_UNCONNECTED, cv_peer := addr_zero,
             cv_rxq := mq_put_or_drop E dgram_eof (e_mq_purge E (cv_rxq c))\<rparr>) N)
      else (Inl EINVAL, N))"

subsection \<open>Walk\<close>

fun find_child :: "(nid \<Rightarrow> node) \<Rightarrow> nid list \<Rightarrow> byte list \<Rightarrow> nid option" where
  "find_child nodes [] name = None"
| "find_child nodes (ch # rest) name =
     (if nd_name (nodes ch) = name then Some ch else find_child nodes rest name)"

definition anet_walk :: "'q env \<Rightarrow> nid option \<Rightarrow> byte list \<Rightarrow> 'q net \<Rightarrow> nid option \<times> 'q net" where
  "anet_walk E parent name N =
     (case parent of
        None \<Rightarrow> (None, N)
      | Some p \<Rightarrow>
          (if \<not> nd_isdir (n_nodes N p) then (None, N)
           else if nd_kind (n_nodes N p) = K_ROOT \<and> name = ascii ''clone'' then
             (case conv_alloc E N of
                (None, N') \<Rightarrow> (None, N')
              | (Some i, N') \<Rightarrow> (Some (NCtl i), N'))
           else (find_child (n_nodes N) (nd_children (n_nodes N p)) name, N)))"

subsection \<open>Read\<close>

text \<open>\<open>put_dirent\<close> writes one record into \<open>uint8_t tmp[128]\<close>.\<close>

definition put_dirent :: "'q env \<Rightarrow> node \<Rightarrow> byte list res" where
  "put_dirent E nd = e_write_stat E 128 nd"

fun read_dir_loop ::
    "'q env \<Rightarrow> nat \<Rightarrow> nat \<Rightarrow> node list \<Rightarrow> nat \<Rightarrow> byte list \<Rightarrow> byte list res" where
  "read_dir_loop E offset count [] pos out = Inr out"
| "read_dir_loop E offset count (ch # rest) pos out =
     (case put_dirent E ch of
        Inl e \<Rightarrow> Inl e
      | Inr rec \<Rightarrow>
          (if offset \<le> pos then
             (if count < length out + length rec then Inr out
              else read_dir_loop E offset count rest (pos + length rec) (out @ rec))
           else read_dir_loop E offset count rest (pos + length rec) out))"

definition read_dir :: "'q env \<Rightarrow> nid \<Rightarrow> nat \<Rightarrow> nat \<Rightarrow> 'q net \<Rightarrow> byte list res" where
  "read_dir E dir offset count N =
     read_dir_loop E offset count (map (n_nodes N) (nd_children (n_nodes N dir))) 0 []"

definition active_convs :: "'q net \<Rightarrow> nat" where
  "active_convs N = length (filter cv_in_use (n_convs N))"

text \<open>The text of the string files; \<open>None\<close> for the kinds that are not string files.\<close>

definition file_text :: "'q env \<Rightarrow> anode_kind \<Rightarrow> nat option \<Rightarrow> 'q net \<Rightarrow> byte list option" where
  "file_text E kind c N =
     (case kind of
        K_ADDR \<Rightarrow> Some (fmt_addr (my_identity E N) @ [nl])
      | K_TOPSTATUS \<Rightarrow>
          Some (dec_nat (active_convs N) @ ascii ''/'' @ dec_nat AETHER_MAX_CONNS @ [nl])
      | K_STATS \<Rightarrow>
          (let (rssi, snr) = (case e_phy E (n_trace N) of Some p \<Rightarrow> p | None \<Rightarrow> (0, 0))
           in Some (ascii ''rx '' @ dec_nat (unat (n_rx N)) @ ascii '' tx '' @ dec_nat (unat (n_tx N))
                @ ascii '' rssi '' @ dec_int rssi @ ascii '' snr '' @ dec_int snr @ [nl]))
      | K_MAXMSG \<Rightarrow> Some (dec_nat (e_max_msg E) @ [nl])
      | K_CLONE \<Rightarrow> Some (dec_nat (case c of Some i \<Rightarrow> cv_slot (conv_of N i) | None \<Rightarrow> 0) @ [nl])
      | K_CTL \<Rightarrow> Some (dec_nat (case c of Some i \<Rightarrow> cv_slot (conv_of N i) | None \<Rightarrow> 0) @ [nl])
      | K_LOCAL \<Rightarrow> Some (fmt_addr (my_identity E N) @ [nl])
      | K_REMOTE \<Rightarrow>
          (case c of
             Some i \<Rightarrow> if cv_state (conv_of N i) = CONV_CONNECTED
                       then Some (fmt_addr (cv_peer (conv_of N i)) @ [nl]) else Some []
           | None \<Rightarrow> Some [])
      | K_CSTATUS \<Rightarrow>
          (case map_option (\<lambda>i. cv_state (conv_of N i)) c of
             Some CONV_CONNECTED \<Rightarrow>
               Some (ascii ''connected aether!'' @ fmt_addr (cv_peer (conv_of N (the c)))
                     @ ascii '' reliable'' @ [nl])
           | Some CONV_ANNOUNCED \<Rightarrow> Some (ascii ''announced'' @ [nl])
           | Some CONV_BCAST \<Rightarrow> Some (ascii ''broadcast best-effort'' @ [nl])
           | _ \<Rightarrow> Some (ascii ''unconnected'' @ [nl]))
      | _ \<Rightarrow> None)"

text \<open>A read returns a result, or blocks on an empty queue (\<open>K_FOREVER\<close>).\<close>

datatype read_result = Blocks | Returns "byte list res"

definition read_data :: "'q env \<Rightarrow> nat option \<Rightarrow> nat \<Rightarrow> 'q net \<Rightarrow> read_result \<times> 'q net" where
  "read_data E c count N =
     (case c of
        None \<Rightarrow> (Returns (Inl EINVAL), N)
      | Some i \<Rightarrow>
          (case e_mq_get E (cv_rxq (conv_of N i)) of
             None \<Rightarrow> (Blocks, N)
           | Some (d, q) \<Rightarrow>
               (let N' = upd_conv i (\<lambda>cv. cv\<lparr>cv_rxq := q\<rparr>) N;
                    st = cv_state (conv_of N i);
                    src_prefixed = (st = CONV_ANNOUNCED \<or> st = CONV_BCAST);
                    need = length (dg_data d) + (if src_prefixed then 6 else 0)
                in if dg_data d = [] then (Returns (Inr []), N')
                   else if count < need then (Returns (Inl EMSGSIZE), N')
                   else (Returns (Inr ((if src_prefixed then addr_bytes (dg_src d) else [])
                           @ dg_data d)), N'))))"

definition anet_read ::
    "'q env \<Rightarrow> nid \<Rightarrow> nat \<Rightarrow> nat \<Rightarrow> 'q net \<Rightarrow> read_result \<times> 'q net" where
  "anet_read E n offset count N =
     (let nd = n_nodes N n in
      case nd_kind nd of
        K_ROOT \<Rightarrow> (Returns (read_dir E n offset count N), N)
      | K_CONVDIR \<Rightarrow> (Returns (read_dir E n offset count N), N)
      | K_PROVE \<Rightarrow> (Returns (Inr (segment offset count (n_prove_out N))), N)
      | K_DATA \<Rightarrow> read_data E (nd_conv nd) count N
      | kind \<Rightarrow>
          (case file_text E kind (nd_conv nd) N of
             Some s \<Rightarrow> (Returns (Inr (segment offset count s)), N)
           | None \<Rightarrow> (Returns (Inl EINVAL), N)))"

definition anet_read_will_block :: "nid \<Rightarrow> 'q net \<Rightarrow> bool" where
  "anet_read_will_block n N \<longleftrightarrow> nd_kind (n_nodes N n) = K_DATA"

subsection \<open>Write\<close>

text \<open>The command a ctl write carries: at most 63 bytes, trailing white space cut, up to a NUL.\<close>

definition ctl_command :: "byte list \<Rightarrow> byte list" where
  "ctl_command buf = cstr (strip_end (\<lambda>b. b = nl \<or> b = cr \<or> b = space) (take 63 buf))"

definition hex_bytes :: "byte list \<Rightarrow> byte list" where
  "hex_bytes xs = concat (map fmt_02x xs)"

definition write_prove :: "'q env \<Rightarrow> byte list \<Rightarrow> 'q net \<Rightarrow> nat res \<times> 'q net" where
  "write_prove E buf N =
     (let nonce = take 32 buf in
      case cga_get_pubkey (n_cga N) of
        Inl e \<Rightarrow> (Inl EIO, N\<lparr>n_prove_out := []\<rparr>)
      | Inr pub \<Rightarrow>
          (case cga_sign (e_cga E) nonce (n_cga N) of
             (Inl e, g) \<Rightarrow> (Inl EIO, N\<lparr>n_cga := g, n_prove_out := []\<rparr>)
           | (Inr sig, g) \<Rightarrow>
               (Inr (length buf), N\<lparr>n_cga := g,
                  n_prove_out := hex_bytes (take 64 pub) @ [space] @ hex_bytes (take 64 sig) @ [nl]\<rparr>)))"

fun bcast_loop :: "'q env \<Rightarrow> nat \<Rightarrow> bool \<Rightarrow> byte list \<Rightarrow> 'q net \<Rightarrow> nat res \<times> 'q net" where
  "bcast_loop E 0 first buf N = (Inl EBUSY, N)"
| "bcast_loop E (Suc tries) first buf N =
     (let N1 = (if first then N else log_call CBackoff N)
      in case mesh_send E addr_bcast buf N1 of
           (Inl EBUSY, N2) \<Rightarrow> bcast_loop E tries False buf N2
         | (r, N2) \<Rightarrow> (r, N2))"

definition count_tx :: "nat res \<Rightarrow> nat \<Rightarrow> nat \<Rightarrow> 'q net \<Rightarrow> nat res \<times> 'q net" where
  "count_tx r bytes count N =
     (case r of
        Inl e \<Rightarrow> (Inl e, N\<lparr>n_tx_err := n_tx_err N + 1\<rparr>)
      | Inr _ \<Rightarrow> (Inr count, N\<lparr>n_tx := n_tx N + 1, n_tx_bytes := n_tx_bytes N + of_nat bytes\<rparr>))"

definition resolve_dst :: "'q env \<Rightarrow> addr6 \<Rightarrow> 'q net \<Rightarrow> addr6 \<times> 'q net" where
  "resolve_dst E peer N =
     (case eui_to_addr E peer N of (Some route, N') \<Rightarrow> (route, N') | (None, N') \<Rightarrow> (peer, N'))"

definition send_unicast ::
    "'q env \<Rightarrow> addr6 \<Rightarrow> byte list \<Rightarrow> nat \<Rightarrow> 'q net \<Rightarrow> nat res \<times> 'q net" where
  "send_unicast E peer payload count N =
     (let (dst, N1) = resolve_dst E peer N
      in if e_max_msg E < length payload then (Inl EMSGSIZE, N1)
         else (let (r, N2) = mesh_send_reliable E dst payload N1
               in count_tx r (length payload) count N2))"

definition write_data :: "'q env \<Rightarrow> nat option \<Rightarrow> byte list \<Rightarrow> 'q net \<Rightarrow> nat res \<times> 'q net" where
  "write_data E c buf N =
     (case c of
        None \<Rightarrow> (Inl ENOTCONN, N)
      | Some i \<Rightarrow>
          (case cv_state (conv_of N i) of
             CONV_BCAST \<Rightarrow>
               (if e_max_msg E < length buf then (Inl EMSGSIZE, N)
                else (let (r, N') = bcast_loop E NET_BCAST_BUSY_RETRIES True buf N
                      in count_tx r (length buf) (length buf) N'))
           | CONV_CONNECTED \<Rightarrow> send_unicast E (cv_peer (conv_of N i)) buf (length buf) N
           | CONV_ANNOUNCED \<Rightarrow>
               (if length buf < 6 then (Inl EINVAL, N)
                else send_unicast E (addr_at buf) (drop 6 buf) (length buf) N)
           | CONV_UNCONNECTED \<Rightarrow> (Inl ENOTCONN, N)))"

definition anet_write :: "'q env \<Rightarrow> nid \<Rightarrow> byte list \<Rightarrow> 'q net \<Rightarrow> nat res \<times> 'q net" where
  "anet_write E n buf N =
     (let nd = n_nodes N n; kind = nd_kind nd
      in if kind = K_CTL \<or> kind = K_CLONE then
           (case nd_conv nd of
              None \<Rightarrow> (Inl EINVAL, N)
            | Some i \<Rightarrow>
                (case ctl_exec E i (ctl_command buf) N of
                   (Inl e, N') \<Rightarrow> (Inl e, N')
                 | (Inr _, N') \<Rightarrow> (Inr (length buf), N')))
         else if kind = K_PROVE then write_prove E buf N
         else if kind = K_DATA then write_data E (nd_conv nd) buf N
         else (Inl EROFS, N))"

subsection \<open>Stat and clunk\<close>

definition anet_stat :: "'q env \<Rightarrow> nid \<Rightarrow> nat \<Rightarrow> 'q net \<Rightarrow> byte list res" where
  "anet_stat E n buf_len N = e_write_stat E buf_len (n_nodes N n)"

definition anet_clunk :: "'q env \<Rightarrow> nid \<Rightarrow> 'q net \<Rightarrow> 'q net" where
  "anet_clunk E n N =
     (case nd_conv (n_nodes N n) of
        Some i \<Rightarrow> if nd_kind (n_nodes N n) = K_CTL then conv_free E i N else N
      | None \<Rightarrow> N)"

subsection \<open>Counters and start-up\<close>

definition aether_net_get_stats :: "'q net \<Rightarrow> u32 \<times> u32 \<times> u32" where
  "aether_net_get_stats N = (n_tx N, n_rx N, n_rx_drop N)"

text \<open>\<open>memset(&g_fs, 0, sizeof g_fs)\<close>: a zeroed \<open>k_msgq\<close> is a queue of depth 0.\<close>

definition conv_zero :: "'q env \<Rightarrow> 'q conv" where
  "conv_zero E = \<lparr>cv_in_use = False, cv_slot = 0, cv_state = CONV_UNCONNECTED,
     cv_peer = addr_zero, cv_rxq = e_mq_init E 0\<rparr>"

definition net_zero :: "'q env \<Rightarrow> cga \<Rightarrow> mesh_call list \<Rightarrow> 'q net" where
  "net_zero E g tr = \<lparr>n_myaddr = addr_zero, n_next_qid = 0, n_nodes = (\<lambda>_. node_zero),
     n_prove_out = [], n_tx = 0, n_tx_bytes = 0, n_tx_err = 0, n_rx = 0, n_rx_bytes = 0,
     n_rx_drop = 0, n_convs = replicate AETHER_MAX_CONNS (conv_zero E), n_cga = g,
     n_drain_sr = -99, n_drain_gr = -99, n_trace = tr\<rparr>"

definition aether_net_init :: "'q env \<Rightarrow> addr6 \<Rightarrow> cga \<Rightarrow> mesh_call list \<Rightarrow> nat res \<times> 'q net" where
  "aether_net_init E myaddr g tr =
     (let Z = (net_zero E g tr)\<lparr>n_next_qid := 1, n_myaddr := myaddr\<rparr>;
          N1 = node_init E NRoot (ascii ''/'') True K_ROOT None Z;
          N2 = node_init E NClone (ascii ''clone'') False K_CLONE None N1;
          N3 = node_init E NTopstatus (ascii ''status'') False K_TOPSTATUS None N2;
          N4 = node_init E NAddr (ascii ''addr'') False K_ADDR None N3;
          N5 = node_init E NStats (ascii ''stats'') False K_STATS None N4;
          N6 = node_init E NMaxmsg (ascii ''maxmsg'') False K_MAXMSG None N5;
          N7 = node_init E NProve (ascii ''prove'') False K_PROVE None N6;
          L1 = link_child NRoot NClone N7;
          L2 = link_child NRoot NTopstatus L1;
          L3 = link_child NRoot NAddr L2;
          L4 = link_child NRoot NStats L3;
          L5 = link_child NRoot NMaxmsg L4;
          L6 = link_child NRoot NProve L5
      in (e_register E, L6))"

end
