(* ===== verification/Fifo.thy ===== *)
theory Fifo
  imports Prelude
begin

text \<open>
  The contract of a bounded queue that never blocks its producer. Two queues of the program
  live under it: the request ring of \<open>aether_9p_mesh.c\<close>, for which the laws are proved from the
  code, and the kernel's message queue behind every conversation, whose documented behaviour
  they state (\<open>Net\<close> takes them as a hypothesis). The clients' lemmas are proved here once.
\<close>

text \<open>Offer the elements of a list in order; the ones refused are counted. Then empty the queue.\<close>

fun offer_all :: "('q \<Rightarrow> 'a \<Rightarrow> 'q option) \<Rightarrow> 'a list \<Rightarrow> 'q \<Rightarrow> 'q \<times> nat" where
  "offer_all put [] q = (q, 0)"
| "offer_all put (x # xs) q =
     (case put q x of
        Some q' \<Rightarrow> offer_all put xs q'
      | None \<Rightarrow> (let (q', n) = offer_all put xs q in (q', n + 1)))"

fun take_all :: "('q \<Rightarrow> ('a \<times> 'q) option) \<Rightarrow> nat \<Rightarrow> 'q \<Rightarrow> 'a list \<times> 'q" where
  "take_all get 0 q = ([], q)"
| "take_all get (Suc n) q =
     (case get q of
        None \<Rightarrow> ([], q)
      | Some (x, q') \<Rightarrow> (let (xs, q'') = take_all get n q' in (x # xs, q'')))"

locale bounded_fifo =
  fixes good :: "'q \<Rightarrow> bool"
    and put :: "'q \<Rightarrow> 'a \<Rightarrow> 'q option"
    and get :: "'q \<Rightarrow> ('a \<times> 'q) option"
    and contents :: "'q \<Rightarrow> 'a list"
    and capacity :: "'q \<Rightarrow> nat"
  assumes put_room: "good q \<Longrightarrow> length (contents q) < capacity q \<Longrightarrow>
      \<exists>q'. put q x = Some q' \<and> good q' \<and> contents q' = contents q @ [x] \<and> capacity q' = capacity q"
    and put_full: "good q \<Longrightarrow> capacity q \<le> length (contents q) \<Longrightarrow> put q x = None"
    and get_empty: "good q \<Longrightarrow> contents q = [] \<Longrightarrow> get q = None"
    and get_first: "good q \<Longrightarrow> contents q = x # xs \<Longrightarrow>
      \<exists>q'. get q = Some (x, q') \<and> good q' \<and> contents q' = xs \<and> capacity q' = capacity q"
begin

lemma put_SomeD:
  assumes "good q" and "put q x = Some q'"
  shows "good q' \<and> contents q' = contents q @ [x] \<and> capacity q' = capacity q
    \<and> length (contents q) < capacity q"
proof -
  have "length (contents q) < capacity q"
    using assms put_full [of q x] by (cases "capacity q \<le> length (contents q)") auto
  then show ?thesis using put_room [OF assms(1), of x] assms(2) by auto
qed

lemma put_None_iff: "good q \<Longrightarrow> put q x = None \<longleftrightarrow> capacity q \<le> length (contents q)"
  using put_full put_room [of q x] by (metis not_None_eq not_le)

lemma get_SomeD:
  assumes "good q" and "get q = Some (x, q')"
  shows "good q' \<and> contents q = x # contents q' \<and> capacity q' = capacity q"
proof (cases "contents q")
  case Nil
  then show ?thesis using get_empty assms by simp
next
  case (Cons y ys)
  then show ?thesis using get_first [OF assms(1) Cons] assms(2) by auto
qed

lemma get_None_iff: "good q \<Longrightarrow> get q = None \<longleftrightarrow> contents q = []"
  using get_empty get_first [of q] by (metis neq_Nil_conv not_None_eq)

lemma offer_all_contents:
  "good q \<Longrightarrow> length (contents q) \<le> capacity q \<Longrightarrow> offer_all put xs q = (q', n) \<Longrightarrow>
     good q' \<and> contents q' = contents q @ take (capacity q - length (contents q)) xs \<and>
     capacity q' = capacity q \<and> n = length xs - (capacity q - length (contents q))"
proof (induction xs arbitrary: q n)
  case Nil
  then show ?case by simp
next
  case (Cons x xs)
  show ?case
  proof (cases "put q x")
    case None
    then have full: "capacity q \<le> length (contents q)" using Cons.prems put_None_iff by blast
    obtain m where "offer_all put xs q = (q', m)" "n = m + 1"
      using Cons.prems None by (auto split: prod.splits)
    then show ?thesis using Cons.IH [of q m] Cons.prems full by auto
  next
    case (Some q1)
    note p = put_SomeD [OF Cons.prems(1) Some]
    then have "length (contents q1) \<le> capacity q1" by simp
    then have "good q' \<and> contents q' = contents q1 @ take (capacity q1 - length (contents q1)) xs \<and>
        capacity q' = capacity q1 \<and> n = length xs - (capacity q1 - length (contents q1))"
      using Cons.IH [of q1 n] Cons.prems p Some by simp
    moreover obtain m where "capacity q = Suc (length (contents q) + m)"
      using p less_iff_Suc_add by metis
    ultimately show ?thesis using p by simp
  qed
qed

lemma take_all_contents:
  "good q \<Longrightarrow> length (contents q) \<le> n \<Longrightarrow> \<exists>q'. take_all get n q = (contents q, q') \<and>
     good q' \<and> contents q' = []"
proof (induction n arbitrary: q)
  case 0
  then show ?case by simp
next
  case (Suc n)
  show ?case
  proof (cases "contents q")
    case Nil
    then show ?thesis using Suc.prems get_empty by simp
  next
    case (Cons x xs)
    then obtain q1 where g: "get q = Some (x, q1)" "good q1" "contents q1 = xs"
      using get_first [OF Suc.prems(1) Cons] by blast
    then obtain q' where "take_all get n q1 = (xs, q')" "good q'" "contents q' = []"
      using Suc.IH [of q1] Suc.prems(2) Cons by auto
    then show ?thesis using g Cons by simp
  qed
qed

text \<open>
  Service in order: what is taken out after a burst is what was queued, then the longest prefix
  of the burst there was room for; the rest is refused.
\<close>

lemma burst_in_order:
  assumes "good q" and "length (contents q) \<le> capacity q"
  shows "fst (take_all get (capacity q) (fst (offer_all put xs q)))
    = contents q @ take (capacity q - length (contents q)) xs"
proof -
  obtain q' n where o: "offer_all put xs q = (q', n)" by fastforce
  note c = offer_all_contents [OF assms o]
  then have "length (contents q') \<le> capacity q" using assms(2) by auto
  then show ?thesis using take_all_contents [of q' "capacity q"] c o by auto
qed

end

end
