(* ===== verification/NetInv.thy ===== *)
theory NetInv
  imports NetFs Fifo
begin

text \<open>
  The invariant of the conversation layer and its preservation by every operation. \<open>tree_wf\<close>
  speaks of the nodes and of which slots are in use; \<open>queues_wf\<close> of the datagram queues. The
  kernel's queue enters through \<open>msgq_ok\<close>, the documented behaviour of \<open>k_msgq\<close>: \<open>cts\<close> is what
  it holds and \<open>cap\<close> its depth.
\<close>

subsection \<open>What the kernel promises\<close>

definition msgq_ok :: "'q env \<Rightarrow> ('q \<Rightarrow> dgram list) \<Rightarrow> ('q \<Rightarrow> nat) \<Rightarrow> bool" where
  "msgq_ok E cts cap \<longleftrightarrow>
     bounded_fifo (\<lambda>_. True) (e_mq_put E) (e_mq_get E) cts cap \<and>
     (\<forall>q. cts (e_mq_purge E q) = [] \<and> cap (e_mq_purge E q) = cap q) \<and>
     (\<forall>d. cts (e_mq_init E d) = [] \<and> cap (e_mq_init E d) = d)"

lemma msgq_fifo: "msgq_ok E cts cap \<Longrightarrow> bounded_fifo (\<lambda>_. True) (e_mq_put E) (e_mq_get E) cts cap"
  by (simp add: msgq_ok_def)

lemma msgq_purge: "msgq_ok E cts cap \<Longrightarrow> cts (e_mq_purge E q) = [] \<and> cap (e_mq_purge E q) = cap q"
  by (simp add: msgq_ok_def)

lemma msgq_init: "msgq_ok E cts cap \<Longrightarrow> cts (e_mq_init E d) = [] \<and> cap (e_mq_init E d) = d"
  by (simp add: msgq_ok_def)

lemma msgq_put_Some: "msgq_ok E cts cap \<Longrightarrow> e_mq_put E q x = Some q' \<Longrightarrow>
    cts q' = cts q @ [x] \<and> cap q' = cap q \<and> length (cts q) < cap q"
  using bounded_fifo.put_SomeD [OF msgq_fifo] by fastforce

lemma msgq_put_None: "msgq_ok E cts cap \<Longrightarrow> e_mq_put E q x = None \<longleftrightarrow> cap q \<le> length (cts q)"
  using bounded_fifo.put_None_iff [OF msgq_fifo] by fastforce

lemma msgq_get_Some: "msgq_ok E cts cap \<Longrightarrow> e_mq_get E q = Some (x, q') \<Longrightarrow>
    cts q = x # cts q' \<and> cap q' = cap q"
  using bounded_fifo.get_SomeD [OF msgq_fifo] by fastforce

lemma msgq_get_None: "msgq_ok E cts cap \<Longrightarrow> e_mq_get E q = None \<longleftrightarrow> cts q = []"
  using bounded_fifo.get_None_iff [OF msgq_fifo] by fastforce

lemma msgq_put_or_drop: "msgq_ok E cts cap \<Longrightarrow>
    cts (mq_put_or_drop E x q) = (if length (cts q) < cap q then cts q @ [x] else cts q) \<and>
    cap (mq_put_or_drop E x q) = cap q"
  using msgq_put_Some [of E cts cap q x] msgq_put_None [of E cts cap q x]
  by (auto simp: mq_put_or_drop_def split: option.splits)

text \<open>Purge, then put the end marker: it is what the queue then holds.\<close>

lemma msgq_hangup: "msgq_ok E cts cap \<Longrightarrow> 0 < cap q \<Longrightarrow>
    cts (mq_put_or_drop E x (e_mq_purge E q)) = [x]"
  by (simp add: msgq_put_or_drop msgq_purge)

lemma msgq_hangup_cap: "msgq_ok E cts cap \<Longrightarrow>
    cap (mq_put_or_drop E x (e_mq_purge E q)) = cap q \<and>
    length (cts (mq_put_or_drop E x (e_mq_purge E q))) \<le> cap q"
  by (simp add: msgq_put_or_drop msgq_purge)

subsection \<open>The tree\<close>

definition slot_file :: "'q env \<Rightarrow> u32 \<Rightarrow> nat \<Rightarrow> string \<Rightarrow> anode_kind \<Rightarrow> node" where
  "slot_file E q i name kind = node_zero\<lparr>nd_name := take (e_name_cap E - 1) (ascii name),
     nd_isdir := False, nd_mode := 438, nd_qpath := q, nd_qtype := e_qtfile E, nd_kind := kind,
     nd_conv := Some i, nd_parent := Some (NDir i)\<rparr>"

definition slot_dir :: "'q env \<Rightarrow> u32 \<Rightarrow> nat \<Rightarrow> nat \<Rightarrow> node" where
  "slot_dir E q i slot = node_zero\<lparr>nd_name := take (e_name_cap E - 1) (snprintf_out 8 (dec_nat slot)),
     nd_isdir := True, nd_mode := 493 OR e_dmdir E, nd_qpath := q, nd_qtype := e_qtdir E,
     nd_kind := K_CONVDIR, nd_conv := Some i, nd_parent := Some NRoot,
     nd_children := [NStatus i, NRemote i, NLocal i, NData i, NCtl i]\<rparr>"

definition static_file :: "'q env \<Rightarrow> u32 \<Rightarrow> string \<Rightarrow> anode_kind \<Rightarrow> node" where
  "static_file E q name kind = node_zero\<lparr>nd_name := take (e_name_cap E - 1) (ascii name),
     nd_isdir := False, nd_mode := 438, nd_qpath := q, nd_qtype := e_qtfile E, nd_kind := kind,
     nd_conv := None, nd_parent := Some NRoot\<rparr>"

definition root_dir :: "'q env \<Rightarrow> nid list \<Rightarrow> node" where
  "root_dir E chs = node_zero\<lparr>nd_name := take (e_name_cap E - 1) (ascii ''/''),
     nd_isdir := True, nd_mode := 493 OR e_dmdir E, nd_qpath := 1, nd_qtype := e_qtdir E,
     nd_kind := K_ROOT, nd_children := chs\<rparr>"

lemmas tree_defs = upd_node_def node_init_def link_child_def unlink_child_def

lemma conv_build_nodes_eq:
  "conv_build_nodes E i N = (let q = n_next_qid N in
     N\<lparr>n_next_qid := q + 6, n_nodes := (n_nodes N)
       (NDir i := slot_dir E q i (cv_slot (conv_of N i)),
        NCtl i := slot_file E (q + 1) i ''ctl'' K_CTL,
        NData i := slot_file E (q + 2) i ''data'' K_DATA,
        NLocal i := slot_file E (q + 3) i ''local'' K_LOCAL,
        NRemote i := slot_file E (q + 4) i ''remote'' K_REMOTE,
        NStatus i := slot_file E (q + 5) i ''status'' K_CSTATUS,
        NRoot := (n_nodes N NRoot)\<lparr>nd_children := NDir i # nd_children (n_nodes N NRoot)\<rparr>)\<rparr>)"
  by (simp add: conv_build_nodes_def tree_defs Let_def slot_dir_def slot_file_def node_zero_def fun_eq_iff)

definition slot_built :: "'q env \<Rightarrow> (nid \<Rightarrow> node) \<Rightarrow> nat \<Rightarrow> bool" where
  "slot_built E nodes i \<longleftrightarrow> (\<exists>q. nodes (NDir i) = slot_dir E q i i \<and>
     nodes (NCtl i) = slot_file E (q + 1) i ''ctl'' K_CTL \<and>
     nodes (NData i) = slot_file E (q + 2) i ''data'' K_DATA \<and>
     nodes (NLocal i) = slot_file E (q + 3) i ''local'' K_LOCAL \<and>
     nodes (NRemote i) = slot_file E (q + 4) i ''remote'' K_REMOTE \<and>
     nodes (NStatus i) = slot_file E (q + 5) i ''status'' K_CSTATUS)"

definition statics_built :: "'q env \<Rightarrow> (nid \<Rightarrow> node) \<Rightarrow> bool" where
  "statics_built E nodes \<longleftrightarrow>
     nodes NClone = static_file E 2 ''clone'' K_CLONE \<and>
     nodes NTopstatus = static_file E 3 ''status'' K_TOPSTATUS \<and>
     nodes NAddr = static_file E 4 ''addr'' K_ADDR \<and>
     nodes NStats = static_file E 5 ''stats'' K_STATS \<and>
     nodes NMaxmsg = static_file E 6 ''maxmsg'' K_MAXMSG \<and>
     nodes NProve = static_file E 7 ''prove'' K_PROVE"

definition static_nodes :: "nid list" where
  "static_nodes = [NProve, NMaxmsg, NStats, NAddr, NTopstatus, NClone]"

definition slots_in_use :: "'q net \<Rightarrow> nat set" where
  "slots_in_use N = {i. i < AETHER_MAX_CONNS \<and> cv_in_use (conv_of N i)}"

text \<open>
  The tree invariant: the root lists the slots in use, each once, before the fixed files; the
  nodes of a slot in use are complete and belong to it.
\<close>

definition tree_wf :: "'q env \<Rightarrow> 'q net \<Rightarrow> bool" where
  "tree_wf E N \<longleftrightarrow> length (n_convs N) = AETHER_MAX_CONNS \<and> statics_built E (n_nodes N) \<and>
     (\<exists>ds. n_nodes N NRoot = root_dir E (map NDir ds @ static_nodes) \<and> distinct ds \<and>
        set ds = slots_in_use N) \<and>
     (\<forall>i \<in> slots_in_use N. cv_slot (conv_of N i) = i \<and> slot_built E (n_nodes N) i)"

lemma tree_wfI:
  assumes "length (n_convs N) = AETHER_MAX_CONNS" and "statics_built E (n_nodes N)"
    and "n_nodes N NRoot = root_dir E (map NDir ds @ static_nodes)" and "distinct ds"
    and "set ds = slots_in_use N"
    and "\<And>i. i \<in> slots_in_use N \<Longrightarrow> cv_slot (conv_of N i) = i \<and> slot_built E (n_nodes N) i"
  shows "tree_wf E N"
  unfolding tree_wf_def using assms by blast

definition queues_wf :: "('q \<Rightarrow> dgram list) \<Rightarrow> ('q \<Rightarrow> nat) \<Rightarrow> 'q net \<Rightarrow> bool" where
  "queues_wf cts cap N \<longleftrightarrow> (\<forall>i < AETHER_MAX_CONNS.
     length (cts (cv_rxq (conv_of N i))) \<le> cap (cv_rxq (conv_of N i)) \<and>
     (cv_in_use (conv_of N i) \<longrightarrow> cap (cv_rxq (conv_of N i)) = AETHER_RXQ_DEPTH))"

definition net_wf :: "'q env \<Rightarrow> ('q \<Rightarrow> dgram list) \<Rightarrow> ('q \<Rightarrow> nat) \<Rightarrow> 'q net \<Rightarrow> bool" where
  "net_wf E cts cap N \<longleftrightarrow> tree_wf E N \<and> queues_wf cts cap N"

text \<open>A node a client can hold: fixed, or of a slot that has been built.\<close>

fun fid_ok :: "'q env \<Rightarrow> (nid \<Rightarrow> node) \<Rightarrow> nid \<Rightarrow> bool" where
  "fid_ok E nodes (NDir i) = (i < AETHER_MAX_CONNS \<and> slot_built E nodes i)"
| "fid_ok E nodes (NCtl i) = (i < AETHER_MAX_CONNS \<and> slot_built E nodes i)"
| "fid_ok E nodes (NData i) = (i < AETHER_MAX_CONNS \<and> slot_built E nodes i)"
| "fid_ok E nodes (NLocal i) = (i < AETHER_MAX_CONNS \<and> slot_built E nodes i)"
| "fid_ok E nodes (NRemote i) = (i < AETHER_MAX_CONNS \<and> slot_built E nodes i)"
| "fid_ok E nodes (NStatus i) = (i < AETHER_MAX_CONNS \<and> slot_built E nodes i)"
| "fid_ok E nodes n = True"

subsection \<open>Operations that leave the tree alone\<close>

definition conv_shape :: "'q conv \<Rightarrow> bool \<times> nat" where
  "conv_shape c = (cv_in_use c, cv_slot c)"

definition tree_view :: "'q net \<Rightarrow> (nid \<Rightarrow> node) \<times> (bool \<times> nat) list" where
  "tree_view N = (n_nodes N, map conv_shape (n_convs N))"

lemma tree_view_upd_conv [net_simps]:
  "conv_shape (f (conv_of N i)) = conv_shape (conv_of N i) \<Longrightarrow>
     tree_view (upd_conv i f N) = tree_view N"
  by (cases "i < length (n_convs N)")
    (auto simp: tree_view_def upd_conv_def map_update list_update_same_conv list_update_beyond)

lemma tree_view_log_call [net_simps]: "tree_view (log_call c N) = tree_view N"
  by (simp add: tree_view_def log_call_def)

lemma tree_view_fields [net_simps]:
  "tree_view (N\<lparr>n_prove_out := p\<rparr>) = tree_view N" "tree_view (N\<lparr>n_cga := g\<rparr>) = tree_view N"
  "tree_view (N\<lparr>n_tx := a\<rparr>) = tree_view N" "tree_view (N\<lparr>n_tx_bytes := a\<rparr>) = tree_view N"
  "tree_view (N\<lparr>n_tx_err := a\<rparr>) = tree_view N" "tree_view (N\<lparr>n_rx := a\<rparr>) = tree_view N"
  "tree_view (N\<lparr>n_rx_bytes := a\<rparr>) = tree_view N" "tree_view (N\<lparr>n_rx_drop := a\<rparr>) = tree_view N"
  "tree_view (N\<lparr>n_drain_sr := s\<rparr>) = tree_view N" "tree_view (N\<lparr>n_drain_gr := s\<rparr>) = tree_view N"
  by (simp_all add: tree_view_def)

lemma tree_view_same:
  assumes "tree_view N' = tree_view N"
  shows "n_nodes N' = n_nodes N" "length (n_convs N') = length (n_convs N)"
    "i < length (n_convs N) \<Longrightarrow> cv_in_use (conv_of N' i) = cv_in_use (conv_of N i)"
    "i < length (n_convs N) \<Longrightarrow> cv_slot (conv_of N' i) = cv_slot (conv_of N i)"
proof -
  have m: "map conv_shape (n_convs N') = map conv_shape (n_convs N)" and
    n: "n_nodes N' = n_nodes N"
    using assms by (simp_all add: tree_view_def)
  show "n_nodes N' = n_nodes N" by (rule n)
  show l: "length (n_convs N') = length (n_convs N)" using m by (rule map_eq_imp_length_eq)
  show "i < length (n_convs N) \<Longrightarrow> cv_in_use (conv_of N' i) = cv_in_use (conv_of N i)"
    "i < length (n_convs N) \<Longrightarrow> cv_slot (conv_of N' i) = cv_slot (conv_of N i)"
    using arg_cong [OF m, of "\<lambda>xs. xs ! i"] l by (simp_all add: conv_shape_def)
qed

lemma tree_wf_same:
  assumes v: "tree_view N' = tree_view N" and w: "tree_wf E N"
  shows "tree_wf E N'"
proof -
  have "length (n_convs N) = AETHER_MAX_CONNS" using w by (simp add: tree_wf_def)
  moreover from this have "slots_in_use N' = slots_in_use N"
    using tree_view_same [OF v] by (auto simp: slots_in_use_def)
  ultimately show ?thesis
    using w tree_view_same [OF v] by (auto simp: tree_wf_def slots_in_use_def)
qed

lemma n_convs_frame [net_simps]:
  "n_convs (log_call c N) = n_convs N" "n_convs (upd_node n g N) = n_convs N"
  "length (n_convs (upd_conv i f N)) = length (n_convs N)"
  by (simp_all add: log_call_def upd_node_def upd_conv_def)

lemma conv_of_upd_conv [net_simps]:
  "i < length (n_convs N) \<Longrightarrow> conv_of (upd_conv i f N) i = f (conv_of N i)"
  "i \<noteq> j \<Longrightarrow> conv_of (upd_conv i f N) j = conv_of N j"
  by (simp_all add: upd_conv_def)

lemma ext_frame [net_simps]:
  "tree_view (snd (eui_to_addr E a N)) = tree_view N" "n_convs (snd (eui_to_addr E a N)) = n_convs N"
  "tree_view (snd (addr_to_eui E a N)) = tree_view N" "n_convs (snd (addr_to_eui E a N)) = n_convs N"
  "tree_view (snd (mesh_send E a m N)) = tree_view N" "n_convs (snd (mesh_send E a m N)) = n_convs N"
  "tree_view (snd (mesh_send_reliable E a m N)) = tree_view N"
  "n_convs (snd (mesh_send_reliable E a m N)) = n_convs N"
  "tree_view (snd (resolve_dst E a N)) = tree_view N" "n_convs (snd (resolve_dst E a N)) = n_convs N"
  "tree_view (snd (count_tx r nb k N)) = tree_view N" "n_convs (snd (count_tx r nb k N)) = n_convs N"
  "tree_view (snd (conv_takes E s d b c N)) = tree_view N" "n_convs (snd (conv_takes E s d b c N)) = n_convs N"
  by (simp_all add: eui_to_addr_def addr_to_eui_def mesh_send_def mesh_send_reliable_def
      resolve_dst_def count_tx_def conv_takes_def net_simps tree_view_def log_call_def
      split: option.splits sum.splits conv_state.splits)

lemma bcast_loop_frame [net_simps]:
  "tree_view (snd (bcast_loop E k first buf N)) = tree_view N"
  "n_convs (snd (bcast_loop E k first buf N)) = n_convs N"
  by (induction E k first buf N rule: bcast_loop.induct)
    (auto simp: net_simps mesh_send_def log_call_def tree_view_def Let_def
      split: sum.splits errno.splits)

lemma send_unicast_frame [net_simps]:
  "tree_view (snd (send_unicast E a m k N)) = tree_view N"
  "n_convs (snd (send_unicast E a m k N)) = n_convs N"
  by (simp_all add: send_unicast_def case_prod_unfold Let_def net_simps)

lemma write_data_frame [net_simps]:
  "tree_view (snd (write_data E c buf N)) = tree_view N"
  "n_convs (snd (write_data E c buf N)) = n_convs N"
  by (auto simp: write_data_def case_prod_unfold Let_def net_simps
      split: option.splits conv_state.splits)

lemma write_prove_frame [net_simps]:
  "tree_view (snd (write_prove E buf N)) = tree_view N"
  "n_convs (snd (write_prove E buf N)) = n_convs N"
  by (auto simp: write_prove_def net_simps split: sum.splits prod.splits)

lemma recv_conv_tree [net_simps]: "tree_view (recv_conv E s d b p i N) = tree_view N"
proof -
  have "tree_view N1 = tree_view N \<and> n_convs N1 = n_convs N"
    if "conv_takes E s d b (conv_of N i) N = (t, N1)" for t N1
    using ext_frame that by (metis snd_conv)
  then show ?thesis
    by (auto simp: recv_conv_def net_simps conv_shape_def split: prod.splits option.splits)
qed

lemma fold_recv_tree [net_simps]: "tree_view (fold (recv_conv E s d b p) is N) = tree_view N"
  by (induction "is" arbitrary: N) (simp_all add: net_simps)

lemma recv_cb_tree [net_simps]: "tree_view (aether_recv_cb E f N) = tree_view N"
  by (auto simp: aether_recv_cb_def recv_ident_def net_simps addr_to_eui_def Let_def
      split: prod.splits option.splits if_splits)

lemma ctl_exec_tree [net_simps]: "tree_view (snd (ctl_exec E i cmd N)) = tree_view N"
  by (auto simp: ctl_exec_def net_simps conv_shape_def split: sum.splits)

lemma read_data_tree [net_simps]: "tree_view (snd (read_data E c k N)) = tree_view N"
  by (auto simp: read_data_def net_simps conv_shape_def Let_def split: option.splits)

lemma anet_read_tree [net_simps]: "tree_view (snd (anet_read E n off k N)) = tree_view N"
  by (auto simp: anet_read_def net_simps Let_def split: anode_kind.splits option.splits)

lemma ctl_exec_treeD: "ctl_exec E i cmd N = (r, N') \<Longrightarrow> tree_view N' = tree_view N"
  using ctl_exec_tree [of E i cmd N] by simp

lemma anet_write_tree [net_simps]: "tree_view (snd (anet_write E n buf N)) = tree_view N"
  by (auto simp: anet_write_def net_simps Let_def dest: ctl_exec_treeD
      split: option.splits sum.splits prod.splits)

subsection \<open>Taking and freeing a slot\<close>

lemma conv_alloc_from_spec:
  "conv_alloc_from E is N =
     (case find (\<lambda>i. \<not> cv_in_use (conv_of N i)) is of
        None \<Rightarrow> (None, N) | Some i \<Rightarrow> (Some i, conv_take_slot E i N))"
  by (induction E "is" N rule: conv_alloc_from.induct) auto

definition least_free :: "'q net \<Rightarrow> nat option" where
  "least_free N = find (\<lambda>i. \<not> cv_in_use (conv_of N i)) [0..<AETHER_MAX_CONNS]"

lemma conv_alloc_eq:
  "conv_alloc E N = (case least_free N of None \<Rightarrow> (None, N)
     | Some i \<Rightarrow> (Some i, conv_take_slot E i N))"
  by (simp add: conv_alloc_def least_free_def conv_alloc_from_spec)

lemma find_upt: "find P [0..<n] = Some i \<longleftrightarrow> i < n \<and> P i \<and> (\<forall>j<i. \<not> P j)"
  by (auto simp: find_Some_iff)

lemma least_free_Some: "least_free N = Some i \<longleftrightarrow>
    i < AETHER_MAX_CONNS \<and> \<not> cv_in_use (conv_of N i) \<and> (\<forall>j<i. cv_in_use (conv_of N j))"
  using find_upt [of "\<lambda>i. \<not> cv_in_use (conv_of N i)" AETHER_MAX_CONNS i]
  by (simp add: least_free_def del: upt_rec_numeral)

lemma find_upt_None: "find P [0..<n] = None \<longleftrightarrow> (\<forall>j<n. \<not> P j)"
  by (auto simp: find_None_iff)

lemma least_free_None: "least_free N = None \<longleftrightarrow> (\<forall>j<AETHER_MAX_CONNS. cv_in_use (conv_of N j))"
  using find_upt_None [of "\<lambda>i. \<not> cv_in_use (conv_of N i)" AETHER_MAX_CONNS]
  by (simp add: least_free_def del: upt_rec_numeral)

lemma conv_take_slot_convs: "n_convs (conv_take_slot E i N) = (n_convs N)
    [i := (conv_of N i)\<lparr>cv_peer := addr_zero, cv_in_use := True, cv_slot := i,
            cv_state := CONV_UNCONNECTED, cv_rxq := e_mq_init E AETHER_RXQ_DEPTH\<rparr>]"
  by (simp add: conv_take_slot_def conv_build_nodes_eq Let_def upd_conv_def)

lemma conv_free_convs: "cv_in_use (conv_of N i) \<Longrightarrow> n_convs (conv_free E i N) = (n_convs N)
    [i := (conv_of N i)\<lparr>cv_rxq := mq_put_or_drop E dgram_eof (e_mq_purge E (cv_rxq (conv_of N i))),
            cv_in_use := False, cv_state := CONV_UNCONNECTED\<rparr>]"
  by (simp add: conv_free_def unlink_child_def upd_conv_def upd_node_def)

lemma conv_free_nodes: "n_nodes (conv_free E i N) =
    (if cv_in_use (conv_of N i)
     then (n_nodes N)(NRoot := (n_nodes N NRoot)\<lparr>nd_children := remove1 (NDir i) (nd_children (n_nodes N NRoot))\<rparr>)
     else n_nodes N)"
  by (simp add: conv_free_def unlink_child_def upd_conv_def upd_node_def)

lemma slot_built_take_slot:
  assumes "i < length (n_convs N)"
  shows "slot_built E (n_nodes (conv_take_slot E i N)) i"
  using assms
  by (auto simp: slot_built_def conv_take_slot_def conv_build_nodes_eq Let_def upd_conv_def)

lemma slot_built_take_slot_other: "i \<noteq> j \<Longrightarrow>
    slot_built E (n_nodes (conv_take_slot E i N)) j = slot_built E (n_nodes N) j"
  by (simp add: slot_built_def conv_take_slot_def conv_build_nodes_eq Let_def upd_conv_def)

lemma slot_built_free [simp]:
  "slot_built E (n_nodes (conv_free E i N)) j = slot_built E (n_nodes N) j"
  by (simp add: slot_built_def conv_free_nodes)

lemma root_take_slot: "n_nodes (conv_take_slot E i N) NRoot =
    (n_nodes N NRoot)\<lparr>nd_children := NDir i # nd_children (n_nodes N NRoot)\<rparr>"
  by (simp add: conv_take_slot_def conv_build_nodes_eq Let_def upd_conv_def)

lemma statics_take_slot: "statics_built E (n_nodes (conv_take_slot E i N)) = statics_built E (n_nodes N)"
  by (simp add: statics_built_def conv_take_slot_def conv_build_nodes_eq Let_def upd_conv_def)

lemma tree_wf_take_slot:
  assumes w: "tree_wf E N" and i: "i < AETHER_MAX_CONNS" and free: "\<not> cv_in_use (conv_of N i)"
  shows "tree_wf E (conv_take_slot E i N)"
proof -
  let ?N = "conv_take_slot E i N"
  have len: "length (n_convs N) = AETHER_MAX_CONNS" using w by (simp add: tree_wf_def)
  obtain ds where ds: "n_nodes N NRoot = root_dir E (map NDir ds @ static_nodes)" "distinct ds"
    "set ds = slots_in_use N" using w by (auto simp: tree_wf_def)
  have use: "slots_in_use ?N = insert i (slots_in_use N)"
    using i len by (auto simp: slots_in_use_def conv_take_slot_convs nth_list_update)
  have "i \<notin> set ds" using free ds by (simp add: slots_in_use_def)
  then have "n_nodes ?N NRoot = root_dir E (map NDir (i # ds) @ static_nodes) \<and> distinct (i # ds)
      \<and> set (i # ds) = slots_in_use ?N"
    using ds use by (simp add: root_take_slot root_dir_def)
  moreover have "cv_slot (conv_of ?N j) = j \<and> slot_built E (n_nodes ?N) j" if "j \<in> slots_in_use ?N" for j
    using that w use i len slot_built_take_slot [of i N E] slot_built_take_slot_other [of i j E N]
    by (cases "j = i") (auto simp: tree_wf_def conv_take_slot_convs)
  moreover have "statics_built E (n_nodes ?N)" "length (n_convs ?N) = AETHER_MAX_CONNS"
    using w len by (simp_all add: tree_wf_def statics_take_slot conv_take_slot_convs)
  ultimately show ?thesis by (intro tree_wfI [where ds = "i # ds"]) auto
qed

lemma tree_wf_free:
  assumes w: "tree_wf E N" and i: "i < AETHER_MAX_CONNS"
  shows "tree_wf E (conv_free E i N)"
proof (cases "cv_in_use (conv_of N i)")
  case False
  then show ?thesis using w by (simp add: conv_free_def)
next
  case True
  let ?N = "conv_free E i N"
  have len: "length (n_convs N) = AETHER_MAX_CONNS" using w by (simp add: tree_wf_def)
  obtain ds where ds: "n_nodes N NRoot = root_dir E (map NDir ds @ static_nodes)" "distinct ds"
    "set ds = slots_in_use N" using w by (auto simp: tree_wf_def)
  have use: "slots_in_use ?N = slots_in_use N - {i}"
    using i len True by (auto simp: slots_in_use_def conv_free_convs nth_list_update split: if_splits)
  have mem: "i \<in> set ds" using ds True i by (simp add: slots_in_use_def)
  have inj: "remove1 (NDir i) (map NDir ds) = map NDir (remove1 i ds)" for ds
    by (induction ds) auto
  have "NDir i \<in> set (map NDir ds)" using mem by simp
  then have "n_nodes ?N NRoot = root_dir E (map NDir (remove1 i ds) @ static_nodes)"
    using ds True by (simp add: conv_free_nodes root_dir_def remove1_append inj)
  moreover have "distinct (remove1 i ds)" "set (remove1 i ds) = slots_in_use ?N"
    using ds use by simp_all
  moreover have "cv_slot (conv_of ?N j) = j \<and> slot_built E (n_nodes ?N) j" if "j \<in> slots_in_use ?N" for j
    using that w use True by (auto simp: tree_wf_def conv_free_convs nth_list_update)
  moreover have "statics_built E (n_nodes ?N)"
    using w by (auto simp: tree_wf_def statics_built_def conv_free_nodes)
  moreover have "length (n_convs ?N) = AETHER_MAX_CONNS" using len True by (simp add: conv_free_convs)
  ultimately show ?thesis by (intro tree_wfI [where ds = "remove1 i ds"]) auto
qed

subsection \<open>The queues\<close>

lemma queues_wf_same: "n_convs N' = n_convs N \<Longrightarrow> queues_wf cts cap N' = queues_wf cts cap N"
  by (simp add: queues_wf_def)

lemma queues_wf_upd:
  assumes "queues_wf cts cap N" and "length (n_convs N) = AETHER_MAX_CONNS"
    and "i < AETHER_MAX_CONNS \<Longrightarrow>
      length (cts (cv_rxq (f (conv_of N i)))) \<le> cap (cv_rxq (f (conv_of N i))) \<and>
      (cv_in_use (f (conv_of N i)) \<longrightarrow> cap (cv_rxq (f (conv_of N i))) = AETHER_RXQ_DEPTH)"
  shows "queues_wf cts cap (upd_conv i f N)"
  unfolding queues_wf_def
proof (intro allI impI)
  fix j assume j: "j < AETHER_MAX_CONNS"
  let ?N = "upd_conv i f N"
  show "length (cts (cv_rxq (conv_of ?N j))) \<le> cap (cv_rxq (conv_of ?N j)) \<and>
      (cv_in_use (conv_of ?N j) \<longrightarrow> cap (cv_rxq (conv_of ?N j)) = AETHER_RXQ_DEPTH)"
  proof (cases "i = j")
    case True
    then have "conv_of ?N j = f (conv_of N j)" using assms(2) j by (simp add: upd_conv_def)
    then show ?thesis using assms(3) True j by simp
  next
    case False
    then show ?thesis using assms(1) j by (simp add: upd_conv_def queues_wf_def)
  qed
qed

end
