(* ===== verification/NetReach.thy ===== *)
theory NetReach
  imports NetInv
begin

text \<open>
  The system of the conversation layer: its file operations and the mesh callback as steps, the
  states reachable from start-up, and the proof that every one of them satisfies \<open>net_wf\<close>.
\<close>

subsection \<open>Each operation keeps the queues\<close>

lemma queues_wf_recv_conv:
  assumes k: "msgq_ok E cts cap" and q: "queues_wf cts cap N"
    and l: "length (n_convs N) = AETHER_MAX_CONNS"
  shows "queues_wf cts cap (recv_conv E s d b p i N)"
proof -
  obtain t N1 where t: "conv_takes E s d b (conv_of N i) N = (t, N1)" by fastforce
  then have c: "n_convs N1 = n_convs N" using ext_frame by (metis snd_conv)
  then have q1: "queues_wf cts cap N1" and l1: "length (n_convs N1) = AETHER_MAX_CONNS"
    using q l by (simp_all add: queues_wf_def)
  show ?thesis
  proof (cases "cv_in_use (conv_of N i) \<and> t")
    case False
    then show ?thesis using t q q1 by (auto simp: recv_conv_def)
  next
    case True
    show ?thesis
    proof (cases "e_mq_put E (cv_rxq (conv_of N1 i)) (Dgram d p)")
      case None
      then show ?thesis using True t q1 by (simp add: recv_conv_def queues_wf_def)
    next
      case (Some q')
      have "queues_wf cts cap (upd_conv i (\<lambda>c. c\<lparr>cv_rxq := q'\<rparr>) N1)"
        using msgq_put_Some [OF k Some] q1
        by (intro queues_wf_upd [OF q1 l1]) (auto simp: queues_wf_def)
      then show ?thesis using True t Some by (simp add: recv_conv_def)
    qed
  qed
qed

lemma recv_conv_length [simp]: "length (n_convs (recv_conv E s d b p i N)) = length (n_convs N)"
  by (rule tree_view_same(2) [OF recv_conv_tree])

lemma queues_wf_fold_recv:
  assumes k: "msgq_ok E cts cap" and "queues_wf cts cap N"
    and "length (n_convs N) = AETHER_MAX_CONNS"
  shows "queues_wf cts cap (fold (recv_conv E s d b p) is N)"
  using assms(2,3)
proof (induction "is" arbitrary: N)
  case Nil
  then show ?case by simp
next
  case (Cons i "is")
  then show ?case using queues_wf_recv_conv [OF k Cons.prems] by simp
qed

lemma recv_ident_convs [simp]: "n_convs (snd (recv_ident E f N)) = n_convs N"
  by (simp add: recv_ident_def addr_to_eui_def log_call_def split: option.splits)

lemma queues_wf_recv_cb:
  assumes "msgq_ok E cts cap" and "queues_wf cts cap N"
    and "length (n_convs N) = AETHER_MAX_CONNS"
  shows "queues_wf cts cap (aether_recv_cb E f N)"
  unfolding aether_recv_cb_def case_prod_unfold Let_def
  using assms by (intro queues_wf_fold_recv) (simp_all add: queues_wf_def)

lemma queues_wf_ctl_exec:
  assumes k: "msgq_ok E cts cap" and q: "queues_wf cts cap N"
    and l: "length (n_convs N) = AETHER_MAX_CONNS"
  shows "queues_wf cts cap (snd (ctl_exec E i cmd N))"
proof -
  have up: "queues_wf cts cap (upd_conv i f N)"
    if "cv_in_use (f (conv_of N i)) = cv_in_use (conv_of N i)"
      "cv_rxq (f (conv_of N i)) = cv_rxq (conv_of N i)" for f
    using that q by (intro queues_wf_upd [OF q l]) (auto simp: queues_wf_def)
  have hang: "queues_wf cts cap (upd_conv i (\<lambda>c. c\<lparr>cv_state := CONV_UNCONNECTED, cv_peer := addr_zero,
      cv_rxq := mq_put_or_drop E dgram_eof (e_mq_purge E (cv_rxq c))\<rparr>) N)"
    using msgq_hangup_cap [OF k] q by (intro queues_wf_upd [OF q l]) (auto simp: queues_wf_def)
  show ?thesis using q hang by (auto simp: ctl_exec_def up split: sum.splits)
qed

lemma queues_wf_read_data:
  assumes k: "msgq_ok E cts cap" and q: "queues_wf cts cap N"
    and l: "length (n_convs N) = AETHER_MAX_CONNS"
  shows "queues_wf cts cap (snd (read_data E c cnt N))"
proof -
  have "queues_wf cts cap (upd_conv i (\<lambda>cv. cv\<lparr>cv_rxq := q'\<rparr>) N)"
    if "e_mq_get E (cv_rxq (conv_of N i)) = Some (d, q')" for i d q'
  proof -
    note g = msgq_get_Some [OF k that]
    then have "length (cts q') \<le> length (cts (cv_rxq (conv_of N i)))" by simp
    then show ?thesis using q g
      by (intro queues_wf_upd [OF q l]) (force simp: queues_wf_def)
  qed
  then show ?thesis using q by (auto simp: read_data_def Let_def split: option.splits)
qed

lemma queues_wf_take_slot:
  assumes k: "msgq_ok E cts cap" and q: "queues_wf cts cap N"
    and l: "length (n_convs N) = AETHER_MAX_CONNS"
  shows "queues_wf cts cap (conv_take_slot E i N)"
proof -
  have "queues_wf cts cap (upd_conv i (\<lambda>c. c\<lparr>cv_peer := addr_zero, cv_in_use := True, cv_slot := i,
            cv_state := CONV_UNCONNECTED, cv_rxq := e_mq_init E AETHER_RXQ_DEPTH\<rparr>) N)"
    using msgq_init [OF k] by (intro queues_wf_upd [OF q l]) simp
  then show ?thesis by (simp add: conv_take_slot_def conv_build_nodes_eq queues_wf_def Let_def)
qed

lemma queues_wf_free:
  assumes k: "msgq_ok E cts cap" and q: "queues_wf cts cap N"
    and l: "length (n_convs N) = AETHER_MAX_CONNS"
  shows "queues_wf cts cap (conv_free E i N)"
proof -
  let ?N = "unlink_child NRoot (NDir i) N"
  have "queues_wf cts cap ?N" "length (n_convs ?N) = AETHER_MAX_CONNS"
    using q l by (simp_all add: unlink_child_def upd_node_def queues_wf_def)
  then have "queues_wf cts cap (upd_conv i (\<lambda>c. c\<lparr>cv_rxq := mq_put_or_drop E dgram_eof
      (e_mq_purge E (cv_rxq c)), cv_in_use := False, cv_state := CONV_UNCONNECTED\<rparr>) ?N)"
    using msgq_hangup_cap [OF k] by (intro queues_wf_upd) auto
  then show ?thesis using q by (simp add: conv_free_def)
qed

subsection \<open>Each operation keeps the invariant\<close>

lemma net_wf_length: "net_wf E cts cap N \<Longrightarrow> length (n_convs N) = AETHER_MAX_CONNS"
  by (simp add: net_wf_def tree_wf_def)

lemma net_wf_recv_cb: "msgq_ok E cts cap \<Longrightarrow> net_wf E cts cap N \<Longrightarrow>
    net_wf E cts cap (aether_recv_cb E f N)"
  using net_wf_length tree_wf_same [OF recv_cb_tree] queues_wf_recv_cb
  unfolding net_wf_def by blast

lemma net_wf_take_slot: "msgq_ok E cts cap \<Longrightarrow> net_wf E cts cap N \<Longrightarrow> i < AETHER_MAX_CONNS \<Longrightarrow>
    \<not> cv_in_use (conv_of N i) \<Longrightarrow> net_wf E cts cap (conv_take_slot E i N)"
  using net_wf_length tree_wf_take_slot queues_wf_take_slot
  unfolding net_wf_def by blast

lemma net_wf_alloc: "msgq_ok E cts cap \<Longrightarrow> net_wf E cts cap N \<Longrightarrow>
    net_wf E cts cap (snd (conv_alloc E N))"
  by (auto simp: conv_alloc_eq least_free_Some intro: net_wf_take_slot split: option.splits)

lemma net_wf_free: "msgq_ok E cts cap \<Longrightarrow> net_wf E cts cap N \<Longrightarrow> i < AETHER_MAX_CONNS \<Longrightarrow>
    net_wf E cts cap (conv_free E i N)"
  using net_wf_length tree_wf_free queues_wf_free
  unfolding net_wf_def by blast

lemma net_wf_walk:
  assumes "msgq_ok E cts cap" and "net_wf E cts cap N"
  shows "net_wf E cts cap (snd (anet_walk E p name N))"
proof -
  have "net_wf E cts cap N'" if "conv_alloc E N = (r, N')" for r N'
    using net_wf_alloc [OF assms] that by simp
  then show ?thesis using assms by (auto simp: anet_walk_def split: option.splits prod.splits)
qed

lemma queues_wf_convs: "n_convs N' = n_convs N \<Longrightarrow> queues_wf cts cap N \<Longrightarrow> queues_wf cts cap N'"
  by (simp add: queues_wf_def)

lemma anet_read_state: "snd (anet_read E n off cnt N) =
    (if nd_kind (n_nodes N n) = K_DATA then snd (read_data E (nd_conv (n_nodes N n)) cnt N) else N)"
  by (cases "nd_kind (n_nodes N n)") (simp_all add: anet_read_def Let_def split: option.splits)

lemma net_wf_read:
  assumes "msgq_ok E cts cap" and "net_wf E cts cap N"
  shows "net_wf E cts cap (snd (anet_read E n off cnt N))"
proof -
  have q: "queues_wf cts cap N" and l: "length (n_convs N) = AETHER_MAX_CONNS" and t: "tree_wf E N"
    using assms(2) net_wf_length by (auto simp: net_wf_def)
  have "queues_wf cts cap (snd (anet_read E n off cnt N))"
    using q queues_wf_read_data [OF assms(1) q l] by (simp add: anet_read_state)
  then show ?thesis using tree_wf_same [OF anet_read_tree t] by (simp add: net_wf_def)
qed

lemma net_wf_write:
  assumes "msgq_ok E cts cap" and "net_wf E cts cap N"
  shows "net_wf E cts cap (snd (anet_write E n buf N))"
proof -
  have q: "queues_wf cts cap N" and l: "length (n_convs N) = AETHER_MAX_CONNS"
    using assms(2) net_wf_length by (auto simp: net_wf_def)
  have ctl: "queues_wf cts cap N'" if "ctl_exec E i cmd N = (r, N')" for i cmd r N'
    using queues_wf_ctl_exec [OF assms(1) q l, of i cmd] that by simp
  have "queues_wf cts cap (snd (anet_write E n buf N))"
    using q ctl queues_wf_convs [OF write_data_frame(2) q] queues_wf_convs [OF write_prove_frame(2) q]
    by (auto simp: anet_write_def Let_def split: option.splits sum.splits prod.splits)
  moreover have "tree_wf E (snd (anet_write E n buf N))"
    using assms(2) tree_wf_same [OF anet_write_tree] unfolding net_wf_def by blast
  ultimately show ?thesis by (simp add: net_wf_def)
qed

lemma net_wf_clunk:
  assumes "msgq_ok E cts cap" and "net_wf E cts cap N" and "fid_ok E (n_nodes N) n"
  shows "net_wf E cts cap (anet_clunk E n N)"
proof -
  have "i < AETHER_MAX_CONNS" if "nd_conv (n_nodes N n) = Some i" for i
    using assms(2,3) that
    by (cases n) (auto simp: slot_built_def slot_file_def slot_dir_def net_wf_def tree_wf_def
        statics_built_def static_file_def root_dir_def node_zero_def)
  then show ?thesis
    using assms net_wf_free by (auto simp: anet_clunk_def split: option.splits)
qed

subsection \<open>Start-up\<close>

lemma net_init_eq: "aether_net_init E my g tr = (e_register E, (net_zero E g tr)
   \<lparr>n_next_qid := 8, n_myaddr := my,
    n_nodes := (\<lambda>_. node_zero)(NRoot := root_dir E static_nodes,
      NClone := static_file E 2 ''clone'' K_CLONE, NTopstatus := static_file E 3 ''status'' K_TOPSTATUS,
      NAddr := static_file E 4 ''addr'' K_ADDR, NStats := static_file E 5 ''stats'' K_STATS,
      NMaxmsg := static_file E 6 ''maxmsg'' K_MAXMSG, NProve := static_file E 7 ''prove'' K_PROVE)\<rparr>)"
  by (simp add: aether_net_init_def Let_def tree_defs net_zero_def root_dir_def static_file_def
      static_nodes_def node_zero_def fun_eq_iff)

lemma conv_of_zero: "i < AETHER_MAX_CONNS \<Longrightarrow> replicate AETHER_MAX_CONNS (conv_zero E) ! i = conv_zero E"
  by (rule nth_replicate)

lemma net_wf_init:
  assumes "msgq_ok E cts cap"
  shows "net_wf E cts cap (snd (aether_net_init E my g tr))"
proof -
  let ?N = "snd (aether_net_init E my g tr)"
  have c: "n_convs ?N = replicate AETHER_MAX_CONNS (conv_zero E)"
    by (simp add: net_init_eq net_zero_def)
  then have e: "slots_in_use ?N = {}"
    using conv_of_zero [of _ E] by (auto simp: slots_in_use_def conv_zero_def)
  have "tree_wf E ?N"
    using c e by (intro tree_wfI [where ds = "[]"]) (simp_all add: net_init_eq statics_built_def)
  moreover have "queues_wf cts cap ?N"
    unfolding queues_wf_def c using msgq_init [OF assms] conv_of_zero [of _ E]
    by (auto simp: conv_zero_def)
  ultimately show ?thesis by (simp add: net_wf_def)
qed

subsection \<open>The system\<close>

text \<open>
  The state is the one of the server and the set of nodes its clients hold fids on. A clunk
  leaves the set as it is: another fid may still be on the same node.
\<close>

inductive net_step ::
    "'q env \<Rightarrow> 'q net \<times> nid set \<Rightarrow> 'q net \<times> nid set \<Rightarrow> bool" for E :: "'q env" where
  step_attach: "net_step E (N, F) (N, insert NRoot F)"
| step_walk: "p \<in> F \<Longrightarrow> anet_walk E (Some p) name N = (Some n, N') \<Longrightarrow>
    net_step E (N, F) (N', insert n F)"
| step_walk_fail: "p \<in> F \<Longrightarrow> anet_walk E (Some p) name N = (None, N') \<Longrightarrow>
    net_step E (N, F) (N', F)"
| step_read: "n \<in> F \<Longrightarrow> net_step E (N, F) (snd (anet_read E n off cnt N), F)"
| step_write: "n \<in> F \<Longrightarrow> net_step E (N, F) (snd (anet_write E n buf N), F)"
| step_clunk: "n \<in> F \<Longrightarrow> net_step E (N, F) (anet_clunk E n N, F)"
| step_recv: "net_step E (N, F) (aether_recv_cb E f N, F)"

inductive_cases net_stepE: "net_step E s t"

inductive net_reach :: "'q env \<Rightarrow> addr6 \<Rightarrow> cga \<Rightarrow> 'q net \<times> nid set \<Rightarrow> bool"
  for E :: "'q env" and my :: addr6 and g :: cga where
  reach_init: "net_reach E my g (snd (aether_net_init E my g []), {})"
| reach_step: "net_reach E my g s \<Longrightarrow> net_step E s t \<Longrightarrow> net_reach E my g t"

definition sys_ok :: "'q env \<Rightarrow> ('q \<Rightarrow> dgram list) \<Rightarrow> ('q \<Rightarrow> nat) \<Rightarrow> 'q net \<times> nid set \<Rightarrow> bool" where
  "sys_ok E cts cap s \<longleftrightarrow> net_wf E cts cap (fst s) \<and> (\<forall>n\<in>snd s. fid_ok E (n_nodes (fst s)) n)"

lemma fid_ok_mono: "fid_ok E nodes n \<Longrightarrow>
    (\<And>i. slot_built E nodes i \<Longrightarrow> slot_built E nodes' i) \<Longrightarrow> fid_ok E nodes' n"
  by (cases n) auto

lemma fid_ok_take_slot:
  assumes "i < length (n_convs N)" and "fid_ok E (n_nodes N) n"
  shows "fid_ok E (n_nodes (conv_take_slot E i N)) n"
  using assms(2)
proof (rule fid_ok_mono)
  show "slot_built E (n_nodes (conv_take_slot E i N)) j" if "slot_built E (n_nodes N) j" for j
    using that slot_built_take_slot [OF assms(1), of E] slot_built_take_slot_other [of i j E N]
    by (cases "i = j") auto
qed

lemma find_child_SomeD: "find_child nodes chs name = Some n \<Longrightarrow> n \<in> set chs \<and> nd_name (nodes n) = name"
  by (induction chs) (auto split: if_splits)

text \<open>A walk from a node the client holds ends on a node it may hold.\<close>

lemma fid_ok_walk:
  assumes w: "net_wf E cts cap N" and p: "fid_ok E (n_nodes N) p"
    and walk: "anet_walk E (Some p) name N = (Some n, N')"
  shows "fid_ok E (n_nodes N') n"
proof (cases "nd_kind (n_nodes N p) = K_ROOT \<and> name = ascii ''clone''")
  case True
  then obtain i where "least_free N = Some i" "n = NCtl i" "N' = conv_take_slot E i N"
    using walk by (auto simp: anet_walk_def conv_alloc_eq split: if_splits option.splits)
  then show ?thesis
    using slot_built_take_slot [of i N E] net_wf_length [OF w] least_free_Some [of N i] by simp
next
  case False
  then have N': "N' = N" and f: "find_child (n_nodes N) (nd_children (n_nodes N p)) name = Some n"
    and d: "nd_isdir (n_nodes N p)"
    using walk by (auto simp: anet_walk_def split: if_splits)
  have n: "n \<in> set (nd_children (n_nodes N p))" using find_child_SomeD [OF f] by simp
  have t: "tree_wf E N" using w by (simp add: net_wf_def)
  show ?thesis
  proof (cases p)
    case NRoot
    then obtain ds where "nd_children (n_nodes N p) = map NDir ds @ static_nodes"
      "set ds = slots_in_use N" using t by (auto simp: tree_wf_def root_dir_def)
    then have "(\<exists>i. n = NDir i \<and> i \<in> slots_in_use N) \<or> n \<in> set static_nodes" using n by auto
    then show ?thesis using t N' by (auto simp: static_nodes_def tree_wf_def slots_in_use_def)
  next
    case (NDir i)
    then have "n \<in> {NStatus i, NRemote i, NLocal i, NData i, NCtl i}"
      using p n by (auto simp: slot_built_def slot_dir_def)
    then show ?thesis using p NDir N' by auto
  qed (use p d t in \<open>auto simp: slot_built_def slot_file_def tree_wf_def statics_built_def
        static_file_def node_zero_def\<close>)
qed

lemma walk_cases:
  assumes "anet_walk E p name N = (r, N')"
  obtains "N' = N" | i where "least_free N = Some i" "r = Some (NCtl i)" "N' = conv_take_slot E i N"
proof (cases "\<exists>q. p = Some q \<and> nd_isdir (n_nodes N q) \<and> nd_kind (n_nodes N q) = K_ROOT \<and> name = ascii ''clone''")
  case True
  then have "(r, N') = (case conv_alloc E N of (None, M) \<Rightarrow> (None, M) | (Some i, M) \<Rightarrow> (Some (NCtl i), M))"
    using assms by (auto simp: anet_walk_def)
  then show thesis using that by (cases "least_free N") (simp_all add: conv_alloc_eq)
next
  case False
  then have "N' = N" using assms by (auto simp: anet_walk_def split: option.splits if_splits)
  then show thesis by (rule that(1))
qed

lemma fid_ok_after_walk:
  assumes w: "net_wf E cts cap N" and walk: "anet_walk E p name N = (r, N')"
    and m: "fid_ok E (n_nodes N) m"
  shows "fid_ok E (n_nodes N') m"
  using walk
proof (cases rule: walk_cases)
  case 1
  then show ?thesis using m by simp
next
  case (2 i)
  then have "i < length (n_convs N)" using net_wf_length [OF w] least_free_Some [of N i] by simp
  then show ?thesis using fid_ok_take_slot m 2 by blast
qed

lemma sys_ok_same_nodes:
  assumes "sys_ok E cts cap (N, F)" and "net_wf E cts cap N'" and "n_nodes N' = n_nodes N"
  shows "sys_ok E cts cap (N', F)"
  using assms by (simp add: sys_ok_def)

lemma sys_ok_step:
  assumes k: "msgq_ok E cts cap" and step: "net_step E s t" and ok: "sys_ok E cts cap s"
  shows "sys_ok E cts cap t"
  using step ok
proof (induction rule: net_step.induct)
  case (step_attach N F)
  then show ?case by (simp add: sys_ok_def)
next
  case (step_walk p F name N n N')
  then have w: "net_wf E cts cap N" and p: "fid_ok E (n_nodes N) p" by (auto simp: sys_ok_def)
  have "net_wf E cts cap N'" using net_wf_walk [OF k w, of "Some p" name] step_walk by simp
  moreover have "fid_ok E (n_nodes N') n" by (rule fid_ok_walk [OF w p step_walk(2)])
  moreover have "fid_ok E (n_nodes N') m" if "m \<in> F" for m
    using fid_ok_after_walk [OF w step_walk(2)] step_walk(3) that by (simp add: sys_ok_def)
  ultimately show ?case by (simp add: sys_ok_def)
next
  case (step_walk_fail p F name N N')
  from step_walk_fail(2) have "N' = N" by (rule walk_cases) auto
  then show ?case using step_walk_fail by simp
next
  case (step_read n F N off cnt)
  then have "net_wf E cts cap (snd (anet_read E n off cnt N))"
    using net_wf_read [OF k] by (simp add: sys_ok_def)
  then show ?case
    by (rule sys_ok_same_nodes [OF step_read(2) _ tree_view_same(1) [OF anet_read_tree]])
next
  case (step_write n F N buf)
  then have "net_wf E cts cap (snd (anet_write E n buf N))"
    using net_wf_write [OF k] by (simp add: sys_ok_def)
  then show ?case
    by (rule sys_ok_same_nodes [OF step_write(2) _ tree_view_same(1) [OF anet_write_tree]])
next
  case (step_clunk n F N)
  have b: "slot_built E (n_nodes (anet_clunk E n N)) i = slot_built E (n_nodes N) i" for i
    by (auto simp: anet_clunk_def split: option.splits)
  have "net_wf E cts cap (anet_clunk E n N)"
    using step_clunk net_wf_clunk [OF k] by (auto simp: sys_ok_def)
  moreover have "fid_ok E (n_nodes (anet_clunk E n N)) m" if "m \<in> F" for m
    using step_clunk(2) that fid_ok_mono b by (fastforce simp: sys_ok_def)
  ultimately show ?case by (simp add: sys_ok_def)
next
  case (step_recv N F f)
  then have "net_wf E cts cap (aether_recv_cb E f N)"
    using net_wf_recv_cb [OF k] by (simp add: sys_ok_def)
  then show ?case
    by (rule sys_ok_same_nodes [OF step_recv _ tree_view_same(1) [OF recv_cb_tree]])
qed

lemma sys_ok_reach:
  assumes "msgq_ok E cts cap" and "net_reach E my g s"
  shows "sys_ok E cts cap s"
  using assms(2)
proof (induction rule: net_reach.induct)
  case reach_init
  then show ?case using net_wf_init [OF assms(1)] by (simp add: sys_ok_def)
next
  case (reach_step s t)
  then show ?case using sys_ok_step [OF assms(1)] by blast
qed

end
