(* ===== verification/NetClient.thy ===== *)
theory NetClient
  imports NetReach
begin

text \<open>
  The in-process 9P client of \<open>aether_net.c\<close>: it runs a session with a peer's 9P server over a
  conversation of its own, to drain the peer's telemetry, to probe it, or to push a firmware
  image to it. Frames may arrive whenever the client sends or waits: the environment says which
  (\<open>e_arrivals\<close>, a function of the calls so far), and they go through \<open>aether_recv_cb\<close>.
\<close>

subsection \<open>Sending and waiting\<close>

definition take_arrivals :: "'q env \<Rightarrow> 'q net \<Rightarrow> 'q net" where
  "take_arrivals E N = fold (aether_recv_cb E) (e_arrivals E (n_trace N)) N"

definition res_int :: "'q env \<Rightarrow> nat res \<Rightarrow> int" where
  "res_int E r = (case r of Inl e \<Rightarrow> - int (e_errno E e) | Inr n \<Rightarrow> int n)"

definition client_send :: "'q env \<Rightarrow> addr6 \<Rightarrow> byte list \<Rightarrow> 'q net \<Rightarrow> nat res \<times> 'q net" where
  "client_send E dst msg N =
     (let (r, N1) = mesh_send_reliable E dst msg N
      in (r, (take_arrivals E N1)\<lparr>n_drain_sr := res_int E r\<rparr>))"

definition rxq_get_now :: "'q env \<Rightarrow> nat \<Rightarrow> 'q net \<Rightarrow> dgram option \<times> 'q net" where
  "rxq_get_now E i N =
     (case e_mq_get E (cv_rxq (conv_of N i)) of
        None \<Rightarrow> (None, N)
      | Some (d, q) \<Rightarrow> (Some d, upd_conv i (\<lambda>c. c\<lparr>cv_rxq := q\<rparr>) N))"

text \<open>\<open>k_msgq_get\<close> with a timeout: at once if there is a datagram, else what arrives while waiting.\<close>

definition rxq_get_wait :: "'q env \<Rightarrow> nat \<Rightarrow> 'q net \<Rightarrow> dgram option \<times> 'q net" where
  "rxq_get_wait E i N =
     (case rxq_get_now E i N of
        (Some d, N') \<Rightarrow> (Some d, N')
      | (None, N') \<Rightarrow> rxq_get_now E i (take_arrivals E (log_call (CWait i) N')))"

subsection \<open>One request\<close>

datatype m9_outcome = M9_reply "byte list" | M9_fail | M9_again

fun m9_reads :: "'q env \<Rightarrow> nat \<Rightarrow> nat \<Rightarrow> u16 \<Rightarrow> nat \<Rightarrow> 'q net \<Rightarrow> m9_outcome \<times> 'q net" where
  "m9_reads E i 0 want cap N = (M9_again, N)"
| "m9_reads E i (Suc reads) want cap N =
     (case rxq_get_wait E i N of
        (None, N1) \<Rightarrow> (M9_again, N1\<lparr>n_drain_gr := - int (e_errno E EAGAIN)\<rparr>)
      | (Some d, N1) \<Rightarrow>
          (let N2 = N1\<lparr>n_drain_gr := 0\<rparr>; m = dg_data d
           in if m = [] then (M9_fail, N2)
              else if 7 \<le> length m \<and> m9_tag m = want then (M9_reply (take cap m), N2)
              else m9_reads E i reads want cap N2))"

fun m9_attempts ::
    "'q env \<Rightarrow> nat \<Rightarrow> nat \<Rightarrow> addr6 \<Rightarrow> byte list \<Rightarrow> nat \<Rightarrow> 'q net \<Rightarrow> byte list option \<times> 'q net" where
  "m9_attempts E i 0 dst msg cap N = (None, N)"
| "m9_attempts E i (Suc n) dst msg cap N =
     (case client_send E dst msg N of
        (Inl e, N1) \<Rightarrow> m9_attempts E i n dst msg cap N1
      | (Inr _, N1) \<Rightarrow>
          (case m9_reads E i 2 (m9_tag msg) cap N1 of
             (M9_reply b, N2) \<Rightarrow> (Some b, N2)
           | (M9_fail, N2) \<Rightarrow> (None, N2)
           | (M9_again, N2) \<Rightarrow> m9_attempts E i n dst msg cap N2))"

text \<open>\<open>Some reply\<close>, or \<open>None\<close> for the return value -1; the body is the message after its size field.\<close>

definition m9_rpc :: "'q env \<Rightarrow> nat \<Rightarrow> byte list \<Rightarrow> nat \<Rightarrow> 'q net \<Rightarrow> byte list option \<times> 'q net" where
  "m9_rpc E i body cap N =
     (let (dst, N1) = resolve_dst E (cv_peer (conv_of N i)) N
      in m9_attempts E i 2 dst (m9_frame body) cap N1)"

definition reply_is :: "byte \<Rightarrow> nat \<Rightarrow> byte list option \<Rightarrow> bool" where
  "reply_is ty least r \<longleftrightarrow> (case r of Some b \<Rightarrow> least \<le> length b \<and> m9_type b = ty | None \<Rightarrow> False)"

text \<open>A run of requests, each of which must be answered with its type; the first that is not, if any.\<close>

fun m9_session ::
    "'q env \<Rightarrow> nat \<Rightarrow> nat \<Rightarrow> (byte list \<times> byte) list \<Rightarrow> 'q net \<Rightarrow> nat option \<times> 'q net" where
  "m9_session E i step [] N = (None, N)"
| "m9_session E i step ((body, ty) # rest) N =
     (let (r, N1) = m9_rpc E i body (e_max_msg E) N
      in if reply_is ty 5 r then m9_session E i (step + 1) rest N1 else (Some step, N1))"

definition open_devfile_msgs :: "nat \<Rightarrow> u16 \<Rightarrow> byte list \<Rightarrow> byte \<Rightarrow> (byte list \<times> byte) list" where
  "open_devfile_msgs max_msg tag file mode =
     [(m9_tversion max_msg, 101), (m9_tattach tag, 105), (m9_twalk_dev (tag + 1) file, 111),
      (m9_topen (tag + 2) mode, 113)]"

text \<open>\<open>m9_open_devfile\<close>: 0 or the negated step that failed, and the next tag.\<close>

definition m9_open_devfile ::
    "'q env \<Rightarrow> nat \<Rightarrow> u16 \<Rightarrow> byte list \<Rightarrow> byte \<Rightarrow> 'q net \<Rightarrow> int \<times> u16 \<times> 'q net" where
  "m9_open_devfile E i tag file mode N =
     (case m9_session E i 1 (open_devfile_msgs (e_max_msg E) tag file mode) N of
        (None, N1) \<Rightarrow> (0, tag + 3, N1)
      | (Some k, N1) \<Rightarrow> (- int k, tag + of_nat (k - 1), N1))"

text \<open>The conversation a client run uses: allocated and bound without the ctl file.\<close>

definition conv_bind :: "nat \<Rightarrow> addr6 \<Rightarrow> 'q net \<Rightarrow> 'q net" where
  "conv_bind i peer N = upd_conv i (\<lambda>c. c\<lparr>cv_peer := peer, cv_state := CONV_CONNECTED\<rparr>) N"

subsection \<open>Draining a peer\<close>

text \<open>
  The count of a Rread is compared as an \<open>int\<close>, so one of \<open>2 ^ 31\<close> or more is not clipped and
  the copy runs out of its buffers: that is \<open>None\<close>.
\<close>

definition drain_clip :: "u32 \<Rightarrow> int \<Rightarrow> int \<Rightarrow> nat option" where
  "drain_clip n avail room =
     (let n1 = (if avail < sint n then word_of_int avail else n);
          n2 = (if room < sint n1 then word_of_int room else n1)
      in if sint n2 < 0 then None else Some (unat n2))"

fun drain_loop ::
    "'q env \<Rightarrow> nat \<Rightarrow> nat \<Rightarrow> nat \<Rightarrow> u16 \<Rightarrow> byte list \<Rightarrow> 'q net \<Rightarrow> byte list option \<times> 'q net" where
  "drain_loop E i cap 0 tag out N = (Some out, N)"
| "drain_loop E i cap (Suc k) tag out N =
     (if \<not> int (length out) < int cap - 8 then (Some out, N)
      else (let (r, N1) = m9_rpc E i (m9_tread0 tag (of_nat (e_max_msg E) - 16)) (e_max_msg E) N
            in if \<not> reply_is 117 11 r then (Some out, N1)
               else (let b = the r in
                     case drain_clip (ng32 (drop 7 b)) (int (length b) - 11) (int cap - 1 - int (length out)) of
                       None \<Rightarrow> (None, N1)
                     | Some n \<Rightarrow>
                         (if n = 0 then (Some out, N1)
                          else drain_loop E i cap k (tag + 1) (out @ take n (drop 11 b)) N1))))"

definition aether_net_drain_peer ::
    "'q env \<Rightarrow> addr6 \<Rightarrow> nat \<Rightarrow> 'q net \<Rightarrow> byte list res option \<times> 'q net" where
  "aether_net_drain_peer E peer cap N =
     (case conv_alloc E N of
        (None, N1) \<Rightarrow> (Some (Inl ENOSPC), N1)
      | (Some i, N1) \<Rightarrow>
          (case m9_session E i 1 (open_devfile_msgs (e_max_msg E) 1 (ascii ''mflt'') 0) (conv_bind i peer N1) of
             (Some _, N2) \<Rightarrow> (Some (Inr []), conv_free E i N2)
           | (None, N2) \<Rightarrow>
               (case drain_loop E i cap 16 4 [] N2 of
                  (None, N3) \<Rightarrow> (None, N3)
                | (Some out, N3) \<Rightarrow> (Some (Inr out), conv_free E i N3))))"

subsection \<open>Probing a peer\<close>

definition hex6 :: "addr6 \<Rightarrow> byte list" where
  "hex6 a = concat (map fmt_02x (addr_bytes a))"

definition reply_code :: "byte list option \<Rightarrow> int" where
  "reply_code r = (case r of None \<Rightarrow> -1 | Some b \<Rightarrow> if 4 < length b then uint (m9_type b) else int (length b))"

text \<open>One step of the probe: sent only if the previous one was answered, else its code stays -1.\<close>

definition probe_step :: "'q env \<Rightarrow> nat \<Rightarrow> bool \<Rightarrow> byte list \<Rightarrow> 'q net \<Rightarrow> byte list option \<times> int \<times> 'q net" where
  "probe_step E i go body N =
     (if go then (let (r, N1) = m9_rpc E i body (e_max_msg E) N in (r, reply_code r, N1))
      else (None, -1, N))"

definition probe_read_code :: "byte list option \<Rightarrow> int" where
  "probe_read_code r =
     (if reply_is 117 11 r then sint (ng32 (drop 7 (the r)))
      else case r of None \<Rightarrow> -1 | Some b \<Rightarrow> if 4 < length b then - uint (m9_type b) else int (length b))"

definition aether_net_probe_peer :: "'q env \<Rightarrow> addr6 \<Rightarrow> 'q net \<Rightarrow> byte list \<times> 'q net" where
  "aether_net_probe_peer E peer N =
     (case conv_alloc E N of
        (None, N1) \<Rightarrow> (ascii ''PROBE '' @ hex6 peer @ ascii '': conv_alloc FAILED'' @ [nl], N1)
      | (Some i, N1) \<Rightarrow>
          (let (route, N2) = eui_to_addr E peer (conv_bind i peer N1);
               dst = (case route of Some a \<Rightarrow> a | None \<Rightarrow> peer);
               resolved = (if route = None then e_eui_err E else 0);
               (r1, t_ver, N3) = probe_step E i True (m9_tversion (e_max_msg E)) N2;
               (r2, t_att, N4) = probe_step E i (reply_is 101 5 r1) (m9_tattach 1) N3;
               (r3, t_walk, N5) = probe_step E i (t_att = 105) (m9_twalk_dev 2 (ascii ''mflt'')) N4;
               (r4, t_open, N6) = probe_step E i (t_walk = 111) (m9_topen 3 0) N5;
               (r5, _, N7) = probe_step E i (t_open = 113) (m9_tread0 4 (of_nat (e_max_msg E) - 16)) N6;
               rdbytes = (if t_open = 113 then probe_read_code r5 else -1)
           in (ascii ''PROBE '' @ hex6 peer @ ascii '' route='' @ hex6 dst @ ascii ''(r='' @ dec_int resolved
                 @ ascii '') ver='' @ dec_int t_ver @ ascii '' att='' @ dec_int t_att
                 @ ascii '' walk='' @ dec_int t_walk @ ascii '' open='' @ dec_int t_open
                 @ ascii '' read='' @ dec_int rdbytes @ [nl],
               conv_free E i N7)))"

end
