(* ===== verification/NetPush.thy ===== *)
theory NetPush
  imports NetClient
begin

text \<open>
  OTA over the mesh, the write side of the client in \<open>aether_net.c\<close>: \<open>g_push\<close> holds one streaming
  session to a peer's \<open>dev/firmware\<close> across many writes; \<open>push_ctl\<close> is a one-shot control write.
\<close>

record push =
  pu_conv :: "nat option"
  pu_peer :: addr6
  pu_fid :: u32
  pu_tag :: u16
  pu_woff :: u64
  pu_outstanding :: int
  pu_active :: bool

definition push_zero :: push where
  "push_zero = \<lparr>pu_conv = None, pu_peer = addr_zero, pu_fid = 0, pu_tag = 0, pu_woff = 0,
     pu_outstanding = 0, pu_active = False\<rparr>"

text \<open>
  \<open>push_reap\<close> empties the queue. A queue holds at most \<open>AETHER_RXQ_DEPTH\<close> datagrams, so one turn
  more than that ends the loop; \<open>wait\<close> is for its first turn.
\<close>

fun push_reap_loop :: "'q env \<Rightarrow> nat \<Rightarrow> nat \<Rightarrow> bool \<Rightarrow> push \<times> 'q net \<Rightarrow> push \<times> 'q net" where
  "push_reap_loop E i 0 wt (P, N) = (P, N)"
| "push_reap_loop E i (Suc fuel) wt (P, N) =
     (case (if wt then rxq_get_wait E i N else rxq_get_now E i N) of
        (None, N1) \<Rightarrow> (P, N1)
      | (Some d, N1) \<Rightarrow>
          push_reap_loop E i fuel False
            (if 0 < pu_outstanding P then P\<lparr>pu_outstanding := pu_outstanding P - 1\<rparr> else P, N1))"

definition push_reap :: "'q env \<Rightarrow> nat \<Rightarrow> bool \<Rightarrow> push \<times> 'q net \<Rightarrow> push \<times> 'q net" where
  "push_reap E i wt PN = push_reap_loop E i (AETHER_RXQ_DEPTH + 1) wt PN"

definition aether_net_push_open :: "'q env \<Rightarrow> addr6 \<Rightarrow> push \<times> 'q net \<Rightarrow> (errno option + int) \<times> push \<times> 'q net" where
  "aether_net_push_open E peer PN =
     (let (P, N) = PN;
          (P1, N1) = (if pu_active P
                      then (P\<lparr>pu_active := False, pu_conv := None\<rparr>, conv_free E (the (pu_conv P)) N)
                      else (P, N))
      in case conv_alloc E N1 of
           (None, N2) \<Rightarrow> (Inl (Some ENOSPC), P1, N2)
         | (Some i, N2) \<Rightarrow>
             (let (code, tag, N3) = m9_open_devfile E i 1 (ascii ''firmware'') 1 (conv_bind i peer N2)
              in if code < 0 then (Inr code, P1\<lparr>pu_tag := tag\<rparr>, conv_free E i N3)
                 else (Inl None, P1\<lparr>pu_conv := Some i, pu_peer := peer, pu_fid := 2, pu_tag := tag,
                     pu_woff := 0, pu_outstanding := 0, pu_active := True\<rparr>, N3)))"

text \<open>The data bytes of one Twrite: the datagram ceiling less the header, as \<open>uint32_t\<close>, at most 384.\<close>

definition push_maxdata :: "nat \<Rightarrow> nat" where
  "push_maxdata max_msg = (let m = (of_nat max_msg :: u32) - 23 in if 384 < m then 384 else unat m)"

text \<open>Send one chunk, at most twelve times until the mesh layer delivers it; each try has a new tag.\<close>

fun push_chunk ::
    "'q env \<Rightarrow> addr6 \<Rightarrow> nat \<Rightarrow> u64 \<Rightarrow> byte list \<Rightarrow> push \<times> 'q net \<Rightarrow> bool \<times> push \<times> 'q net" where
  "push_chunk E dst 0 off data PN = (False, PN)"
| "push_chunk E dst (Suc attempts) off data (P, N) =
     (case client_send E dst (m9_frame (m9_twrite (pu_tag P) (pu_fid P) off data)) N of
        (Inr _, N1) \<Rightarrow> (True, P\<lparr>pu_tag := pu_tag P + 1\<rparr>, N1)
      | (Inl e, N1) \<Rightarrow> push_chunk E dst attempts off data (P\<lparr>pu_tag := pu_tag P + 1\<rparr>, N1))"

text \<open>
  The loop over the block. With \<open>maxdata\<close> zero the C loop would not end: the result is \<open>None\<close>.
  Otherwise \<open>Some ok\<close> says whether every chunk was delivered.
\<close>

function push_loop ::
    "'q env \<Rightarrow> nat \<Rightarrow> addr6 \<Rightarrow> nat \<Rightarrow> u64 \<Rightarrow> byte list \<Rightarrow> push \<times> 'q net \<Rightarrow> bool option \<times> push \<times> 'q net" where
  "push_loop E i dst maxdata off buf PN =
     (if buf = [] then (Some True, PN)
      else if maxdata = 0 then (None, PN)
      else (case push_chunk E dst 12 off (take maxdata buf) PN of
              (False, PN1) \<Rightarrow> (Some False, PN1)
            | (True, PN1) \<Rightarrow>
                push_loop E i dst maxdata (off + of_nat (length (take maxdata buf))) (drop maxdata buf)
                  (push_reap E i False PN1)))"
  by pat_completeness auto
termination
  by (relation "measure (\<lambda>(E, i, dst, m, off, buf, PN). length buf)") auto

declare push_loop.simps [simp del]

definition aether_net_push_write ::
    "'q env \<Rightarrow> byte list \<Rightarrow> u64 \<Rightarrow> push \<times> 'q net \<Rightarrow> nat res option \<times> push \<times> 'q net" where
  "aether_net_push_write E buf off PN =
     (let (P, N) = PN in
      if \<not> pu_active P then (Some (Inl EPIPE), PN)
      else (let i = the (pu_conv P);
                (dst, N1) = resolve_dst E (cv_peer (conv_of N i)) N
            in case push_loop E i dst (push_maxdata (e_max_msg E)) off buf (P, N1) of
                 (None, PN2) \<Rightarrow> (None, PN2)
               | (Some False, PN2) \<Rightarrow> (Some (Inl EIO), PN2)
               | (Some True, (P2, N2)) \<Rightarrow>
                   (Some (Inr (length buf)), P2\<lparr>pu_woff := off + of_nat (length buf)\<rparr>, N2)))"

fun push_close_reap :: "'q env \<Rightarrow> nat \<Rightarrow> nat \<Rightarrow> push \<times> 'q net \<Rightarrow> push \<times> 'q net" where
  "push_close_reap E i 0 PN = PN"
| "push_close_reap E i (Suc k) PN =
     (if 0 < pu_outstanding (fst PN) then push_close_reap E i k (push_reap E i True PN) else PN)"

definition aether_net_push_close :: "'q env \<Rightarrow> push \<times> 'q net \<Rightarrow> unit res \<times> push \<times> 'q net" where
  "aether_net_push_close E PN =
     (if \<not> pu_active (fst PN) then (Inl EPIPE, PN)
      else (let i = the (pu_conv (fst PN));
                (P1, N1) = push_close_reap E i 16 PN;
                (_, N2) = m9_rpc E i (m9_tclunk (pu_tag P1) (pu_fid P1)) (e_max_msg E) N1
            in (Inr (), P1\<lparr>pu_tag := pu_tag P1 + 1, pu_active := False, pu_conv := None\<rparr>,
                conv_free E i N2)))"

text \<open>The result is \<open>Inl None\<close> for 0, an error, or the negated step of \<open>m9_open_devfile\<close>.\<close>

definition aether_net_push_ctl ::
    "'q env \<Rightarrow> addr6 \<Rightarrow> byte list \<Rightarrow> bool \<Rightarrow> 'q net \<Rightarrow> (errno option + int) \<times> 'q net" where
  "aether_net_push_ctl E peer file expect_reset N =
     (case conv_alloc E N of
        (None, N1) \<Rightarrow> (Inl (Some ENOSPC), N1)
      | (Some i, N1) \<Rightarrow>
          (let (code, tag, N2) = m9_open_devfile E i 1 file 1 (conv_bind i peer N1)
           in if code < 0 then (Inr code, conv_free E i N2)
              else
               (let (r, N3) = m9_rpc E i (m9_twrite tag 2 0 (ascii ''1'')) (e_max_msg E) N2;
                    ret = (if expect_reset then None
                           else if \<not> reply_is 119 11 r then Some EIO else None);
                    (_, N4) = m9_rpc E i (m9_tclunk (tag + 1) 2) (e_max_msg E) N3
                in (Inl ret, conv_free E i N4))))"

end
