(* ===== verification/NetRecv.thy ===== *)
theory NetRecv
  imports NetReach
begin

text \<open>
  What the mesh callback delivers and to whom, and what the data reads then return.
\<close>

subsection \<open>Acceptance\<close>

text \<open>
  Whether a conversation accepts a datagram, written without the calls: \<open>fwd\<close> is the binding
  from identities to routes. The binding is assumed not to change during one callback.
\<close>

definition accepts :: "(addr6 \<Rightarrow> addr6 option) \<Rightarrow> addr6 \<Rightarrow> addr6 \<Rightarrow> bool \<Rightarrow> 'q conv \<Rightarrow> bool" where
  "accepts fwd src ident bcast c \<longleftrightarrow> cv_in_use c \<and>
     (if bcast then cv_state c = CONV_BCAST
      else cv_state c = CONV_ANNOUNCED \<or>
           cv_state c = CONV_CONNECTED \<and> (fwd (cv_peer c) = Some src \<or> cv_peer c = ident \<or> cv_peer c = src))"

definition binding_during ::
    "'q env \<Rightarrow> 'q net \<Rightarrow> (addr6 \<Rightarrow> addr6 option) \<Rightarrow> (addr6 \<Rightarrow> addr6 option) \<Rightarrow> bool" where
  "binding_during E N fwd back \<longleftrightarrow> (\<forall>ext. length ext \<le> 5 \<longrightarrow>
     e_eui_to_addr E (n_trace N @ ext) = fwd \<and> e_addr_to_eui E (n_trace N @ ext) = back)"

definition ident_of :: "(addr6 \<Rightarrow> addr6 option) \<Rightarrow> frame \<Rightarrow> addr6" where
  "ident_of back f =
     (if fr_bcast f then fr_src f
      else case back (fr_src f) of Some eui \<Rightarrow> eui | None \<Rightarrow> fr_src f)"

definition has_room :: "('q \<Rightarrow> dgram list) \<Rightarrow> ('q \<Rightarrow> nat) \<Rightarrow> 'q conv \<Rightarrow> bool" where
  "has_room cts cap c \<longleftrightarrow> length (cts (cv_rxq c)) < cap (cv_rxq c)"

definition loses :: "(addr6 \<Rightarrow> addr6 option) \<Rightarrow> addr6 \<Rightarrow> addr6 \<Rightarrow> bool \<Rightarrow>
    ('q \<Rightarrow> dgram list) \<Rightarrow> ('q \<Rightarrow> nat) \<Rightarrow> 'q conv \<Rightarrow> bool" where
  "loses fwd src ident bcast cts cap c \<longleftrightarrow> accepts fwd src ident bcast c \<and> \<not> has_room cts cap c"

text \<open>A conversation before and after an offer: only its queue changes, and how.\<close>

definition queued ::
    "('q \<Rightarrow> dgram list) \<Rightarrow> ('q \<Rightarrow> nat) \<Rightarrow> dgram list \<Rightarrow> 'q conv \<Rightarrow> 'q conv \<Rightarrow> bool" where
  "queued cts cap ds c c' \<longleftrightarrow> cv_in_use c' = cv_in_use c \<and> cv_slot c' = cv_slot c \<and>
     cv_state c' = cv_state c \<and> cv_peer c' = cv_peer c \<and> cap (cv_rxq c') = cap (cv_rxq c) \<and>
     cts (cv_rxq c') = cts (cv_rxq c) @ ds"

lemma queued_refl [simp]: "queued cts cap [] c c"
  by (simp add: queued_def)

lemma queued_Nil_accepts: "queued cts cap [] c c' \<Longrightarrow>
    accepts fwd s d b c' = accepts fwd s d b c \<and> has_room cts cap c' = has_room cts cap c"
  by (simp add: queued_def accepts_def has_room_def)

lemma conv_takes_accepts:
  assumes "e_eui_to_addr E (n_trace N) = fwd" and "cv_in_use c"
  shows "fst (conv_takes E s d b c N) = accepts fwd s d b c"
  using assms by (auto simp: conv_takes_def accepts_def eui_to_addr_def split: conv_state.splits)

lemma conv_takes_trace: "\<exists>ext. length ext \<le> 1 \<and> n_trace (snd (conv_takes E s d b c N)) = n_trace N @ ext"
  by (auto simp: conv_takes_def eui_to_addr_def log_call_def
      intro: exI [of _ "[]"] exI [of _ "[CResolve (cv_peer c)]"] split: conv_state.splits)

lemma conv_takes_rest:
  "n_rx_drop (snd (conv_takes E s d b c N)) = n_rx_drop N" "n_rx (snd (conv_takes E s d b c N)) = n_rx N"
  "n_rx_bytes (snd (conv_takes E s d b c N)) = n_rx_bytes N"
  by (simp_all add: conv_takes_def eui_to_addr_def log_call_def split: conv_state.splits)

text \<open>One turn of the loop over the conversations.\<close>

lemma recv_conv_turn:
  fixes E :: "'q env" and N :: "'q net" and s d :: addr6 and b :: bool and p :: "byte list"
  assumes k: "msgq_ok E cts cap" and l: "i < length (n_convs N)"
    and fwd: "e_eui_to_addr E (n_trace N) = fwd"
  defines "N' \<equiv> recv_conv E s d b p i N" and "c \<equiv> conv_of N i"
  shows "queued cts cap (if accepts fwd s d b c \<and> has_room cts cap c then [Dgram d p] else []) c (conv_of N' i)"
    and "j \<noteq> i \<Longrightarrow> conv_of N' j = conv_of N j"
    and "\<exists>ext. length ext \<le> 1 \<and> n_trace N' = n_trace N @ ext"
    and "n_rx_drop N' = n_rx_drop N + (if accepts fwd s d b c \<and> \<not> has_room cts cap c then 1 else 0)"
    and "n_rx N' = n_rx N" and "n_rx_bytes N' = n_rx_bytes N"
proof -
  obtain t N1 where t: "conv_takes E s d b c N = (t, N1)" by fastforce
  have N1: "n_convs N1 = n_convs N" "n_rx_drop N1 = n_rx_drop N" "n_rx N1 = n_rx N"
    "n_rx_bytes N1 = n_rx_bytes N"
    using t ext_frame conv_takes_rest by (metis snd_conv)+
  obtain ext where ext: "length ext \<le> 1" "n_trace N1 = n_trace N @ ext"
    using conv_takes_trace [of E s d b c N] t by auto
  have acc: "cv_in_use c \<Longrightarrow> accepts fwd s d b c = t"
    using conv_takes_accepts [OF fwd, of c s d b] t by simp
  show "\<exists>ext. length ext \<le> 1 \<and> n_trace N' = n_trace N @ ext"
    using ext t by (auto simp: N'_def recv_conv_def c_def upd_conv_def intro: exI [of _ "[]"] split: option.splits)
  show "n_rx N' = n_rx N" "n_rx_bytes N' = n_rx_bytes N" "j \<noteq> i \<Longrightarrow> conv_of N' j = conv_of N j"
    using N1 t by (auto simp: N'_def recv_conv_def c_def upd_conv_def split: option.splits)
  show "queued cts cap (if accepts fwd s d b c \<and> has_room cts cap c then [Dgram d p] else []) c (conv_of N' i)"
    using N1 t acc msgq_put_None [OF k, of "cv_rxq c" "Dgram d p"] msgq_put_Some [OF k, of "cv_rxq c" "Dgram d p"] l
    by (auto simp: N'_def recv_conv_def c_def [symmetric] upd_conv_def queued_def has_room_def
        accepts_def split: option.splits)
  show "n_rx_drop N' = n_rx_drop N + (if accepts fwd s d b c \<and> \<not> has_room cts cap c then 1 else 0)"
    using N1 t acc msgq_put_None [OF k, of "cv_rxq c" "Dgram d p"] l
    by (auto simp: N'_def recv_conv_def c_def [symmetric] upd_conv_def has_room_def
        accepts_def split: option.splits)
qed

text \<open>The whole loop, over any list of distinct slots.\<close>

lemma fold_recv_conv:
  fixes E :: "'q env" and N :: "'q net" and s d :: addr6 and b :: bool and p :: "byte list"
  assumes k: "msgq_ok E cts cap"
    and "distinct is" and "\<forall>i\<in>set is. i < length (n_convs N)"
    and "\<forall>ext. length ext \<le> length is \<longrightarrow> e_eui_to_addr E (n_trace N @ ext) = fwd"
  shows "(\<forall>i. queued cts cap (if i \<in> set is \<and> accepts fwd s d b (conv_of N i) \<and> has_room cts cap (conv_of N i)
              then [Dgram d p] else []) (conv_of N i) (conv_of (fold (recv_conv E s d b p) is N) i)) \<and>
    n_rx_drop (fold (recv_conv E s d b p) is N) = n_rx_drop N + of_nat (length (filter (\<lambda>i. loses fwd s d b cts cap (conv_of N i)) is)) \<and>
    n_rx (fold (recv_conv E s d b p) is N) = n_rx N \<and>
    n_rx_bytes (fold (recv_conv E s d b p) is N) = n_rx_bytes N"
  using assms(2-4)
proof (induction "is" arbitrary: N)
  case Nil
  then show ?case by simp
next
  case (Cons i "is")
  let ?N = "recv_conv E s d b p i N"
  have fwd: "e_eui_to_addr E (n_trace N) = fwd" using Cons.prems(3) [rule_format, of "[]"] by simp
  have li: "i < length (n_convs N)" using Cons.prems(2) by simp
  note turn = recv_conv_turn [OF k li fwd, where s = s and d = d and b = b and p = p]
  obtain ext where ext: "length ext \<le> 1" "n_trace ?N = n_trace N @ ext" using turn(3) by blast
  have "\<forall>ext'. length ext' \<le> length is \<longrightarrow> e_eui_to_addr E (n_trace ?N @ ext') = fwd"
    using Cons.prems(3) ext by simp
  then have IH: "(\<forall>j. queued cts cap (if j \<in> set is \<and> accepts fwd s d b (conv_of ?N j) \<and> has_room cts cap (conv_of ?N j)
              then [Dgram d p] else []) (conv_of ?N j) (conv_of (fold (recv_conv E s d b p) is ?N) j)) \<and>
    n_rx_drop (fold (recv_conv E s d b p) is ?N) = n_rx_drop ?N + of_nat (length (filter (\<lambda>i. loses fwd s d b cts cap (conv_of ?N i)) is)) \<and>
    n_rx (fold (recv_conv E s d b p) is ?N) = n_rx ?N \<and>
    n_rx_bytes (fold (recv_conv E s d b p) is ?N) = n_rx_bytes ?N"
    using Cons by simp
  have others: "conv_of ?N j = conv_of N j" if "j \<in> set is" for j
    using turn(2) [of j] Cons.prems(1) that by force
  then have "filter (\<lambda>i. loses fwd s d b cts cap (conv_of ?N i)) is = filter (\<lambda>i. loses fwd s d b cts cap (conv_of N i)) is"
    by (intro filter_cong) (simp_all add: loses_def)
  then have drop: "n_rx_drop (fold (recv_conv E s d b p) is ?N)
      = n_rx_drop N + of_nat (length (filter (\<lambda>i. loses fwd s d b cts cap (conv_of N i)) (i # is)))"
    using IH turn(4) by (simp add: loses_def)
  have "queued cts cap (if j \<in> set (i # is) \<and> accepts fwd s d b (conv_of N j) \<and> has_room cts cap (conv_of N j)
      then [Dgram d p] else []) (conv_of N j) (conv_of (fold (recv_conv E s d b p) is ?N) j)" for j
  proof (cases "j = i")
    case True
    then have "i \<notin> set is" using Cons.prems(1) by simp
    then have "queued cts cap [] (conv_of ?N i) (conv_of (fold (recv_conv E s d b p) is ?N) i)"
      using IH [THEN conjunct1, rule_format, of i] by simp
    then show ?thesis using turn(1) True by (auto simp: queued_def)
  next
    case False
    then show ?thesis using IH [THEN conjunct1, rule_format, of j] turn(2) [OF False] by simp
  qed
  then show ?case using IH drop turn(5,6) by simp
qed

text \<open>The callback is the loop, started after the identity was looked up.\<close>

lemma recv_cb_loop:
  assumes b: "binding_during E N fwd back"
  obtains N2 where "aether_recv_cb E f N =
      fold (recv_conv E (fr_src f) (ident_of back f) (fr_bcast f) (take (e_max_msg E) (fr_payload f)))
        [0..<AETHER_MAX_CONNS] N2"
    and "n_convs N2 = n_convs N" and "n_rx_drop N2 = n_rx_drop N" and "n_rx N2 = n_rx N + 1"
    and "n_rx_bytes N2 = n_rx_bytes N + of_nat (length (take (e_max_msg E) (fr_payload f)))"
    and "\<forall>ext. length ext \<le> 4 \<longrightarrow> e_eui_to_addr E (n_trace N2 @ ext) = fwd"
proof -
  obtain idt N1 where r: "recv_ident E f N = (idt, N1)" by fastforce
  have bk: "e_addr_to_eui E (n_trace N) = back"
    using b by (auto simp: binding_during_def dest: spec [of _ "[]"])
  have i: "idt = ident_of back f" "n_convs N1 = n_convs N" "n_rx_drop N1 = n_rx_drop N" "n_rx N1 = n_rx N"
    "n_rx_bytes N1 = n_rx_bytes N"
    using r bk by (auto simp: recv_ident_def ident_of_def addr_to_eui_def log_call_def
        split: if_splits option.splits)
  let ?e0 = "if fr_bcast f then [] else [CReverse (fr_src f)]"
  have e0: "n_trace N1 = n_trace N @ ?e0"
    using r by (auto simp: recv_ident_def addr_to_eui_def log_call_def split: if_splits option.splits)
  have "e_eui_to_addr E (n_trace N1 @ ext) = fwd" if "length ext \<le> 4" for ext
    using b [unfolded binding_during_def, rule_format, of "?e0 @ ext"] e0 that by (simp split: if_splits)
  then show thesis
    using i r by (intro that [of "N1\<lparr>n_rx := n_rx N1 + 1,
        n_rx_bytes := n_rx_bytes N1 + of_nat (length (take (e_max_msg E) (fr_payload f)))\<rparr>"])
      (simp_all add: aether_recv_cb_def)
qed

text \<open>
  C8. A datagram from the mesh is put, once, at the end of the queue of exactly those
  conversations in use that accept it and have room: announced ones take any unicast, connected
  ones a unicast of their peer (its current route, its identity or its raw address), broadcast
  ones any broadcast. What is queued carries the sender's durable identity when the mesh knows
  it, and the payload cut to the datagram ceiling. Nothing else of any conversation changes.
\<close>

theorem recv_delivers:
  assumes k: "msgq_ok E cts cap" and w: "net_wf E cts cap N"
    and b: "binding_during E N fwd back" and i: "i < AETHER_MAX_CONNS"
  shows "queued cts cap
     (if accepts fwd (fr_src f) (ident_of back f) (fr_bcast f) (conv_of N i) \<and> has_room cts cap (conv_of N i)
      then [Dgram (ident_of back f) (take (e_max_msg E) (fr_payload f))] else [])
     (conv_of N i) (conv_of (aether_recv_cb E f N) i)"
proof -
  obtain N2 where N2: "aether_recv_cb E f N =
      fold (recv_conv E (fr_src f) (ident_of back f) (fr_bcast f) (take (e_max_msg E) (fr_payload f)))
        [0..<AETHER_MAX_CONNS] N2" "n_convs N2 = n_convs N"
    "\<forall>ext. length ext \<le> 4 \<longrightarrow> e_eui_to_addr E (n_trace N2 @ ext) = fwd"
    using recv_cb_loop [OF b, of f] by metis
  have A: "\<forall>i\<in>set [0..<AETHER_MAX_CONNS]. i < length (n_convs N2)"
    using net_wf_length [OF w] N2(2) by simp
  have B: "\<forall>ext. length ext \<le> length [0..<AETHER_MAX_CONNS] \<longrightarrow> e_eui_to_addr E (n_trace N2 @ ext) = fwd"
    using N2 by simp
  show ?thesis
    using fold_recv_conv [OF k distinct_upt A B, THEN conjunct1, THEN spec [of _ i], of "fr_src f"
        "ident_of back f" "fr_bcast f" "take (e_max_msg E) (fr_payload f)"] N2(1,2) i
    by (simp del: upt_rec_numeral)
qed

text \<open>
  The counters of \<open>/net/aether/stats\<close> are exact, modulo their 32 bits: one reception per
  callback, its bytes after the cut, and one drop for every conversation that accepts the
  datagram but has no room for it.
\<close>

theorem recv_counts:
  assumes k: "msgq_ok E cts cap" and w: "net_wf E cts cap N" and b: "binding_during E N fwd back"
  shows "n_rx (aether_recv_cb E f N) = n_rx N + 1 \<and>
    n_rx_bytes (aether_recv_cb E f N) = n_rx_bytes N + of_nat (min (e_max_msg E) (length (fr_payload f))) \<and>
    n_rx_drop (aether_recv_cb E f N) = n_rx_drop N + of_nat (length (filter
      (\<lambda>i. loses fwd (fr_src f) (ident_of back f) (fr_bcast f) cts cap (conv_of N i))
      [0..<AETHER_MAX_CONNS]))"
proof -
  obtain N2 where N2: "aether_recv_cb E f N =
      fold (recv_conv E (fr_src f) (ident_of back f) (fr_bcast f) (take (e_max_msg E) (fr_payload f)))
        [0..<AETHER_MAX_CONNS] N2" "n_convs N2 = n_convs N" "n_rx_drop N2 = n_rx_drop N"
    "n_rx N2 = n_rx N + 1"
    "n_rx_bytes N2 = n_rx_bytes N + of_nat (length (take (e_max_msg E) (fr_payload f)))"
    "\<forall>ext. length ext \<le> 4 \<longrightarrow> e_eui_to_addr E (n_trace N2 @ ext) = fwd"
    using recv_cb_loop [OF b, of f] by metis
  have "\<forall>i\<in>set [0..<AETHER_MAX_CONNS]. i < length (n_convs N2)"
    using net_wf_length [OF w] N2(2) by simp
  moreover have "\<forall>ext. length ext \<le> length [0..<AETHER_MAX_CONNS] \<longrightarrow> e_eui_to_addr E (n_trace N2 @ ext) = fwd"
    using N2 by simp
  ultimately show ?thesis
    using fold_recv_conv [OF k distinct_upt [of 0 AETHER_MAX_CONNS], where N = N2 and fwd = fwd and s = "fr_src f"
        and d = "ident_of back f" and b = "fr_bcast f" and p = "take (e_max_msg E) (fr_payload f)"] N2 
    by (simp del: upt_rec_numeral add: min.commute)
qed

end
