(* ===== verification/NetData.thy ===== *)
theory NetData
  imports NetRecv
begin

text \<open>
  The functional behaviour of the files of a conversation, branch by branch: addresses and the
  ctl grammar, the data file, hang-up, and the offset reads of the text files and directories.
\<close>

subsection \<open>Nodes of a slot\<close>

lemma slot_file_fields [net_simps]:
  "nd_kind (slot_file E q i s k) = k" "nd_conv (slot_file E q i s k) = Some i"
  "nd_isdir (slot_file E q i s k) = False" "nd_name (slot_file E q i s k) = take (e_name_cap E - 1) (ascii s)"
  by (simp_all add: slot_file_def node_zero_def)

lemma slot_nodes [net_simps]:
  assumes "slot_built E nodes i"
  shows "nd_kind (nodes (NCtl i)) = K_CTL" "nd_conv (nodes (NCtl i)) = Some i"
    "nd_kind (nodes (NData i)) = K_DATA" "nd_conv (nodes (NData i)) = Some i"
    "nd_kind (nodes (NRemote i)) = K_REMOTE" "nd_conv (nodes (NRemote i)) = Some i"
    "nd_kind (nodes (NLocal i)) = K_LOCAL" "nd_conv (nodes (NLocal i)) = Some i"
    "nd_kind (nodes (NStatus i)) = K_CSTATUS" "nd_conv (nodes (NStatus i)) = Some i"
    "nd_kind (nodes (NDir i)) = K_CONVDIR" "nd_conv (nodes (NDir i)) = Some i"
  using assms by (auto simp: slot_built_def net_simps slot_dir_def node_zero_def)

lemma slot_in_use:
  assumes "net_wf E cts cap N" and "i < AETHER_MAX_CONNS" and "cv_in_use (conv_of N i)"
  shows "slot_built E (n_nodes N) i" "cv_slot (conv_of N i) = i" "cap (cv_rxq (conv_of N i)) = AETHER_RXQ_DEPTH"
    "length (cts (cv_rxq (conv_of N i))) \<le> AETHER_RXQ_DEPTH" "i < length (n_convs N)"
  using assms by (auto simp: net_wf_def tree_wf_def queues_wf_def slots_in_use_def)

lemma read_NData: "slot_built E (n_nodes N) i \<Longrightarrow>
    anet_read E (NData i) off cnt N = read_data E (Some i) cnt N"
  by (simp add: anet_read_def net_simps)

lemma write_NData: "slot_built E (n_nodes N) i \<Longrightarrow>
    anet_write E (NData i) buf N = write_data E (Some i) buf N"
  by (simp add: anet_write_def net_simps Let_def)

lemma write_NCtl: "slot_built E (n_nodes N) i \<Longrightarrow>
    anet_write E (NCtl i) buf N =
      (case ctl_exec E i (ctl_command buf) N of
         (Inl e, N') \<Rightarrow> (Inl e, N') | (Inr _, N') \<Rightarrow> (Inr (length buf), N'))"
  by (simp add: anet_write_def net_simps Let_def)

lemma clunk_NCtl: "slot_built E (n_nodes N) i \<Longrightarrow> anet_clunk E (NCtl i) N = conv_free E i N"
  by (simp add: anet_clunk_def net_simps)

subsection \<open>Addresses\<close>

lemma hexval_colon [simp]: "hexval colon = None" "hexval nl = None"
  by (simp_all add: hexval_def)

lemma scan_colon_step:
  "scan_colon_x (Suc n) (fmt_02x b @ colon # s) = ucast b # scan_colon_x n s"
  by (simp add: scan_x_fmt_02x)

lemma scan_colon_last:
  "rest = [] \<or> hexval (hd rest) = None \<Longrightarrow> scan_colon_x (Suc 0) (fmt_02x b @ rest) = [ucast b]"
  by (simp add: scan_x_fmt_02x split: list.splits)

lemma byte_le_ff: "\<not> 0xff < (ucast (b :: byte) :: u32)"
proof -
  have "unat b < 2 ^ 32" using unat_byte [of b] by simp
  then have "unat (ucast b :: u32) = unat b" by (simp add: unsigned_ucast_eq take_bit_nat_eq_self)
  then show ?thesis using unat_byte [of b] by (simp add: word_less_nat_alt)
qed

lemma ucast_ucast_byte [simp]: "ucast (ucast (b :: byte) :: u32) = b"
  by (rule bit_word_eqI) (simp add: bit_simps)

text \<open>\<open>parse_addr\<close> reads back what \<open>fmt_addr\<close> prints, whatever follows that is no hex digit.\<close>

lemma parse_addr_fmt:
  "rest = [] \<or> hexval (hd rest) = None \<Longrightarrow> parse_addr (fmt_addr a @ rest) = Inr a"
proof -
  assume r: "rest = [] \<or> hexval (hd rest) = None"
  obtain a0 a1 a2 a3 a4 a5 where a: "a = Addr6 a0 a1 a2 a3 a4 a5" by (cases a)
  have "scan_colon_x 6 (fmt_addr a @ rest) = map ucast [a0, a1, a2, a3, a4, a5]"
    using r by (simp add: a fmt_addr_def numeral_eq_Suc scan_colon_step scan_colon_last
        del: scan_colon_x.simps)
  then show ?thesis by (simp add: parse_addr_def Let_def byte_le_ff addr_at_def a)
qed

lemma length_fmt_addr [simp]: "length (fmt_addr a) = 17"
  by (cases a) (simp add: fmt_addr_def)

lemma fmt_addr_chars: "0 \<notin> set (fmt_addr a)" "nl \<notin> set (fmt_addr a)" "cr \<notin> set (fmt_addr a)"
    "space \<notin> set (fmt_addr a)"
  by (cases a; simp add: fmt_addr_def fmt_02x_no_nul)+

subsection \<open>ctl\<close>

lemma ctl_command_plain:
  assumes "length cmd \<le> 62" and "0 \<notin> set cmd" and "cmd \<noteq> []" and "last cmd \<notin> {nl, cr, space}"
  shows "ctl_command (cmd @ [nl]) = cmd" "ctl_command cmd = cmd"
proof -
  let ?p = "\<lambda>b. b = nl \<or> b = cr \<or> b = space"
  have s: "strip_end ?p cmd = cmd" using assms by (intro strip_end_id) auto
  then have "strip_end ?p (cmd @ [nl]) = cmd" by simp
  then show "ctl_command (cmd @ [nl]) = cmd" using assms by (simp add: ctl_command_def cstr_id)
  show "ctl_command cmd = cmd" using assms s by (simp add: ctl_command_def cstr_id)
qed

definition connect_cmd :: "addr6 \<Rightarrow> byte list" where
  "connect_cmd a = ascii ''connect '' @ fmt_addr a"

lemma connect_cmd_command: "ctl_command (connect_cmd a @ [nl]) = connect_cmd a"
proof (rule ctl_command_plain)
  show "length (connect_cmd a) \<le> 62" "connect_cmd a \<noteq> []" by (simp_all add: connect_cmd_def ascii_def)
  show "0 \<notin> set (connect_cmd a)" using fmt_addr_chars by (simp add: connect_cmd_def ascii_def)
  have "fmt_addr a \<noteq> []" using length_fmt_addr [of a] by fastforce
  then have "last (connect_cmd a) \<in> set (fmt_addr a)" by (simp add: connect_cmd_def)
  then show "last (connect_cmd a) \<notin> {nl, cr, space}" using fmt_addr_chars by fastforce
qed

lemma ctl_exec_connect: "cv_state (conv_of N i) = CONV_UNCONNECTED \<Longrightarrow>
    ctl_exec E i (connect_cmd a) N =
      (if a = addr_bcast then (Inr (), upd_conv i (\<lambda>c. c\<lparr>cv_state := CONV_BCAST\<rparr>) N)
       else (Inr (), upd_conv i (\<lambda>c. c\<lparr>cv_peer := a, cv_state := CONV_CONNECTED\<rparr>) N))"
  using parse_addr_fmt [of "[]" a] by (simp add: ctl_exec_def connect_cmd_def)

text \<open>
  Binding a conversation and reading the binding back: on an unconnected conversation,
  writing \<open>connect <addr>\<close> to its ctl file consumes the whole write; \<open>remote\<close> then reads the
  address followed by a newline and \<open>status\<close> reads \<open>connected aether!<addr> reliable\<close>. Every
  other conversation, every queue and the tree are untouched.
\<close>

theorem connect_readback:
  assumes w: "net_wf E cts cap N" and i: "i < AETHER_MAX_CONNS" and u: "cv_in_use (conv_of N i)"
    and st: "cv_state (conv_of N i) = CONV_UNCONNECTED" and a: "a \<noteq> addr_bcast" and c: "64 \<le> cnt"
  shows "\<exists>N'. anet_write E (NCtl i) (connect_cmd a @ [nl]) N = (Inr 26, N') \<and>
    fst (anet_read E (NRemote i) 0 cnt N') = Returns (Inr (fmt_addr a @ [nl])) \<and>
    fst (anet_read E (NStatus i) 0 cnt N')
      = Returns (Inr (ascii ''connected aether!'' @ fmt_addr a @ ascii '' reliable'' @ [nl])) \<and>
    conv_of N' i = (conv_of N i)\<lparr>cv_peer := a, cv_state := CONV_CONNECTED\<rparr> \<and>
    tree_view N' = tree_view N \<and> (\<forall>j. j \<noteq> i \<longrightarrow> conv_of N' j = conv_of N j)"
proof -
  note s = slot_in_use [OF w i u]
  let ?N' = "upd_conv i (\<lambda>c. c\<lparr>cv_peer := a, cv_state := CONV_CONNECTED\<rparr>) N"
  have c': "conv_of ?N' i = (conv_of N i)\<lparr>cv_peer := a, cv_state := CONV_CONNECTED\<rparr>"
    using s by (simp add: net_simps)
  have b: "slot_built E (n_nodes ?N') i" using s by (simp add: upd_conv_def)
  have wr: "anet_write E (NCtl i) (connect_cmd a @ [nl]) N = (Inr 26, ?N')"
    using s st a by (simp add: write_NCtl connect_cmd_command ctl_exec_connect) (simp add: connect_cmd_def)
  have "fst (anet_read E (NRemote i) 0 cnt ?N') = Returns (Inr (fmt_addr a @ [nl]))"
    "fst (anet_read E (NStatus i) 0 cnt ?N')
      = Returns (Inr (ascii ''connected aether!'' @ fmt_addr a @ ascii '' reliable'' @ [nl]))"
    using c by (simp_all add: anet_read_def Let_def slot_nodes [OF b] file_text_def c' segment_all)
  moreover have "tree_view ?N' = tree_view N" by (simp add: net_simps conv_shape_def)
  ultimately show ?thesis using wr c' by (auto simp: upd_conv_def)
qed

text \<open>
  The ctl grammar refuses what it must: anything but \<open>hangup\<close> on a conversation that is
  already bound or announced, and any command that is neither \<open>connect\<close> with a readable
  address, \<open>announce\<close> nor \<open>hangup\<close>, is answered with \<open>EINVAL\<close> and changes nothing.
\<close>

theorem ctl_refuses:
  assumes w: "net_wf E cts cap N" and i: "i < AETHER_MAX_CONNS" and u: "cv_in_use (conv_of N i)"
    and nh: "ctl_command buf \<noteq> ascii ''hangup''"
    and bad: "cv_state (conv_of N i) \<noteq> CONV_UNCONNECTED \<or>
      ctl_command buf \<noteq> ascii ''announce'' \<and>
      (is_prefix (ascii ''connect '') (ctl_command buf) \<longrightarrow>
         parse_addr (drop 8 (ctl_command buf)) = Inl EINVAL)"
  shows "anet_write E (NCtl i) buf N = (Inl EINVAL, N)"
  using bad nh by (auto simp: write_NCtl [OF slot_in_use(1) [OF w i u]] ctl_exec_def)

subsection \<open>Hang-up\<close>

text \<open>A conversation that only holds the end marker: one read returns EOF, the next blocks.\<close>

lemma read_eof_then_blocks:
  assumes k: "msgq_ok E cts cap" and b: "slot_built E (n_nodes N) i" and l: "i < length (n_convs N)"
    and q: "cts (cv_rxq (conv_of N i)) = [dgram_eof]"
  shows "\<exists>N'. anet_read E (NData i) off cnt N = (Returns (Inr []), N') \<and>
    anet_read E (NData i) off' cnt' N' = (Blocks, N')"
proof -
  obtain d q' where g: "e_mq_get E (cv_rxq (conv_of N i)) = Some (d, q')"
    using msgq_get_None [OF k, of "cv_rxq (conv_of N i)"] q by (cases "e_mq_get E (cv_rxq (conv_of N i))") auto
  then have d: "d = dgram_eof" "cts q' = []" using msgq_get_Some [OF k g] q by auto
  let ?N' = "upd_conv i (\<lambda>cv. cv\<lparr>cv_rxq := q'\<rparr>) N"
  have "slot_built E (n_nodes ?N') i" "e_mq_get E q' = None"
    using b d msgq_get_None [OF k, of q'] by (simp_all add: upd_conv_def)
  then show ?thesis
    using g d b l by (simp add: read_NData read_data_def dgram_eof_def Let_def net_simps)
qed

text \<open>
  Clunking the ctl fid hangs the conversation up for good: the slot is free again, its
  directory is gone from the root, every datagram still queued is dropped, and a reader of its
  data file, blocked or not yet reading, gets end of file exactly once, even if the queue was full.
\<close>

theorem clunk_hangs_up:
  assumes k: "msgq_ok E cts cap" and w: "net_wf E cts cap N" and i: "i < AETHER_MAX_CONNS"
    and u: "cv_in_use (conv_of N i)"
  shows "\<exists>N'. N' = anet_clunk E (NCtl i) N \<and> \<not> cv_in_use (conv_of N' i) \<and>
    NDir i \<notin> set (nd_children (n_nodes N' NRoot)) \<and>
    cts (cv_rxq (conv_of N' i)) = [dgram_eof] \<and>
    (\<exists>N''. anet_read E (NData i) off cnt N' = (Returns (Inr []), N'') \<and>
       anet_read E (NData i) off' cnt' N'' = (Blocks, N''))"
proof -
  note s = slot_in_use [OF w i u]
  let ?N' = "conv_free E i N"
  have c: "conv_of ?N' i = (conv_of N i)\<lparr>cv_rxq := mq_put_or_drop E dgram_eof
      (e_mq_purge E (cv_rxq (conv_of N i))), cv_in_use := False, cv_state := CONV_UNCONNECTED\<rparr>"
    using s u by (simp add: conv_free_convs)
  have q: "cts (cv_rxq (conv_of ?N' i)) = [dgram_eof]" using s msgq_hangup [OF k] by (simp add: c)
  have l: "i < length (n_convs ?N')" using s u by (simp add: conv_free_convs)
  have "tree_wf E ?N'" using w i tree_wf_free by (auto simp: net_wf_def)
  then have "NDir i \<notin> set (nd_children (n_nodes ?N' NRoot))"
    using i c by (auto simp: tree_wf_def root_dir_def static_nodes_def slots_in_use_def)
  moreover have b: "slot_built E (n_nodes ?N') i" using s by simp
  ultimately show ?thesis
    using read_eof_then_blocks [OF k b l q] c q s by (simp add: clunk_NCtl)
qed

text \<open>
  \<open>hangup\<close> written to ctl ends the binding but keeps the slot: the peer is forgotten, the
  queue holds the end marker alone, and the data file reads end of file exactly once.
\<close>

theorem hangup_ends:
  assumes k: "msgq_ok E cts cap" and w: "net_wf E cts cap N" and i: "i < AETHER_MAX_CONNS"
    and u: "cv_in_use (conv_of N i)"
  shows "\<exists>N'. anet_write E (NCtl i) (ascii ''hangup'' @ [nl]) N = (Inr 7, N') \<and>
    cv_in_use (conv_of N' i) \<and> cv_state (conv_of N' i) = CONV_UNCONNECTED \<and>
    cv_peer (conv_of N' i) = addr_zero \<and> cts (cv_rxq (conv_of N' i)) = [dgram_eof] \<and>
    (\<exists>N''. anet_read E (NData i) off cnt N' = (Returns (Inr []), N'') \<and>
       anet_read E (NData i) off' cnt' N'' = (Blocks, N''))"
proof -
  note s = slot_in_use [OF w i u]
  let ?N' = "upd_conv i (\<lambda>c. c\<lparr>cv_state := CONV_UNCONNECTED, cv_peer := addr_zero,
      cv_rxq := mq_put_or_drop E dgram_eof (e_mq_purge E (cv_rxq c))\<rparr>) N"
  have "ctl_command (ascii ''hangup'' @ [nl]) = ascii ''hangup''" by code_simp
  then have wr: "anet_write E (NCtl i) (ascii ''hangup'' @ [nl]) N = (Inr 7, ?N')"
    using s by (simp add: write_NCtl ctl_exec_def is_prefix_def ascii_def)
  have q: "cts (cv_rxq (conv_of ?N' i)) = [dgram_eof]"
    using s msgq_hangup [OF k] by (simp add: net_simps)
  have b: "slot_built E (n_nodes ?N') i" and l: "i < length (n_convs ?N')"
    using s by (simp_all add: upd_conv_def)
  show ?thesis
    using read_eof_then_blocks [OF k b l q] wr q s u by (auto simp: net_simps)
qed

subsection \<open>The data file\<close>

definition src_prefixed :: "conv_state \<Rightarrow> bool" where
  "src_prefixed st \<longleftrightarrow> st = CONV_ANNOUNCED \<or> st = CONV_BCAST"

text \<open>The oldest datagram is read.\<close>

lemma read_oldest:
  assumes k: "msgq_ok E cts cap" and w: "net_wf E cts cap N" and i: "i < AETHER_MAX_CONNS"
    and u: "cv_in_use (conv_of N i)" and q: "cts (cv_rxq (conv_of N i)) = d # ds"
  defines "msg \<equiv> (if src_prefixed (cv_state (conv_of N i)) then addr_bytes (dg_src d) else []) @ dg_data d"
  shows "\<exists>N'. anet_read E (NData i) off cnt N =
      (Returns (if dg_data d = [] then Inr [] else if cnt < length msg then Inl EMSGSIZE else Inr msg), N') \<and>
    cts (cv_rxq (conv_of N' i)) = ds \<and> cv_state (conv_of N' i) = cv_state (conv_of N i) \<and>
    (\<forall>j. j \<noteq> i \<longrightarrow> conv_of N' j = conv_of N j)"
proof -
  note s = slot_in_use [OF w i u]
  obtain d' q' where g: "e_mq_get E (cv_rxq (conv_of N i)) = Some (d', q')"
    using msgq_get_None [OF k, of "cv_rxq (conv_of N i)"] q by (cases "e_mq_get E (cv_rxq (conv_of N i))") auto
  then have "d' = d" "cts q' = ds" using msgq_get_Some [OF k g] q by auto
  then show ?thesis
    using g s by (auto simp: read_NData read_data_def Let_def net_simps msg_def src_prefixed_def)
qed

text \<open>
  A read of the data file takes exactly the oldest datagram of the conversation and returns
  it whole: the payload alone when connected, the sender's six bytes before it when announced or
  broadcast. If the client's buffer is too small the answer is \<open>EMSGSIZE\<close>, and the datagram is
  gone all the same. A datagram with no payload reads as end of file.
\<close>

theorem data_read_takes_oldest:
  assumes k: "msgq_ok E cts cap" and w: "net_wf E cts cap N" and i: "i < AETHER_MAX_CONNS"
    and u: "cv_in_use (conv_of N i)" and q: "cts (cv_rxq (conv_of N i)) = d # ds"
  defines "msg \<equiv> (if src_prefixed (cv_state (conv_of N i)) then addr_bytes (dg_src d) else []) @ dg_data d"
  shows "\<exists>N'. anet_read E (NData i) off cnt N =
      (Returns (if dg_data d = [] then Inr [] else if cnt < length msg then Inl EMSGSIZE else Inr msg), N') \<and>
    cts (cv_rxq (conv_of N' i)) = ds \<and> cv_state (conv_of N' i) = cv_state (conv_of N i) \<and>
    (\<forall>j. j \<noteq> i \<longrightarrow> conv_of N' j = conv_of N j)"
  using read_oldest [OF k w i u q, of off cnt] unfolding msg_def by blast

text \<open>
  A write to the data file of a connected conversation sends the bytes written, once, to the
  peer's current route if the mesh knows one and to the stored address otherwise, and counts
  them; a datagram above the ceiling is refused before anything is sent; a failed send is
  reported and counted. The conversations are untouched.
\<close>

theorem connected_write:
  assumes w: "net_wf E cts cap N" and i: "i < AETHER_MAX_CONNS" and u: "cv_in_use (conv_of N i)"
    and st: "cv_state (conv_of N i) = CONV_CONNECTED" and wr: "anet_write E (NData i) buf N = (r, N')"
  defines "peer \<equiv> cv_peer (conv_of N i)"
  defines "dst \<equiv> (case e_eui_to_addr E (n_trace N) peer of Some r \<Rightarrow> r | None \<Rightarrow> peer)"
  shows "n_convs N' = n_convs N \<and>
    (if e_max_msg E < length buf
     then r = Inl EMSGSIZE \<and> n_trace N' = n_trace N @ [CResolve peer] \<and> n_tx N' = n_tx N
     else n_trace N' = n_trace N @ [CResolve peer, CReliable dst buf AETHER_NET_RETRIES] \<and>
       (case e_send_reliable E (n_trace N @ [CResolve peer]) dst buf of
          Inl e \<Rightarrow> r = Inl e \<and> n_tx_err N' = n_tx_err N + 1 \<and> n_tx N' = n_tx N
        | Inr _ \<Rightarrow> r = Inr (length buf) \<and> n_tx N' = n_tx N + 1 \<and>
            n_tx_bytes N' = n_tx_bytes N + of_nat (length buf) \<and> n_tx_err N' = n_tx_err N))"
proof -
  note s = slot_in_use [OF w i u]
  show ?thesis
    using st wr by (auto simp: write_NData [OF s(1)] write_data_def send_unicast_def resolve_dst_def
        eui_to_addr_def mesh_send_reliable_def count_tx_def log_call_def dst_def peer_def
        split: option.splits sum.splits if_splits)
qed

text \<open>
  A write to an announced conversation is a reply: its first six bytes name the destination
  (resolved like a connected peer), the rest is what is sent, and the whole write counts as
  consumed. Fewer than six bytes are \<open>EINVAL\<close>; an unconnected conversation is \<open>ENOTCONN\<close>.
\<close>

theorem announced_write:
  assumes w: "net_wf E cts cap N" and i: "i < AETHER_MAX_CONNS" and u: "cv_in_use (conv_of N i)"
    and st: "cv_state (conv_of N i) = CONV_ANNOUNCED \<or> cv_state (conv_of N i) = CONV_UNCONNECTED"
    and room: "length payload \<le> e_max_msg E"
  defines "dst to \<equiv> (case e_eui_to_addr E (n_trace N) to of Some r \<Rightarrow> r | None \<Rightarrow> to)"
  shows "if cv_state (conv_of N i) = CONV_UNCONNECTED
     then anet_write E (NData i) short N = (Inl ENOTCONN, N)
     else (length short < 6 \<longrightarrow> anet_write E (NData i) short N = (Inl EINVAL, N)) \<and>
       n_trace (snd (anet_write E (NData i) (addr_bytes to @ payload) N))
         = n_trace N @ [CResolve to, CReliable (dst to) payload AETHER_NET_RETRIES] \<and>
       fst (anet_write E (NData i) (addr_bytes to @ payload) N)
         = (case e_send_reliable E (n_trace N @ [CResolve to]) (dst to) payload of
              Inl e \<Rightarrow> Inl e | Inr _ \<Rightarrow> Inr (6 + length payload))"
proof -
  note s = slot_in_use [OF w i u]
  show ?thesis
    using st room by (auto simp: write_NData [OF s(1)] write_data_def send_unicast_def resolve_dst_def
        eui_to_addr_def mesh_send_reliable_def count_tx_def log_call_def dst_def
        split: option.splits sum.splits)
qed

subsection \<open>Broadcast\<close>

definition is_csend :: "mesh_call \<Rightarrow> bool" where
  "is_csend c \<longleftrightarrow> (case c of CSend _ _ \<Rightarrow> True | _ \<Rightarrow> False)"

lemma bcast_loop_calls:
  "bcast_loop E k first buf N = (r, N') \<Longrightarrow> \<exists>ext. n_trace N' = n_trace N @ ext \<and>
     set ext \<subseteq> {CBackoff, CSend addr_bcast buf} \<and> length (filter is_csend ext) \<le> k \<and>
     (r \<noteq> Inl EBUSY \<longrightarrow> (\<exists>pre. ext = pre @ [CSend addr_bcast buf] \<and>
        r = e_send E (n_trace N @ pre) addr_bcast buf)) \<and>
     (r = Inl EBUSY \<longrightarrow> length (filter is_csend ext) = k)"
proof (induction E k first buf N arbitrary: r N' rule: bcast_loop.induct)
  case (1 E first buf N)
  then show ?case by auto
next
  case (2 E tries first buf N)
  let ?N1 = "if first then N else log_call CBackoff N"
  let ?p = "if first then [] else [CBackoff]"
  have t1: "n_trace ?N1 = n_trace N @ ?p" by (simp add: log_call_def)
  obtain r1 N2 where s: "mesh_send E addr_bcast buf ?N1 = (r1, N2)" by fastforce
  then have r1: "r1 = e_send E (n_trace N @ ?p) addr_bcast buf"
    and t2: "n_trace N2 = n_trace N @ ?p @ [CSend addr_bcast buf]"
    by (auto simp: mesh_send_def log_call_def)
  show ?case
  proof (cases "r1 = Inl EBUSY")
    case True
    then have "bcast_loop E tries False buf N2 = (r, N')" using "2.prems" s by simp
    from "2.IH" [OF refl s [symmetric] _ refl this] True obtain ext where
      ext: "n_trace N' = n_trace N2 @ ext" "set ext \<subseteq> {CBackoff, CSend addr_bcast buf}"
        "length (filter is_csend ext) \<le> tries"
        "r \<noteq> Inl EBUSY \<longrightarrow> (\<exists>pre. ext = pre @ [CSend addr_bcast buf] \<and> r = e_send E (n_trace N2 @ pre) addr_bcast buf)"
        "r = Inl EBUSY \<longrightarrow> length (filter is_csend ext) = tries" by auto
    let ?e = "?p @ [CSend addr_bcast buf] @ ext"
    have f: "filter is_csend ?e = CSend addr_bcast buf # filter is_csend ext" by (simp add: is_csend_def)
    have "r \<noteq> Inl EBUSY \<longrightarrow> (\<exists>pre. ?e = pre @ [CSend addr_bcast buf] \<and> r = e_send E (n_trace N @ pre) addr_bcast buf)"
      using ext(4) t2 by (metis append.assoc)
    moreover have "n_trace N' = n_trace N @ ?e" "set ?e \<subseteq> {CBackoff, CSend addr_bcast buf}"
      using ext t2 by auto
    moreover have "length (filter is_csend ?e) \<le> Suc tries"
      "r = Inl EBUSY \<longrightarrow> length (filter is_csend ?e) = Suc tries" using f ext by simp_all
    ultimately show ?thesis by blast
  next
    case False
    then have "r = r1" "N' = N2"
      using "2.prems" s by (auto split: sum.splits errno.splits)
    moreover have "filter is_csend (?p @ [CSend addr_bcast buf]) = [CSend addr_bcast buf]"
      by (simp add: is_csend_def)
    ultimately show ?thesis
      using False t2 r1 by (intro exI [of _ "?p @ [CSend addr_bcast buf]"]) auto
  qed
qed

text \<open>
  A broadcast write puts the payload on the air best-effort, at most six times: it retries
  only while the channel is busy, stops at the first other answer, which is the answer of the
  write, and gives up with \<open>EBUSY\<close> only after six attempts. It is never acknowledged, resolved
  or fragmented: above the ceiling nothing is sent.
\<close>

theorem broadcast_write:
  assumes w: "net_wf E cts cap N" and i: "i < AETHER_MAX_CONNS" and u: "cv_in_use (conv_of N i)"
    and st: "cv_state (conv_of N i) = CONV_BCAST"
    and wr: "anet_write E (NData i) buf N = (r, N')"
  shows "if e_max_msg E < length buf then r = Inl EMSGSIZE \<and> N' = N
    else \<exists>ext. n_trace N' = n_trace N @ ext \<and> set ext \<subseteq> {CBackoff, CSend addr_bcast buf} \<and>
      length (filter is_csend ext) \<le> NET_BCAST_BUSY_RETRIES \<and>
      (r = Inl EBUSY \<longrightarrow> length (filter is_csend ext) = NET_BCAST_BUSY_RETRIES) \<and>
      (r \<noteq> Inl EBUSY \<longrightarrow> (\<exists>pre. ext = pre @ [CSend addr_bcast buf] \<and>
         r = (case e_send E (n_trace N @ pre) addr_bcast buf of Inl e \<Rightarrow> Inl e | Inr _ \<Rightarrow> Inr (length buf))))"
proof -
  note s = slot_in_use [OF w i u]
  obtain r1 N1 where l: "bcast_loop E NET_BCAST_BUSY_RETRIES True buf N = (r1, N1)" by fastforce
  show ?thesis
  proof (cases "e_max_msg E < length buf")
    case True
    then show ?thesis using wr st by (simp add: write_NData [OF s(1)] write_data_def)
  next
    case False
    then have c: "(r, N') = count_tx r1 (length buf) (length buf) N1"
      using wr st l by (simp add: write_NData [OF s(1)] write_data_def)
    then have r: "r = (case r1 of Inl e \<Rightarrow> Inl e | Inr _ \<Rightarrow> Inr (length buf))" "n_trace N' = n_trace N1"
      by (auto simp: count_tx_def split: sum.splits)
    have busy: "r = Inl EBUSY \<longleftrightarrow> r1 = Inl EBUSY" using r by (cases r1) auto
    show ?thesis using bcast_loop_calls [OF l] r busy False by auto
  qed
qed

end
