(* ===== verification/Mesh9p.thy ===== *)
theory Mesh9p
  imports Wire Fifo
begin

text \<open>
  \<open>aether_9p_mesh.c\<close>: the 9P server's transport over the mesh. The RX thread puts requests into
  a ring of eight, a work queue serves them in order, an ack gate refuses at the mesh layer what
  the ring has no room for. First the operations as they run undisturbed, then the same code cut
  at its atomic actions, the RX thread and the work queue interleaved in any way.
\<close>

subsection \<open>Data\<close>

definition MESH9P_RING :: nat where "MESH9P_RING = 8"

lemma ring_pos [simp]: "0 < MESH9P_RING"
  by (simp add: MESH9P_RING_def)

datatype mesh9p_req = Req (rq_peer: addr6) (rq_buf: "byte list")

record mesh9p =
  rg_slots :: "mesh9p_req list"
  rg_head :: nat
  rg_tail :: nat
  rg_count :: nat
  rg_cur_peer :: addr6
  rg_serving :: bool

definition mesh9p_zero :: mesh9p where
  "mesh9p_zero = \<lparr>rg_slots = replicate MESH9P_RING (Req addr_zero []), rg_head = 0, rg_tail = 0,
     rg_count = 0, rg_cur_peer = addr_zero, rg_serving = False\<rparr>"

subsection \<open>Operations\<close>

definition looks_like_9p_t :: "nat \<Rightarrow> byte list \<Rightarrow> bool" where
  "looks_like_9p_t max_payload m \<longleftrightarrow>
     \<not> (length m < 7 \<or> max_payload < length m) \<and> unat (ng32 m) = length m \<and>
     100 \<le> m ! 4 \<and> m ! 4 \<le> 126 \<and> m ! 4 AND 1 = 0"

definition mesh9p_ack_gate :: "nat \<Rightarrow> byte list \<Rightarrow> mesh9p \<Rightarrow> bool" where
  "mesh9p_ack_gate max_payload m R \<longleftrightarrow>
     (if \<not> looks_like_9p_t max_payload m then True else rg_count R < MESH9P_RING)"

text \<open>The body of \<open>mesh9p_recv_cb\<close> behind its filter, and one turn of the loop of \<open>mesh9p_work_fn\<close>.\<close>

definition ring_put :: "mesh9p \<Rightarrow> mesh9p_req \<Rightarrow> mesh9p option" where
  "ring_put R q =
     (if MESH9P_RING \<le> rg_count R then None
      else Some (R\<lparr>rg_tail := (rg_tail R + 1) mod MESH9P_RING,
                   rg_slots := (rg_slots R)[rg_tail R := q], rg_count := rg_count R + 1\<rparr>))"

definition ring_get :: "mesh9p \<Rightarrow> (mesh9p_req \<times> mesh9p) option" where
  "ring_get R =
     (if rg_count R = 0 then None
      else Some (rg_slots R ! rg_head R,
                 R\<lparr>rg_cur_peer := rq_peer (rg_slots R ! rg_head R),
                   rg_head := (rg_head R + 1) mod MESH9P_RING, rg_count := rg_count R - 1\<rparr>))"

definition mesh9p_recv_cb :: "nat \<Rightarrow> addr6 \<Rightarrow> byte list \<Rightarrow> bool \<Rightarrow> mesh9p \<Rightarrow> mesh9p" where
  "mesh9p_recv_cb max_payload src m broadcast R =
     (if broadcast \<or> \<not> looks_like_9p_t max_payload m then R
      else case ring_put R (Req src m) of None \<Rightarrow> R | Some R' \<Rightarrow> R')"

text \<open>
  The 9P server behind the ring is not part of the repository: \<open>srv\<close> is its receive callback
  (\<open>None\<close> before it is installed), a function of the peer being answered, the request and its
  own state.
\<close>

function mesh9p_work_fn ::
    "(addr6 \<Rightarrow> byte list \<Rightarrow> 's \<Rightarrow> 's) option \<Rightarrow> mesh9p \<Rightarrow> 's \<Rightarrow> mesh9p \<times> 's" where
  "mesh9p_work_fn srv R s =
     (case ring_get R of
        None \<Rightarrow> (R, s)
      | Some (q, R') \<Rightarrow>
          mesh9p_work_fn srv R'
            (case srv of None \<Rightarrow> s | Some f \<Rightarrow> f (rq_peer q) (rq_buf q) s))"
  by pat_completeness auto
termination
  by (relation "measure (\<lambda>(srv, R, s). rg_count R)")
    (auto simp: ring_get_def split: if_splits)

declare mesh9p_work_fn.simps [simp del]

text \<open>
  \<open>mesh9p_send\<close>: a Rwrite is not transmitted at all. The result is the one reported to the
  server, with the message put on the air, if any (\<open>rel\<close> is \<open>aether_mesh_send_reliable\<close>).
\<close>

definition mesh9p_send ::
    "(addr6 \<Rightarrow> byte list \<Rightarrow> nat \<Rightarrow> nat res) \<Rightarrow> byte list \<Rightarrow> mesh9p \<Rightarrow> nat res \<times> (addr6 \<times> byte list) list" where
  "mesh9p_send rel buf R =
     (if 4 < length buf \<and> buf ! 4 = 119 then (Inr (length buf), [])
      else (case rel (rg_cur_peer R) buf 3 of
              Inr 0 \<Rightarrow> Inr (length buf) | Inr n \<Rightarrow> Inr n | Inl e \<Rightarrow> Inl e,
            [(rg_cur_peer R, buf)]))"

definition mesh9p_get_mtu :: "nat \<Rightarrow> nat" where
  "mesh9p_get_mtu max_payload = max_payload"

subsection \<open>The ring is a bounded queue\<close>

definition ring_good :: "mesh9p \<Rightarrow> bool" where
  "ring_good R \<longleftrightarrow> length (rg_slots R) = MESH9P_RING \<and> rg_head R < MESH9P_RING \<and>
     rg_count R \<le> MESH9P_RING \<and> rg_tail R = (rg_head R + rg_count R) mod MESH9P_RING"

definition ring_contents :: "mesh9p \<Rightarrow> mesh9p_req list" where
  "ring_contents R = map (\<lambda>k. rg_slots R ! ((rg_head R + k) mod MESH9P_RING)) [0..<rg_count R]"

lemma length_ring_contents [simp]: "length (ring_contents R) = rg_count R"
  by (simp add: ring_contents_def)

lemma mod_add_inj_le:
  fixes h :: nat
  assumes "(h + a) mod n = (h + b) mod n" and "b < n" and "a \<le> b"
  shows "a = b"
proof -
  have "n dvd (h + b) - (h + a)"
    using mod_eq_dvd_iff_nat [of "h + a" "h + b" n] assms by simp
  then have "n dvd b - a" by simp
  then show ?thesis using assms(2,3) by (auto dest: dvd_imp_le)
qed

lemma mod_add_inj:
  fixes h :: nat
  assumes "(h + a) mod n = (h + b) mod n" and "a < n" and "b < n"
  shows "a = b"
  using mod_add_inj_le [of h a n b] mod_add_inj_le [of h b n a] assms by (cases "a \<le> b") auto

lemma ring_put_contents:
  assumes g: "ring_good R" and r: "rg_count R < MESH9P_RING"
  shows "\<exists>R'. ring_put R q = Some R' \<and> ring_good R' \<and> ring_contents R' = ring_contents R @ [q]"
proof -
  let ?R = "R\<lparr>rg_tail := (rg_tail R + 1) mod MESH9P_RING,
      rg_slots := (rg_slots R)[rg_tail R := q], rg_count := rg_count R + 1\<rparr>"
  have t: "rg_tail R = (rg_head R + rg_count R) mod MESH9P_RING" using g by (simp add: ring_good_def)
  have "ring_good ?R" using g r by (auto simp: ring_good_def mod_simps)
  moreover have "ring_contents ?R = ring_contents R @ [q]"
  proof -
    have "(rg_head R + k) mod MESH9P_RING \<noteq> rg_tail R" if "k < rg_count R" for k
      using mod_add_inj [of "rg_head R" k MESH9P_RING "rg_count R"] that r t by auto
    then have "(rg_slots R)[rg_tail R := q] ! ((rg_head R + k) mod MESH9P_RING)
        = rg_slots R ! ((rg_head R + k) mod MESH9P_RING)" if "k < rg_count R" for k
      using that nth_list_update_neq by metis
    then show ?thesis using g t by (auto simp: ring_contents_def ring_good_def)
  qed
  ultimately show ?thesis using r by (auto simp: ring_put_def)
qed

lemma ring_get_contents:
  assumes g: "ring_good R" and c: "ring_contents R = q # qs"
  shows "\<exists>R'. ring_get R = Some (q, R') \<and> ring_good R' \<and> ring_contents R' = qs \<and> rg_cur_peer R' = rq_peer q"
proof -
  have n: "rg_count R = Suc (length qs)" using arg_cong [OF c, of length] by simp
  let ?R = "R\<lparr>rg_cur_peer := rq_peer (rg_slots R ! rg_head R),
      rg_head := (rg_head R + 1) mod MESH9P_RING, rg_count := rg_count R - 1\<rparr>"
  have "ring_contents R = rg_slots R ! rg_head R # ring_contents ?R"
    using g unfolding ring_contents_def n
    by (subst upt_conv_Cons) (auto simp: ring_good_def mod_simps map_Suc_upt [symmetric] simp del: upt_Suc)
  moreover have "ring_good ?R" using g n by (auto simp: ring_good_def mod_simps)
  ultimately show ?thesis using c n by (auto simp: ring_get_def)
qed

interpretation ring: bounded_fifo ring_good ring_put ring_get ring_contents "\<lambda>_. MESH9P_RING"
proof unfold_locales
  fix R q assume g: "ring_good R"
  show "length (ring_contents R) < MESH9P_RING \<Longrightarrow>
      \<exists>R'. ring_put R q = Some R' \<and> ring_good R' \<and> ring_contents R' = ring_contents R @ [q] \<and> MESH9P_RING = MESH9P_RING"
    using ring_put_contents [OF g] by simp
  show "MESH9P_RING \<le> length (ring_contents R) \<Longrightarrow> ring_put R q = None"
    by (simp add: ring_put_def)
  show "ring_contents R = [] \<Longrightarrow> ring_get R = None"
    by (simp add: ring_get_def ring_contents_def)
  show "ring_contents R = x # xs \<Longrightarrow>
      \<exists>R'. ring_get R = Some (x, R') \<and> ring_good R' \<and> ring_contents R' = xs \<and> MESH9P_RING = MESH9P_RING" for x xs
    using ring_get_contents [OF g] by blast
qed

subsection \<open>Requests are served in order\<close>

lemma work_fn_serves:
  "ring_good R \<Longrightarrow> ring_contents R = qs \<Longrightarrow>
     \<exists>R'. mesh9p_work_fn (Some f) R s = (R', fold (\<lambda>q. f (rq_peer q) (rq_buf q)) qs s) \<and>
       ring_good R' \<and> ring_contents R' = []"
proof (induction qs arbitrary: R s)
  case Nil
  then have "ring_get R = None" using ring.get_empty by blast
  then show ?case using Nil by (subst mesh9p_work_fn.simps) simp
next
  case (Cons q qs)
  obtain R1 where R1: "ring_get R = Some (q, R1)" "ring_good R1" "ring_contents R1 = qs"
    using ring.get_first [OF Cons.prems] by blast
  have "mesh9p_work_fn (Some f) R s = mesh9p_work_fn (Some f) R1 (f (rq_peer q) (rq_buf q) s)"
    using R1(1) by (subst mesh9p_work_fn.simps) simp
  then show ?case using Cons.IH [OF R1(2,3)] by simp
qed

text \<open>What a stretch of received frames (source, bytes, broadcast flag) asks of the server.\<close>

definition mesh_requests :: "nat \<Rightarrow> (addr6 \<times> byte list \<times> bool) list \<Rightarrow> mesh9p_req list" where
  "mesh_requests mx fs = map (\<lambda>(src, m, b). Req src m) (filter (\<lambda>(src, m, b). \<not> b \<and> looks_like_9p_t mx m) fs)"

lemma recv_cb_fold:
  "fold (\<lambda>(src, m, b). mesh9p_recv_cb mx src m b) fs R = fst (offer_all ring_put (mesh_requests mx fs) R)"
  by (induction fs arbitrary: R)
    (auto simp: mesh_requests_def mesh9p_recv_cb_def split: option.splits prod.splits)

text \<open>
  First come, first served, nothing twice: when frames arrive while the work queue is idle
  and it then runs, the 9P server is called with the requests that were waiting, followed by the
  unicast T-messages among the new frames as long as the ring of eight had room, in that order
  and each with its sender as the peer to answer; the ring is empty again.
\<close>

theorem mesh9p_serves_fifo:
  assumes g: "ring_good R" and run: "mesh9p_work_fn (Some f)
      (fold (\<lambda>(src, m, b). mesh9p_recv_cb mx src m b) fs R) s = (R', s')"
  shows "s' = fold (\<lambda>q. f (rq_peer q) (rq_buf q))
      (ring_contents R @ take (MESH9P_RING - rg_count R) (mesh_requests mx fs)) s \<and>
    ring_contents R' = []"
proof -
  obtain R1 n where o: "offer_all ring_put (mesh_requests mx fs) R = (R1, n)" by fastforce
  have "length (ring_contents R) \<le> MESH9P_RING" using g by (simp add: ring_good_def)
  note c = ring.offer_all_contents [OF g this o]
  then show ?thesis using work_fn_serves [of R1 _ f s] run o by (auto simp: recv_cb_fold)
qed

text \<open>
  The gate keeps its promise: a T-message it lets the mesh layer acknowledge is queued if it
  reaches the callback with the ring as the gate saw it; one it refuses would have been dropped;
  and what is not a T-message always passes and never enters the ring.
\<close>

theorem ack_gate_agrees:
  assumes g: "ring_good R"
  shows "(if looks_like_9p_t mx m then
       (if mesh9p_ack_gate mx m R
        then ring_contents (mesh9p_recv_cb mx src m False R) = ring_contents R @ [Req src m]
        else mesh9p_recv_cb mx src m False R = R)
     else mesh9p_ack_gate mx m R \<and> mesh9p_recv_cb mx src m False R = R) \<and>
    mesh9p_recv_cb mx src m True R = R"
  using ring_put_contents [OF g, of "Req src m"]
  by (auto simp: mesh9p_ack_gate_def mesh9p_recv_cb_def ring_put_def)

text \<open>
  Replies: a Rwrite is reported as sent but never goes on the air; every other reply goes,
  once and with three retries, to the peer whose request is being served, and a transport error
  is the result.
\<close>

theorem mesh9p_send_spec:
  assumes "ring_get R = Some (q, R')" and "mesh9p_send rel buf R' = (r, sent)"
  shows "if 4 < length buf \<and> buf ! 4 = 119 then sent = [] \<and> r = Inr (length buf)
    else sent = [(rq_peer q, buf)] \<and>
      (rel (rq_peer q) buf 3 = Inr 0 \<longrightarrow> r = Inr (length buf)) \<and>
      (\<forall>e. rel (rq_peer q) buf 3 = Inl e \<longrightarrow> r = Inl e)"
  using assms by (auto simp: mesh9p_send_def ring_get_def split: if_splits)

subsection \<open>The RX thread and the work queue interleaved\<close>

text \<open>
  The same code cut where another thread can come in. The RX thread, having seen room, reserves
  the slot at the tail under the lock, fills it, counts it, and submits the work item; the work
  queue, started by a submission, serves the slot at the head while the count is positive,
  advances the head under the lock, and takes one off the count. \<open>st_accepted\<close> and \<open>st_served\<close>
  record the requests accepted and those handed to the server.
\<close>

datatype rx_pc = RX_idle | RX_reserved nat mesh9p_req | RX_filled | RX_counted

datatype wq_pc = WQ_off | WQ_loop | WQ_serving | WQ_advanced

record mesh9p_sys =
  st_ring :: mesh9p
  st_rx :: rx_pc
  st_wq :: wq_pc
  st_pending :: bool
  st_accepted :: "mesh9p_req list"
  st_served :: "mesh9p_req list"

definition mesh9p_start :: mesh9p_sys where
  "mesh9p_start = \<lparr>st_ring = mesh9p_zero, st_rx = RX_idle, st_wq = WQ_off, st_pending = False,
     st_accepted = [], st_served = []\<rparr>"

inductive mesh9p_step :: "mesh9p_sys \<Rightarrow> mesh9p_sys \<Rightarrow> bool" where
  rx_full: "st_rx S = RX_idle \<Longrightarrow> MESH9P_RING \<le> rg_count (st_ring S) \<Longrightarrow> mesh9p_step S S"
| rx_reserve: "st_rx S = RX_idle \<Longrightarrow> rg_count (st_ring S) < MESH9P_RING \<Longrightarrow>
    mesh9p_step S (S\<lparr>st_rx := RX_reserved (rg_tail (st_ring S)) q,
      st_ring := (st_ring S)\<lparr>rg_tail := (rg_tail (st_ring S) + 1) mod MESH9P_RING\<rparr>,
      st_accepted := st_accepted S @ [q]\<rparr>)"
| rx_fill: "st_rx S = RX_reserved t q \<Longrightarrow>
    mesh9p_step S (S\<lparr>st_rx := RX_filled,
      st_ring := (st_ring S)\<lparr>rg_slots := (rg_slots (st_ring S))[t := q]\<rparr>\<rparr>)"
| rx_count: "st_rx S = RX_filled \<Longrightarrow>
    mesh9p_step S (S\<lparr>st_rx := RX_counted,
      st_ring := (st_ring S)\<lparr>rg_count := rg_count (st_ring S) + 1\<rparr>\<rparr>)"
| rx_submit: "st_rx S = RX_counted \<Longrightarrow> mesh9p_step S (S\<lparr>st_rx := RX_idle, st_pending := True\<rparr>)"
| wq_start: "st_wq S = WQ_off \<Longrightarrow> st_pending S \<Longrightarrow>
    mesh9p_step S (S\<lparr>st_wq := WQ_loop, st_pending := False\<rparr>)"
| wq_serve: "st_wq S = WQ_loop \<Longrightarrow> 0 < rg_count (st_ring S) \<Longrightarrow>
    mesh9p_step S (S\<lparr>st_wq := WQ_serving,
      st_ring := (st_ring S)\<lparr>rg_cur_peer := rq_peer (rg_slots (st_ring S) ! rg_head (st_ring S)),
        rg_serving := True\<rparr>,
      st_served := st_served S @ [rg_slots (st_ring S) ! rg_head (st_ring S)]\<rparr>)"
| wq_advance: "st_wq S = WQ_serving \<Longrightarrow>
    mesh9p_step S (S\<lparr>st_wq := WQ_advanced,
      st_ring := (st_ring S)\<lparr>rg_head := (rg_head (st_ring S) + 1) mod MESH9P_RING, rg_serving := False\<rparr>\<rparr>)"
| wq_uncount: "st_wq S = WQ_advanced \<Longrightarrow>
    mesh9p_step S (S\<lparr>st_wq := WQ_loop, st_ring := (st_ring S)\<lparr>rg_count := rg_count (st_ring S) - 1\<rparr>\<rparr>)"
| wq_exit: "st_wq S = WQ_loop \<Longrightarrow> rg_count (st_ring S) = 0 \<Longrightarrow> mesh9p_step S (S\<lparr>st_wq := WQ_off\<rparr>)"

inductive mesh9p_reach :: "mesh9p_sys \<Rightarrow> bool" where
  m9_start: "mesh9p_reach mesh9p_start"
| m9_step: "mesh9p_reach S \<Longrightarrow> mesh9p_step S T \<Longrightarrow> mesh9p_reach T"

text \<open>
  The invariant. \<open>w\<close> are the requests reserved and not yet advanced past, \<open>base\<close> those advanced
  past; all of \<open>w\<close> but a reserved last one are in their slots.
\<close>

definition rx_open :: "rx_pc \<Rightarrow> nat" where
  "rx_open p = (case p of RX_reserved _ _ \<Rightarrow> 1 | RX_filled \<Rightarrow> 1 | _ \<Rightarrow> 0)"

definition wq_open :: "wq_pc \<Rightarrow> nat" where
  "wq_open p = (if p = WQ_advanced then 1 else 0)"

definition window_ok :: "mesh9p \<Rightarrow> rx_pc \<Rightarrow> mesh9p_req list \<Rightarrow> bool" where
  "window_ok R p w \<longleftrightarrow> length (rg_slots R) = MESH9P_RING \<and> rg_head R < MESH9P_RING \<and>
     length w \<le> MESH9P_RING \<and> rg_tail R = (rg_head R + length w) mod MESH9P_RING \<and>
     (case p of
        RX_reserved t q \<Rightarrow> w \<noteq> [] \<and> last w = q \<and> t = (rg_head R + (length w - 1)) mod MESH9P_RING \<and>
          (\<forall>k < length w - 1. rg_slots R ! ((rg_head R + k) mod MESH9P_RING) = w ! k)
      | _ \<Rightarrow> \<forall>k < length w. rg_slots R ! ((rg_head R + k) mod MESH9P_RING) = w ! k)"

definition inv_at :: "mesh9p_req list \<Rightarrow> mesh9p_req list \<Rightarrow> mesh9p_sys \<Rightarrow> bool" where
  "inv_at base w S \<longleftrightarrow> st_accepted S = base @ w \<and> window_ok (st_ring S) (st_rx S) w \<and>
     length w + wq_open (st_wq S) = rg_count (st_ring S) + rx_open (st_rx S) \<and>
     rg_count (st_ring S) + rx_open (st_rx S) \<le> MESH9P_RING \<and>
     (st_wq S = WQ_advanced \<longrightarrow> 0 < rg_count (st_ring S)) \<and>
     st_served S = (if st_wq S = WQ_serving then base @ [hd w] else base) \<and>
     (st_wq S = WQ_serving \<longrightarrow> 0 < rg_count (st_ring S)) \<and>
     (st_wq S = WQ_off \<and> 0 < rg_count (st_ring S) \<longrightarrow> st_pending S \<or> st_rx S = RX_counted)"

definition mesh9p_inv :: "mesh9p_sys \<Rightarrow> bool" where
  "mesh9p_inv S \<longleftrightarrow> (\<exists>base w. inv_at base w S)"

lemma window_reserve:
  assumes "window_ok R RX_idle w" and "length w < MESH9P_RING"
  shows "window_ok (R\<lparr>rg_tail := (rg_tail R + 1) mod MESH9P_RING\<rparr>) (RX_reserved (rg_tail R) q) (w @ [q])"
  using assms by (auto simp: window_ok_def mod_simps nth_append)

lemma window_fill:
  assumes "window_ok R (RX_reserved t q) w"
  shows "window_ok (R\<lparr>rg_slots := (rg_slots R)[t := q]\<rparr>) RX_filled w"
proof -
  have w: "w \<noteq> []" "last w = q" "t = (rg_head R + (length w - 1)) mod MESH9P_RING"
    "length (rg_slots R) = MESH9P_RING" "length w \<le> MESH9P_RING"
    and old: "\<And>k. k < length w - 1 \<Longrightarrow> rg_slots R ! ((rg_head R + k) mod MESH9P_RING) = w ! k"
    using assms by (auto simp: window_ok_def)
  have "(rg_slots R)[t := q] ! ((rg_head R + k) mod MESH9P_RING) = w ! k" if k: "k < length w" for k
  proof (cases "k = length w - 1")
    case True
    then show ?thesis using w by (simp add: last_conv_nth)
  next
    case False
    then have "k < length w - 1" using k by simp
    moreover from this have "(rg_head R + k) mod MESH9P_RING \<noteq> t"
      using mod_add_inj [of "rg_head R" k MESH9P_RING "length w - 1"] w by fastforce
    ultimately show ?thesis using old by (metis nth_list_update_neq)
  qed
  then show ?thesis using assms by (simp add: window_ok_def)
qed

lemma window_shift:
  assumes w: "window_ok R p (q # w)" and ne: "\<And>t u. p = RX_reserved t u \<Longrightarrow> w \<noteq> []"
  shows "window_ok (R\<lparr>rg_head := (rg_head R + 1) mod MESH9P_RING, rg_serving := False\<rparr>) p w"
proof -
  have sh: "((rg_head R + 1) mod MESH9P_RING + k) mod MESH9P_RING = (rg_head R + Suc k) mod MESH9P_RING" for k
    by (metis add.assoc add_Suc_shift mod_add_left_eq plus_1_eq_Suc add.commute)
  have get: "rg_slots R ! ((rg_head R + Suc k) mod MESH9P_RING) = w ! k"
    if "\<forall>k < n. rg_slots R ! ((rg_head R + k) mod MESH9P_RING) = (q # w) ! k" "Suc k < n" for k n
    using that by (metis nth_Cons_Suc)
  have base: "length (rg_slots R) = MESH9P_RING" "length w < MESH9P_RING"
      "rg_tail R = (rg_head R + Suc (length w)) mod MESH9P_RING"
    using w by (auto simp: window_ok_def)
  show ?thesis
  proof (cases "\<exists>t u. p = RX_reserved t u")
    case True
    then obtain t u where p: "p = RX_reserved t u" by blast
    then obtain m where m: "length w = Suc m" using ne by (cases w) auto
    have r: "last w = u" "t = (rg_head R + Suc m) mod MESH9P_RING" "w \<noteq> []"
      and old: "\<forall>k < Suc m. rg_slots R ! ((rg_head R + k) mod MESH9P_RING) = (q # w) ! k"
      using w p m ne by (auto simp: window_ok_def)
    show ?thesis using base r p m get [OF old] sh [of "Suc m"] unfolding window_ok_def
      by (simp add: sh [simplified])
  next
    case False
    then have old: "\<forall>k < Suc (length w). rg_slots R ! ((rg_head R + k) mod MESH9P_RING) = (q # w) ! k"
      using w by (cases p) (auto simp: window_ok_def)
    then show ?thesis using False base get [OF old] unfolding window_ok_def
      by (cases p) (simp_all add: sh [simplified])
  qed
qed

text \<open>Only these fields matter to the window, so counting and serving do not disturb it.\<close>

lemma window_other [simp]:
  "window_ok (R\<lparr>rg_count := n\<rparr>) p w = window_ok R p w"
  "window_ok (R\<lparr>rg_cur_peer := a, rg_serving := b\<rparr>) p w = window_ok R p w"
  by (simp_all add: window_ok_def split: rx_pc.splits)

lemma window_pc: "window_ok R p w \<Longrightarrow> p \<in> {RX_idle, RX_filled, RX_counted} \<Longrightarrow>
    p' \<in> {RX_idle, RX_filled, RX_counted} \<Longrightarrow> window_ok R p' w"
  by (auto simp: window_ok_def)

lemma window_head:
  assumes "window_ok R p w" and "rx_open p < length w"
  shows "rg_slots R ! rg_head R = hd w"
proof -
  have "w \<noteq> []" using assms(2) by auto
  moreover have "rg_slots R ! ((rg_head R + 0) mod MESH9P_RING) = w ! 0" "rg_head R < MESH9P_RING"
    using assms by (cases p; fastforce simp: window_ok_def rx_open_def)+
  ultimately show ?thesis by (simp add: hd_conv_nth)
qed

lemma mesh9p_inv_step:
  assumes step: "mesh9p_step S T" and I: "inv_at base w S"
  shows "mesh9p_inv T"
  using step
proof (cases rule: mesh9p_step.cases)
  case rx_full
  then show ?thesis using I by (auto simp: mesh9p_inv_def)
next
  case (rx_reserve q)
  have l: "length w < MESH9P_RING" using I rx_reserve by (simp add: inv_at_def rx_open_def)
  then have "window_ok (st_ring T) (st_rx T) (w @ [q])"
    using window_reserve I rx_reserve by (simp add: inv_at_def)
  moreover have "w \<noteq> []" if "st_wq S = WQ_serving"
    using that I rx_reserve by (auto simp: inv_at_def rx_open_def wq_open_def)
  ultimately have "inv_at base (w @ [q]) T"
    using I rx_reserve by (auto simp: inv_at_def rx_open_def)
  then show ?thesis by (auto simp: mesh9p_inv_def)
next
  case (rx_fill t q)
  then have "inv_at base w T" using I window_fill by (simp add: inv_at_def rx_open_def)
  then show ?thesis by (auto simp: mesh9p_inv_def)
next
  case rx_count
  have "window_ok (st_ring T) (st_rx T) w"
    using window_pc [of "st_ring S" "st_rx S" w RX_counted] I rx_count by (simp add: inv_at_def)
  then have "inv_at base w T" using I rx_count by (simp add: inv_at_def rx_open_def)
  then show ?thesis by (auto simp: mesh9p_inv_def)
next
  case rx_submit
  have "window_ok (st_ring T) (st_rx T) w"
    using window_pc [of "st_ring S" "st_rx S" w RX_idle] I rx_submit by (simp add: inv_at_def)
  then have "inv_at base w T" using I rx_submit by (simp add: inv_at_def rx_open_def)
  then show ?thesis by (auto simp: mesh9p_inv_def)
next
  case wq_start
  then have "inv_at base w T" using I by (simp add: inv_at_def wq_open_def)
  then show ?thesis by (auto simp: mesh9p_inv_def)
next
  case wq_serve
  have "rg_slots (st_ring S) ! rg_head (st_ring S) = hd w"
    using window_head [of "st_ring S" "st_rx S" w] I wq_serve by (simp add: inv_at_def wq_open_def)
  then have "inv_at base w T" using I wq_serve by (simp add: inv_at_def wq_open_def)
  then show ?thesis by (auto simp: mesh9p_inv_def)
next
  case wq_advance
  have c: "length w = rg_count (st_ring S) + rx_open (st_rx S)" "0 < rg_count (st_ring S)"
    using I wq_advance by (auto simp: inv_at_def wq_open_def)
  then obtain q v where w: "w = q # v" by (cases w) auto
  have "v \<noteq> []" if "st_rx S = RX_reserved t u" for t u using that c w by (auto simp: rx_open_def)
  then have "window_ok (st_ring T) (st_rx T) v"
    using window_shift [of "st_ring S" "st_rx S" q v] I wq_advance w by (auto simp: inv_at_def)
  then have "inv_at (base @ [q]) v T" using I wq_advance w c by (simp add: inv_at_def wq_open_def)
  then show ?thesis by (auto simp: mesh9p_inv_def)
next
  case wq_uncount
  then have "inv_at base w T" using I by (auto simp: inv_at_def wq_open_def)
  then show ?thesis by (auto simp: mesh9p_inv_def)
next
  case wq_exit
  then have "inv_at base w T" using I by (simp add: inv_at_def wq_open_def)
  then show ?thesis by (auto simp: mesh9p_inv_def)
qed

lemma mesh9p_inv_reach: "mesh9p_reach S \<Longrightarrow> mesh9p_inv S"
proof (induction rule: mesh9p_reach.induct)
  case m9_start
  have "inv_at [] [] mesh9p_start"
    by (simp add: inv_at_def mesh9p_start_def mesh9p_zero_def window_ok_def wq_open_def rx_open_def)
  then show ?case by (auto simp: mesh9p_inv_def)
next
  case (m9_step S T)
  then obtain base w where "inv_at base w S" by (auto simp: mesh9p_inv_def)
  then show ?case using mesh9p_inv_step m9_step by blast
qed

text \<open>
  C4. However the RX thread and the work queue interleave: the server is handed a prefix of the
  accepted requests, in the order of acceptance, none lost, doubled or overwritten while served
  (the slot being served holds the request that was handed over); never are more than eight
  outstanding; and a counted request is never forgotten, since the work queue is then running or
  a submission is on its way.
\<close>

theorem mesh9p_concurrent:
  assumes "mesh9p_reach S"
  shows "\<exists>rest. st_accepted S = st_served S @ rest \<and> length rest \<le> MESH9P_RING \<and>
    (st_wq S = WQ_serving \<longrightarrow> last (st_served S) = rg_slots (st_ring S) ! rg_head (st_ring S)) \<and>
    (st_wq S = WQ_off \<and> rest \<noteq> [] \<longrightarrow> st_pending S \<or> st_rx S \<noteq> RX_idle)"
proof -
  obtain base w where I: "inv_at base w S"
    using mesh9p_inv_reach [OF assms] by (auto simp: mesh9p_inv_def)
  show ?thesis
  proof (cases "st_wq S = WQ_serving")
    case True
    then have n: "rx_open (st_rx S) < length w" using I by (simp add: inv_at_def wq_open_def)
    then obtain q v where w: "w = q # v" by (cases w) auto
    have "rg_slots (st_ring S) ! rg_head (st_ring S) = q"
      using window_head [of "st_ring S" "st_rx S" w] n w I by (simp add: inv_at_def)
    then show ?thesis using I True w by (intro exI [of _ v]) (auto simp: inv_at_def wq_open_def)
  next
    case False
    have "0 < rg_count (st_ring S) \<or> st_rx S \<noteq> RX_idle" if "w \<noteq> []"
      using I that by (auto simp: inv_at_def rx_open_def)
    then show ?thesis using I False by (intro exI [of _ w]) (auto simp: inv_at_def)
  qed
qed

end
