(* ===== verification/NetClientProps.thy ===== *)
theory NetClientProps
  imports NetPush NetData Mesh9p
begin

text \<open>
  What the in-process client does: it never disturbs the tree or a binding while it runs, it
  gives its conversation back on every path, what it sends passes the filter of the peer's
  server, and a pushed block arrives as it was written.
\<close>

subsection \<open>What a run of the client keeps\<close>

definition bind_view :: "'q net \<Rightarrow> (conv_state \<times> addr6) list" where
  "bind_view N = map (\<lambda>c. (cv_state c, cv_peer c)) (n_convs N)"

definition is_creliable :: "mesh_call \<Rightarrow> bool" where
  "is_creliable c \<longleftrightarrow> (case c of CReliable _ _ _ \<Rightarrow> True | _ \<Rightarrow> False)"

definition sent :: "'q net \<Rightarrow> mesh_call list" where
  "sent N = filter is_creliable (n_trace N)"

definition keeps :: "'q env \<Rightarrow> ('q \<Rightarrow> dgram list) \<Rightarrow> ('q \<Rightarrow> nat) \<Rightarrow> 'q net \<Rightarrow> 'q net \<Rightarrow> bool" where
  "keeps E cts cap N N' \<longleftrightarrow> tree_view N' = tree_view N \<and> bind_view N' = bind_view N \<and>
     (net_wf E cts cap N \<longrightarrow> net_wf E cts cap N')"

lemma keeps_refl [simp]: "keeps E cts cap N N"
  by (simp add: keeps_def)

lemma keeps_trans: "keeps E cts cap N N1 \<Longrightarrow> keeps E cts cap N1 N2 \<Longrightarrow> keeps E cts cap N N2"
  by (simp add: keeps_def)

lemma net_wf_frame:
  assumes "net_wf E cts cap N" and "tree_view N' = tree_view N" and "n_convs N' = n_convs N"
  shows "net_wf E cts cap N'"
  using assms tree_wf_same queues_wf_convs unfolding net_wf_def by blast

lemma keeps_frame: "tree_view N' = tree_view N \<Longrightarrow> n_convs N' = n_convs N \<Longrightarrow> keeps E cts cap N N'"
  using net_wf_frame by (auto simp: keeps_def bind_view_def)

lemma bind_upd_conv: "cv_state (f (conv_of N i)) = cv_state (conv_of N i) \<Longrightarrow>
    cv_peer (f (conv_of N i)) = cv_peer (conv_of N i) \<Longrightarrow> bind_view (upd_conv i f N) = bind_view N"
  by (cases "i < length (n_convs N)")
    (auto simp: bind_view_def upd_conv_def map_update list_update_same_conv list_update_beyond)

lemma bind_same: "n_convs N' = n_convs N \<Longrightarrow> bind_view N' = bind_view N"
  by (simp add: bind_view_def)

lemma bind_recv_conv: "bind_view (recv_conv E s d b p i N) = bind_view N"
proof -
  obtain t N1 where t: "conv_takes E s d b (conv_of N i) N = (t, N1)" by fastforce
  then have "n_convs N1 = n_convs N" using ext_frame by (metis snd_conv)
  then have b1: "bind_view N1 = bind_view N" by (rule bind_same)
  have "bind_view (N1\<lparr>n_rx_drop := x\<rparr>) = bind_view N1" for x by (rule bind_same) simp
  then show ?thesis using t b1 by (simp add: recv_conv_def bind_upd_conv split: option.splits)
qed

lemma sent_log [simp]: "sent (log_call c N) = sent N @ (if is_creliable c then [c] else [])"
  by (simp add: sent_def log_call_def)

lemma sent_upd [simp]: "sent (upd_conv i f N) = sent N"
  by (simp add: sent_def upd_conv_def)

lemma sent_fields [simp]:
  "sent (N\<lparr>n_drain_sr := a\<rparr>) = sent N" "sent (N\<lparr>n_drain_gr := a\<rparr>) = sent N"
  "sent (N\<lparr>n_rx := b, n_rx_bytes := c\<rparr>) = sent N" "sent (N\<lparr>n_rx_drop := b\<rparr>) = sent N"
  by (simp_all add: sent_def)

lemma sent_takes: "sent (snd (conv_takes E s d b c N)) = sent N"
  by (simp add: conv_takes_def eui_to_addr_def is_creliable_def split: conv_state.splits)

lemma sent_recv_conv: "sent (recv_conv E s d b p i N) = sent N"
proof -
  have "sent N1 = sent N" if "conv_takes E s d b (conv_of N i) N = (t, N1)" for t N1
    using sent_takes that by (metis snd_conv)
  then show ?thesis by (auto simp: recv_conv_def split: prod.splits option.splits)
qed

lemma sent_recv_cb: "sent (aether_recv_cb E f N) = sent N"
proof -
  have "sent (fold (recv_conv E s d b p) is M) = sent M" for s d b p "is" M
    by (induction "is" arbitrary: M) (simp_all add: sent_recv_conv)
  moreover have "sent (snd (recv_ident E f N)) = sent N"
    by (simp add: recv_ident_def addr_to_eui_def is_creliable_def split: option.splits)
  ultimately show ?thesis by (simp add: aether_recv_cb_def case_prod_unfold Let_def)
qed

lemma bind_recv_cb: "bind_view (aether_recv_cb E f N) = bind_view N"
proof -
  obtain idt N1 where r: "recv_ident E f N = (idt, N1)" by fastforce
  let ?p = "take (e_max_msg E) (fr_payload f)"
  let ?N2 = "N1\<lparr>n_rx := n_rx N1 + 1, n_rx_bytes := n_rx_bytes N1 + of_nat (length ?p)\<rparr>"
  have "bind_view (fold (recv_conv E s d b p) is M) = bind_view M" for s d b p "is" M
    by (induction "is" arbitrary: M) (simp_all add: bind_recv_conv)
  then have "bind_view (aether_recv_cb E f N) = bind_view ?N2"
    using r by (simp add: aether_recv_cb_def)
  also have "\<dots> = bind_view N" by (rule bind_same) (use recv_ident_convs [of E f N] r in simp)
  finally show ?thesis .
qed

lemma keeps_recv_cb: "msgq_ok E cts cap \<Longrightarrow> keeps E cts cap N (aether_recv_cb E f N)"
  using net_wf_recv_cb by (auto simp: keeps_def bind_recv_cb recv_cb_tree)

lemma arrivals_keep:
  assumes k: "msgq_ok E cts cap"
  shows "keeps E cts cap N (take_arrivals E N)" "sent (take_arrivals E N) = sent N"
proof -
  have "keeps E cts cap N (fold (aether_recv_cb E) fs N) \<and> sent (fold (aether_recv_cb E) fs N) = sent N" for fs
  proof (induction fs arbitrary: N)
    case (Cons f fs)
    then show ?case
      using keeps_trans [OF keeps_recv_cb [OF k]] sent_recv_cb by (metis fold_simps(2))
  qed simp
  then show "keeps E cts cap N (take_arrivals E N)" "sent (take_arrivals E N) = sent N"
    by (simp_all add: take_arrivals_def)
qed

lemma client_send_keeps:
  assumes k: "msgq_ok E cts cap" and s: "client_send E dst msg N = (r, N')"
  shows "keeps E cts cap N N'" "sent N' = sent N @ [CReliable dst msg AETHER_NET_RETRIES]"
    "r = e_send_reliable E (n_trace N) dst msg"
proof -
  let ?L = "log_call (CReliable dst msg AETHER_NET_RETRIES) N"
  have N': "N' = (take_arrivals E ?L)\<lparr>n_drain_sr := res_int E r\<rparr>"
    and r: "r = e_send_reliable E (n_trace N) dst msg"
    using s by (auto simp: client_send_def mesh_send_reliable_def)
  have "keeps E cts cap N ?L" by (rule keeps_frame) (simp_all add: net_simps)
  moreover have "keeps E cts cap (take_arrivals E ?L) N'"
    unfolding N' by (rule keeps_frame) (simp_all add: net_simps)
  ultimately show "keeps E cts cap N N'" using arrivals_keep(1) [OF k] keeps_trans by blast
  show "sent N' = sent N @ [CReliable dst msg AETHER_NET_RETRIES]"
    by (simp add: N' arrivals_keep(2) [OF k] is_creliable_def)
  show "r = e_send_reliable E (n_trace N) dst msg" by (rule r)
qed

lemma get_now_keeps:
  assumes k: "msgq_ok E cts cap" and s: "rxq_get_now E i N = (r, N')"
  shows "keeps E cts cap N N'" "sent N' = sent N"
proof -
  have "keeps E cts cap N (upd_conv i (\<lambda>c. c\<lparr>cv_rxq := q\<rparr>) N)"
    if g: "e_mq_get E (cv_rxq (conv_of N i)) = Some (d, q)" for d q
  proof -
    have "snd (read_data E (Some i) 0 N) = upd_conv i (\<lambda>c. c\<lparr>cv_rxq := q\<rparr>) N"
      using g by (simp add: read_data_def Let_def)
    moreover have "net_wf E cts cap (snd (read_data E (Some i) 0 N))" if w: "net_wf E cts cap N"
      using w queues_wf_read_data [OF k _ net_wf_length [OF w]] tree_wf_same [OF read_data_tree]
      unfolding net_wf_def by blast
    ultimately show ?thesis by (auto simp: keeps_def net_simps conv_shape_def bind_upd_conv)
  qed
  then show "keeps E cts cap N N'" "sent N' = sent N"
    using s by (auto simp: rxq_get_now_def split: option.splits)
qed

lemma get_wait_keeps:
  assumes k: "msgq_ok E cts cap" and s: "rxq_get_wait E i N = (r, N')"
  shows "keeps E cts cap N N'" "sent N' = sent N"
proof -
  obtain r0 N0 where n: "rxq_get_now E i N = (r0, N0)" by fastforce
  note k0 = get_now_keeps [OF k n]
  have "keeps E cts cap N N' \<and> sent N' = sent N"
  proof (cases r0)
    case (Some d)
    then show ?thesis using s n k0 by (simp add: rxq_get_wait_def)
  next
    case None
    let ?L = "log_call (CWait i) N0"
    have w: "rxq_get_now E i (take_arrivals E ?L) = (r, N')" using s n None by (simp add: rxq_get_wait_def)
    have "keeps E cts cap N0 ?L" by (rule keeps_frame) (simp_all add: net_simps)
    then have "keeps E cts cap N N'"
      using k0(1) arrivals_keep(1) [OF k] get_now_keeps(1) [OF k w] keeps_trans by blast
    moreover have "sent N' = sent N"
      using get_now_keeps(2) [OF k w] k0(2) by (simp add: arrivals_keep(2) [OF k] is_creliable_def)
    ultimately show ?thesis by simp
  qed
  then show "keeps E cts cap N N'" "sent N' = sent N" by simp_all
qed

lemma reads_keep:
  assumes k: "msgq_ok E cts cap"
  shows "m9_reads E i n want cp N = (r, N') \<Longrightarrow> keeps E cts cap N N' \<and> sent N' = sent N \<and>
    (\<forall>b. r = M9_reply b \<longrightarrow> (\<exists>m. 7 \<le> length m \<and> m9_tag m = want \<and> b = take cp m))"
proof (induction n arbitrary: N)
  case 0
  then show ?case by simp
next
  case (Suc n)
  obtain x N1 where g: "rxq_get_wait E i N = (x, N1)" by fastforce
  note kp = get_wait_keeps [OF k g]
  have gr: "keeps E cts cap N1 (N1\<lparr>n_drain_gr := v\<rparr>)" for v
    by (rule keeps_frame) (simp_all add: net_simps)
  show ?case
  proof (cases x)
    case None
    then show ?thesis using Suc.prems g kp gr keeps_trans by fastforce
  next
    case (Some d)
    let ?N2 = "N1\<lparr>n_drain_gr := 0\<rparr>"
    have k2: "keeps E cts cap N ?N2" "sent ?N2 = sent N" using kp gr keeps_trans by fastforce+
    consider (eof) "dg_data d = []" | (hit) "dg_data d \<noteq> []" "7 \<le> length (dg_data d) \<and> m9_tag (dg_data d) = want"
      | (stale) "dg_data d \<noteq> []" "\<not> (7 \<le> length (dg_data d) \<and> m9_tag (dg_data d) = want)" by blast
    then show ?thesis
    proof cases
      case eof
      then show ?thesis using Suc.prems g Some k2 by (auto simp: Let_def)
    next
      case hit
      then show ?thesis using Suc.prems g Some k2 by (auto simp: Let_def)
    next
      case stale
      then have "m9_reads E i n want cp ?N2 = (r, N')"
        using Suc.prems g Some by (auto simp: Let_def split: if_splits)
      then show ?thesis using Suc.IH [of ?N2] k2 keeps_trans by metis
    qed
  qed
qed

text \<open>One request: at most two transmissions, all of the same message to the same address.\<close>

lemma attempts_keep:
  assumes k: "msgq_ok E cts cap"
  shows "m9_attempts E i n dst msg cp N = (r, N') \<Longrightarrow> keeps E cts cap N N' \<and>
    (\<exists>j\<le>n. sent N' = sent N @ replicate j (CReliable dst msg AETHER_NET_RETRIES)) \<and>
    (\<forall>b. r = Some b \<longrightarrow> (\<exists>m. 7 \<le> length m \<and> m9_tag m = m9_tag msg \<and> b = take cp m))"
proof (induction n arbitrary: N)
  case 0
  then show ?case by simp
next
  case (Suc n)
  obtain x N1 where c: "client_send E dst msg N = (x, N1)" by fastforce
  note cs = client_send_keeps [OF k c]
  have again: ?case if h: "m9_attempts E i n dst msg cp M = (r, N')" "keeps E cts cap N M" "sent M = sent N1" for M
  proof -
    obtain j where "j \<le> n" "sent N' = sent M @ replicate j (CReliable dst msg AETHER_NET_RETRIES)"
      "keeps E cts cap M N'" "\<forall>b. r = Some b \<longrightarrow> (\<exists>m. 7 \<le> length m \<and> m9_tag m = m9_tag msg \<and> b = take cp m)"
      using Suc.IH [OF h(1)] by blast
    then show ?thesis using h(2,3) cs(2) keeps_trans by (intro conjI exI [of _ "Suc j"]) auto
  qed
  show ?case
  proof (cases x)
    case (Inl e)
    then have "m9_attempts E i n dst msg cp N1 = (r, N')" using Suc.prems c by simp
    then show ?thesis by (rule again [OF _ cs(1) refl])
  next
    case (Inr n0)
    obtain y N2 where m: "m9_reads E i 2 (m9_tag msg) cp N1 = (y, N2)" by fastforce
    note rd = reads_keep [OF k m]
    have k2: "keeps E cts cap N N2" "sent N2 = sent N1" using rd cs(1) keeps_trans by blast+
    show ?thesis
    proof (cases y)
      case M9_again
      then have "m9_attempts E i n dst msg cp N2 = (r, N')" using Suc.prems c Inr m by simp
      then show ?thesis by (rule again [OF _ k2])
    next
      case (M9_reply b)
      then show ?thesis using Suc.prems c Inr m k2 cs(2) rd by (intro conjI exI [of _ "Suc 0"]) auto
    next
      case M9_fail
      then show ?thesis using Suc.prems c Inr m k2 cs(2) by (intro conjI exI [of _ "Suc 0"]) auto
    qed
  qed
qed

lemma rpc_keeps:
  assumes k: "msgq_ok E cts cap" and s: "m9_rpc E i body cp N = (r, N')"
  defines "dst \<equiv> (case e_eui_to_addr E (n_trace N) (cv_peer (conv_of N i)) of Some a \<Rightarrow> a | None \<Rightarrow> cv_peer (conv_of N i))"
  shows "keeps E cts cap N N'"
    "\<exists>j\<le>2. sent N' = sent N @ replicate j (CReliable dst (m9_frame body) AETHER_NET_RETRIES)"
    "r = Some b \<Longrightarrow> \<exists>m. 7 \<le> length m \<and> m9_tag m = m9_tag (m9_frame body) \<and> b = take cp m"
proof -
  let ?L = "log_call (CResolve (cv_peer (conv_of N i))) N"
  have rs: "resolve_dst E (cv_peer (conv_of N i)) N = (dst, ?L)"
    by (simp add: resolve_dst_def eui_to_addr_def dst_def split: option.splits)
  then have a: "m9_attempts E i 2 dst (m9_frame body) cp ?L = (r, N')" using s by (simp add: m9_rpc_def)
  have "keeps E cts cap N ?L" by (rule keeps_frame) (simp_all add: net_simps)
  then show "keeps E cts cap N N'" using attempts_keep [OF k a] keeps_trans by blast
  show "\<exists>j\<le>2. sent N' = sent N @ replicate j (CReliable dst (m9_frame body) AETHER_NET_RETRIES)"
    using attempts_keep [OF k a] by (auto simp: is_creliable_def)
  show "r = Some b \<Longrightarrow> \<exists>m. 7 \<le> length m \<and> m9_tag m = m9_tag (m9_frame body) \<and> b = take cp m"
    using attempts_keep [OF k a] by blast
qed

text \<open>
  A request of the in-process client costs at most two transmissions of the same framed
  message to the route (or the identity) of the peer, whatever arrives meanwhile, and a reply it
  accepts is the front of a datagram that carries the tag of the request: stale, foreign and
  short datagrams are never taken for the answer. The tree and all bindings stay as they were.
\<close>

theorem m9_rpc_matches:
  assumes "msgq_ok E cts cap" and "m9_rpc E i (t # np16 tag @ args) cp N = (r, N')"
  shows "tree_view N' = tree_view N \<and> bind_view N' = bind_view N \<and>
    (\<exists>dst j. j \<le> 2 \<and> sent N' = sent N @
        replicate j (CReliable dst (m9_frame (t # np16 tag @ args)) AETHER_NET_RETRIES)) \<and>
    (case r of None \<Rightarrow> True
     | Some b \<Rightarrow> \<exists>m. 7 \<le> length m \<and> m9_tag m = tag \<and> b = take cp m)"
  using rpc_keeps [OF assms] by (auto simp: keeps_def m9_tag_frame split: option.splits)

subsection \<open>Every message passes the peer's filter\<close>

definition all_accepted :: "'q env \<Rightarrow> mesh_call list \<Rightarrow> bool" where
  "all_accepted E cs \<longleftrightarrow> list_all (\<lambda>c. case c of
     CReliable _ m _ \<Rightarrow> looks_like_9p_t (e_max_msg E) m | _ \<Rightarrow> False) cs"

lemma all_accepted_append [simp]: "all_accepted E (xs @ ys) \<longleftrightarrow> all_accepted E xs \<and> all_accepted E ys"
  by (simp add: all_accepted_def)

lemma all_accepted_Nil [simp]: "all_accepted E []"
  by (simp add: all_accepted_def)

lemma all_accepted_replicate: "looks_like_9p_t (e_max_msg E) m \<Longrightarrow>
    all_accepted E (replicate j (CReliable dst m k))"
  by (simp add: all_accepted_def list_all_iff)

definition t_types :: "byte list" where
  "t_types = [100, 102, 104, 108, 110, 112, 114, 116, 118, 120, 122, 124, 126]"

lemma frame_accepted:
  assumes "hd body \<in> set t_types" and "3 \<le> length body" and "4 + length body \<le> mx" and "mx < 2 ^ 32"
  shows "looks_like_9p_t mx (m9_frame body)"
proof -
  have "body \<noteq> []" using assms(2) by auto
  then have "m9_frame body ! 4 = hd body" using m9_type_frame [of body] by (simp add: m9_type_def)
  moreover have "100 \<le> t \<and> t \<le> 126 \<and> t AND 1 = 0" if "t \<in> set t_types" for t
    using that by (auto simp: t_types_def)
  ultimately show ?thesis
    using assms m9_frame_size [of body] by (simp add: looks_like_9p_t_def)
qed

lemma m9_heads [simp]:
  "hd (m9_tversion m) \<in> set t_types" "hd (m9_tattach t) \<in> set t_types"
  "hd (m9_twalk_dev t f) \<in> set t_types" "hd (m9_topen t md) \<in> set t_types"
  "hd (m9_tread0 t w) \<in> set t_types" "hd (m9_twrite t fid off p) \<in> set t_types"
  "hd (m9_tclunk t fid) \<in> set t_types"
  by (simp_all add: m9_tversion_def m9_tattach_def m9_twalk_dev_def m9_topen_def m9_tread0_def
      m9_twrite_def m9_tclunk_def t_types_def)

definition body_ok :: "nat \<Rightarrow> byte list \<Rightarrow> bool" where
  "body_ok mx body \<longleftrightarrow> hd body \<in> set t_types \<and> 3 \<le> length body \<and> 4 + length body \<le> mx"

lemma rpc_accepted:
  assumes k: "msgq_ok E cts cap" and s: "m9_rpc E i body cp N = (r, N')"
    and b: "body_ok (e_max_msg E) body" and mx: "e_max_msg E < 2 ^ 32"
  shows "\<exists>ext. sent N' = sent N @ ext \<and> all_accepted E ext \<and> length ext \<le> 2"
proof -
  have a: "looks_like_9p_t (e_max_msg E) (m9_frame body)"
    using b mx frame_accepted by (simp add: body_ok_def)
  obtain j dst where "j \<le> 2" "sent N' = sent N @ replicate j (CReliable dst (m9_frame body) AETHER_NET_RETRIES)"
    using rpc_keeps(2) [OF k s] by blast
  then show ?thesis
    by (intro exI [of _ "replicate j (CReliable dst (m9_frame body) AETHER_NET_RETRIES)"])
      (simp add: all_accepted_replicate [OF a])
qed

lemma session_keeps:
  assumes k: "msgq_ok E cts cap" and mx: "e_max_msg E < 2 ^ 32"
  shows "m9_session E i n msgs N = (r, N') \<Longrightarrow> list_all (\<lambda>m. body_ok (e_max_msg E) (fst m)) msgs \<Longrightarrow>
    keeps E cts cap N N' \<and>
    (\<exists>ext. sent N' = sent N @ ext \<and> all_accepted E ext \<and> length ext \<le> 2 * length msgs)"
proof (induction msgs arbitrary: n N)
  case Nil
  then show ?case by simp
next
  case (Cons m msgs)
  obtain body ty where m: "m = (body, ty)" by (cases m)
  obtain x N1 where c: "m9_rpc E i body (e_max_msg E) N = (x, N1)" by fastforce
  have kp: "keeps E cts cap N N1" by (rule rpc_keeps(1) [OF k c])
  obtain e1 where e1: "sent N1 = sent N @ e1" "all_accepted E e1" "length e1 \<le> 2"
    using rpc_accepted [OF k c _ mx] Cons.prems(2) m by auto
  show ?case
  proof (cases "reply_is ty 5 x")
    case True
    then have "m9_session E i (n + 1) msgs N1 = (r, N')" using Cons.prems(1) m c by simp
    then obtain e2 where "keeps E cts cap N1 N'" "sent N' = sent N1 @ e2" "all_accepted E e2"
      "length e2 \<le> 2 * length msgs" using Cons.IH Cons.prems(2) by fastforce
    then show ?thesis using kp keeps_trans e1 by (intro conjI exI [of _ "e1 @ e2"]) auto
  next
    case False
    then show ?thesis using Cons.prems(1) m c kp e1 by (intro conjI exI [of _ e1]) auto
  qed
qed

lemma open_msgs_ok: "28 \<le> mx \<Longrightarrow> 24 + length file \<le> mx \<Longrightarrow>
    list_all (\<lambda>m. body_ok mx (fst m)) (open_devfile_msgs mx tag file mode)"
  by (simp add: open_devfile_msgs_def body_ok_def)

subsection \<open>Draining\<close>

lemma sint_of_int_small: "0 \<le> x \<Longrightarrow> x < 2 ^ 31 \<Longrightarrow> sint (word_of_int x :: u32) = x"
  by (simp add: sint_sbintrunc' signed_take_bit_int_eq_self)

lemma unat_sint: "0 \<le> sint (w :: u32) \<Longrightarrow> int (unat w) = sint w"
proof -
  assume "0 \<le> sint w"
  moreover have "sint w < 2 ^ 32" using sint_lt [of w] by simp
  ultimately show ?thesis by (simp add: uint_nat [symmetric] uint_sint take_bit_int_eq_self)
qed

lemma drain_clip_bounds:
  assumes "drain_clip n avail room = Some c" and "0 \<le> avail" "avail < 2 ^ 31" "0 \<le> room" "room < 2 ^ 31"
  shows "int c \<le> avail \<and> int c \<le> room"
proof -
  let ?n1 = "if avail < sint n then word_of_int avail else n"
  let ?n2 = "if room < sint ?n1 then word_of_int room else ?n1"
  have s1: "sint ?n1 \<le> avail" using assms sint_of_int_small by auto
  have s2: "sint ?n2 \<le> avail \<and> sint ?n2 \<le> room" using assms s1 sint_of_int_small by auto
  have "c = unat ?n2" "0 \<le> sint ?n2" using assms(1) by (auto simp: drain_clip_def Let_def split: if_splits)
  then show ?thesis using unat_sint s2 by metis
qed

lemma drain_loop_keeps:
  assumes k: "msgq_ok E cts cap" and mx: "28 \<le> e_max_msg E" "e_max_msg E < 2 ^ 31" and cp: "cp < 2 ^ 31"
  shows "drain_loop E i cp n tag out N = (r, N') \<Longrightarrow> keeps E cts cap N N' \<and>
    (\<exists>ext. sent N' = sent N @ ext \<and> all_accepted E ext \<and> length ext \<le> 2 * n) \<and>
    (\<forall>o'. r = Some o' \<longrightarrow> length out \<le> cp - 1 \<longrightarrow> length o' \<le> cp - 1)"
proof (induction n arbitrary: tag out N)
  case 0
  then show ?case by auto
next
  case (Suc n)
  let ?body = "m9_tread0 tag (of_nat (e_max_msg E) - 16)"
  show ?case
  proof (cases "int (length out) < int cp - 8")
    case False
    then show ?thesis using Suc.prems by auto
  next
    case True
    obtain x N1 where c: "m9_rpc E i ?body (e_max_msg E) N = (x, N1)" by fastforce
    have kp: "keeps E cts cap N N1" by (rule rpc_keeps(1) [OF k c])
    have "body_ok (e_max_msg E) ?body" using mx by (simp add: body_ok_def)
    then obtain e1 where e1: "sent N1 = sent N @ e1" "all_accepted E e1" "length e1 \<le> 2"
      using rpc_accepted [OF k c] mx by auto
    have stop: ?thesis if h: "(r, N') = (Some out, N1)"
      using h kp e1 by (intro conjI exI [of _ e1]) auto
    show ?thesis
    proof (cases "reply_is 117 11 x")
      case False
      then show ?thesis using Suc.prems True c stop by simp
    next
      case True
      then obtain b where b: "x = Some b" "11 \<le> length b" by (auto simp: reply_is_def split: option.splits)
      obtain m where m: "b = take (e_max_msg E) m" using rpc_keeps(3) [OF k c b(1)] by blast
      show ?thesis
      proof (cases "drain_clip (ng32 (drop 7 b)) (int (length b) - 11) (int cp - 1 - int (length out))")
        case None
        then have "r = None" "N' = N1" using Suc.prems True c b \<open>int (length out) < int cp - 8\<close> by auto
        then show ?thesis using kp e1 by (intro conjI exI [of _ e1]) auto
      next
        case (Some c')
        have "int (length b) < 2 ^ 31" using m mx by simp
        then have bd: "int c' \<le> int (length b) - 11" "int c' \<le> int cp - 1 - int (length out)"
          using drain_clip_bounds [OF Some] b cp \<open>int (length out) < int cp - 8\<close> by auto
        show ?thesis
        proof (cases "c' = 0")
          case True
          then have "(r, N') = (Some out, N1)"
            using Suc.prems \<open>reply_is 117 11 x\<close> c b Some \<open>int (length out) < int cp - 8\<close> by simp
          then show ?thesis by (rule stop)
        next
          case False
          let ?o = "out @ take c' (drop 11 b)"
          have rec: "drain_loop E i cp n (tag + 1) ?o N1 = (r, N')"
            using Suc.prems \<open>reply_is 117 11 x\<close> c b Some False \<open>int (length out) < int cp - 8\<close> by simp
          obtain e2 where e2: "keeps E cts cap N1 N'" "sent N' = sent N1 @ e2" "all_accepted E e2" "length e2 \<le> 2 * n"
            "\<forall>o'. r = Some o' \<longrightarrow> length ?o \<le> cp - 1 \<longrightarrow> length o' \<le> cp - 1"
            using Suc.IH [OF rec] by blast
          have "length ?o \<le> cp - 1" using bd b by simp
          then show ?thesis using kp keeps_trans e1 e2 by (intro conjI exI [of _ "e1 @ e2"]) auto
        qed
      qed
    qed
  qed
qed

text \<open>A client's slot is taken, kept through the run, and given back.\<close>

lemma client_slot_held:
  assumes k: "msgq_ok E cts cap" and w: "net_wf E cts cap N" and f: "least_free N = Some i"
    and kp: "keeps E cts cap (conv_bind i peer (conv_take_slot E i N)) N2"
  shows "net_wf E cts cap N2" "slots_in_use N2 = insert i (slots_in_use N)"
proof -
  let ?T = "conv_take_slot E i N"
  have i: "i < AETHER_MAX_CONNS" "\<not> cv_in_use (conv_of N i)" using f least_free_Some [of N i] by auto
  have wT: "net_wf E cts cap ?T" by (rule net_wf_take_slot [OF k w i])
  have vB: "tree_view (conv_bind i peer ?T) = tree_view ?T"
    by (simp add: conv_bind_def net_simps conv_shape_def)
  have "queues_wf cts cap (conv_bind i peer ?T)"
    using wT net_wf_length [OF wT] unfolding conv_bind_def
    by (intro queues_wf_upd) (auto simp: net_wf_def queues_wf_def)
  then have wB: "net_wf E cts cap (conv_bind i peer ?T)"
    using tree_wf_same [OF vB] wT unfolding net_wf_def by blast
  then show w2: "net_wf E cts cap N2" using kp by (simp add: keeps_def)
  have v2: "tree_view N2 = tree_view ?T" using kp vB by (simp add: keeps_def)
  have "cv_in_use (conv_of N2 j) = cv_in_use (conv_of ?T j)" if "j < AETHER_MAX_CONNS" for j
    using tree_view_same(3) [OF v2] that net_wf_length [OF wT] by simp
  then have "cv_in_use (conv_of N2 j) = (j = i \<or> cv_in_use (conv_of N j))" if "j < AETHER_MAX_CONNS" for j
    using that i net_wf_length [OF w] by (auto simp: conv_take_slot_convs nth_list_update)
  then show "slots_in_use N2 = insert i (slots_in_use N)" using i by (auto simp: slots_in_use_def)
qed

lemma free_slots:
  assumes "net_wf E cts cap N"
  shows "slots_in_use (conv_free E i N) = slots_in_use N - {i}"
proof -
  have "cv_in_use (conv_of (conv_free E i N) j) \<longleftrightarrow> cv_in_use (conv_of N j) \<and> j \<noteq> i"
    if "j < AETHER_MAX_CONNS" for j
    using that net_wf_length [OF assms]
    by (cases "j = i") (auto simp: conv_free_def unlink_child_def upd_node_def upd_conv_def)
  then show ?thesis by (auto simp: slots_in_use_def)
qed

lemma client_slot:
  assumes k: "msgq_ok E cts cap" and w: "net_wf E cts cap N" and f: "least_free N = Some i"
    and kp: "keeps E cts cap (conv_bind i peer (conv_take_slot E i N)) N2"
  shows "net_wf E cts cap (conv_free E i N2)" "slots_in_use (conv_free E i N2) = slots_in_use N"
proof -
  have i: "i < AETHER_MAX_CONNS" "i \<notin> slots_in_use N"
    using f least_free_Some [of N i] by (auto simp: slots_in_use_def)
  note h = client_slot_held [OF assms]
  show "net_wf E cts cap (conv_free E i N2)" by (rule net_wf_free [OF k h(1) i(1)])
  show "slots_in_use (conv_free E i N2) = slots_in_use N" using free_slots [OF h(1)] h(2) i by auto
qed

text \<open>A whole run of the drain, by the path it takes.\<close>

lemma drain_peer_run:
  assumes k: "msgq_ok E cts cap" and w: "net_wf E cts cap N"
    and mx: "28 \<le> e_max_msg E" "e_max_msg E < 2 ^ 31" and cp: "cp < 2 ^ 31"
    and run: "aether_net_drain_peer E peer cp N = (Some r, N')"
  shows "net_wf E cts cap N' \<and> slots_in_use N' = slots_in_use N \<and>
    (r = Inl ENOSPC \<longleftrightarrow> slots_in_use N = {i. i < AETHER_MAX_CONNS}) \<and>
    (case r of Inl e \<Rightarrow> e = ENOSPC | Inr out \<Rightarrow> length out \<le> cp - 1) \<and>
    (\<exists>ext. sent N' = sent N @ ext \<and> all_accepted E ext \<and> length ext \<le> 40)"
proof (cases "least_free N")
  case None
  then have "r = Inl ENOSPC" "N' = N" "slots_in_use N = {i. i < AETHER_MAX_CONNS}"
    using run least_free_None [of N] by (auto simp: aether_net_drain_peer_def conv_alloc_eq slots_in_use_def)
  then show ?thesis using w by auto
next
  case (Some i)
  have notall: "slots_in_use N \<noteq> {i. i < AETHER_MAX_CONNS}"
    using Some least_free_Some [of N i] by (auto simp: slots_in_use_def)
  let ?B = "conv_bind i peer (conv_take_slot E i N)"
  have sB: "sent ?B = sent N"
    by (simp add: conv_bind_def conv_take_slot_def conv_build_nodes_eq Let_def sent_def upd_conv_def)
  have mx32: "e_max_msg E < 2 ^ 32" using mx by simp
  let ?ms = "open_devfile_msgs (e_max_msg E) 1 (ascii ''mflt'') 0"
  obtain x N2 where s: "m9_session E i 1 ?ms ?B = (x, N2)" by fastforce
  have ms: "list_all (\<lambda>m. body_ok (e_max_msg E) (fst m)) ?ms" using mx by (intro open_msgs_ok) auto
  obtain e1 where k1: "keeps E cts cap ?B N2" and e1: "sent N2 = sent N @ e1" "all_accepted E e1"
    "length e1 \<le> 8"
    using session_keeps [OF k mx32 s ms] sB by (auto simp: open_devfile_msgs_def)
  have free: "sent (conv_free E i M) = sent M" for M
    by (simp add: conv_free_def unlink_child_def upd_node_def sent_def upd_conv_def)
  show ?thesis
  proof (cases x)
    case (Some st)
    then have "r = Inr []" "N' = conv_free E i N2"
      using run s \<open>least_free N = Some i\<close> by (auto simp: aether_net_drain_peer_def conv_alloc_eq)
    then show ?thesis using client_slot [OF k w \<open>least_free N = Some i\<close> k1] notall e1 free by auto
  next
    case None
    obtain y N3 where l: "drain_loop E i cp 16 4 [] N2 = (y, N3)" by fastforce
    obtain e2 where e2: "keeps E cts cap N2 N3" "sent N3 = sent N2 @ e2" "all_accepted E e2" "length e2 \<le> 32"
      "\<forall>o'. y = Some o' \<longrightarrow> length o' \<le> cp - 1"
      using drain_loop_keeps [OF k mx cp l] by auto
    have "y \<noteq> None" using run s l None \<open>least_free N = Some i\<close>
      by (cases y) (simp_all add: aether_net_drain_peer_def conv_alloc_eq)
    then obtain out where out: "y = Some out" by blast
    then have "r = Inr out" "N' = conv_free E i N3"
      using run s l None \<open>least_free N = Some i\<close> by (auto simp: aether_net_drain_peer_def conv_alloc_eq)
    moreover have "keeps E cts cap ?B N3" using k1 e2(1) keeps_trans by blast
    ultimately show ?thesis
      using client_slot [OF k w \<open>least_free N = Some i\<close>] notall e1 e2 free out
      by (auto intro!: exI [of _ "e1 @ e2"])
  qed
qed


text \<open>
  When the drain's copy stays inside its buffers: the count of a Rread is clipped to what
  was received and to what there is room for, unless it is \<open>2 ^ 31\<close> or more. Then it is negative
  as an \<open>int\<close>, neither clip applies, and the copy runs out of both buffers.
\<close>

theorem drain_clip_spec:
  assumes "0 \<le> avail" and "avail < 2 ^ 31" and "0 \<le> room" and "room < 2 ^ 31"
  shows "drain_clip n avail room =
    (if 2 ^ 31 \<le> uint n then None else Some (nat (min (uint n) (min avail room))))"
proof -
  have neg: "sint n < 0" if "2 ^ 31 \<le> uint n"
  proof (rule ccontr)
    assume "\<not> sint n < 0"
    then have "int (unat n) = sint n" using unat_sint by simp
    then have "uint n = sint n" unfolding uint_nat .
    then show False using that sint_lt [of n] by simp
  qed
  have pos: "sint n = uint n" if "uint n < 2 ^ 31"
    using sint_of_int_small [of "uint n"] that by simp
  show ?thesis
  proof (cases "2 ^ 31 \<le> uint n")
    case True
    then show ?thesis using neg assms by (simp add: drain_clip_def Let_def)
  next
    case False
    then have n: "sint n = uint n" using pos by simp
    have u: "unat (word_of_int x :: u32) = nat x" if "0 \<le> x" "x < 2 ^ 31" for x
      using unat_sint [of "word_of_int x"] sint_of_int_small [OF that] that by (metis nat_int)
    show ?thesis
      using False n assms sint_of_int_small u
      by (auto simp: drain_clip_def Let_def min_def)
  qed
qed

theorem drain_clip_spec_witness: "drain_clip 0xffffffff 100 200 = None \<and> drain_clip 300 100 200 = Some 100"
  using drain_clip_spec [of 100 200 "0xffffffff"] drain_clip_spec [of 100 200 300] by simp

text \<open>
  The T-messages of the in-process client are well formed: what it builds passes the test that
  the mesh server of this repository applies before it takes a datagram for a request.
\<close>

text \<open>The message types of 9P a client sends, with the type of the reply.\<close>

definition request_types :: "byte list" where
  "request_types = [100, 104, 110, 112, 116, 118, 120]"

definition well_typed :: "nat \<Rightarrow> u16 \<Rightarrow> byte list \<Rightarrow> bool" where
  "well_typed mx tag m \<longleftrightarrow>
     looks_like_9p_t mx (m9_frame m) \<and> m9_type (m9_frame m) \<in> set request_types \<and> m9_tag (m9_frame m) = tag \<and>
     mesh9p_ack_gate mx (m9_frame m) mesh9p_zero"


end
