(* ===== verification/NetPushProps.thy ===== *)
theory NetPushProps
  imports NetClientProps
begin

text \<open>
  What a push does to the peer: the acknowledged Twrites of a block carry it in order and
  without a gap, and the session's conversation is held while the push is active and given back
  when it ends.
\<close>

subsection \<open>What the mesh acknowledged\<close>

fun acked_from :: "'q env \<Rightarrow> mesh_call list \<Rightarrow> mesh_call list \<Rightarrow> byte list list" where
  "acked_from E pre [] = []"
| "acked_from E pre (c # cs) =
     (case c of CReliable d m _ \<Rightarrow> if is_ok (e_send_reliable E pre d m) then [m] else [] | _ \<Rightarrow> [])
     @ acked_from E (pre @ [c]) cs"

definition acked :: "'q env \<Rightarrow> 'q net \<Rightarrow> byte list list" where
  "acked E N = acked_from E [] (n_trace N)"

lemma acked_from_append: "acked_from E pre (xs @ ys) = acked_from E pre xs @ acked_from E (pre @ xs) ys"
  by (induction xs arbitrary: pre) simp_all

lemma acked_log: "acked E (log_call c N) = acked E N @
    (case c of CReliable d m _ \<Rightarrow> if is_ok (e_send_reliable E (n_trace N) d m) then [m] else [] | _ \<Rightarrow> [])"
  by (simp add: acked_def log_call_def acked_from_append)

lemma acked_same: "n_trace N' = n_trace N \<Longrightarrow> acked E N' = acked E N"
  by (simp add: acked_def)

lemma acked_takes: "acked E (snd (conv_takes E' s d b c N)) = acked E N"
  by (simp add: conv_takes_def eui_to_addr_def acked_log split: conv_state.splits)

lemma acked_recv_conv: "acked E (recv_conv E' s d b p i N) = acked E N"
proof -
  obtain t N1 where t: "conv_takes E' s d b (conv_of N i) N = (t, N1)" by fastforce
  then have "acked E N1 = acked E N" using acked_takes by (metis snd_conv)
  moreover have "acked E (N1\<lparr>n_rx_drop := x\<rparr>) = acked E N1" "acked E (upd_conv i f N1) = acked E N1" for x f
    by (simp_all add: acked_def upd_conv_def)
  ultimately show ?thesis using t by (simp add: recv_conv_def split: option.splits)
qed

lemma acked_recv_cb: "acked E (aether_recv_cb E' f N) = acked E N"
proof -
  obtain idt N1 where r: "recv_ident E' f N = (idt, N1)" by fastforce
  have "acked E N1 = acked E N"
    using r by (auto simp: recv_ident_def addr_to_eui_def acked_log split: if_splits option.splits)
  moreover have "acked E (fold (recv_conv E' s d b p) is M) = acked E M" for s d b p "is" M
    by (induction "is" arbitrary: M) (simp_all add: acked_recv_conv)
  moreover have "acked E (N1\<lparr>n_rx := x, n_rx_bytes := y\<rparr>) = acked E N1" for x y
    by (simp add: acked_def)
  ultimately show ?thesis using r by (simp add: aether_recv_cb_def)
qed

lemma acked_arrivals: "acked E (take_arrivals E' N) = acked E N"
proof -
  have "acked E (fold (aether_recv_cb E') fs N) = acked E N" for fs
    by (induction fs arbitrary: N) (simp_all add: acked_recv_cb)
  then show ?thesis by (simp add: take_arrivals_def)
qed

lemma acked_client_send: "client_send E dst msg N = (r, N') \<Longrightarrow>
    acked E N' = acked E N @ (if is_ok r then [msg] else [])"
proof -
  assume "client_send E dst msg N = (r, N')"
  then have "n_trace N' = n_trace (take_arrivals E (log_call (CReliable dst msg AETHER_NET_RETRIES) N))"
    and r: "r = e_send_reliable E (n_trace N) dst msg"
    by (auto simp: client_send_def mesh_send_reliable_def)
  then have "acked E N' = acked E (take_arrivals E (log_call (CReliable dst msg AETHER_NET_RETRIES) N))"
    by (intro acked_same)
  then show ?thesis using r by (simp add: acked_arrivals acked_log)
qed

lemma acked_get_now: "rxq_get_now E i N = (r, N') \<Longrightarrow> acked E N' = acked E N"
  by (auto simp: rxq_get_now_def acked_def upd_conv_def split: option.splits)

lemma acked_get_wait: "rxq_get_wait E i N = (r, N') \<Longrightarrow> acked E N' = acked E N"
  using acked_get_now [of E i]
  by (auto simp: rxq_get_wait_def acked_log acked_arrivals split: prod.splits option.splits)

subsection \<open>Reaping and one chunk\<close>

lemma reap_loop_keeps:
  assumes k: "msgq_ok E cts cap"
  shows "push_reap_loop E i n wt (P, N) = (P', N') \<Longrightarrow>
    keeps E cts cap N N' \<and> sent N' = sent N \<and> acked E N' = acked E N \<and>
    (\<exists>x. P' = P\<lparr>pu_outstanding := x\<rparr> \<and> (pu_outstanding P = 0 \<longrightarrow> x = 0))"
proof (induction n arbitrary: wt P N)
  case 0
  then show ?case by (intro conjI exI [of _ "pu_outstanding P"]) auto
next
  case (Suc n)
  obtain d N1 where g: "(if wt then rxq_get_wait E i N else rxq_get_now E i N) = (d, N1)" by fastforce
  have k1: "keeps E cts cap N N1 \<and> sent N1 = sent N \<and> acked E N1 = acked E N"
  proof (cases wt)
    case True
    then have "rxq_get_wait E i N = (d, N1)" using g by simp
    then show ?thesis using get_wait_keeps [OF k] acked_get_wait by blast
  next
    case False
    then have "rxq_get_now E i N = (d, N1)" using g by simp
    then show ?thesis using get_now_keeps [OF k] acked_get_now by blast
  qed
  show ?case
  proof (cases d)
    case None
    then show ?thesis using Suc.prems g k1 by (intro conjI exI [of _ "pu_outstanding P"]) auto
  next
    case (Some x)
    let ?P = "if 0 < pu_outstanding P then P\<lparr>pu_outstanding := pu_outstanding P - 1\<rparr> else P"
    have "push_reap_loop E i n False (?P, N1) = (P', N')" using Suc.prems g Some by simp
    note IH = Suc.IH [OF this]
    have "\<exists>x. P' = P\<lparr>pu_outstanding := x\<rparr> \<and> (pu_outstanding P = 0 \<longrightarrow> x = 0)"
      using IH by (auto split: if_splits)
    then show ?thesis using IH k1 keeps_trans by metis
  qed
qed

text \<open>One turn more than the queue is deep does empty it: the fuel of \<open>push_reap\<close> is enough.\<close>

lemma reap_loop_empties:
  assumes k: "msgq_ok E cts cap"
  shows "length (cts (cv_rxq (conv_of N i))) < n \<Longrightarrow> i < length (n_convs N) \<Longrightarrow>
    push_reap_loop E i n False (P, N) = (P', N') \<Longrightarrow> cts (cv_rxq (conv_of N' i)) = []"
proof (induction n arbitrary: P N)
  case (Suc n)
  show ?case
  proof (cases "e_mq_get E (cv_rxq (conv_of N i))")
    case None
    then have "N' = N" using Suc.prems by (simp add: rxq_get_now_def)
    then show ?thesis using None msgq_get_None [OF k] by blast
  next
    case (Some y)
    obtain d q where y: "y = (d, q)" by (cases y)
    let ?N = "upd_conv i (\<lambda>c. c\<lparr>cv_rxq := q\<rparr>) N"
    let ?P = "if 0 < pu_outstanding P then P\<lparr>pu_outstanding := pu_outstanding P - 1\<rparr> else P"
    have "push_reap_loop E i n False (?P, ?N) = (P', N')"
      using Suc.prems(3) Some y by (simp add: rxq_get_now_def)
    moreover have "cts (cv_rxq (conv_of N i)) = d # cts q" using msgq_get_Some [OF k] Some y by blast
    then have "length (cts (cv_rxq (conv_of ?N i))) < n" "i < length (n_convs ?N)"
      using Suc.prems by (simp_all add: net_simps)
    ultimately show ?thesis using Suc.IH by blast
  qed
qed simp

definition twrite_fid :: "byte list \<Rightarrow> u32" where
  "twrite_fid m = ng32 (drop 7 m)"

lemma twrite_fid_frame: "twrite_fid (m9_frame (m9_twrite t fid off p)) = fid"
  by (simp add: twrite_fid_def m9_frame_def m9_twrite_def)

text \<open>A run of acknowledged Twrites that continues the file from \<open>off\<close>.\<close>

fun contiguous :: "u32 \<Rightarrow> u64 \<Rightarrow> byte list list \<Rightarrow> bool" where
  "contiguous fid off [] = True"
| "contiguous fid off (m # ms) =
     (m9_type m = 118 \<and> twrite_fid m = fid \<and> twrite_offset m = off \<and>
      contiguous fid (off + of_nat (length (twrite_data m))) ms)"

lemma chunk_keeps:
  assumes k: "msgq_ok E cts cap" and mx: "e_max_msg E < 2 ^ 32" and d: "23 + length data \<le> e_max_msg E"
  shows "push_chunk E dst n off data (P, N) = (ok, P', N') \<Longrightarrow>
    keeps E cts cap N N' \<and> (\<exists>t. P' = P\<lparr>pu_tag := t\<rparr>) \<and>
    (\<exists>t. acked E N' = acked E N @ (if ok then [m9_frame (m9_twrite t (pu_fid P) off data)] else [])) \<and>
    (\<exists>ext. sent N' = sent N @ ext \<and> all_accepted E ext \<and> length ext \<le> n)"
proof (induction n arbitrary: P N)
  case 0
  then show ?case by (auto intro: exI [of _ "pu_tag P"])
next
  case (Suc n)
  let ?m = "m9_frame (m9_twrite (pu_tag P) (pu_fid P) off data)"
  let ?P = "P\<lparr>pu_tag := pu_tag P + 1\<rparr>"
  obtain x N1 where c: "client_send E dst ?m N = (x, N1)" by fastforce
  note cs = client_send_keeps [OF k c]
  note ak = acked_client_send [OF c]
  have acc: "all_accepted E [CReliable dst ?m AETHER_NET_RETRIES]"
    using frame_accepted [of "m9_twrite (pu_tag P) (pu_fid P) off data" "e_max_msg E"] d mx
    by (simp add: all_accepted_def)
  show ?case
  proof (cases x)
    case (Inr v)
    then have r: "ok" "P' = ?P" "N' = N1" using Suc.prems c by auto
    have A: "\<exists>t. P' = P\<lparr>pu_tag := t\<rparr>" using r by blast
    have "acked E N' = acked E N @ [?m]" using ak Inr r by simp
    then have B: "\<exists>t. acked E N' = acked E N @ (if ok then [m9_frame (m9_twrite t (pu_fid P) off data)] else [])"
      using r(1) by auto
    have "sent N' = sent N @ [CReliable dst ?m AETHER_NET_RETRIES]" using cs(2) r by simp
    then have C: "\<exists>ext. sent N' = sent N @ ext \<and> all_accepted E ext \<and> length ext \<le> Suc n"
      using acc by fastforce
    show ?thesis using cs(1) r(3) A B C by blast
  next
    case (Inl e)
    then have "push_chunk E dst n off data (?P, N1) = (ok, P', N')" using Suc.prems c by simp
    note IH = Suc.IH [OF this]
    obtain ext where "sent N' = sent N1 @ ext" "all_accepted E ext" "length ext \<le> n" using IH by blast
    then have "\<exists>ext. sent N' = sent N @ ext \<and> all_accepted E ext \<and> length ext \<le> Suc n"
      using cs(2) acc by (intro exI [of _ "CReliable dst ?m AETHER_NET_RETRIES # ext"]) (simp add: all_accepted_def)
    moreover have "acked E N1 = acked E N" using ak Inl by simp
    ultimately show ?thesis using IH cs(1) keeps_trans by auto
  qed
qed

subsection \<open>A block\<close>

lemma push_maxdata_eq:
  assumes "24 \<le> mx" and "mx < 2 ^ 32"
  shows "push_maxdata mx = min 384 (mx - 23)"
proof -
  have e: "(of_nat mx :: u32) - 23 = of_nat (mx - 23)" using assms by (simp add: of_nat_diff)
  have "unat ((of_nat mx :: u32) - 23) = mx - 23"
    unfolding e unat_of_nat using assms by (simp add: take_bit_nat_eq_self)
  then show ?thesis by (simp add: push_maxdata_def Let_def word_less_nat_alt min_def)
qed

lemma push_loop_delivers:
  assumes k: "msgq_ok E cts cap" and mx: "e_max_msg E < 2 ^ 32" and md: "0 < md" "23 + md \<le> e_max_msg E"
  shows "push_loop E i dst md off buf (P, N) = (r, P', N') \<Longrightarrow>
    keeps E cts cap N N' \<and> (\<exists>t x. P' = P\<lparr>pu_tag := t, pu_outstanding := x\<rparr> \<and> (pu_outstanding P = 0 \<longrightarrow> x = 0)) \<and>
    (\<exists>ms rest. acked E N' = acked E N @ ms \<and> contiguous (pu_fid P) off ms \<and>
       list_all (\<lambda>m. length (twrite_data m) \<le> md) ms \<and>
       buf = concat (map twrite_data ms) @ rest \<and> r = Some (rest = [])) \<and>
    (\<exists>ext. sent N' = sent N @ ext \<and> all_accepted E ext)"
proof (induction "length buf" arbitrary: buf off P N rule: less_induct)
  case less
  show ?case
  proof (cases "buf = []")
    case True
    have "push_loop E i dst md off buf (P, N) = (Some True, P, N)"
      using True by (subst push_loop.simps) simp
    then have r: "r = Some True" "P' = P" "N' = N" using less.prems by auto
    have A: "\<exists>t x. P' = P\<lparr>pu_tag := t, pu_outstanding := x\<rparr> \<and> (pu_outstanding P = 0 \<longrightarrow> x = 0)"
      using r by (intro exI [of _ "pu_tag P"] exI [of _ "pu_outstanding P"]) simp
    show ?thesis
      using True r A by (intro conjI exI [of _ "[]"] exI [of _ "[] :: mesh_call list"]) auto
  next
    case False
    let ?c = "take md buf"
    obtain ok P1 N1 where c: "push_chunk E dst 12 off ?c (P, N) = (ok, P1, N1)" by (metis prod_cases3)
    have len: "23 + length ?c \<le> e_max_msg E" using md by simp
    note ch = chunk_keeps [OF k mx len c]
    obtain t1 where P1: "P1 = P\<lparr>pu_tag := t1\<rparr>" using ch by blast
    obtain t where ak1: "acked E N1 = acked E N @ (if ok then [m9_frame (m9_twrite t (pu_fid P) off ?c)] else [])"
      using ch by blast
    obtain e1 where e1: "sent N1 = sent N @ e1" "all_accepted E e1" using ch by blast
    show ?thesis
    proof (cases ok)
      case False
      then have r: "r = Some False" "P' = P1" "N' = N1"
        using less.prems \<open>buf \<noteq> []\<close> md c by (subst (asm) push_loop.simps, simp)+
      have "P1 = P\<lparr>pu_tag := t1, pu_outstanding := pu_outstanding P\<rparr>" using P1 by simp
      moreover have "acked E N' = acked E N @ [] \<and> contiguous (pu_fid P) off [] \<and>
          list_all (\<lambda>m. length (twrite_data m) \<le> md) [] \<and> buf = concat (map twrite_data []) @ buf \<and> r = Some (buf = [])"
        using r ak1 False \<open>buf \<noteq> []\<close> by simp
      ultimately show ?thesis using r ch e1 by blast
    next
      case True
      obtain P2 N2 where rp: "push_reap E i False (P1, N1) = (P2, N2)" by fastforce
      note rk = reap_loop_keeps [OF k rp [unfolded push_reap_def]]
      obtain x where P2: "P2 = P1\<lparr>pu_outstanding := x\<rparr>" "pu_outstanding P1 = 0 \<longrightarrow> x = 0" using rk by blast
      let ?off = "off + of_nat (length ?c)"
      have rec: "push_loop E i dst md ?off (drop md buf) (P2, N2) = (r, P', N')"
        using less.prems \<open>buf \<noteq> []\<close> md c True rp by (subst (asm) push_loop.simps) simp
      have "length (drop md buf) < length buf" using \<open>buf \<noteq> []\<close> md by (simp add: length_greater_0_conv)
      note IH = less.hyps [OF this rec]
      have fid: "pu_fid P2 = pu_fid P" using P1 P2 by simp
      obtain ms rest where ms: "acked E N' = acked E N2 @ ms" "contiguous (pu_fid P) ?off ms"
        "list_all (\<lambda>m. length (twrite_data m) \<le> md) ms" "drop md buf = concat (map twrite_data ms) @ rest"
        "r = Some (rest = [])" using IH fid by auto
      let ?m = "m9_frame (m9_twrite t (pu_fid P) off ?c)"
      have tw: "twrite_data ?m = ?c" "twrite_offset ?m = off" "twrite_fid ?m = pu_fid P" "m9_type ?m = 118"
        using md mx by (simp_all add: twrite_data_frame twrite_offset_frame twrite_fid_frame)
          (simp add: m9_twrite_def)
      have "acked E N' = acked E N @ (?m # ms)" using ms(1) rk ak1 True by simp
      moreover have "contiguous (pu_fid P) off (?m # ms)" using tw ms(2) by simp
      moreover have "list_all (\<lambda>m. length (twrite_data m) \<le> md) (?m # ms)" using tw ms(3) by simp
      moreover have "buf = concat (map twrite_data (?m # ms)) @ rest"
        using tw ms(4) append_take_drop_id [of md buf] by (simp del: append_take_drop_id)
      ultimately have A: "\<exists>ms rest. acked E N' = acked E N @ ms \<and> contiguous (pu_fid P) off ms \<and>
          list_all (\<lambda>m. length (twrite_data m) \<le> md) ms \<and> buf = concat (map twrite_data ms) @ rest \<and> r = Some (rest = [])"
        using ms(5) by blast
      have "\<exists>t x. P' = P\<lparr>pu_tag := t, pu_outstanding := x\<rparr> \<and> (pu_outstanding P = 0 \<longrightarrow> x = 0)"
        using IH P1 P2 by auto
      moreover have "keeps E cts cap N N'" using ch rk IH keeps_trans by blast
      moreover have "\<exists>ext. sent N' = sent N @ ext \<and> all_accepted E ext"
        using IH rk e1 by (metis append.assoc all_accepted_append)
      ultimately show ?thesis using A by blast
    qed
  qed
qed


subsection \<open>The slot of a push session\<close>

text \<open>The session holds one slot while it is active; \<open>pu_outstanding\<close> never leaves 0.\<close>

definition push_ok :: "push \<times> 'q net \<Rightarrow> bool" where
  "push_ok PN \<longleftrightarrow> pu_outstanding (fst PN) = 0 \<and>
     (pu_active (fst PN) \<longrightarrow> (\<exists>i \<in> slots_in_use (snd PN). pu_conv (fst PN) = Some i))"

definition other_slots :: "push \<times> 'q net \<Rightarrow> nat set" where
  "other_slots PN = slots_in_use (snd PN) - (if pu_active (fst PN) then set_option (pu_conv (fst PN)) else {})"

lemma keeps_slots:
  assumes "net_wf E cts cap N" and "keeps E cts cap N N'"
  shows "net_wf E cts cap N'" "slots_in_use N' = slots_in_use N"
proof -
  show w: "net_wf E cts cap N'" using assms by (simp add: keeps_def)
  have v: "tree_view N' = tree_view N" using assms by (simp add: keeps_def)
  show "slots_in_use N' = slots_in_use N"
    using tree_view_same(3) [OF v] net_wf_length [OF assms(1)] by (auto simp: slots_in_use_def)
qed

lemma open_devfile_keeps:
  assumes "msgq_ok E cts cap" and "28 \<le> e_max_msg E" "24 + length file \<le> e_max_msg E" "e_max_msg E < 2 ^ 32"
    and "m9_open_devfile E i tag file mode N = (code, tag', N')"
  shows "keeps E cts cap N N'"
proof -
  obtain x N1 where s: "m9_session E i 1 (open_devfile_msgs (e_max_msg E) tag file mode) N = (x, N1)" by fastforce
  then have "N' = N1" using assms(5) by (auto simp: m9_open_devfile_def split: option.splits)
  then show ?thesis using session_keeps [OF assms(1,4) s open_msgs_ok] assms(2,3) by blast
qed

lemma push_open_slots:
  assumes k: "msgq_ok E cts cap" and mx: "32 \<le> e_max_msg E" "e_max_msg E < 2 ^ 32"
    and w: "net_wf E cts cap N" and ok: "push_ok (P, N)"
    and run: "aether_net_push_open E peer (P, N) = (r, P', N')"
  shows "net_wf E cts cap N' \<and> push_ok (P', N') \<and> other_slots (P', N') = other_slots (P, N) \<and>
    (pu_active P' \<longleftrightarrow> r = Inl None)"
proof -
  let ?P1 = "if pu_active P then P\<lparr>pu_active := False, pu_conv := None\<rparr> else P"
  let ?N1 = "if pu_active P then conv_free E (the (pu_conv P)) N else N"
  have "the (pu_conv P) < AETHER_MAX_CONNS" if "pu_active P"
    using ok that by (auto simp: push_ok_def slots_in_use_def)
  then have w1: "net_wf E cts cap ?N1" using w net_wf_free [OF k w] by simp
  have o1: "slots_in_use ?N1 = other_slots (P, N)"
    using ok free_slots [OF w] by (auto simp: other_slots_def push_ok_def)
  have P1: "\<not> pu_active ?P1" "pu_outstanding ?P1 = 0" using ok by (auto simp: push_ok_def)
  have idle: "net_wf E cts cap M \<Longrightarrow> slots_in_use M = slots_in_use ?N1 \<Longrightarrow> \<not> pu_active Q \<Longrightarrow>
      pu_outstanding Q = 0 \<Longrightarrow> net_wf E cts cap M \<and> push_ok (Q, M) \<and> other_slots (Q, M) = other_slots (P, N)" for Q M
    using o1 by (simp add: push_ok_def other_slots_def)
  show ?thesis
  proof (cases "least_free ?N1")
    case None
    then have "r = Inl (Some ENOSPC)" "P' = ?P1" "N' = ?N1"
      using run by (auto simp: aether_net_push_open_def conv_alloc_eq split: if_splits)
    then have e: "r = Inl (Some ENOSPC)" "(P', N') = (?P1, ?N1)" by simp_all
    have h: "\<not> pu_active P'" "pu_outstanding P' = 0" "net_wf E cts cap N'" "slots_in_use N' = slots_in_use ?N1"
      using e(2) P1 w1 by simp_all
    have "net_wf E cts cap N' \<and> push_ok (P', N') \<and> other_slots (P', N') = other_slots (P, N)"
      by (rule idle [OF h(3,4,1,2)])
    then show ?thesis using h(1) e(1) by blast
  next
    case (Some i)
    let ?B = "conv_bind i peer (conv_take_slot E i ?N1)"
    obtain code tag N3 where d: "m9_open_devfile E i 1 (ascii ''firmware'') 1 ?B = (code, tag, N3)"
      by (metis prod_cases3)
    have kp: "keeps E cts cap ?B N3" using open_devfile_keeps [OF k _ _ mx(2) d] mx by simp
    have al: "conv_alloc E ?N1 = (Some i, conv_take_slot E i ?N1)" using Some by (simp add: conv_alloc_eq)
    have eq: "(r, P', N') = (if code < 0 then (Inr code, ?P1\<lparr>pu_tag := tag\<rparr>, conv_free E i N3)
        else (Inl None, ?P1\<lparr>pu_conv := Some i, pu_peer := peer, pu_fid := 2, pu_tag := tag,
                pu_woff := 0, pu_outstanding := 0, pu_active := True\<rparr>, N3))"
      using run al d by (cases "pu_active P"; cases "code < 0") (simp_all add: aether_net_push_open_def)
    show ?thesis
    proof (cases "code < 0")
      case True
      then have e: "r = Inr code" "P' = ?P1\<lparr>pu_tag := tag\<rparr>" "N' = conv_free E i N3" using eq by auto
      have "\<not> pu_active P'" "pu_outstanding P' = 0" using e P1 by simp_all
      then show ?thesis
        using idle [of N' P'] client_slot [OF k w1 Some kp] e by simp
    next
      case False
      then have e: "r = Inl None" "pu_conv P' = Some i" "pu_outstanding P' = 0" "pu_active P'" "N' = N3"
        using eq by auto
      have "i \<notin> slots_in_use ?N1" using least_free_Some [of ?N1 i] Some by (simp add: slots_in_use_def)
      then show ?thesis
        using e client_slot_held [OF k w1 Some kp] o1 by (simp add: push_ok_def other_slots_def)
    qed
  qed
qed

lemma push_write_slots:
  assumes k: "msgq_ok E cts cap" and mx: "32 \<le> e_max_msg E" "e_max_msg E < 2 ^ 32"
    and w: "net_wf E cts cap N" and ok: "push_ok (P, N)"
    and run: "aether_net_push_write E buf off (P, N) = (r, P', N')"
  shows "net_wf E cts cap N' \<and> push_ok (P', N') \<and> other_slots (P', N') = other_slots (P, N) \<and>
    pu_active P' = pu_active P"
proof (cases "pu_active P")
  case False
  then show ?thesis using run w ok by (simp add: aether_net_push_write_def)
next
  case True
  let ?i = "the (pu_conv P)" and ?md = "push_maxdata (e_max_msg E)"
  obtain dst N1 where d: "resolve_dst E (cv_peer (conv_of N ?i)) N = (dst, N1)" by fastforce
  then have "tree_view N1 = tree_view N" "n_convs N1 = n_convs N" using ext_frame by (metis snd_conv)+
  then have k1: "keeps E cts cap N N1" by (rule keeps_frame)
  obtain x P2 N2 where l: "push_loop E ?i dst ?md off buf (P, N1) = (x, P2, N2)" by (metis prod_cases3)
  have md: "0 < ?md" "23 + ?md \<le> e_max_msg E" using push_maxdata_eq [of "e_max_msg E"] mx by auto
  note L = push_loop_delivers [OF k mx(2) md l]
  have k2: "keeps E cts cap N N2" using k1 L keeps_trans by blast
  obtain t y where P2: "P2 = P\<lparr>pu_tag := t, pu_outstanding := y\<rparr>" "pu_outstanding P = 0 \<longrightarrow> y = 0" using L by blast
  obtain b where x: "x = Some b" using L by blast
  have e: "N' = N2" "pu_active P' = pu_active P2" "pu_conv P' = pu_conv P2" "pu_outstanding P' = pu_outstanding P2"
    using run True d l x by (auto simp: aether_net_push_write_def split: bool.splits)
  show ?thesis
    using e P2 ok True keeps_slots [OF w k2] by (simp add: push_ok_def other_slots_def)
qed

lemma push_close_slots:
  assumes k: "msgq_ok E cts cap" and w: "net_wf E cts cap N" and ok: "push_ok (P, N)"
    and run: "aether_net_push_close E (P, N) = (r, P', N')"
  shows "net_wf E cts cap N' \<and> push_ok (P', N') \<and> other_slots (P', N') = other_slots (P, N) \<and>
    \<not> pu_active P'"
proof (cases "pu_active P")
  case False
  then show ?thesis using run w ok by (simp add: aether_net_push_close_def)
next
  case True
  then obtain i where i: "i \<in> slots_in_use N" "pu_conv P = Some i" using ok by (auto simp: push_ok_def)
  have "push_close_reap E i n (P, N) = (P, N)" for n using ok by (cases n) (auto simp: push_ok_def)
  moreover obtain x N2 where c: "m9_rpc E i (m9_tclunk (pu_tag P) (pu_fid P)) (e_max_msg E) N = (x, N2)" by fastforce
  ultimately have e: "N' = conv_free E i N2" "\<not> pu_active P'" "pu_outstanding P' = pu_outstanding P"
    using run True i by (auto simp: aether_net_push_close_def)
  note k2 = keeps_slots [OF w rpc_keeps(1) [OF k c]]
  have "net_wf E cts cap N'" using e net_wf_free [OF k k2(1)] i by (simp add: slots_in_use_def)
  moreover have "slots_in_use N' = slots_in_use N - {i}" using e free_slots [OF k2(1)] k2(2) by simp
  ultimately show ?thesis using e ok i True by (simp add: push_ok_def other_slots_def)
qed

text \<open>
  C12. An OTA session never leaks a conversation: opening, whatever was active before and whether
  or not the peer answers, writing and closing all keep the invariant, leave the slots of the
  other clients exactly as they were, and hold one slot of their own precisely while the session
  is active; a close always ends it. (The window counter stays 0 throughout.)
\<close>

theorem push_never_leaks:
  assumes k: "msgq_ok E cts cap" and mx: "32 \<le> e_max_msg E" "e_max_msg E < 2 ^ 32"
    and w: "net_wf E cts cap N" and ok: "push_ok (P, N)"
    and run: "aether_net_push_open E peer (P, N) = (r1, P1, N1)"
      "aether_net_push_write E buf off (P1, N1) = (r2, P2, N2)"
      "aether_net_push_close E (P2, N2) = (r3, P3, N3)"
  shows "net_wf E cts cap N1 \<and> net_wf E cts cap N2 \<and> net_wf E cts cap N3 \<and>
    other_slots (P1, N1) = other_slots (P, N) \<and> other_slots (P2, N2) = other_slots (P, N) \<and>
    (pu_active P1 \<longleftrightarrow> r1 = Inl None) \<and> \<not> pu_active P3 \<and> pu_outstanding P3 = 0 \<and>
    slots_in_use N3 = other_slots (P, N)"
proof -
  have a: "net_wf E cts cap N1" "push_ok (P1, N1)" "other_slots (P1, N1) = other_slots (P, N)"
    "pu_active P1 \<longleftrightarrow> r1 = Inl None" using push_open_slots [OF k mx w ok run(1)] by auto
  have b: "net_wf E cts cap N2" "push_ok (P2, N2)" "other_slots (P2, N2) = other_slots (P, N)"
    using push_write_slots [OF k mx a(1,2) run(2)] a by auto
  have c: "net_wf E cts cap N3" "push_ok (P3, N3)" "other_slots (P3, N3) = other_slots (P, N)" "\<not> pu_active P3"
    using push_close_slots [OF k b(1,2) run(3)] b by auto
  show ?thesis using a b c by (auto simp: push_ok_def other_slots_def)
qed

end
