(* ===== verification/NetFiles.thy ===== *)
theory NetFiles
  imports NetData
begin

text \<open>
  The rest of the file interface: opening a conversation through \<open>clone\<close>, and reading the text
  files, the ownership proof and the directories in pieces of any size.
\<close>

subsection \<open>clone\<close>

lemma walk_clone: "net_wf E cts cap N \<Longrightarrow> anet_walk E (Some NRoot) (ascii ''clone'') N =
    (case least_free N of None \<Rightarrow> (None, N) | Some i \<Rightarrow> (Some (NCtl i), conv_take_slot E i N))"
  by (auto simp: net_wf_def tree_wf_def anet_walk_def conv_alloc_eq root_dir_def split: option.splits)

lemma read_NCtl: "slot_built E (n_nodes N) i \<Longrightarrow>
    anet_read E (NCtl i) off cnt N = (Returns (Inr (segment off cnt (dec_nat (cv_slot (conv_of N i)) @ [nl]))), N)"
  by (simp add: anet_read_def net_simps file_text_def)

lemma dec_nat_digit: "i < 10 \<Longrightarrow> dec_nat i = [of_nat (48 + i)]"
  by (subst dec_nat.simps) simp

text \<open>
  Walking \<open>clone\<close> from the root opens a conversation exactly when one of the four slots is
  free: the client gets the ctl node of the lowest free slot, which reads the slot number, and
  the conversation is fresh (unconnected, no peer, empty queue of depth 16); the other
  conversations are untouched. With all four in use the walk fails and nothing changes.
\<close>

theorem clone_opens:
  assumes k: "msgq_ok E cts cap" and w: "net_wf E cts cap N" and c: "2 \<le> cnt"
  shows "case least_free N of
      None \<Rightarrow> (\<forall>j. j < AETHER_MAX_CONNS \<longrightarrow> cv_in_use (conv_of N j)) \<and>
        anet_walk E (Some NRoot) (ascii ''clone'') N = (None, N)
    | Some i \<Rightarrow> i < AETHER_MAX_CONNS \<and> \<not> cv_in_use (conv_of N i) \<and> (\<forall>j. j < i \<longrightarrow> cv_in_use (conv_of N j)) \<and>
        (\<exists>N'. anet_walk E (Some NRoot) (ascii ''clone'') N = (Some (NCtl i), N') \<and>
           fst (anet_read E (NCtl i) 0 cnt N') = Returns (Inr [of_nat (48 + i), nl]) \<and>
           cv_in_use (conv_of N' i) \<and> cv_state (conv_of N' i) = CONV_UNCONNECTED \<and>
           cv_peer (conv_of N' i) = addr_zero \<and> cts (cv_rxq (conv_of N' i)) = [] \<and>
           cap (cv_rxq (conv_of N' i)) = AETHER_RXQ_DEPTH \<and>
           (\<forall>j. j \<noteq> i \<longrightarrow> conv_of N' j = conv_of N j))"
proof (cases "least_free N")
  case None
  then show ?thesis using walk_clone [OF w] least_free_None [of N] by simp
next
  case (Some i)
  then have i: "i < AETHER_MAX_CONNS" "\<not> cv_in_use (conv_of N i)" "\<forall>j<i. cv_in_use (conv_of N j)"
    using least_free_Some [of N i] by auto
  let ?N' = "conv_take_slot E i N"
  have l: "i < length (n_convs N)" using i net_wf_length [OF w] by simp
  have ci: "conv_of ?N' i = (conv_of N i)\<lparr>cv_peer := addr_zero, cv_in_use := True, cv_slot := i,
      cv_state := CONV_UNCONNECTED, cv_rxq := e_mq_init E AETHER_RXQ_DEPTH\<rparr>"
    using l by (simp add: conv_take_slot_convs)
  have rd: "fst (anet_read E (NCtl i) 0 cnt ?N') = Returns (Inr [of_nat (48 + i), nl])"
    using i c by (simp add: read_NCtl [OF slot_built_take_slot [OF l]] ci dec_nat_digit segment_def)
  have others: "\<forall>j. j \<noteq> i \<longrightarrow> conv_of ?N' j = conv_of N j" by (simp add: conv_take_slot_convs)
  show ?thesis
    using walk_clone [OF w] Some i rd ci others msgq_init [OF k] by simp
qed

subsection \<open>Reading in pieces\<close>

definition read_bytes :: "read_result \<Rightarrow> byte list" where
  "read_bytes r = (case r of Returns (Inr s) \<Rightarrow> s | _ \<Rightarrow> [])"

text \<open>The text a node serves: the string files and the stored ownership proof.\<close>

definition node_text :: "'q env \<Rightarrow> nid \<Rightarrow> 'q net \<Rightarrow> byte list option" where
  "node_text E n N =
     (let nd = n_nodes N n in
      if nd_kind nd = K_PROVE then Some (n_prove_out N) else file_text E (nd_kind nd) (nd_conv nd) N)"

lemma read_node_text: "node_text E n N = Some s \<Longrightarrow>
    anet_read E n off cnt N = (Returns (Inr (segment off cnt s)), N)"
  by (cases "nd_kind (n_nodes N n)") (auto simp: node_text_def anet_read_def file_text_def Let_def)

text \<open>
  Every text file, and the stored ownership proof, can be read in pieces of any size from
  increasing offsets: the pieces put together are the text, and reading it changes nothing.
\<close>

theorem text_files_page:
  assumes "node_text E n N = Some s" and "0 < cnt" and "length s < fuel"
  shows "read_to_end fuel (\<lambda>off. read_bytes (fst (anet_read E n off cnt N))) 0 = s \<and>
    snd (anet_read E n off cnt N) = N"
  using assms read_to_end_segment [of cnt s 0 fuel] by (simp add: read_node_text read_bytes_def)

subsection \<open>Directories\<close>

text \<open>The records a directory read of \<open>cnt\<close> bytes returns: as many whole ones as fit.\<close>

fun fit :: "nat \<Rightarrow> 'a list list \<Rightarrow> 'a list" where
  "fit cnt [] = []"
| "fit cnt (r # rs) = (if length r \<le> cnt then r @ fit (cnt - length r) rs else [])"

lemma fit_prefix: "\<exists>m. fit cnt rs = concat (take m rs) \<and> m \<le> length rs"
proof (induction rs arbitrary: cnt)
  case (Cons r rs)
  show ?case
  proof (cases "length r \<le> cnt")
    case True
    obtain m where "fit (cnt - length r) rs = concat (take m rs)" "m \<le> length rs" using Cons by blast
    then show ?thesis using True by (intro exI [of _ "Suc m"]) simp
  next
    case False
    then show ?thesis by (intro exI [of _ 0]) simp
  qed
qed simp

lemma read_dir_loop_fit:
  assumes "map (put_dirent E) nds = map Inr rs" and "offset \<le> pos" and "length out \<le> cnt"
  shows "read_dir_loop E offset cnt nds pos out = Inr (out @ fit (cnt - length out) rs)"
  using assms
proof (induction nds arbitrary: rs pos out)
  case (Cons nd nds)
  then obtain r rs' where rs: "rs = r # rs'" "put_dirent E nd = Inr r" "map (put_dirent E) nds = map Inr rs'"
    by (auto simp: Cons_eq_map_conv)
  show ?case
  proof (cases "length out + length r \<le> cnt")
    case True
    then have "length r \<le> cnt - length out" by simp
    with True show ?thesis
      using Cons.IH [OF rs(3), of "pos + length r" "out @ r"] Cons.prems(2) rs by simp
  next
    case False
    then have "\<not> length r \<le> cnt - length out" using Cons.prems(3) by simp
    with False show ?thesis using Cons.prems(2) rs by simp
  qed
qed simp

lemma read_dir_loop_skip:
  assumes "map (put_dirent E) nds = map Inr (ps @ rs)" and "[] \<notin> set ps"
  shows "read_dir_loop E (pos + length (concat ps)) cnt nds pos out =
    read_dir_loop E (pos + length (concat ps)) cnt (drop (length ps) nds) (pos + length (concat ps)) out"
  using assms
proof (induction ps arbitrary: nds pos)
  case (Cons p ps)
  then obtain nd nds' where n: "nds = nd # nds'" "put_dirent E nd = Inr p"
      "map (put_dirent E) nds' = map Inr (ps @ rs)"
    by (auto simp: map_eq_Cons_conv)
  have "p \<noteq> []" using Cons.prems by auto
  then show ?case
    using Cons.IH [OF n(3), of "pos + length p"] Cons.prems(2) n by (simp add: add.assoc)
qed simp

lemma read_dir_at:
  assumes "map (put_dirent E) (map (n_nodes N) (nd_children (n_nodes N d))) = map Inr (ps @ rs)"
    and "[] \<notin> set ps"
  shows "read_dir E d (length (concat ps)) cnt N = Inr (fit cnt rs)"
proof -
  let ?nds = "map (n_nodes N) (nd_children (n_nodes N d))"
  have "map (put_dirent E) (drop (length ps) ?nds) = map Inr rs"
    using arg_cong [OF assms(1), of "drop (length ps)"] by (simp add: drop_map)
  then show ?thesis
    using read_dir_loop_skip [OF assms, of 0 cnt "[]"] read_dir_loop_fit [of E _ rs "length (concat ps)" "length (concat ps)" "[]" cnt]
    by (simp add: read_dir_def)
qed

lemma read_dir_all:
  assumes "map (put_dirent E) (map (n_nodes N) (nd_children (n_nodes N d))) = map Inr (ps @ rs)"
    and "[] \<notin> set (ps @ rs)" and "\<forall>r\<in>set rs. length r \<le> cnt" and "length rs < fuel"
  shows "read_to_end fuel (\<lambda>off. case read_dir E d off cnt N of Inr s \<Rightarrow> s | Inl _ \<Rightarrow> [])
    (length (concat ps)) = concat rs"
  using assms
proof (induction fuel arbitrary: ps rs)
  case (Suc fuel)
  obtain m where m: "fit cnt rs = concat (take m rs)" "m \<le> length rs" using fit_prefix by blast
  have here: "read_dir E d (length (concat ps)) cnt N = Inr (fit cnt rs)"
    by (rule read_dir_at [OF Suc.prems(1)]) (use Suc.prems(2) in simp)
  show ?case
  proof (cases rs)
    case Nil
    then show ?thesis using here by simp
  next
    case (Cons r rs')
    then have ne: "fit cnt rs \<noteq> []" using Suc.prems(2,3) by auto
    then have "0 < m" using m by (cases m) auto
    have "map (put_dirent E) (map (n_nodes N) (nd_children (n_nodes N d)))
        = map Inr ((ps @ take m rs) @ drop m rs)" using Suc.prems(1) by simp
    moreover have "[] \<notin> set ((ps @ take m rs) @ drop m rs)" using Suc.prems(2) by simp
    moreover have "\<forall>r\<in>set (drop m rs). length r \<le> cnt" using Suc.prems(3) by (auto dest: in_set_dropD)
    moreover have "length (drop m rs) < fuel" using Suc.prems(4) \<open>0 < m\<close> Cons by simp
    ultimately have "read_to_end fuel (\<lambda>off. case read_dir E d off cnt N of Inr s \<Rightarrow> s | Inl _ \<Rightarrow> [])
        (length (concat (ps @ take m rs))) = concat (drop m rs)"
      by (rule Suc.IH)
    then have "read_to_end (Suc fuel) (\<lambda>off. case read_dir E d off cnt N of Inr s \<Rightarrow> s | Inl _ \<Rightarrow> [])
        (length (concat ps)) = concat (take m rs) @ concat (drop m rs)"
      using here ne unfolding m(1) by (subst read_to_end.simps) (simp add: Let_def del: concat_eq_Nil_conv)
    then show ?thesis by (simp flip: concat_append)
  qed
qed simp

text \<open>
  A directory listed in pieces of any size that holds its longest entry comes out complete
  and without a torn entry: the pieces put together are the entries of its children, newest
  first, for the root and for a conversation alike.
\<close>

theorem directory_pages:
  assumes "nd_kind (n_nodes N d) = K_ROOT \<or> nd_kind (n_nodes N d) = K_CONVDIR"
    and "map (put_dirent E) (map (n_nodes N) (nd_children (n_nodes N d))) = map Inr rs"
    and "[] \<notin> set rs" and "\<forall>r\<in>set rs. length r \<le> cnt" and "length rs < fuel"
  shows "read_to_end fuel (\<lambda>off. read_bytes (fst (anet_read E d off cnt N))) 0 = concat rs"
proof -
  have "read_bytes (fst (anet_read E d off cnt N)) = (case read_dir E d off cnt N of Inr s \<Rightarrow> s | Inl _ \<Rightarrow> [])"
    for off using assms(1) by (auto simp: anet_read_def read_bytes_def split: sum.splits)
  then show ?thesis using read_dir_all [of E N d "[]" rs cnt fuel] assms(2-) by simp
qed

end
