(* ===== verification/NetSpec.thy ===== *)
theory NetSpec
  imports NetFiles
begin

text \<open>
  What \<open>/net/aether\<close> promises its clients, without nodes, queues, identities or traces: a table
  of at most four conversations, each with a binding and the datagrams waiting. The server
  refines it: every step of the system is a step of the table.
\<close>

datatype binding = Idle | Bound addr6 | Listening | Party

type_synonym slots = "nat \<Rightarrow> (binding \<times> dgram list) option"

text \<open>Who gets a datagram: parties a broadcast; listeners, and the bound slots in \<open>M\<close>, a unicast.\<close>

definition spec_accepts :: "bool \<Rightarrow> nat set \<Rightarrow> nat \<Rightarrow> binding \<Rightarrow> bool" where
  "spec_accepts bcast M i st \<longleftrightarrow>
     (if bcast then st = Party else st = Listening \<or> (\<exists>p. st = Bound p) \<and> i \<in> M)"

definition spec_deliver :: "dgram \<Rightarrow> bool \<Rightarrow> nat set \<Rightarrow> slots \<Rightarrow> slots" where
  "spec_deliver d bcast M S = (\<lambda>i. map_option (\<lambda>(st, q).
     (st, if spec_accepts bcast M i st \<and> length q < AETHER_RXQ_DEPTH then q @ [d] else q)) (S i))"

inductive spec_step :: "slots \<Rightarrow> slots \<Rightarrow> bool" where
  sp_stay: "spec_step S S"
| sp_open: "i < AETHER_MAX_CONNS \<Longrightarrow> S i = None \<Longrightarrow> (\<forall>j<i. S j \<noteq> None) \<Longrightarrow>
    spec_step S (S(i \<mapsto> (Idle, [])))"
| sp_close: "S i = Some c \<Longrightarrow> spec_step S (S(i := None))"
| sp_bind: "S i = Some (Idle, q) \<Longrightarrow> st \<noteq> Idle \<Longrightarrow> st \<noteq> Bound addr_bcast \<Longrightarrow>
    spec_step S (S(i \<mapsto> (st, q)))"
| sp_hangup: "S i = Some (st, q) \<Longrightarrow> spec_step S (S(i \<mapsto> (Idle, [dgram_eof])))"
| sp_take: "S i = Some (st, d # q) \<Longrightarrow> spec_step S (S(i \<mapsto> (st, q)))"
| sp_deliver: "spec_step S (spec_deliver d bcast M S)"

text \<open>The abstraction.\<close>

definition binding_of :: "'q conv \<Rightarrow> binding" where
  "binding_of c = (case cv_state c of CONV_UNCONNECTED \<Rightarrow> Idle | CONV_CONNECTED \<Rightarrow> Bound (cv_peer c)
     | CONV_ANNOUNCED \<Rightarrow> Listening | CONV_BCAST \<Rightarrow> Party)"

definition abs_slots :: "('q \<Rightarrow> dgram list) \<Rightarrow> 'q net \<Rightarrow> slots" where
  "abs_slots cts N = (\<lambda>i. if i < AETHER_MAX_CONNS \<and> cv_in_use (conv_of N i)
     then Some (binding_of (conv_of N i), cts (cv_rxq (conv_of N i))) else None)"

lemma abs_slots_convs: "n_convs N' = n_convs N \<Longrightarrow> abs_slots cts N' = abs_slots cts N"
  by (simp add: abs_slots_def fun_eq_iff)

lemma abs_slots_upd:
  assumes "length (n_convs N) = AETHER_MAX_CONNS" and "i < AETHER_MAX_CONNS"
  shows "abs_slots cts (upd_conv i f N) = (abs_slots cts N)(i :=
     (if cv_in_use (f (conv_of N i)) then Some (binding_of (f (conv_of N i)), cts (cv_rxq (f (conv_of N i)))) else None))"
  using assms by (auto simp: abs_slots_def upd_conv_def fun_eq_iff nth_list_update)

subsection \<open>Delivery\<close>

lemma fold_recv_spec:
  assumes k: "msgq_ok E cts cap" and "distinct is" and "\<forall>i\<in>set is. i < length (n_convs N)"
  shows "\<exists>M. \<forall>i. queued cts cap (if i \<in> set is \<and> cv_in_use (conv_of N i) \<and>
      spec_accepts b M i (binding_of (conv_of N i)) \<and> has_room cts cap (conv_of N i) then [Dgram d p] else [])
    (conv_of N i) (conv_of (fold (recv_conv E s d b p) is N) i)"
  using assms(2,3)
proof (induction "is" arbitrary: N)
  case Nil
  then show ?case by simp
next
  case (Cons i "is")
  let ?N = "recv_conv E s d b p i N"
  let ?fwd = "e_eui_to_addr E (n_trace N)"
  have li: "i < length (n_convs N)" using Cons.prems(2) by simp
  note turn = recv_conv_turn [OF k li refl, where s = s and d = d and b = b and p = p]
  obtain M where M: "\<And>j. queued cts cap (if j \<in> set is \<and> cv_in_use (conv_of ?N j) \<and>
      spec_accepts b M j (binding_of (conv_of ?N j)) \<and> has_room cts cap (conv_of ?N j) then [Dgram d p] else [])
    (conv_of ?N j) (conv_of (fold (recv_conv E s d b p) is ?N) j)"
    using Cons.IH [of ?N] Cons.prems by auto
  let ?M = "if accepts ?fwd s d b (conv_of N i) then insert i M else M - {i}"
  have here: "accepts ?fwd s d b (conv_of N i) \<longleftrightarrow>
      cv_in_use (conv_of N i) \<and> spec_accepts b ?M i (binding_of (conv_of N i))"
    by (auto simp: accepts_def spec_accepts_def binding_of_def split: conv_state.splits)
  have there: "spec_accepts b ?M j st = spec_accepts b M j st" if "j \<noteq> i" for j st
    using that by (simp add: spec_accepts_def)
  have "queued cts cap (if j \<in> set (i # is) \<and> cv_in_use (conv_of N j) \<and>
      spec_accepts b ?M j (binding_of (conv_of N j)) \<and> has_room cts cap (conv_of N j) then [Dgram d p] else [])
    (conv_of N j) (conv_of (fold (recv_conv E s d b p) (i # is) N) j)" for j
  proof (cases "j = i")
    case True
    have "i \<notin> set is" using Cons.prems(1) by simp
    then have "queued cts cap [] (conv_of ?N i) (conv_of (fold (recv_conv E s d b p) is ?N) i)"
      using M [of i] by simp
    moreover have "queued cts cap (if cv_in_use (conv_of N i) \<and> spec_accepts b ?M i (binding_of (conv_of N i))
        \<and> has_room cts cap (conv_of N i) then [Dgram d p] else []) (conv_of N i) (conv_of ?N i)"
      using turn(1) here by presburger
    ultimately show ?thesis using True by (auto simp: queued_def)
  next
    case False
    then show ?thesis using M [of j] turn(2) [OF False] there [OF False] by simp
  qed
  then show ?case by blast
qed

lemma queued_abs: "queued cts cap ds c c' \<Longrightarrow> binding_of c' = binding_of c \<and> cv_in_use c' = cv_in_use c \<and>
    cts (cv_rxq c') = cts (cv_rxq c) @ ds"
  by (simp add: queued_def binding_of_def split: conv_state.splits)

lemma recv_cb_refines:
  assumes k: "msgq_ok E cts cap" and w: "net_wf E cts cap N"
  shows "\<exists>d M. abs_slots cts (aether_recv_cb E f N) = spec_deliver d (fr_bcast f) M (abs_slots cts N)"
proof -
  obtain idt N1 where r: "recv_ident E f N = (idt, N1)" by fastforce
  let ?p = "take (e_max_msg E) (fr_payload f)"
  let ?N2 = "N1\<lparr>n_rx := n_rx N1 + 1, n_rx_bytes := n_rx_bytes N1 + of_nat (length ?p)\<rparr>"
  have c: "n_convs ?N2 = n_convs N" using recv_ident_convs [of E f N] r by simp
  have cb: "aether_recv_cb E f N = fold (recv_conv E (fr_src f) idt (fr_bcast f) ?p) [0..<AETHER_MAX_CONNS] ?N2"
    using r by (simp add: aether_recv_cb_def)
  have l: "\<forall>i\<in>set [0..<AETHER_MAX_CONNS]. i < length (n_convs ?N2)" using net_wf_length [OF w] c by simp
  obtain M where M: "\<And>i. queued cts cap (if i \<in> set [0..<AETHER_MAX_CONNS] \<and> cv_in_use (conv_of ?N2 i) \<and>
      spec_accepts (fr_bcast f) M i (binding_of (conv_of ?N2 i)) \<and> has_room cts cap (conv_of ?N2 i) then [Dgram idt ?p] else [])
    (conv_of ?N2 i) (conv_of (aether_recv_cb E f N) i)"
    unfolding cb using fold_recv_spec [OF k distinct_upt l] by blast
  have "abs_slots cts (aether_recv_cb E f N) i = spec_deliver (Dgram idt ?p) (fr_bcast f) M (abs_slots cts N) i" for i
  proof (cases "i < AETHER_MAX_CONNS \<and> cv_in_use (conv_of N i)")
    case True
    then have "cap (cv_rxq (conv_of N i)) = AETHER_RXQ_DEPTH" using slot_in_use(3) [OF w] by blast
    then show ?thesis
      using True queued_abs [OF M [of i]] c by (simp add: abs_slots_def spec_deliver_def has_room_def)
  next
    case False
    then show ?thesis using queued_abs [OF M [of i]] c by (auto simp: abs_slots_def spec_deliver_def)
  qed
  then show ?thesis by blast
qed

subsection \<open>The other steps\<close>

lemma ctl_exec_refines:
  assumes k: "msgq_ok E cts cap" and w: "net_wf E cts cap N" and i: "i < AETHER_MAX_CONNS"
  shows "spec_step (abs_slots cts N) (abs_slots cts (snd (ctl_exec E i cmd N)))"
proof (cases "cv_in_use (conv_of N i)")
  case False
  have "abs_slots cts (upd_conv i f N) = abs_slots cts N" if "\<not> cv_in_use (f (conv_of N i))" for f
    using that False abs_slots_upd [OF net_wf_length [OF w] i, of cts f]
    by (simp add: abs_slots_def fun_upd_idem)
  then have "abs_slots cts (snd (ctl_exec E i cmd N)) = abs_slots cts N"
    using False by (auto simp: ctl_exec_def split: sum.splits)
  then show ?thesis by (simp add: sp_stay)
next
  case True
  note s = slot_in_use [OF w i True]
  note up = abs_slots_upd [OF net_wf_length [OF w] i, of cts]
  let ?q = "cts (cv_rxq (conv_of N i))"
  have here: "abs_slots cts N i = Some (binding_of (conv_of N i), ?q)" using True i by (simp add: abs_slots_def)
  have bind: "spec_step (abs_slots cts N) ((abs_slots cts N)(i \<mapsto> (st, ?q)))"
    if "cv_state (conv_of N i) = CONV_UNCONNECTED" "st \<noteq> Idle" "st \<noteq> Bound addr_bcast" for st
    using here that sp_bind by (simp add: binding_of_def)
  have hang: "spec_step (abs_slots cts N) ((abs_slots cts N)(i \<mapsto> (Idle, [dgram_eof])))"
    using sp_hangup here by blast
  have "cts (mq_put_or_drop E dgram_eof (e_mq_purge E (cv_rxq (conv_of N i)))) = [dgram_eof]"
    using msgq_hangup [OF k] s by simp
  then show ?thesis
    using hang True bind by (auto simp: ctl_exec_def up binding_of_def sp_stay split: sum.splits)
qed

lemma read_data_refines:
  assumes k: "msgq_ok E cts cap" and w: "net_wf E cts cap N" and i: "i < AETHER_MAX_CONNS"
  shows "spec_step (abs_slots cts N) (abs_slots cts (snd (read_data E (Some i) cnt N)))"
proof (cases "e_mq_get E (cv_rxq (conv_of N i))")
  case None
  then show ?thesis by (simp add: read_data_def sp_stay)
next
  case (Some p)
  obtain d q where p: "p = (d, q)" by (cases p)
  have "snd (read_data E (Some i) cnt N) = upd_conv i (\<lambda>cv. cv\<lparr>cv_rxq := q\<rparr>) N"
    using Some p by (simp add: read_data_def Let_def)
  moreover have "cts (cv_rxq (conv_of N i)) = d # cts q" using msgq_get_Some [OF k] Some p by blast
  ultimately show ?thesis
    using abs_slots_upd [OF net_wf_length [OF w] i, of cts "\<lambda>cv. cv\<lparr>cv_rxq := q\<rparr>"] i
      sp_take [of "abs_slots cts N" i "binding_of (conv_of N i)" d "cts q"] sp_stay [of "abs_slots cts N"]
    by (auto simp: abs_slots_def binding_of_def fun_upd_idem split: if_splits conv_state.splits)
qed

lemma take_slot_refines:
  assumes k: "msgq_ok E cts cap" and w: "net_wf E cts cap N" and f: "least_free N = Some i"
  shows "spec_step (abs_slots cts N) (abs_slots cts (conv_take_slot E i N))"
proof -
  have i: "i < AETHER_MAX_CONNS" "\<not> cv_in_use (conv_of N i)" "\<forall>j<i. cv_in_use (conv_of N j)"
    using f least_free_Some [of N i] by auto
  have "abs_slots cts (conv_take_slot E i N) = (abs_slots cts N)(i \<mapsto> (Idle, []))"
    using i net_wf_length [OF w] msgq_init [OF k]
    by (auto simp: abs_slots_def conv_take_slot_convs nth_list_update binding_of_def fun_eq_iff)
  moreover have "abs_slots cts N i = None" "\<forall>j<i. abs_slots cts N j \<noteq> None"
    using i by (simp_all add: abs_slots_def)
  ultimately show ?thesis using sp_open i(1) by simp
qed

lemma free_refines:
  assumes w: "net_wf E cts cap N" and i: "i < AETHER_MAX_CONNS"
  shows "spec_step (abs_slots cts N) (abs_slots cts (conv_free E i N))"
proof (cases "cv_in_use (conv_of N i)")
  case False
  then show ?thesis by (simp add: conv_free_def sp_stay)
next
  case True
  have "abs_slots cts (conv_free E i N) = (abs_slots cts N)(i := None)"
    using i True net_wf_length [OF w]
    by (auto simp: abs_slots_def conv_free_convs nth_list_update fun_eq_iff)
  then show ?thesis using sp_close True i by (simp add: abs_slots_def)
qed

lemma fid_conv:
  assumes "net_wf E cts cap N" and "fid_ok E (n_nodes N) n"
    and "nd_conv (n_nodes N n) = Some i"
  shows "i < AETHER_MAX_CONNS"
  using assms
  by (cases n) (auto simp: slot_built_def slot_file_def slot_dir_def net_wf_def tree_wf_def
      statics_built_def static_file_def root_dir_def node_zero_def)

lemma net_refines:
  assumes k: "msgq_ok E cts cap" and ok: "sys_ok E cts cap (N, F)" and step: "net_step E (N, F) (N', F')"
  shows "spec_step (abs_slots cts N) (abs_slots cts N')"
proof -
  have w: "net_wf E cts cap N" and fid: "\<And>n. n \<in> F \<Longrightarrow> fid_ok E (n_nodes N) n"
    using ok by (auto simp: sys_ok_def)
  have walk: "spec_step (abs_slots cts N) (abs_slots cts M)" if "anet_walk E p name N = (r, M)" for p name r M
    using that by (rule walk_cases) (auto simp: sp_stay take_slot_refines [OF k w])
  have read: "spec_step (abs_slots cts N) (abs_slots cts (snd (anet_read E n off cnt N)))" if "n \<in> F" for n off cnt
  proof (cases "nd_kind (n_nodes N n) = K_DATA")
    case True
    then show ?thesis
      using read_data_refines [OF k w fid_conv [OF w fid [OF that]]]
      by (cases "nd_conv (n_nodes N n)") (auto simp: anet_read_state read_data_def sp_stay)
  next
    case False
    then show ?thesis by (simp add: anet_read_state sp_stay)
  qed
  have wr: "spec_step (abs_slots cts N) (abs_slots cts (snd (anet_write E n buf N)))" if "n \<in> F" for n buf
  proof (cases "nd_kind (n_nodes N n) = K_CTL \<or> nd_kind (n_nodes N n) = K_CLONE")
    case True
    then show ?thesis
      using ctl_exec_refines [OF k w fid_conv [OF w fid [OF that]], of _ "ctl_command buf"]
      by (cases "nd_conv (n_nodes N n)")
        (auto simp: anet_write_def Let_def sp_stay split: prod.splits sum.splits)
  next
    case False
    then have "n_convs (snd (anet_write E n buf N)) = n_convs N"
      by (simp add: anet_write_def Let_def write_data_frame write_prove_frame)
    then have "abs_slots cts (snd (anet_write E n buf N)) = abs_slots cts N" by (rule abs_slots_convs)
    then show ?thesis by (simp add: sp_stay)
  qed
  have clunk: "spec_step (abs_slots cts N) (abs_slots cts (anet_clunk E n N))" if "n \<in> F" for n
    using free_refines [OF w fid_conv [OF w fid [OF that]]]
    by (auto simp: anet_clunk_def sp_stay split: option.splits)
  have recv: "spec_step (abs_slots cts N) (abs_slots cts (aether_recv_cb E f N))" for f
    using recv_cb_refines [OF k w, of f] sp_deliver by metis
  from step show ?thesis
    by (cases rule: net_step.cases) (auto simp: sp_stay walk read wr clunk recv)
qed

text \<open>
  C1. The server refines the table of conversations: each step of the system (walking, reading,
  writing, clunking, and each datagram from the mesh) is one step of the table or leaves it as
  it is. In particular a datagram reaches only bound, announced or broadcast conversations, a
  slot is opened only at the lowest free number, and only \<open>hangup\<close> and the clunk of a ctl fid
  end a binding.
\<close>

theorem net_refines_slots:
  assumes "msgq_ok E cts cap" and "net_reach E my g (N, F)" and "net_step E (N, F) (N', F')"
  shows "spec_step (abs_slots cts N) (abs_slots cts N')"
  using assms sys_ok_reach net_refines by blast

subsection \<open>What follows for the clients\<close>

text \<open>
  On the table: at most four conversations, never more datagrams than the queue is deep, and an
  idle conversation holds nothing but, at most, the end marker of a hang-up.
\<close>

definition slots_ok :: "slots \<Rightarrow> bool" where
  "slots_ok S \<longleftrightarrow> (\<forall>i st q. S i = Some (st, q) \<longrightarrow>
     i < AETHER_MAX_CONNS \<and> length q \<le> AETHER_RXQ_DEPTH \<and> (st = Idle \<longrightarrow> q = [] \<or> q = [dgram_eof]))"

lemma slots_okD: "slots_ok S \<Longrightarrow> S i = Some (st, q) \<Longrightarrow>
    i < AETHER_MAX_CONNS \<and> length q \<le> AETHER_RXQ_DEPTH \<and> (st = Idle \<longrightarrow> q = [] \<or> q = [dgram_eof])"
  by (auto simp: slots_ok_def)

lemma slots_ok_upd:
  assumes "slots_ok S" and "i < AETHER_MAX_CONNS" and "length q \<le> AETHER_RXQ_DEPTH"
    and "st = Idle \<Longrightarrow> q = [] \<or> q = [dgram_eof]"
  shows "slots_ok (S(i \<mapsto> (st, q)))"
  using assms by (auto simp: slots_ok_def)

lemma slots_ok_step: "spec_step S T \<Longrightarrow> slots_ok S \<Longrightarrow> slots_ok T"
proof (induction rule: spec_step.induct)
  case (sp_bind S i q st)
  then show ?case using slots_okD [of S i Idle q] by (intro slots_ok_upd) auto
next
  case (sp_hangup S i st q)
  then show ?case using slots_okD [of S i st q] by (intro slots_ok_upd) auto
next
  case (sp_take S i st d q)
  then show ?case using slots_okD [of S i st "d # q"] by (intro slots_ok_upd) auto
next
  case (sp_deliver S d bcast M)
  show ?case
    unfolding slots_ok_def
  proof (intro allI impI)
    fix i st q assume "spec_deliver d bcast M S i = Some (st, q)"
    then obtain q0 where q0: "S i = Some (st, q0)"
      "q = (if spec_accepts bcast M i st \<and> length q0 < AETHER_RXQ_DEPTH then q0 @ [d] else q0)"
      by (auto simp: spec_deliver_def)
    moreover have "\<not> spec_accepts bcast M i Idle" by (simp add: spec_accepts_def)
    ultimately show "i < AETHER_MAX_CONNS \<and> length q \<le> AETHER_RXQ_DEPTH \<and> (st = Idle \<longrightarrow> q = [] \<or> q = [dgram_eof])"
      using slots_okD [OF sp_deliver q0(1)] by auto
  qed
qed (auto simp: slots_ok_def)

lemma net_step_slots:
  assumes k: "msgq_ok E cts cap" and ok: "sys_ok E cts cap s" and step: "net_step E s t"
  shows "spec_step (abs_slots cts (fst s)) (abs_slots cts (fst t))"
  using net_refines [OF k] ok step by (metis prod.collapse)

lemma slots_ok_reach:
  assumes k: "msgq_ok E cts cap" and r: "net_reach E my g s"
  shows "slots_ok (abs_slots cts (fst s))"
  using r
proof (induction rule: net_reach.induct)
  case reach_init
  have "n_convs (snd (aether_net_init E my g [])) = replicate AETHER_MAX_CONNS (conv_zero E)"
    by (simp add: net_init_eq net_zero_def)
  then have "abs_slots cts (snd (aether_net_init E my g [])) = (\<lambda>_. None)"
    using conv_of_zero [of _ E] by (auto simp: abs_slots_def conv_zero_def)
  then show ?case by (simp add: slots_ok_def)
next
  case (reach_step s t)
  then show ?case using slots_ok_step net_step_slots [OF k sys_ok_reach [OF k]] by blast
qed

text \<open>
  C2. In every reachable state of the server: the invariant holds; every node a client can hold
  a fid on is complete and has the kind and the conversation its place in the tree says; no
  conversation queues more than sixteen datagrams; and an unconnected conversation in use holds
  no datagram at all, or only the end marker left by a hang-up, so its data file never delivers
  traffic.
\<close>

theorem net_reachable_ok:
  assumes k: "msgq_ok E cts cap" and r: "net_reach E my g (N, F)"
    and i: "i < AETHER_MAX_CONNS" and u: "cv_in_use (conv_of N i)"
  shows "net_wf E cts cap N \<and> slot_built E (n_nodes N) i \<and> F \<subseteq> {n. fid_ok E (n_nodes N) n} \<and>
    length (cts (cv_rxq (conv_of N i))) \<le> AETHER_RXQ_DEPTH \<and>
    (cv_state (conv_of N i) \<noteq> CONV_UNCONNECTED \<or>
     cts (cv_rxq (conv_of N i)) = [] \<or> cts (cv_rxq (conv_of N i)) = [dgram_eof])"
proof -
  have ok: "net_wf E cts cap N" "F \<subseteq> {n. fid_ok E (n_nodes N) n}"
    using sys_ok_reach [OF k r] by (auto simp: sys_ok_def)
  have "slots_ok (abs_slots cts N)" using slots_ok_reach [OF k r] by simp
  moreover have "abs_slots cts N i = Some (binding_of (conv_of N i), cts (cv_rxq (conv_of N i)))"
    using i u by (simp add: abs_slots_def)
  ultimately show ?thesis
    using ok slot_in_use [OF ok(1) i u] slots_okD by (fastforce simp: binding_of_def)
qed

end
