(* ===== verification/NetConfirm.thy ===== *)
theory NetConfirm
  imports NetPushProps NetSpec Mesh9p
begin

text \<open>
  The mesh server of \<open>aether_9p_mesh.c\<close> never transmits a Rwrite; the control write of
  \<open>aether_net.c\<close> waits for one. The two together: \<open>confirm\<close> over the mesh cannot succeed.
\<close>

definition no_rwrite :: "byte list \<Rightarrow> bool" where
  "no_rwrite m \<longleftrightarrow> \<not> (11 \<le> length m \<and> m9_type m = 119)"

definition queue_no_rwrite :: "('q \<Rightarrow> dgram list) \<Rightarrow> nat \<Rightarrow> 'q net \<Rightarrow> bool" where
  "queue_no_rwrite cts i N \<longleftrightarrow> list_all (\<lambda>d. no_rwrite (dg_data d)) (cts (cv_rxq (conv_of N i)))"

lemma queue_no_rwrite_same: "conv_of N' i = conv_of N i \<Longrightarrow> queue_no_rwrite cts i N' = queue_no_rwrite cts i N"
  by (simp add: queue_no_rwrite_def)

lemma recv_cb_queue:
  assumes k: "msgq_ok E cts cap" and l: "length (n_convs N) = AETHER_MAX_CONNS"
  shows "\<exists>idt b. cts (cv_rxq (conv_of (aether_recv_cb E f N) i)) = cts (cv_rxq (conv_of N i)) @
    (if b then [Dgram idt (take (e_max_msg E) (fr_payload f))] else [])"
proof -
  obtain idt N1 where r: "recv_ident E f N = (idt, N1)" by fastforce
  let ?p = "take (e_max_msg E) (fr_payload f)"
  let ?N2 = "N1\<lparr>n_rx := n_rx N1 + 1, n_rx_bytes := n_rx_bytes N1 + of_nat (length ?p)\<rparr>"
  have c: "n_convs ?N2 = n_convs N" using recv_ident_convs [of E f N] r by simp
  have cb: "aether_recv_cb E f N = fold (recv_conv E (fr_src f) idt (fr_bcast f) ?p) [0..<AETHER_MAX_CONNS] ?N2"
    using r by (simp add: aether_recv_cb_def)
  have l: "\<forall>i\<in>set [0..<AETHER_MAX_CONNS]. i < length (n_convs ?N2)" using l c by simp
  obtain M where M: "queued cts cap (if i \<in> set [0..<AETHER_MAX_CONNS] \<and> cv_in_use (conv_of ?N2 i) \<and>
      spec_accepts (fr_bcast f) M i (binding_of (conv_of ?N2 i)) \<and> has_room cts cap (conv_of ?N2 i) then [Dgram idt ?p] else [])
    (conv_of ?N2 i) (conv_of (aether_recv_cb E f N) i)"
    unfolding cb using fold_recv_spec [OF k distinct_upt l] by blast
  then show ?thesis using queued_abs [OF M] c by metis
qed

text \<open>
  Every frame that arrives was put on the air by the send function of a peer's 9P transport, in
  whatever state of that peer and of its mesh layer. Such a frame is never a Rwrite.
\<close>

definition peers_run_mesh9p :: "'q env \<Rightarrow> bool" where
  "peers_run_mesh9p E \<longleftrightarrow> (\<forall>tr. list_all (\<lambda>f. \<exists>rel R.
     fr_payload f \<in> snd ` set (snd (mesh9p_send rel (fr_payload f) R))) (e_arrivals E tr))"

definition peers_suppress_rwrite :: "'q env \<Rightarrow> bool" where
  "peers_suppress_rwrite E \<longleftrightarrow>
     (\<forall>tr. list_all (\<lambda>f. no_rwrite (take (e_max_msg E) (fr_payload f))) (e_arrivals E tr))"

lemma mesh9p_suppresses: "m \<in> snd ` set (snd (mesh9p_send rel m R)) \<Longrightarrow> no_rwrite (take n m)"
  by (auto simp: mesh9p_send_def no_rwrite_def m9_type_def split: if_splits)

lemma mesh9p_peers_suppress: "peers_run_mesh9p E \<Longrightarrow> peers_suppress_rwrite E"
  using mesh9p_suppresses by (fastforce simp: peers_run_mesh9p_def peers_suppress_rwrite_def list_all_iff)

lemma arrivals_no_rwrite:
  assumes k: "msgq_ok E cts cap" and s: "peers_suppress_rwrite E"
    and q: "queue_no_rwrite cts i N" and l: "length (n_convs N) = AETHER_MAX_CONNS"
  shows "queue_no_rwrite cts i (take_arrivals E N)" "length (n_convs (take_arrivals E N)) = AETHER_MAX_CONNS"
proof -
  have "queue_no_rwrite cts i (fold (aether_recv_cb E) fs M) \<and> length (n_convs (fold (aether_recv_cb E) fs M)) = AETHER_MAX_CONNS"
    if "list_all (\<lambda>f. no_rwrite (take (e_max_msg E) (fr_payload f))) fs" "queue_no_rwrite cts i M"
      "length (n_convs M) = AETHER_MAX_CONNS" for fs M
    using that
  proof (induction fs arbitrary: M)
    case (Cons f fs)
    obtain idt b where "cts (cv_rxq (conv_of (aether_recv_cb E f M) i)) = cts (cv_rxq (conv_of M i)) @
        (if b then [Dgram idt (take (e_max_msg E) (fr_payload f))] else [])"
      using recv_cb_queue [OF k Cons.prems(3)] by blast
    then have "queue_no_rwrite cts i (aether_recv_cb E f M)"
      using Cons.prems by (auto simp: queue_no_rwrite_def)
    moreover have "length (n_convs (aether_recv_cb E f M)) = AETHER_MAX_CONNS"
      using tree_view_same(2) [OF recv_cb_tree] Cons.prems(3) by metis
    ultimately show ?case using Cons by simp
  qed simp
  then show "queue_no_rwrite cts i (take_arrivals E N)" "length (n_convs (take_arrivals E N)) = AETHER_MAX_CONNS"
    using s q l by (simp_all add: take_arrivals_def peers_suppress_rwrite_def)
qed

lemma get_now_no_rwrite:
  assumes k: "msgq_ok E cts cap" and q: "queue_no_rwrite cts i N" and l: "length (n_convs N) = AETHER_MAX_CONNS"
    and i: "i < AETHER_MAX_CONNS" and g: "rxq_get_now E i N = (r, N')"
  shows "queue_no_rwrite cts i N'" "length (n_convs N') = AETHER_MAX_CONNS" "r = Some d \<Longrightarrow> no_rwrite (dg_data d)"
proof -
  have "queue_no_rwrite cts i N' \<and> length (n_convs N') = AETHER_MAX_CONNS \<and> (\<forall>d. r = Some d \<longrightarrow> no_rwrite (dg_data d))"
  proof (cases "e_mq_get E (cv_rxq (conv_of N i))")
    case None
    then show ?thesis using g q l by (auto simp: rxq_get_now_def)
  next
    case (Some x)
    obtain d0 q0 where x: "x = (d0, q0)" by (cases x)
    have c: "cts (cv_rxq (conv_of N i)) = d0 # cts q0" using msgq_get_Some [OF k] Some x by blast
    have "r = Some d0" "N' = upd_conv i (\<lambda>c. c\<lparr>cv_rxq := q0\<rparr>) N" using g Some x by (auto simp: rxq_get_now_def)
    then show ?thesis using c q l i by (simp add: queue_no_rwrite_def net_simps)
  qed
  then show "queue_no_rwrite cts i N'" "length (n_convs N') = AETHER_MAX_CONNS" "r = Some d \<Longrightarrow> no_rwrite (dg_data d)"
    by blast+
qed

lemma get_wait_no_rwrite:
  assumes k: "msgq_ok E cts cap" and s: "peers_suppress_rwrite E"
    and q: "queue_no_rwrite cts i N" and l: "length (n_convs N) = AETHER_MAX_CONNS"
    and i: "i < AETHER_MAX_CONNS" and g: "rxq_get_wait E i N = (r, N')"
  shows "queue_no_rwrite cts i N' \<and> length (n_convs N') = AETHER_MAX_CONNS \<and> (\<forall>d. r = Some d \<longrightarrow> no_rwrite (dg_data d))"
proof -
  obtain r0 N0 where n: "rxq_get_now E i N = (r0, N0)" by fastforce
  note h = get_now_no_rwrite [OF k q l i n]
  show ?thesis
  proof (cases r0)
    case (Some d)
    then show ?thesis using g n h by (auto simp: rxq_get_wait_def)
  next
    case None
    let ?L = "log_call (CWait i) N0"
    have L: "queue_no_rwrite cts i ?L" "length (n_convs ?L) = AETHER_MAX_CONNS"
      using h by (simp_all add: queue_no_rwrite_def net_simps)
    have "rxq_get_now E i (take_arrivals E ?L) = (r, N')" using g n None by (simp add: rxq_get_wait_def)
    then show ?thesis
      using get_now_no_rwrite [OF k arrivals_no_rwrite [OF k s L] i] by blast
  qed
qed

lemma reads_no_rwrite:
  assumes k: "msgq_ok E cts cap" and s: "peers_suppress_rwrite E" and i: "i < AETHER_MAX_CONNS"
  shows "m9_reads E i n want cp N = (r, N') \<Longrightarrow> queue_no_rwrite cts i N \<Longrightarrow>
    length (n_convs N) = AETHER_MAX_CONNS \<Longrightarrow> queue_no_rwrite cts i N' \<and>
    length (n_convs N') = AETHER_MAX_CONNS \<and> (\<forall>b. r = M9_reply b \<longrightarrow> (\<exists>m. no_rwrite m \<and> b = take cp m))"
proof (induction n arbitrary: N)
  case 0
  then show ?case by auto
next
  case (Suc n)
  obtain x N1 where g: "rxq_get_wait E i N = (x, N1)" by fastforce
  note h = get_wait_no_rwrite [OF k s Suc.prems(2,3) i g]
  have gr: "queue_no_rwrite cts i (N1\<lparr>n_drain_gr := v\<rparr>)" "length (n_convs (N1\<lparr>n_drain_gr := v\<rparr>)) = AETHER_MAX_CONNS" for v
    using h by (simp_all add: queue_no_rwrite_def)
  show ?case
  proof (cases x)
    case None
    then show ?thesis using Suc.prems g gr by auto
  next
    case (Some d)
    show ?thesis
    proof (cases "dg_data d \<noteq> [] \<and> \<not> (7 \<le> length (dg_data d) \<and> m9_tag (dg_data d) = want)")
      case True
      then have "m9_reads E i n want cp (N1\<lparr>n_drain_gr := 0\<rparr>) = (r, N')"
        using Suc.prems(1) g Some by (auto simp: Let_def split: if_splits)
      then show ?thesis using Suc.IH gr by blast
    next
      case False
      then show ?thesis using Suc.prems(1) g Some gr h by (auto simp: Let_def split: if_splits)
    qed
  qed
qed

lemma attempts_no_rwrite:
  assumes k: "msgq_ok E cts cap" and s: "peers_suppress_rwrite E" and i: "i < AETHER_MAX_CONNS"
  shows "m9_attempts E i n dst msg cp N = (r, N') \<Longrightarrow> queue_no_rwrite cts i N \<Longrightarrow>
    length (n_convs N) = AETHER_MAX_CONNS \<Longrightarrow> queue_no_rwrite cts i N' \<and>
    length (n_convs N') = AETHER_MAX_CONNS \<and> \<not> reply_is 119 11 r"
proof (induction n arbitrary: N)
  case 0
  then show ?case by (auto simp: reply_is_def)
next
  case (Suc n)
  obtain x N1 where c: "client_send E dst msg N = (x, N1)" by fastforce
  let ?L = "log_call (CReliable dst msg AETHER_NET_RETRIES) N"
  have L: "queue_no_rwrite cts i ?L" "length (n_convs ?L) = AETHER_MAX_CONNS"
    using Suc.prems by (simp_all add: queue_no_rwrite_def net_simps)
  have "n_convs N1 = n_convs (take_arrivals E ?L)"
    using c by (auto simp: client_send_def mesh_send_reliable_def)
  then have h: "queue_no_rwrite cts i N1" "length (n_convs N1) = AETHER_MAX_CONNS"
    using arrivals_no_rwrite [OF k s L] by (simp_all add: queue_no_rwrite_def)
  show ?case
  proof (cases x)
    case (Inl e)
    then have "m9_attempts E i n dst msg cp N1 = (r, N')" using Suc.prems(1) c by simp
    then show ?thesis using Suc.IH h by blast
  next
    case (Inr v)
    obtain y N2 where m: "m9_reads E i 2 (m9_tag msg) cp N1 = (y, N2)" by fastforce
    note rd = reads_no_rwrite [OF k s i m h]
    show ?thesis
    proof (cases y)
      case M9_again
      then have "m9_attempts E i n dst msg cp N2 = (r, N')" using Suc.prems(1) c Inr m by simp
      then show ?thesis using Suc.IH rd by blast
    next
      case (M9_reply b)
      then have "r = Some b" "N' = N2" using Suc.prems(1) c Inr m by auto
      moreover obtain w where "no_rwrite w" "b = take cp w" using rd M9_reply by blast
      then have "\<not> reply_is 119 11 (Some b)" by (auto simp: reply_is_def no_rwrite_def m9_type_def)
      ultimately show ?thesis using rd by simp
    next
      case M9_fail
      then show ?thesis using Suc.prems(1) c Inr m rd by (auto simp: reply_is_def)
    qed
  qed
qed

lemma rpc_no_rwrite:
  assumes k: "msgq_ok E cts cap" and s: "peers_suppress_rwrite E" and i: "i < AETHER_MAX_CONNS"
    and r: "m9_rpc E i body cp N = (r, N')" and q: "queue_no_rwrite cts i N" "length (n_convs N) = AETHER_MAX_CONNS"
  shows "queue_no_rwrite cts i N' \<and> length (n_convs N') = AETHER_MAX_CONNS \<and> \<not> reply_is 119 11 r"
proof -
  obtain dst N1 where d: "resolve_dst E (cv_peer (conv_of N i)) N = (dst, N1)" by fastforce
  then have "n_convs N1 = n_convs N" using ext_frame by (metis snd_conv)
  then have "queue_no_rwrite cts i N1" "length (n_convs N1) = AETHER_MAX_CONNS"
    using q by (simp_all add: queue_no_rwrite_def)
  then show ?thesis using attempts_no_rwrite [OF k s i] r d by (simp add: m9_rpc_def)
qed

lemma session_no_rwrite:
  assumes k: "msgq_ok E cts cap" and s: "peers_suppress_rwrite E" and i: "i < AETHER_MAX_CONNS"
  shows "m9_session E i n ms N = (r, N') \<Longrightarrow> queue_no_rwrite cts i N \<Longrightarrow>
    length (n_convs N) = AETHER_MAX_CONNS \<Longrightarrow> queue_no_rwrite cts i N' \<and> length (n_convs N') = AETHER_MAX_CONNS"
proof (induction ms arbitrary: n N)
  case (Cons m ms)
  obtain body ty where m: "m = (body, ty)" by (cases m)
  obtain x N1 where c: "m9_rpc E i body (e_max_msg E) N = (x, N1)" by fastforce
  note h = rpc_no_rwrite [OF k s i c Cons.prems(2,3)]
  show ?case
  proof (cases "reply_is ty 5 x")
    case True
    then have "m9_session E i (n + 1) ms N1 = (r, N')" using Cons.prems(1) m c by simp
    then show ?thesis using Cons.IH h by blast
  next
    case False
    then show ?thesis using Cons.prems(1) m c h by simp
  qed
qed simp

text \<open>
  C11. Against peers that run this repository's mesh server, which suppresses every Rwrite, a
  one-shot control write that waits for its reply (\<open>confirm <eui12>\<close>) never reports success,
  whatever the mesh delivers and although the write itself is transmitted.
\<close>

theorem confirm_never_succeeds:
  assumes k: "msgq_ok E cts cap" and w: "net_wf E cts cap N" and m: "peers_run_mesh9p E"
  shows "fst (aether_net_push_ctl E peer file False N) \<noteq> Inl None"
proof (cases "least_free N")
  case None
  then show ?thesis by (simp add: aether_net_push_ctl_def conv_alloc_eq)
next
  case (Some i)
  note s = mesh9p_peers_suppress [OF m]
  let ?B = "conv_bind i peer (conv_take_slot E i N)"
  have i: "i < AETHER_MAX_CONNS" using Some least_free_Some [of N i] by simp
  have l: "length (n_convs ?B) = AETHER_MAX_CONNS"
    using net_wf_length [OF w] by (simp add: conv_bind_def upd_conv_def conv_take_slot_convs)
  have "cts (cv_rxq (conv_of ?B i)) = []"
    using net_wf_length [OF w] i msgq_init [OF k] by (simp add: conv_bind_def upd_conv_def conv_take_slot_convs)
  then have q: "queue_no_rwrite cts i ?B" by (simp add: queue_no_rwrite_def)
  obtain code tag N2 where d: "m9_open_devfile E i 1 file 1 ?B = (code, tag, N2)" by (metis prod_cases3)
  obtain y N2' where ss: "m9_session E i 1 (open_devfile_msgs (e_max_msg E) 1 file 1) ?B = (y, N2')" by fastforce
  have "N2 = N2'" using d ss by (auto simp: m9_open_devfile_def split: option.splits)
  then have h: "queue_no_rwrite cts i N2" "length (n_convs N2) = AETHER_MAX_CONNS"
    using session_no_rwrite [OF k s i ss q l] by auto
  obtain r N3 where c: "m9_rpc E i (m9_twrite tag 2 0 (ascii ''1'')) (e_max_msg E) N2 = (r, N3)" by fastforce
  have "\<not> reply_is 119 11 r" using rpc_no_rwrite [OF k s i c h] by blast
  then show ?thesis
    using Some d c by (simp add: aether_net_push_ctl_def conv_alloc_eq case_prod_unfold Let_def)
qed

end
