(* ===== verification/Demo.thy ===== *)
theory Demo
  imports NetConfirm
begin

text \<open>
  A concrete environment and concrete states, at which the witnesses apply the properties: a
  list-backed message queue, a mesh of one peer with a durable identity and a route, whose 9P
  server answers every request but a Twrite, and an identity library that meets its contract.
\<close>

subsection \<open>The environment\<close>

definition demo_put :: "nat \<times> dgram list \<Rightarrow> dgram \<Rightarrow> (nat \<times> dgram list) option" where
  "demo_put q x = (if length (snd q) < fst q then Some (fst q, snd q @ [x]) else None)"

definition demo_get :: "nat \<times> dgram list \<Rightarrow> (dgram \<times> nat \<times> dgram list) option" where
  "demo_get q = (case snd q of [] \<Rightarrow> None | x # xs \<Rightarrow> Some (x, fst q, xs))"

definition demo_cga :: cga_env where
  "demo_cga = \<lparr>cx_psa_init = True, cx_settings_init = None,
     cx_name_steq = (\<lambda>a b. if a = b then Some None else None),
     cx_load = (\<lambda>saves. if saves = [] then []
        else [(ascii ''seed'', cga_seed_len, Inr (snd (last saves)))]),
     cx_save = (\<lambda>_ _ _. None),
     cx_random = (\<lambda>n. Some (replicate 32 (of_nat (n + 1)))),
     cx_pubkey = (\<lambda>s. Some (replicate 64 (hd s))),
     cx_sha256 = (\<lambda>m. replicate 32 (hd m)),
     cx_ecdsa_sign = (\<lambda>m s k. Some (replicate 64 (hd k)))\<rparr>"

definition demo_eui :: addr6 where "demo_eui = Addr6 0x0a 0x1b 0x2c 0x3d 0x4e 0x5f"
definition demo_route :: addr6 where "demo_route = Addr6 0xfe 0 0 0 0x12 0x34"
definition demo_self :: addr6 where "demo_self = Addr6 0xfe 0 0 0 0x56 0x78"

text \<open>The peer's server: a reply of the next type, three bytes to the first Tread and none after.\<close>

definition demo_reply :: "byte list \<Rightarrow> byte list" where
  "demo_reply m = m9_frame ([m ! 4 + 1] @ take 2 (drop 5 m) @
     (if m ! 4 = 116 then (if m9_tag m = 4 then np32 3 @ [7, 8, 9] else np32 0) else [0, 0, 0, 0]))"

definition demo_arrivals :: "mesh_call list \<Rightarrow> frame list" where
  "demo_arrivals tr =
     (if tr = [] then []
      else case last tr of
        CReliable dst m _ \<Rightarrow> if m ! 4 = 118 then [] else [Frame dst (demo_reply m) False]
      | _ \<Rightarrow> [])"

definition demo_env :: "(nat \<times> dgram list) env" where
  "demo_env = \<lparr>e_max_msg = 448, e_name_cap = 32, e_dmdir = 0x80000000, e_qtdir = 0x80, e_qtfile = 0,
     e_errno = (\<lambda>e. if e = EAGAIN then 11 else 5),
     e_mq_init = (\<lambda>d. (d, [])), e_mq_put = demo_put, e_mq_get = demo_get,
     e_mq_purge = (\<lambda>q. (fst q, [])),
     e_eui_to_addr = (\<lambda>_ a. if a = demo_eui then Some demo_route else None), e_eui_err = -2,
     e_addr_to_eui = (\<lambda>_ a. if a = demo_route then Some demo_eui else None),
     e_send = (\<lambda>_ _ _. Inr 0), e_send_reliable = (\<lambda>_ _ _. Inr 0),
     e_arrivals = demo_arrivals, e_node_eui = (\<lambda>_. None), e_phy = (\<lambda>_. Some (-60, 12)),
     e_write_stat = (\<lambda>room nd. if length (nd_name nd) < room
        then Inr (of_nat (length (nd_name nd)) # nd_name nd) else Inl ENOSPC),
     e_register = Inr 0, e_cga = demo_cga\<rparr>"

lemma demo_fields [simp]:
  "e_max_msg demo_env = 448"
  "e_eui_to_addr demo_env = (\<lambda>_ a. if a = demo_eui then Some demo_route else None)"
  "e_addr_to_eui demo_env = (\<lambda>_ a. if a = demo_route then Some demo_eui else None)"
  "e_send demo_env = (\<lambda>_ _ _. Inr 0)" "e_send_reliable demo_env = (\<lambda>_ _ _. Inr 0)"
  by (simp_all add: demo_env_def)

lemma demo_msgq: "msgq_ok demo_env snd fst"
  unfolding msgq_ok_def bounded_fifo_def
  by (auto simp: demo_env_def demo_put_def demo_get_def)

lemma demo_cga_ok: "cga_env_ok demo_cga"
  by (simp add: cga_env_ok_def demo_cga_def cga_seed_len_def)

lemma demo_reply_not_rwrite: "m ! 4 \<noteq> 118 \<Longrightarrow> demo_reply m ! 4 \<noteq> 119"
proof -
  have "demo_reply m ! 4 = m ! 4 + 1"
    by (simp add: demo_reply_def m9_frame_def nth_append)
  moreover have "m ! 4 + 1 = 119 \<Longrightarrow> m ! 4 = 119 - 1" by (simp add: eq_diff_eq)
  ultimately show "m ! 4 \<noteq> 118 \<Longrightarrow> demo_reply m ! 4 \<noteq> 119" by auto
qed

lemma demo_peers_mesh9p: "peers_run_mesh9p demo_env"
proof -
  have "\<exists>rel R. m \<in> snd ` set (snd (mesh9p_send rel m R))" if "m ! 4 \<noteq> 119" for m
    using that by (auto simp: mesh9p_send_def)
  then show ?thesis
    using demo_reply_not_rwrite
    by (auto simp: peers_run_mesh9p_def demo_env_def demo_arrivals_def list_all_iff split: mesh_call.splits)
qed

subsection \<open>States\<close>

definition demo_id :: cga where
  "demo_id = snd (aether_node_identity_override demo_cga (cga_boot [] 0))"

definition demo_start :: "(nat \<times> dgram list) net" where
  "demo_start = snd (aether_net_init demo_env demo_self demo_id [])"

definition demo_open :: "(nat \<times> dgram list) net" where
  "demo_open = snd (anet_walk demo_env (Some NRoot) (ascii ''clone'') demo_start)"

definition demo_connected :: "(nat \<times> dgram list) net" where
  "demo_connected = snd (anet_write demo_env (NCtl 0) (connect_cmd demo_eui) demo_open)"

definition demo_announced :: "(nat \<times> dgram list) net" where
  "demo_announced = snd (anet_write demo_env (NCtl 0) (ascii ''announce'') demo_open)"

definition demo_party :: "(nat \<times> dgram list) net" where
  "demo_party = snd (anet_write demo_env (NCtl 0) (connect_cmd addr_bcast) demo_open)"

definition demo_hello :: frame where
  "demo_hello = Frame demo_route (ascii ''hello'') False"

definition demo_received :: "(nat \<times> dgram list) net" where
  "demo_received = aether_recv_cb demo_env demo_hello demo_announced"

lemma demo_start_wf: "net_wf demo_env snd fst demo_start"
  unfolding demo_start_def by (rule net_wf_init [OF demo_msgq])

lemma demo_open_wf: "net_wf demo_env snd fst demo_open"
  unfolding demo_open_def by (rule net_wf_walk [OF demo_msgq demo_start_wf])

lemma demo_bound_wf:
  "net_wf demo_env snd fst demo_connected" "net_wf demo_env snd fst demo_announced"
  "net_wf demo_env snd fst demo_party" "net_wf demo_env snd fst demo_received"
  unfolding demo_connected_def demo_announced_def demo_party_def demo_received_def
  by (intro net_wf_recv_cb net_wf_write demo_msgq demo_open_wf)+

definition cts_of :: "(nat \<times> dgram list) conv \<Rightarrow> dgram list" where
  "cts_of c = snd (cv_rxq c)"

text \<open>Conversation 0 in each state, and its files.\<close>

lemma demo_start_free: "least_free demo_start = Some 0"
  by code_simp

lemma demo_convs:
  "conv_of demo_open 0 = \<lparr>cv_in_use = True, cv_slot = 0, cv_state = CONV_UNCONNECTED,
     cv_peer = addr_zero, cv_rxq = (16, [])\<rparr>"
  "conv_of demo_connected 0 = \<lparr>cv_in_use = True, cv_slot = 0, cv_state = CONV_CONNECTED,
     cv_peer = demo_eui, cv_rxq = (16, [])\<rparr>"
  "conv_of demo_announced 0 = \<lparr>cv_in_use = True, cv_slot = 0, cv_state = CONV_ANNOUNCED,
     cv_peer = addr_zero, cv_rxq = (16, [])\<rparr>"
  "conv_of demo_party 0 = \<lparr>cv_in_use = True, cv_slot = 0, cv_state = CONV_BCAST,
     cv_peer = addr_zero, cv_rxq = (16, [])\<rparr>"
  "conv_of demo_received 0 = \<lparr>cv_in_use = True, cv_slot = 0, cv_state = CONV_ANNOUNCED,
     cv_peer = addr_zero, cv_rxq = (16, [Dgram demo_eui (ascii ''hello'')])\<rparr>"
  by code_simp+

lemma demo_clone: "anet_walk demo_env (Some NRoot) (ascii ''clone'') demo_start = (Some (NCtl 0), demo_open)"
proof -
  have "fst (anet_walk demo_env (Some NRoot) (ascii ''clone'') demo_start) = Some (NCtl 0)" by code_simp
  then show ?thesis by (metis demo_open_def prod.collapse)
qed

text \<open>A run of the system to \<open>demo_announced\<close>.\<close>

lemma demo_reach: "net_reach demo_env demo_self demo_id (demo_announced, {NCtl 0, NRoot})"
proof -
  have "net_reach demo_env demo_self demo_id (demo_start, {})"
    unfolding demo_start_def by (rule reach_init)
  then have "net_reach demo_env demo_self demo_id (demo_start, {NRoot})"
    by (rule reach_step) (rule step_attach)
  then have "net_reach demo_env demo_self demo_id (demo_open, insert (NCtl 0) {NRoot})"
    by (rule reach_step) (rule step_walk [OF _ demo_clone], simp)
  then show ?thesis
    unfolding demo_announced_def by (rule reach_step) (rule step_write, simp)
qed

end
