(* ===== verification/Witness.thy ===== *)
theory Witness
  imports Demo
begin

text \<open>
  The properties of the conversation layer, the identity, the mesh transport and the clients,
  each applied at the concrete environment and states of \<open>Demo\<close>.
\<close>

subsection \<open>Identity\<close>

theorem cga_identity_stable_witness:
  "\<exists>g'. aether_node_identity_override demo_cga (cga_reboot demo_id) = (Inr (Addr6 2 1 1 1 1 1), g') \<and>
    cg_pub g' = replicate 64 1 \<and> cg_saves g' = [(ascii ''cga/seed'', replicate 32 1)]"
proof -
  have run: "aether_node_identity_override demo_cga (cga_boot [] 0) = (Inr (Addr6 2 1 1 1 1 1), demo_id)"
    by code_simp
  have "cg_pub demo_id = replicate 64 1" "cg_saves demo_id = [(ascii ''cga/seed'', replicate 32 1)]"
    by code_simp+
  then show ?thesis using cga_identity_stable [OF demo_cga_ok run] by auto
qed

subsection \<open>The system\<close>

theorem net_reachable_ok_witness:
  "net_wf demo_env snd fst demo_announced \<and> NCtl 0 \<in> {n. fid_ok demo_env (n_nodes demo_announced) n}"
  using net_reachable_ok [OF demo_msgq demo_reach, of 0] by (auto simp: demo_convs)

theorem net_refines_slots_witness:
  "spec_step (abs_slots snd demo_announced) (abs_slots snd demo_received) \<and>
   abs_slots snd demo_announced 0 = Some (Listening, []) \<and>
   abs_slots snd demo_received 0 = Some (Listening, [Dgram demo_eui (ascii ''hello'')])"
proof -
  have "net_step demo_env (demo_announced, {NCtl 0, NRoot}) (demo_received, {NCtl 0, NRoot})"
    unfolding demo_received_def by (rule step_recv)
  then show ?thesis using net_refines_slots [OF demo_msgq demo_reach, of demo_received "{NCtl 0, NRoot}"]
    by (simp add: abs_slots_def demo_convs binding_of_def)
qed

theorem clone_opens_witness:
  "fst (anet_read demo_env (NCtl 0) 0 10 demo_open) = Returns (Inr [48, nl])"
  using clone_opens [OF demo_msgq demo_start_wf, of 10] demo_start_free demo_clone by auto

theorem connect_readback_witness:
  "\<exists>N'. anet_write demo_env (NCtl 0) (connect_cmd demo_eui @ [nl]) demo_open = (Inr 26, N') \<and>
    fst (anet_read demo_env (NRemote 0) 0 64 N') = Returns (Inr (ascii ''0a:1b:2c:3d:4e:5f'' @ [nl]))"
proof -
  have "fmt_addr demo_eui = ascii ''0a:1b:2c:3d:4e:5f''" by code_simp
  moreover have "demo_eui \<noteq> addr_bcast" by (simp add: demo_eui_def addr_bcast_def)
  ultimately show ?thesis
    using connect_readback [OF demo_open_wf, of 0 demo_eui 64] by (auto simp: demo_convs)
qed

theorem ctl_refuses_witness:
  "anet_write demo_env (NCtl 0) (ascii ''announce'') demo_connected = (Inl EINVAL, demo_connected)"
proof -
  have "ctl_command (ascii ''announce'') \<noteq> ascii ''hangup''" by code_simp
  then show ?thesis
    using ctl_refuses [OF demo_bound_wf(1), of 0 "ascii ''announce''"] by (simp add: demo_convs)
qed

theorem clunk_hangs_up_witness:
  "\<not> cv_in_use (conv_of (anet_clunk demo_env (NCtl 0) demo_connected) 0) \<and>
   cts_of (conv_of (anet_clunk demo_env (NCtl 0) demo_connected) 0) = [dgram_eof]"
  using clunk_hangs_up [OF demo_msgq demo_bound_wf(1), of 0] by (simp add: demo_convs cts_of_def)

theorem hangup_ends_witness:
  "\<exists>N'. anet_write demo_env (NCtl 0) (ascii ''hangup'' @ [nl]) demo_received = (Inr 7, N') \<and>
     cts_of (conv_of N' 0) = [dgram_eof]"
  using hangup_ends [OF demo_msgq demo_bound_wf(4), of 0 0 1 0 1] by (auto simp: demo_convs cts_of_def)

subsection \<open>Data\<close>

theorem data_read_takes_oldest_witness:
  "\<exists>N'. anet_read demo_env (NData 0) 0 11 demo_received
     = (Returns (Inr (addr_bytes demo_eui @ ascii ''hello'')), N')"
  using data_read_takes_oldest [OF demo_msgq demo_bound_wf(4), of 0 "Dgram demo_eui (ascii ''hello'')" "[]" 0 11]
  by (auto simp: demo_convs src_prefixed_def ascii_def)

theorem connected_write_witness:
  "n_trace (snd (anet_write demo_env (NData 0) [1, 2] demo_connected))
     = n_trace demo_connected @ [CResolve demo_eui, CReliable demo_route [1, 2] AETHER_NET_RETRIES] \<and>
   fst (anet_write demo_env (NData 0) [1, 2] demo_connected) = Inr 2"
proof -
  obtain r N' where wr: "anet_write demo_env (NData 0) [1, 2] demo_connected = (r, N')" by fastforce
  then show ?thesis
    using connected_write [OF demo_bound_wf(1) _ _ _ wr]
    by (simp add: demo_convs)
qed

theorem announced_write_witness:
  "fst (anet_write demo_env (NData 0) (addr_bytes demo_eui @ [1, 2]) demo_announced) = Inr 8"
  using announced_write [OF demo_bound_wf(2), of 0 "[1, 2]" "[]" demo_eui]
  by (simp add: demo_convs)

theorem broadcast_write_witness:
  "\<exists>pre. n_trace (snd (anet_write demo_env (NData 0) [1] demo_party))
     = n_trace demo_party @ pre @ [CSend addr_bcast [1]]"
proof -
  obtain r N' where wr: "anet_write demo_env (NData 0) [1] demo_party = (r, N')" by fastforce
  moreover have "fst (anet_write demo_env (NData 0) [1] demo_party) = Inr 1" by code_simp
  ultimately show ?thesis
    using broadcast_write [OF demo_bound_wf(3) _ _ _ wr] by (auto simp: demo_convs)
qed

theorem recv_delivers_witness:
  "queued snd fst [Dgram demo_eui (ascii ''hello'')] (conv_of demo_announced 0) (conv_of demo_received 0)"
proof -
  have "binding_during demo_env demo_announced (\<lambda>a. if a = demo_eui then Some demo_route else None)
      (\<lambda>a. if a = demo_route then Some demo_eui else None)"
    by (simp add: binding_during_def)
  from recv_delivers [OF demo_msgq demo_bound_wf(2) this, of 0 demo_hello] show ?thesis
    unfolding demo_received_def [symmetric]
    by (simp add: demo_convs accepts_def has_room_def ident_of_def demo_hello_def ascii_def)
qed

theorem recv_counts_witness: "n_rx demo_received = n_rx demo_announced + 1"
proof -
  have "binding_during demo_env demo_announced (\<lambda>a. if a = demo_eui then Some demo_route else None)
      (\<lambda>a. if a = demo_route then Some demo_eui else None)"
    by (simp add: binding_during_def)
  from recv_counts [OF demo_msgq demo_bound_wf(2) this, of demo_hello] show ?thesis
    unfolding demo_received_def by simp
qed

theorem text_files_page_witness:
  "read_to_end 20 (\<lambda>off. read_bytes (fst (anet_read demo_env (NLocal 0) off 4 demo_connected))) 0
     = ascii ''fe:00:00:00:56:78'' @ [nl]"
proof -
  have "node_text demo_env (NLocal 0) demo_connected = Some (ascii ''fe:00:00:00:56:78'' @ [nl])"
    by code_simp
  then show ?thesis using text_files_page [of demo_env "NLocal 0" demo_connected _ 4 20] by simp
qed

theorem directory_pages_witness:
  "read_to_end 8 (\<lambda>off. read_bytes (fst (anet_read demo_env (NDir 0) off 8 demo_connected))) 0
     = [6] @ ascii ''status'' @ [6] @ ascii ''remote'' @ [5] @ ascii ''local'' @ [4] @ ascii ''data''
       @ [3] @ ascii ''ctl''"
proof -
  have kind: "nd_kind (n_nodes demo_connected (NDir 0)) = K_CONVDIR" by code_simp
  have recs: "map (put_dirent demo_env) (map (n_nodes demo_connected)
      (nd_children (n_nodes demo_connected (NDir 0)))) = map Inr
      [[6] @ ascii ''status'', [6] @ ascii ''remote'', [5] @ ascii ''local'', [4] @ ascii ''data'', [3] @ ascii ''ctl'']"
    by code_simp
  show ?thesis
    using directory_pages [OF disjI2 [OF kind] recs, of 8 8] by (simp add: ascii_def)
qed

subsection \<open>The mesh transport of the 9P server\<close>

definition demo_request :: "byte list" where
  "demo_request = m9_frame (m9_tread0 7 100)"

lemma demo_request_ok: "looks_like_9p_t 448 demo_request"
  by code_simp

lemma demo_ring_good: "ring_good mesh9p_zero"
  by (simp add: ring_good_def mesh9p_zero_def)

theorem mesh9p_serves_fifo_witness:
  "snd (mesh9p_work_fn (Some (\<lambda>p m s. s @ [p]))
      (fold (\<lambda>(src, m, b). mesh9p_recv_cb 448 src m b)
        [(demo_eui, demo_request, False), (demo_eui, demo_request, True), (demo_route, demo_request, False),
         (demo_self, [1], False)] mesh9p_zero) [])
   = [demo_eui, demo_route]"
proof -
  let ?fs = "[(demo_eui, demo_request, False), (demo_eui, demo_request, True),
    (demo_route, demo_request, False), (demo_self, [1], False)]"
  obtain R' s' where run: "mesh9p_work_fn (Some (\<lambda>p m s. s @ [p]))
      (fold (\<lambda>(src, m, b). mesh9p_recv_cb 448 src m b) ?fs mesh9p_zero) [] = (R', s')" by fastforce
  have "\<not> looks_like_9p_t 448 [1]" by code_simp
  then show ?thesis
    using mesh9p_serves_fifo [OF demo_ring_good run] run demo_request_ok
    by (simp add: mesh_requests_def ring_contents_def mesh9p_zero_def MESH9P_RING_def)
qed

theorem ack_gate_agrees_witness:
  "mesh9p_ack_gate 448 demo_request mesh9p_zero \<and>
   ring_contents (mesh9p_recv_cb 448 demo_eui demo_request False mesh9p_zero) = [Req demo_eui demo_request]"
proof -
  have "mesh9p_ack_gate 448 demo_request mesh9p_zero" by code_simp
  then show ?thesis
    using ack_gate_agrees [OF demo_ring_good, of 448 demo_request demo_eui] demo_request_ok
    by (simp add: ring_contents_def mesh9p_zero_def)
qed

theorem mesh9p_send_spec_witness:
  "mesh9p_send (\<lambda>_ _ _. Inr 0) (demo_reply demo_request)
      (snd (the (ring_get (mesh9p_recv_cb 448 demo_eui demo_request False mesh9p_zero))))
     = (Inr 11, [(demo_eui, demo_reply demo_request)])"
proof -
  obtain R' where g: "ring_get (mesh9p_recv_cb 448 demo_eui demo_request False mesh9p_zero)
      = Some (Req demo_eui demo_request, R')"
    using demo_request_ok
    by (auto simp: mesh9p_recv_cb_def ring_put_def ring_get_def mesh9p_zero_def MESH9P_RING_def)
  obtain r sent where s: "mesh9p_send (\<lambda>_ _ _. Inr 0) (demo_reply demo_request) R' = (r, sent)" by fastforce
  have "demo_reply demo_request ! 4 \<noteq> 119" "length (demo_reply demo_request) = 11" by code_simp+
  then show ?thesis using mesh9p_send_spec [OF g s] g s by simp
qed

theorem mesh9p_concurrent_witness:
  "\<exists>S. mesh9p_reach S \<and> st_accepted S = [Req demo_eui demo_request] \<and> st_served S = [] \<and>
     (\<exists>rest. st_accepted S = st_served S @ rest \<and> length rest \<le> MESH9P_RING)"
proof -
  have "mesh9p_step mesh9p_start (mesh9p_start\<lparr>
      st_rx := RX_reserved (rg_tail (st_ring mesh9p_start)) (Req demo_eui demo_request),
      st_ring := (st_ring mesh9p_start)\<lparr>rg_tail := (rg_tail (st_ring mesh9p_start) + 1) mod MESH9P_RING\<rparr>,
      st_accepted := st_accepted mesh9p_start @ [Req demo_eui demo_request]\<rparr>)" (is "mesh9p_step _ ?S")
    by (rule rx_reserve) (simp_all add: mesh9p_start_def mesh9p_zero_def)
  then have "mesh9p_reach ?S" by (rule m9_step [OF m9_start])
  moreover have "st_accepted ?S = [Req demo_eui demo_request]" "st_served ?S = []"
    by (simp_all add: mesh9p_start_def)
  ultimately show ?thesis using mesh9p_concurrent by blast
qed

subsection \<open>The client\<close>

theorem m9_rpc_matches_witness:
  "\<exists>b N'. m9_rpc demo_env 0 (m9_tattach 1) 448 demo_connected = (Some b, N') \<and> m9_type b = 105 \<and>
     m9_tag b = 1"
proof -
  obtain r N' where run: "m9_rpc demo_env 0 (104 # np16 1 @ np32 0 @ np32 0xffffffff @ np16 1 @ ascii ''t'' @ np16 0)
      448 demo_connected = (r, N')" by fastforce
  have "fst (m9_rpc demo_env 0 (m9_tattach 1) 448 demo_connected)
      = Some (m9_frame ([105] @ np16 1 @ [0, 0, 0, 0]))" by code_simp
  then have r: "r = Some (m9_frame ([105] @ np16 1 @ [0, 0, 0, 0]))"
    using run by (simp add: m9_tattach_def)
  have "m9_tag (m9_frame ([105] @ np16 1 @ [0, 0, 0, 0])) = 1"
    using m9_rpc_matches [OF demo_msgq run] r by (simp add: m9_tag_frame)
  then show ?thesis using run r by (simp add: m9_tattach_def)
qed


theorem confirm_never_succeeds_witness:
  "fst (aether_net_push_ctl demo_env demo_eui (ascii ''confirm'') False demo_start) = Inl (Some EIO)"
proof -
  have "fst (aether_net_push_ctl demo_env demo_eui (ascii ''confirm'') False demo_start) = Inl (Some EIO)
     \<or> fst (aether_net_push_ctl demo_env demo_eui (ascii ''confirm'') False demo_start) = Inl None"
    by code_simp
  then show ?thesis
    using confirm_never_succeeds [OF demo_msgq demo_start_wf demo_peers_mesh9p] by metis
qed

definition demo_push :: push where
  "demo_push = \<lparr>pu_conv = Some 0, pu_peer = demo_eui, pu_fid = 2, pu_tag = 4, pu_woff = 0,
     pu_outstanding = 0, pu_active = True\<rparr>"


theorem push_never_leaks_witness:
  "\<exists>P1 N1 P2 N2 r3 P3 N3.
     aether_net_push_open demo_env demo_eui (push_zero, demo_start) = (Inl None, P1, N1) \<and>
     aether_net_push_write demo_env [1, 2, 3] 0 (P1, N1) = (Some (Inr 3), P2, N2) \<and>
     aether_net_push_close demo_env (P2, N2) = (r3, P3, N3) \<and>
     slots_in_use N3 = slots_in_use demo_start \<and> \<not> pu_active P3"
proof -
  obtain r1 P1 N1 where a: "aether_net_push_open demo_env demo_eui (push_zero, demo_start) = (r1, P1, N1)"
    by (metis prod_cases3)
  obtain r2 P2 N2 where b: "aether_net_push_write demo_env [1, 2, 3] 0 (P1, N1) = (r2, P2, N2)"
    by (metis prod_cases3)
  obtain r3 P3 N3 where c: "aether_net_push_close demo_env (P2, N2) = (r3, P3, N3)"
    by (metis prod_cases3)
  have "fst (aether_net_push_open demo_env demo_eui (push_zero, demo_start)) = Inl None \<and>
      fst (aether_net_push_write demo_env [1, 2, 3] 0
        (snd (aether_net_push_open demo_env demo_eui (push_zero, demo_start)))) = Some (Inr 3)"
    by code_simp
  then have r: "r1 = Inl None" "r2 = Some (Inr 3)" using a b by simp_all
  have ok: "push_ok (push_zero, demo_start)" "other_slots (push_zero, demo_start) = slots_in_use demo_start"
    by (simp_all add: push_ok_def other_slots_def push_zero_def)
  show ?thesis
    using push_never_leaks [OF demo_msgq _ _ demo_start_wf ok(1) a b c] a b c r ok(2) by auto
qed

end
