(* ===== verification/Base64.thy ===== *)
theory Base64
  imports Text
begin

text \<open>
  The base64 encoder of the node (\<open>b64enc\<close> of \<open>aether_9p.c\<close>; the relay has the same function)
  and the decoder of the host forwarder (\<open>b64dec\<close> of \<open>aether_forwarder.c\<close>). The encoder is a
  loop over groups of three bytes; the decoder folds the input into an accumulator \<open>val\<close> of 32
  bits, which is shifted for every character and never reset, so it wraps.
\<close>

definition b64_alphabet :: "byte list" where
  "b64_alphabet = ascii ''ABCDEFGHIJKLMNOPQRSTUVWXYZabcdefghijklmnopqrstuvwxyz0123456789+/''"

definition b64_char :: "u32 \<Rightarrow> byte" where
  "b64_char v = b64_alphabet ! unat (v AND 63)"

definition b64_group :: "byte \<Rightarrow> byte \<Rightarrow> byte \<Rightarrow> u32" where
  "b64_group a b c = push_bit 16 (ucast a) OR push_bit 8 (ucast b) OR ucast c"

fun b64enc :: "byte list \<Rightarrow> byte list" where
  "b64enc [] = []"
| "b64enc [a] =
     (let v = b64_group a 0 0 in [b64_char (drop_bit 18 v), b64_char (drop_bit 12 v), 61, 61])"
| "b64enc [a, b] =
     (let v = b64_group a b 0
      in [b64_char (drop_bit 18 v), b64_char (drop_bit 12 v), b64_char (drop_bit 6 v), 61])"
| "b64enc (a # b # c # rest) =
     (let v = b64_group a b c
      in [b64_char (drop_bit 18 v), b64_char (drop_bit 12 v), b64_char (drop_bit 6 v), b64_char v]
         @ b64enc rest)"

text \<open>
  \<open>tbl[c]\<close> is the last index of \<open>c\<close> in the alphabet, or -1. The alphabet has no duplicates.
\<close>

definition b64_index :: "byte \<Rightarrow> nat option" where
  "b64_index c =
     (if c \<in> set b64_alphabet then Some (length (takeWhile (\<lambda>x. x \<noteq> c) b64_alphabet)) else None)"

text \<open>The loop of \<open>b64dec\<close>: \<open>out\<close> is what is stored so far, at most \<open>outcap\<close> bytes.\<close>

fun b64dec_loop :: "nat \<Rightarrow> u32 \<Rightarrow> nat \<Rightarrow> byte list \<Rightarrow> byte list \<Rightarrow> byte list" where
  "b64dec_loop outcap val bits out [] = out"
| "b64dec_loop outcap val bits out (c # cs) =
     (if c = 61 then out
      else case b64_index c of
        None \<Rightarrow> b64dec_loop outcap val bits out cs
      | Some d \<Rightarrow>
          (let val' = push_bit 6 val OR of_nat d; bits' = bits + 6
           in if 8 \<le> bits'
              then b64dec_loop outcap val' (bits' - 8)
                     (if length out < outcap then out @ [ucast (drop_bit (bits' - 8) val')] else out) cs
              else b64dec_loop outcap val' bits' out cs))"

definition b64dec :: "byte list \<Rightarrow> nat \<Rightarrow> byte list" where
  "b64dec inp outcap = b64dec_loop outcap 0 0 [] inp"

subsection \<open>Characters\<close>

lemma b64_alphabet_eval: "b64_alphabet =
  [65, 66, 67, 68, 69, 70, 71, 72, 73, 74, 75, 76, 77, 78, 79, 80, 81, 82, 83, 84, 85, 86, 87, 88,
   89, 90, 97, 98, 99, 100, 101, 102, 103, 104, 105, 106, 107, 108, 109, 110, 111, 112, 113, 114,
   115, 116, 117, 118, 119, 120, 121, 122, 48, 49, 50, 51, 52, 53, 54, 55, 56, 57, 43, 47]"
  by (simp add: b64_alphabet_def ascii_def)

lemma length_b64_alphabet: "length b64_alphabet = 64"
  by (simp add: b64_alphabet_eval)

lemma b64_index_alphabet: "map b64_index b64_alphabet = map Some [0..<64]"
  unfolding b64_alphabet_eval b64_index_def by code_simp

lemma b64_index_nth: "i < 64 \<Longrightarrow> b64_index (b64_alphabet ! i) = Some i"
  using arg_cong [OF b64_index_alphabet, of "\<lambda>xs. xs ! i"] by (simp add: length_b64_alphabet)

lemma b64_alphabet_plain: "c \<in> set b64_alphabet \<Longrightarrow> c \<noteq> 61 \<and> c \<noteq> colon \<and> c \<noteq> nl \<and> c \<noteq> 0"
  by (auto simp: b64_alphabet_eval)

lemma and63: "(v :: u32) AND 63 = take_bit 6 v"
  by (simp add: take_bit_eq_mask mask_eq_exp_minus_1)

lemma and63_lt: "unat (v AND 63 :: u32) < 64"
  unfolding and63 using take_bit_nat_less_exp [of 6 "unat v"] by (simp add: unsigned_take_bit_eq)

lemma b64_char_mem: "b64_char v \<in> set b64_alphabet"
  unfolding b64_char_def by (simp add: and63_lt length_b64_alphabet)

lemma b64_index_char: "b64_index (b64_char v) = Some (unat (v AND 63))"
  unfolding b64_char_def by (rule b64_index_nth [OF and63_lt])

lemma b64_char_ne [simp]: "b64_char v \<noteq> 61" "b64_char v \<noteq> colon" "b64_char v \<noteq> nl" "b64_char v \<noteq> 0"
  using b64_alphabet_plain [OF b64_char_mem [of v]] by auto

lemma b64enc_chars: "set (b64enc xs) \<subseteq> insert 61 (set b64_alphabet)"
  by (induction xs rule: b64enc.induct) (auto simp: Let_def b64_char_mem)

lemma b64enc_no_sep: "colon \<notin> set (b64enc xs)" "nl \<notin> set (b64enc xs)" "0 \<notin> set (b64enc xs)"
  using b64enc_chars [of xs] b64_alphabet_plain by fastforce+

lemma length_b64enc: "length (b64enc xs) = 4 * ((length xs + 2) div 3)"
proof (induction xs rule: b64enc.induct)
  case (4 a b c rest)
  have "(length rest + 2 + 3) div 3 = Suc ((length rest + 2) div 3)" by simp
  then show ?case using 4 by (simp add: Let_def)
qed (simp_all add: Let_def)

subsection \<open>Decoding what was encoded\<close>

lemma b64dec_step: "b64dec_loop cap val bits out (b64_char v # cs) =
   (let val' = push_bit 6 val OR (v AND 63); bits' = bits + 6
    in if 8 \<le> bits'
       then b64dec_loop cap val' (bits' - 8)
              (if length out < cap then out @ [ucast (drop_bit (bits' - 8) val')] else out) cs
       else b64dec_loop cap val' bits' out cs)"
  by (simp add: b64_index_char)

definition b64_push :: "u32 \<Rightarrow> u32 \<Rightarrow> u32" where
  "b64_push val v = push_bit 6 val OR take_bit 6 v"

lemma bit_b64_push: "bit (b64_push val v) n = (if n < 6 then bit v n else n < 32 \<and> bit val (n - 6))"
  by (auto simp: b64_push_def bit_simps)

lemma bit_b64_group: "bit (b64_group a b c) n \<longleftrightarrow>
    (if n < 8 then bit c n else if n < 16 then bit b (n - 8) else n < 24 \<and> bit a (n - 16))"
proof -
  consider "n < 8" | "8 \<le> n" "n < 16" | "16 \<le> n" "n < 24" | "24 \<le> n" by linarith
  then show ?thesis
    by cases (auto simp: b64_group_def bit_simps dest: bit_imp_le_length)
qed

lemma group_byte0:
  "ucast (drop_bit 4 (b64_push (b64_push val (drop_bit 18 (b64_group a b c)))
     (drop_bit 12 (b64_group a b c)))) = a"
  by (rule bit_word_eqI) (auto simp: bit_simps bit_b64_push bit_b64_group)

lemma group_byte1:
  "ucast (drop_bit 2 (b64_push (b64_push x (drop_bit 12 (b64_group a b c)))
     (drop_bit 6 (b64_group a b c)))) = b"
  by (rule bit_word_eqI) (auto simp: bit_simps bit_b64_push bit_b64_group)

lemma group_byte2:
  "ucast (b64_push (b64_push x (drop_bit 6 (b64_group a b c))) (b64_group a b c)) = c"
  by (rule bit_word_eqI) (auto simp: bit_simps bit_b64_push bit_b64_group)

lemma b64dec_pad: "b64dec_loop cap val bits out (61 # cs) = out"
  by simp

lemmas b64dec_run = b64dec_step b64dec_pad and63 group_byte0 group_byte1 group_byte2
  b64_push_def [symmetric]

lemma b64dec_loop_enc:
  "length out + length xs \<le> cap \<Longrightarrow> b64dec_loop cap val 0 out (b64enc xs) = out @ xs"
  by (induction xs arbitrary: val out rule: b64enc.induct)
    (simp_all add: Let_def b64dec_run del: b64dec_loop.simps(2))

text \<open>
  Decoding with the forwarder's \<open>b64dec\<close> what a node or a relay encoded with its \<open>b64enc\<close>
  gives the chunk back, whenever the output buffer holds it, although the decoder's 32-bit
  accumulator overflows on anything longer than five characters.
\<close>

theorem b64_roundtrip: "length xs \<le> outcap \<Longrightarrow> b64dec (b64enc xs) outcap = xs"
  by (simp add: b64dec_def b64dec_loop_enc)

theorem b64_roundtrip_witness: "b64dec (b64enc [77, 97, 110, 0, 255]) 8 = [77, 97, 110, 0, 255]"
  by (rule b64_roundtrip) simp

end
