(* ===== verification/Forward.thy ===== *)
theory Forward
  imports Base64
begin

text \<open>
  The delivery side of \<open>aether_forwarder.c\<close>: the token stream of \<open>DEV:\<close> and \<open>MC:\<close> lines is cut
  into chunks, each chunk is posted to the collector under the device named last, and a table of
  64 devices records who is delivering. The HTTP post (\<open>post_chunk\<close>, a command run by the shell)
  and the clock are parameters; the state holds the posts made so far.
\<close>

subsection \<open>Devices\<close>

record dev =
  dv_serial :: "byte list"
  dv_last :: int
  dv_chunks :: u32
  dv_active :: bool

abbreviation (input) MAX_DEVS :: nat where "MAX_DEVS \<equiv> 64"

type_synonym post = "byte list \<times> byte list"

record fwd =
  fw_devs :: "dev list"
  fw_posts :: "post list"

record collector =
  co_accepts :: "post list \<Rightarrow> post \<Rightarrow> bool" \<comment> \<open>\<open>post_chunk\<close> returns 0, given the posts made before\<close>
  co_time :: "post list \<Rightarrow> int"

fun dev_index :: "byte list \<Rightarrow> dev list \<Rightarrow> nat option" where
  "dev_index serial [] = None"
| "dev_index serial (d # ds) =
     (if dv_serial d = serial then Some 0 else map_option Suc (dev_index serial ds))"

definition dev_find :: "byte list \<Rightarrow> dev list \<Rightarrow> nat option \<times> dev list" where
  "dev_find serial ds =
     (case dev_index serial ds of
        Some i \<Rightarrow> (Some i, ds)
      | None \<Rightarrow>
          (if length ds < MAX_DEVS
           then (Some (length ds), ds @ [\<lparr>dv_serial = snprintf_out 40 serial, dv_last = 0,
                                          dv_chunks = 0, dv_active = False\<rparr>])
           else (None, ds)))"

definition dev_seen :: "int \<Rightarrow> dev \<Rightarrow> dev" where
  "dev_seen now d = d\<lparr>dv_active := True, dv_last := now, dv_chunks := dv_chunks d + 1\<rparr>"

text \<open>One \<open>MC:\<close> token under the current serial: the new state, and whether it was posted.\<close>

definition post_token :: "collector \<Rightarrow> byte list \<Rightarrow> byte list \<Rightarrow> fwd \<Rightarrow> bool \<times> fwd" where
  "post_token C serial b64 S =
     (let raw = b64dec b64 512 in
      if serial = [] \<or> raw = [] then (False, S)
      else (let ok = co_accepts C (fw_posts S) (serial, raw);
                S1 = S\<lparr>fw_posts := fw_posts S @ [(serial, raw)]\<rparr>
            in if \<not> ok then (False, S1)
               else (case dev_find serial (fw_devs S1) of
                       (None, ds) \<Rightarrow> (True, S1\<lparr>fw_devs := ds\<rparr>)
                     | (Some i, ds) \<Rightarrow>
                         (True, S1\<lparr>fw_devs := ds[i := dev_seen (co_time C (fw_posts S1)) (ds ! i)]\<rparr>))))"

subsection \<open>The token stream\<close>

lemma strstr_suffix: "strstr s n = Some r \<Longrightarrow> length r \<le> length s"
proof (induction s)
  case Nil
  then show ?case by (subst (asm) strstr.simps) (auto split: if_splits)
next
  case (Cons x s)
  then show ?case by (subst (asm) strstr.simps) (auto split: if_splits)
qed

lemma split_at_shorter: "split_at c xs = Some (a, b) \<Longrightarrow> length b < length xs"
  by (auto dest: split_at_Some)

abbreviation dev_tok :: "byte list" where "dev_tok \<equiv> [68, 69, 86, 58]"
abbreviation mc_tok :: "byte list" where "mc_tok \<equiv> [77, 67, 58]"

text \<open>
  Of the next \<open>DEV:\<close> and the next \<open>MC:\<close> the earlier one is the one with the longer rest. The
  result counts the chunks posted; the C string ends at its NUL.
\<close>

function stream_loop ::
    "collector \<Rightarrow> byte list \<Rightarrow> byte list \<Rightarrow> nat \<Rightarrow> fwd \<Rightarrow> nat \<times> fwd" where
  "stream_loop C p serial posted S =
     (if p = [] then (posted, S)
      else (let dv = strstr p dev_tok; mc = strstr p mc_tok in
        case mc of
          Some m \<Rightarrow>
            (if dv = None \<or> length (the dv) < length m then
               (case split_at colon (drop 3 m) of
                  None \<Rightarrow> (posted, S)
                | Some (b, rest) \<Rightarrow>
                    (case post_token C serial b S of
                       (ok, S1) \<Rightarrow> stream_loop C rest serial (if ok then posted + 1 else posted) S1))
             else (case split_at colon (drop 4 (the dv)) of
                     None \<Rightarrow> (posted, S)
                   | Some (b, rest) \<Rightarrow> stream_loop C rest (take 39 b) posted S))
        | None \<Rightarrow>
            (case dv of
               None \<Rightarrow> (posted, S)
             | Some d \<Rightarrow>
                 (case split_at colon (drop 4 d) of
                    None \<Rightarrow> (posted, S)
                  | Some (b, rest) \<Rightarrow> stream_loop C rest (take 39 b) posted S))))"
  by pat_completeness auto
termination
proof (relation "measure (\<lambda>(C, p, serial, posted, S). length p)", goal_cases)
  case 1
  then show ?case by simp
qed (auto dest!: split_at_shorter dest: strstr_suffix strstr_suffix [OF sym], frule strstr_suffix, linarith)

declare stream_loop.simps [simp del]

definition forward_stream :: "collector \<Rightarrow> byte list \<Rightarrow> fwd \<Rightarrow> nat \<times> fwd" where
  "forward_stream C text S = stream_loop C (cstr text) [] 0 S"

subsection \<open>Ageing\<close>

definition dev_age :: "int \<Rightarrow> int \<Rightarrow> fwd \<Rightarrow> fwd" where
  "dev_age now interval S =
     S\<lparr>fw_devs := map (\<lambda>d. if dv_active d \<and> interval * 4 + 30 < now - dv_last d
                           then d\<lparr>dv_active := False\<rparr> else d) (fw_devs S)\<rparr>"

subsection \<open>Peer discovery\<close>

definition is_xdigit :: "byte \<Rightarrow> bool" where
  "is_xdigit b \<longleftrightarrow> hexval b \<noteq> None"

definition cga_text :: "byte list \<Rightarrow> byte list" where
  "cga_text p = takeWhile (\<lambda>b. is_xdigit b \<or> b = colon) (take 23 p)"

definition keep_peer :: "byte list \<Rightarrow> byte list list \<Rightarrow> byte list list" where
  "keep_peer cga cgas =
     (if cga \<noteq> ascii ''00:00:00:00:00:00'' \<and> length cga = 17 \<and> cga \<notin> set cgas then cgas @ [cga] else cgas)"

function peers_loop :: "nat \<Rightarrow> byte list \<Rightarrow> byte list list \<Rightarrow> byte list list" where
  "peers_loop mx p cgas =
     (case strstr p (ascii ''identity '') of
        None \<Rightarrow> cgas
      | Some r \<Rightarrow>
          (if length cgas < mx
           then peers_loop mx (drop (length (cga_text (drop 9 r))) (drop 9 r)) (keep_peer (cga_text (drop 9 r)) cgas)
           else cgas))"
  by pat_completeness auto
termination
proof (relation "measure (\<lambda>(mx, p, cgas). length p)", goal_cases)
  case 1
  then show ?case by simp
next
  case (2 mx p cgas r)
  then have l: "length r \<le> length p" by (intro strstr_suffix)
  have "r \<noteq> []"
  proof
    assume "r = []"
    have "strstr p (ascii ''identity '') \<noteq> Some []" for p
      by (induction p) (subst strstr.simps; simp add: is_prefix_def ascii_def)+
    then show False using 2(1) \<open>r = []\<close> by simp
  qed
  then show ?case using l by (cases r) auto
qed

declare peers_loop.simps [simp del]

definition parse_peers :: "nat \<Rightarrow> byte list \<Rightarrow> byte list list" where
  "parse_peers mx nbrs = peers_loop mx (cstr nbrs) []"

end
