(* ===== verification/Node9p.thy ===== *)
theory Node9p
  imports NetPush Base64
begin

text \<open>
  \<open>aether_9p.c\<close>: the files of the node under \<open>/dev\<close> and \<open>/dev/aether\<close>: generators that render
  the mesh context, the chat log, the telemetry drains, and the control file of OTA over the
  mesh. Text is appended to a fixed buffer with \<open>p += snprintf(tb + p, sizeof(tb) - p, \<dots>)\<close>;
  once \<open>p\<close> exceeds the buffer the remaining size wraps to a huge one and the next line is
  written past the end: that is the value \<open>None\<close> below.
\<close>

subsection \<open>Rendering into a buffer\<close>

definition emit :: "nat \<Rightarrow> nat \<Rightarrow> byte list \<Rightarrow> byte list" where
  "emit buf_size offset s = segment offset buf_size s"

definition sn_append :: "nat \<Rightarrow> byte list \<Rightarrow> nat \<times> byte list \<Rightarrow> (nat \<times> byte list) option" where
  "sn_append cap line ps =
     (let (p, s) = ps in
      if cap < p then None else Some (p + length line, s @ take (cap - p - 1) line))"

fun sn_lines :: "nat \<Rightarrow> byte list list \<Rightarrow> nat \<times> byte list \<Rightarrow> (nat \<times> byte list) option" where
  "sn_lines cap [] ps = Some ps"
| "sn_lines cap (l # ls) ps =
     (case sn_append cap l ps of None \<Rightarrow> None | Some ps' \<Rightarrow> sn_lines cap ls ps')"

subsection \<open>The mesh context\<close>

record neighbor =
  nb_active :: bool
  nb_addr :: addr6
  nb_eui :: addr6
  nb_rssi :: int
  nb_snr :: int
  nb_last_seen :: u32

record mroute =
  mr_active :: bool
  mr_dest :: addr6
  mr_next_hop :: addr6
  mr_hops :: nat

record mesh_ctx =
  mc_honr_addr :: u16
  mc_honr_joined :: bool
  mc_child_bitmap :: u32
  mc_node_eui :: addr6
  mc_neighbors :: "neighbor list"
  mc_routes :: "mroute list"

text \<open>The HONR address functions and the clock, which the repository only calls.\<close>

record honr =
  hr_rank :: "u16 \<Rightarrow> byte"
  hr_is_root :: "u16 \<Rightarrow> bool"
  hr_parent :: "u16 \<Rightarrow> u16"
  hr_set_nibble :: "u16 \<Rightarrow> byte \<Rightarrow> byte \<Rightarrow> u16"
  hr_node_id :: u32
  hr_child_min :: nat
  hr_child_max :: nat
  hr_uptime :: "mesh_call list \<Rightarrow> u32"

definition x4 :: "u16 \<Rightarrow> byte list" where "x4 a = fmt_0x 4 (unat a)"
definition x8 :: "u32 \<Rightarrow> byte list" where "x8 a = fmt_0x 8 (unat a)"

definition honr_of :: "mesh_ctx option \<Rightarrow> u16" where
  "honr_of c = (case c of Some m \<Rightarrow> mc_honr_addr m | None \<Rightarrow> 0)"

subsection \<open>Single-value files\<close>

definition gen_addr :: "mesh_ctx option \<Rightarrow> nat \<Rightarrow> nat \<Rightarrow> byte list" where
  "gen_addr c sz off = emit sz off (snprintf_out 8 (x4 (honr_of c) @ [nl]))"

definition gen_rank :: "honr \<Rightarrow> mesh_ctx option \<Rightarrow> nat \<Rightarrow> nat \<Rightarrow> byte list" where
  "gen_rank H c sz off = emit sz off (snprintf_out 8
     (dec_nat (case c of Some m \<Rightarrow> unat (hr_rank H (mc_honr_addr m)) | None \<Rightarrow> 0) @ [nl]))"

definition gen_parent :: "honr \<Rightarrow> mesh_ctx option \<Rightarrow> nat \<Rightarrow> nat \<Rightarrow> byte list" where
  "gen_parent H c sz off = emit sz off
     (case c of
        Some m \<Rightarrow> if mc_honr_joined m \<and> \<not> hr_is_root H (mc_honr_addr m)
                  then snprintf_out 16 (x4 (hr_parent H (mc_honr_addr m)) @ [nl])
                  else ascii ''none'' @ [nl]
      | None \<Rightarrow> ascii ''none'' @ [nl])"

definition gen_nodeid :: "honr \<Rightarrow> nat \<Rightarrow> nat \<Rightarrow> byte list" where
  "gen_nodeid H sz off = emit sz off (snprintf_out 16 (x8 (hr_node_id H) @ [nl]))"

subsection \<open>Multi-line files\<close>

text \<open>
  Each has a static buffer, rendered when the read is at offset 0 and served from at other
  offsets: the functions take the buffer and return the bytes read and the buffer.
\<close>

definition tree_head :: "honr \<Rightarrow> mesh_ctx option \<Rightarrow> byte list" where
  "tree_head H c =
     (let a = honr_of c in
      ascii ''node '' @ x4 a @ [nl] @ ascii ''rank '' @ dec_nat (unat (hr_rank H a)) @ [nl]
      @ ascii ''state '' @ (if hr_is_root H a then ascii ''root''
          else if (case c of Some m \<Rightarrow> mc_honr_joined m | None \<Rightarrow> False) then ascii ''joined''
          else ascii ''unjoined'') @ [nl]
      @ ascii ''nodeid '' @ x8 (hr_node_id H) @ [nl])"

definition tree_lines :: "honr \<Rightarrow> mesh_ctx option \<Rightarrow> byte list list" where
  "tree_lines H c =
     (case c of
        None \<Rightarrow> []
      | Some m \<Rightarrow>
          (let a = mc_honr_addr m in
           (if mc_honr_joined m \<and> \<not> hr_is_root H a then [ascii ''parent '' @ x4 (hr_parent H a) @ [nl]] else [])
           @ map (\<lambda>n. ascii ''child '' @ x4 (hr_set_nibble H a (hr_rank H a) (of_nat n)) @ [nl])
               (filter (\<lambda>n. bit (mc_child_bitmap m) n) [hr_child_min H..<hr_child_max H + 1])))"

definition gen_tree ::
    "honr \<Rightarrow> mesh_ctx option \<Rightarrow> nat \<Rightarrow> nat \<Rightarrow> byte list \<Rightarrow> (byte list \<times> byte list) option" where
  "gen_tree H c sz off tb =
     (if off = 0
      then map_option (\<lambda>(_, s). (emit sz off s, s)) (sn_lines 256 (tree_head H c # tree_lines H c) (0, []))
      else Some (emit sz off tb, tb))"

definition last2 :: "addr6 \<Rightarrow> byte list" where
  "last2 a = (case a of Addr6 _ _ _ _ e f \<Rightarrow> fmt_02x e @ [colon] @ fmt_02x f)"

definition neighbor_line :: "u32 \<Rightarrow> neighbor \<Rightarrow> byte list" where
  "neighbor_line now nb =
     last2 (nb_addr nb) @ ascii '' identity '' @ fmt_addr (nb_eui nb)
     @ ascii '' rssi '' @ dec_int (nb_rssi nb) @ ascii '' snr '' @ dec_int (nb_snr nb)
     @ ascii '' age '' @ dec_nat (unat (now - nb_last_seen nb) div 1000) @ ascii ''s'' @ [nl]"

definition neighbor_lines :: "u32 \<Rightarrow> mesh_ctx \<Rightarrow> byte list list" where
  "neighbor_lines now m = map (neighbor_line now) (filter nb_active (mc_neighbors m))"

definition gen_neighbors ::
    "u32 \<Rightarrow> mesh_ctx option \<Rightarrow> nat \<Rightarrow> nat \<Rightarrow> byte list \<Rightarrow> (byte list \<times> byte list) option" where
  "gen_neighbors now c sz off nb =
     (if off = 0
      then map_option (\<lambda>(_, s). (emit sz off s, s))
        (sn_lines 512 (case c of None \<Rightarrow> []
           | Some m \<Rightarrow> neighbor_lines now m) (0, []))
      else Some (emit sz off nb, nb))"

definition route_line :: "mroute \<Rightarrow> byte list" where
  "route_line r = last2 (mr_dest r) @ ascii '' via '' @ last2 (mr_next_hop r)
     @ ascii '' hops '' @ dec_nat (mr_hops r) @ [nl]"

definition route_lines :: "mesh_ctx \<Rightarrow> byte list list" where
  "route_lines m = map route_line (filter mr_active (mc_routes m))"

definition gen_routes ::
    "mesh_ctx option \<Rightarrow> nat \<Rightarrow> nat \<Rightarrow> byte list \<Rightarrow> (byte list \<times> byte list) option" where
  "gen_routes c sz off rb =
     (if off = 0
      then map_option (\<lambda>(_, s). (emit sz off s, s))
        (sn_lines 512 (case c of None \<Rightarrow> [] | Some m \<Rightarrow> route_lines m) (0, []))
      else Some (emit sz off rb, rb))"

subsection \<open>The chat log\<close>

abbreviation (input) CHAT_LOG_SIZE :: nat where "CHAT_LOG_SIZE \<equiv> 1024"

definition chat_line :: "addr6 \<Rightarrow> byte list \<Rightarrow> byte list" where
  "chat_line src d = ascii ''<'' @ last2 src @ ascii ''> '' @ cstr d @ [nl]"

text \<open>
  \<open>n\<close> bytes are copied from \<open>char line[96]\<close>, where \<open>n\<close> is what \<open>snprintf\<close> would have written:
  beyond 96 the copy reads past the array (\<open>None\<close>); at 96 its last byte is the NUL.
\<close>

definition aether_9p_chat_log :: "addr6 \<Rightarrow> byte list \<Rightarrow> byte list \<Rightarrow> byte list option" where
  "aether_9p_chat_log src d clog =
     (let full = chat_line src d; n = length full;
          line = take 95 full @ [0];
          kept = (if CHAT_LOG_SIZE \<le> length clog + n
                  then drop (length clog - CHAT_LOG_SIZE div 2) clog else clog)
      in if 96 < n then None else Some (kept @ take n line))"

definition aether_9p_chat_log_snapshot :: "nat \<Rightarrow> byte list \<Rightarrow> byte list" where
  "aether_9p_chat_log_snapshot outsz clog = take (min (length clog) outsz) clog"

definition gen_chat :: "nat \<Rightarrow> nat \<Rightarrow> byte list \<Rightarrow> byte list" where
  "gen_chat sz off clog =
     (if length clog \<le> off then [] else take (min (length clog - off) sz) (drop off clog))"

text \<open>The result of the write, and the message broadcast, if any.\<close>

definition write_chat ::
    "bool \<Rightarrow> (addr6 \<Rightarrow> byte list \<Rightarrow> nat res) \<Rightarrow> byte list \<Rightarrow> nat res \<times> (addr6 \<times> byte list) list" where
  "write_chat iface send buf =
     (if \<not> iface then (Inl ENODEV, [])
      else (let m = strip_end (\<lambda>b. b = nl \<or> b = cr) buf
            in if m = [] then (Inr (length buf), [])
               else (case send addr_bcast m of Inl e \<Rightarrow> Inl e | Inr _ \<Rightarrow> Inr (length buf), [(addr_bcast, m)])))"

subsection \<open>Firmware status\<close>

datatype dfu_state = DFU_IDLE | DFU_ERASING | DFU_RECEIVING | DFU_COMPLETE | DFU_ERROR

definition dfu_write_confirm :: "(unit res) \<Rightarrow> nat \<Rightarrow> nat res" where
  "dfu_write_confirm confirm count = (case confirm of Inl e \<Rightarrow> Inl e | Inr _ \<Rightarrow> Inr count)"

text \<open>The mesh flag after a status report; \<open>serving\<close> is \<open>aether_9p_mesh_serving()\<close>.\<close>

definition dfu_status :: "bool \<Rightarrow> dfu_state \<Rightarrow> bool \<Rightarrow> bool" where
  "dfu_status serving st quiesced =
     (if serving then quiesced
      else case st of
        DFU_ERASING \<Rightarrow> True
      | DFU_RECEIVING \<Rightarrow> True
      | DFU_COMPLETE \<Rightarrow> False
      | DFU_ERROR \<Rightarrow> False
      | DFU_IDLE \<Rightarrow> quiesced)"

subsection \<open>Telemetry\<close>

text \<open>
  The Memfault packetizer: whether chunks are pending, and the next one of at most so many bytes.
\<close>

record 'p packetizer =
  pk_available :: "'p \<Rightarrow> bool"
  pk_get_chunk :: "nat \<Rightarrow> 'p \<Rightarrow> (byte list \<times> 'p) option"

definition mc_line :: "byte list \<Rightarrow> byte list" where
  "mc_line chunk = ascii ''MC:'' @ b64enc chunk @ ascii '':'' @ [nl]"

function mflt_loop ::
    "'p packetizer \<Rightarrow> nat \<Rightarrow> nat \<Rightarrow> byte list \<Rightarrow> 'p \<Rightarrow> nat \<times> byte list \<times> 'p" where
  "mflt_loop K buf_size tot out p =
     (if \<not> pk_available K p \<or> buf_size < tot + 270 then (tot, out, p)
      else case pk_get_chunk K 192 p of
        None \<Rightarrow> (tot, out, p)
      | Some (chunk, p') \<Rightarrow>
          mflt_loop K buf_size (tot + length (mc_line chunk)) (out @ mc_line chunk) p')"
  by pat_completeness auto
termination
  by (relation "measure (\<lambda>(K, sz, tot, out, p). sz - tot)")
    (auto simp: mc_line_def)

declare mflt_loop.simps [simp del]

definition dev_line :: "addr6 \<Rightarrow> byte list" where
  "dev_line e = ascii ''DEV:dect-'' @ concat (map fmt_02x (addr_bytes e)) @ ascii '':'' @ [nl]"

text \<open>The value returned, the bytes in the buffer, and the packetizer.\<close>

definition gen_mflt ::
    "'p packetizer \<Rightarrow> mesh_ctx option \<Rightarrow> nat \<Rightarrow> nat \<Rightarrow> 'p \<Rightarrow> nat \<times> byte list \<times> 'p" where
  "gen_mflt K c buf_size offset p =
     (if offset \<noteq> 0 \<or> \<not> pk_available K p then (0, [], p)
      else (let l = (case c of Some m \<Rightarrow> dev_line (mc_node_eui m) | None \<Rightarrow> [])
            in mflt_loop K buf_size (length l) (snprintf_out buf_size l) p))"

text \<open>
  Draining the neighbours. The state is the one of the conversation layer; \<open>None\<close> is the
  overrun of \<open>aether_net_drain_peer\<close>. \<open>drained\<close> counts the peers that gave something.
\<close>

definition eligible :: "neighbor \<Rightarrow> bool" where
  "eligible nb \<longleftrightarrow> nb_active nb \<and> nb_eui nb \<noteq> addr_zero"

text \<open>\<open>%d\<close> of a C \<open>int\<close>.\<close>

definition pr_d :: "int \<Rightarrow> byte list" where
  "pr_d n = dec_int (sint (word_of_int n :: u32))"

definition drain_diag :: "addr6 \<Rightarrow> int \<Rightarrow> 'q net \<Rightarrow> byte list" where
  "drain_diag a n N = ascii ''DBG '' @ concat (map fmt_02x (addr_bytes a)) @ ascii '': n='' @ pr_d n
     @ ascii '' sr='' @ pr_d (n_drain_sr N) @ ascii '' gr='' @ pr_d (n_drain_gr N) @ [nl]"

fun mflt_mesh_loop ::
    "honr \<Rightarrow> 'q env \<Rightarrow> u32 \<Rightarrow> nat \<Rightarrow> neighbor list \<Rightarrow> nat \<Rightarrow> nat \<times> byte list \<Rightarrow> 'q net \<Rightarrow>
      (nat \<times> byte list) option \<times> 'q net" where
  "mflt_mesh_loop H E start buf_size [] drained ts N = (Some ts, N)"
| "mflt_mesh_loop H E start buf_size (nb # nbs) drained (tot, out) N =
     (if 3 \<le> drained then (Some (tot, out), N)
      else if \<not> eligible nb then mflt_mesh_loop H E start buf_size nbs drained (tot, out) N
      else if int buf_size - int tot < 128 then (Some (tot, out), N)
      else if 10000 < hr_uptime H (n_trace N) - start then (Some (tot, out), N)
      else (case aether_net_drain_peer E (nb_eui nb) (buf_size - tot)
                   (N\<lparr>n_drain_sr := -99, n_drain_gr := -99\<rparr>) of
              (None, N1) \<Rightarrow> (None, N1)
            | (Some r, N1) \<Rightarrow>
                (let n = (case r of Inr got \<Rightarrow> int (length got) | Inl e \<Rightarrow> - int (e_errno E e));
                     got = (case r of Inr got \<Rightarrow> got | Inl e \<Rightarrow> []);
                     diag = drain_diag (nb_eui nb) n N1
                 in if 0 < n then mflt_mesh_loop H E start buf_size nbs (drained + 1)
                        (tot + length got, out @ got) N1
                    else if int buf_size - int tot > 64 then mflt_mesh_loop H E start buf_size nbs drained
                        (tot + length diag, out @ snprintf_out (buf_size - tot) diag) N1
                    else mflt_mesh_loop H E start buf_size nbs drained (tot, out) N1)))"

definition mesh_header :: "mesh_ctx \<Rightarrow> nat \<Rightarrow> byte list" where
  "mesh_header m buf_size =
     ascii ''MESHDBG active='' @ pr_d (int (length (filter nb_active (mc_neighbors m))))
     @ ascii '' eligible='' @ pr_d (int (length (filter eligible (mc_neighbors m))))
     @ ascii '' cap='' @ pr_d (int buf_size) @ [nl]"

definition gen_mflt_mesh ::
    "honr \<Rightarrow> 'q env \<Rightarrow> mesh_ctx option \<Rightarrow> nat \<Rightarrow> nat \<Rightarrow> 'q net \<Rightarrow> (nat \<times> byte list) option \<times> 'q net" where
  "gen_mflt_mesh H E c buf_size offset N =
     (case c of
        None \<Rightarrow> (Some (0, []), N)
      | Some m \<Rightarrow>
          (if offset \<noteq> 0 then (Some (0, []), N)
           else (let h = (if 48 < buf_size then mesh_header m buf_size else [])
                 in mflt_mesh_loop H E (hr_uptime H (n_trace N)) buf_size (mc_neighbors m) 0
                      (length h, snprintf_out buf_size h) N)))"

text \<open>The probe file: the value returned is the sum of full line lengths, the text may be cut.\<close>

fun mflt_probe_loop ::
    "'q env \<Rightarrow> nat \<Rightarrow> neighbor list \<Rightarrow> nat \<Rightarrow> nat \<times> byte list \<Rightarrow> 'q net \<Rightarrow> nat \<times> (nat \<times> byte list) \<times> 'q net" where
  "mflt_probe_loop E buf_size [] probed ts N = (probed, ts, N)"
| "mflt_probe_loop E buf_size (nb # nbs) probed (tot, out) N =
     (if 3 \<le> probed then (probed, (tot, out), N)
      else if \<not> eligible nb then mflt_probe_loop E buf_size nbs probed (tot, out) N
      else if int buf_size - int tot < 96 then (probed, (tot, out), N)
      else (let (s, N1) = aether_net_probe_peer E (nb_eui nb) N
            in mflt_probe_loop E buf_size nbs (probed + 1)
                 (tot + length s, out @ snprintf_out (buf_size - tot) s) N1))"

definition gen_mflt_probe ::
    "'q env \<Rightarrow> mesh_ctx option \<Rightarrow> nat \<Rightarrow> nat \<Rightarrow> 'q net \<Rightarrow> (nat \<times> byte list) \<times> 'q net" where
  "gen_mflt_probe E c buf_size offset N =
     (case c of
        None \<Rightarrow> ((0, []), N)
      | Some m \<Rightarrow>
          (if offset \<noteq> 0 then ((0, []), N)
           else (case mflt_probe_loop E buf_size (mc_neighbors m) 0 (0, []) N of
                   (probed, (tot, out), N1) \<Rightarrow>
                     (let s = ascii ''PROBE: no eligible neighbors'' @ [nl]
                      in if probed = 0 \<and> 32 < buf_size
                         then ((tot + length s, out @ snprintf_out (buf_size - tot) s), N1)
                         else ((tot, out), N1)))))"

subsection \<open>OTA control\<close>

definition hexnib :: "byte \<Rightarrow> int" where
  "hexnib c =
     (if 48 \<le> c \<and> c \<le> 57 then uint c - 48
      else if 97 \<le> c \<and> c \<le> 102 then uint c - 97 + 10
      else if 65 \<le> c \<and> c \<le> 70 then uint c - 65 + 10
      else -1)"

fun eui_bytes :: "nat \<Rightarrow> byte list \<Rightarrow> byte list option" where
  "eui_bytes (Suc n) (h # l # s) =
     (let hi = hexnib h; lo = hexnib l
      in if hi < 0 \<or> lo < 0 then None
         else map_option (\<lambda>bs. word_of_int (hi * 16 + lo) # bs) (eui_bytes n s))"
| "eui_bytes (Suc n) s = None"
| "eui_bytes 0 s = Some []"

definition parse_eui12 :: "byte list \<Rightarrow> addr6 option" where
  "parse_eui12 s = (if length s < 12 then None else map_option addr_at (eui_bytes 6 s))"

definition push_command :: "byte list \<Rightarrow> byte list" where
  "push_command buf = strip_end (\<lambda>b. b = nl \<or> b = cr \<or> b = space) (take 63 buf)"

text \<open>
  The result is the number of bytes, an error, or (\<open>Inr\<close> of a negative number) the failed step
  of \<open>m9_open_devfile\<close>.
\<close>

definition ctl_result :: "(errno option + int) \<Rightarrow> nat \<Rightarrow> errno + int" where
  "ctl_result r count =
     (case r of Inl None \<Rightarrow> Inr (int count) | Inl (Some e) \<Rightarrow> Inl e | Inr k \<Rightarrow> Inr k)"

definition write_push_ctl ::
    "'q env \<Rightarrow> byte list \<Rightarrow> push \<times> 'q net \<Rightarrow> (errno + int) \<times> push \<times> 'q net" where
  "write_push_ctl E buf PN =
     (let cmd = push_command buf; (P, N) = PN in
      if is_prefix (ascii ''target '') cmd \<and> parse_eui12 (drop 7 cmd) \<noteq> None then
        (let (r, PN1) = aether_net_push_open E (the (parse_eui12 (drop 7 cmd))) PN
         in (ctl_result r (length buf), PN1))
      else if is_prefix (ascii ''commit'') cmd then
        (case aether_net_push_close E PN of
           (Inl e, PN1) \<Rightarrow> (Inl e, PN1)
         | (Inr _, PN1) \<Rightarrow> (Inr (int (length buf)), PN1))
      else if is_prefix (ascii ''reboot '') cmd \<and> parse_eui12 (drop 7 cmd) \<noteq> None then
        (let (r, N1) = aether_net_push_ctl E (the (parse_eui12 (drop 7 cmd))) (ascii ''reboot'') True N
         in (ctl_result r (length buf), P, N1))
      else if is_prefix (ascii ''confirm '') cmd \<and> parse_eui12 (drop 8 cmd) \<noteq> None then
        (let (r, N1) = aether_net_push_ctl E (the (parse_eui12 (drop 8 cmd))) (ascii ''confirm'') False N
         in (ctl_result r (length buf), P, N1))
      else (Inl EINVAL, PN))"

definition write_push ::
    "'q env \<Rightarrow> byte list \<Rightarrow> u64 \<Rightarrow> push \<times> 'q net \<Rightarrow> nat res option \<times> push \<times> 'q net" where
  "write_push E buf off PN = aether_net_push_write E buf off PN"

end
