(* ===== verification/NodeProps.thy ===== *)
theory NodeProps
  imports Node9p NetClientProps
begin

text \<open>
  Properties of the node's files: the text buffers, the chat log, the telemetry drains and the
  control file of OTA over the mesh.
\<close>

subsection \<open>Lengths of printed numbers\<close>

lemma length_dec_nat_le: "n < 10 ^ k \<Longrightarrow> 0 < k \<Longrightarrow> length (dec_nat n) \<le> k"
proof (induction k arbitrary: n)
  case (Suc k)
  show ?case
  proof (cases "n < 10")
    case True
    then show ?thesis by (subst dec_nat.simps) simp
  next
    case False
    then have "0 < k" using Suc.prems by (cases k) auto
    moreover have "n div 10 < 10 ^ k" using Suc.prems by (simp add: less_mult_imp_div_less mult.commute)
    ultimately have "length (dec_nat (n div 10)) \<le> k" using Suc.IH by blast
    then show ?thesis using False by (subst dec_nat.simps) simp
  qed
qed simp

lemma length_dec_nat_pos: "1 \<le> length (dec_nat n)"
  using dec_nat_nonempty [of n] by (cases "dec_nat n") auto

lemma length_dec_int_pos: "1 \<le> length (dec_int n)"
  using length_dec_nat_pos by (simp add: dec_int_def)

lemma length_fmt_0x [simp]: "length (fmt_0x w n) = w"
  by (induction w arbitrary: n) simp_all

lemma length_x48 [simp]: "length (x4 a) = 4" "length (x8 v) = 8"
  by (simp_all add: x4_def x8_def)

lemma length_last2 [simp]: "length (last2 a) = 5"
  by (cases a) (simp add: last2_def)

lemma length_hex6: "length (concat (map fmt_02x (addr_bytes a))) = 12"
  by (cases a) simp

lemma length_pr_d: "length (pr_d n) \<le> 11"
proof -
  let ?v = "sint (word_of_int n :: u32)"
  have "- (2 ^ 31) \<le> ?v" "?v < 2 ^ 31"
    using sint_ge [of "word_of_int n :: u32"] sint_lt [of "word_of_int n :: u32"] by auto
  then have "length (dec_nat (nat \<bar>?v\<bar>)) \<le> 10" by (intro length_dec_nat_le) auto
  then show ?thesis by (auto simp: pr_d_def dec_int_def)
qed

lemma length_pr_d_small: "0 \<le> n \<Longrightarrow> n < 10 ^ k \<Longrightarrow> 0 < k \<Longrightarrow> k \<le> 9 \<Longrightarrow> length (pr_d n) \<le> k"
proof -
  assume n: "0 \<le> n" "n < 10 ^ k" and k: "0 < k" "k \<le> 9"
  have "(10::int) ^ k \<le> 10 ^ 9" using k by (intro power_increasing) auto
  then have "sint (word_of_int n :: u32) = n" using n by (intro sint_of_int_small) auto
  moreover have "nat n < 10 ^ k" using n by (simp add: nat_less_iff)
  ultimately show "length (pr_d n) \<le> k" using n k length_dec_nat_le by (simp add: pr_d_def dec_int_def)
qed

subsection \<open>Appending lines\<close>

lemma sn_lines_fit:
  "length s = p \<Longrightarrow> p + sum_list (map length ls) < cap \<Longrightarrow>
     sn_lines cap ls (p, s) = Some (p + sum_list (map length ls), s @ concat ls)"
proof (induction ls arbitrary: p s)
  case (Cons l ls)
  then have "sn_append cap l (p, s) = Some (p + length l, s @ l)"
    by (simp add: sn_append_def)
  then show ?case using Cons.IH [of "s @ l" "p + length l"] Cons.prems by simp
qed simp

lemma sn_lines_None:
  "sn_lines cap ls (p, s) = None \<longleftrightarrow> ls \<noteq> [] \<and> cap < p + sum_list (map length (butlast ls))"
proof (induction ls arbitrary: p s)
  case (Cons l ls)
  then show ?case by (cases "ls = []") (auto simp: sn_append_def)
qed simp

lemma gen_text_read: "emit sz off s = segment off sz s"
  by (simp add: emit_def)

text \<open>
  The tree file always fits its buffer: with HONR children numbered up to 15, rendering never
  runs past the 256 bytes and cuts nothing. A read at offset 0 takes a snapshot; the reads at
  later offsets continue in that snapshot, whatever has become of the mesh in between.
\<close>

theorem tree_file_snapshot:
  assumes "hr_child_max H \<le> 15"
  shows "\<exists>full. gen_tree H c sz 0 tb = Some (take sz full, full) \<and>
    full = tree_head H c @ concat (tree_lines H c) \<and> length full < 256 \<and>
    (\<forall>H' c' off. 0 < off \<longrightarrow> gen_tree H' c' sz off full = Some (segment off sz full, full))"
proof -
  have r: "length (dec_nat (unat (hr_rank H a))) \<le> 3" for a
    using unat_byte [of "hr_rank H a"] by (intro length_dec_nat_le) auto
  have h: "length (tree_head H c) \<le> 50"
    using r [of "honr_of c"] by (auto simp: tree_head_def Let_def)
  have t: "sum_list (map length (tree_lines H c)) \<le> 188"
  proof (cases c)
    case (Some m)
    have "length (filter (\<lambda>n. bit (mc_child_bitmap m) n) [hr_child_min H..<hr_child_max H + 1]) \<le> 16"
      by (rule order_trans [OF length_filter_le]) (use assms in \<open>simp, arith\<close>)
    then show ?thesis
      using Some by (simp add: tree_lines_def Let_def comp_def sum_list_triv)
  qed (simp add: tree_lines_def)
  let ?full = "tree_head H c @ concat (tree_lines H c)"
  have l: "length ?full < 256" using h t by (simp add: length_concat)
  then have "sn_lines 256 (tree_head H c # tree_lines H c) (0, []) = Some (length ?full, ?full)"
    using h t by (subst sn_lines_fit) (simp_all add: length_concat)
  then have "gen_tree H c sz 0 tb = Some (take sz ?full, ?full)"
    by (simp add: gen_tree_def gen_text_read segment_def del: sn_lines.simps)
  then show ?thesis using l by (auto simp: gen_tree_def gen_text_read)
qed

lemma lines_at_least:
  "\<forall>x\<in>set xs. k \<le> length x \<Longrightarrow> k * length xs \<le> sum_list (map length xs)"
  by (induction xs) (auto simp: add_mono)

lemma sn_lines_overrun:
  assumes "\<forall>x\<in>set ls. k \<le> length x" and "cap < k * (length ls - 1)"
  shows "sn_lines cap ls (0, s) = None"
proof -
  have "k * (length ls - 1) \<le> sum_list (map length (butlast ls))"
    using lines_at_least [of "butlast ls" k] assms(1) by (auto dest: in_set_butlastD)
  moreover have "ls \<noteq> []" using assms(2) by auto
  ultimately show ?thesis using assms(2) by (simp add: sn_lines_None)
qed

lemma neighbor_line_length: "53 \<le> length (neighbor_line now nb)"
proof -
  have "1 \<le> length (dec_int (nb_rssi nb))" "1 \<le> length (dec_int (nb_snr nb))"
    "1 \<le> length (dec_nat (unat (now - nb_last_seen nb) div 1000))"
    using length_dec_int_pos length_dec_nat_pos by auto
  then show ?thesis by (simp add: neighbor_line_def)
qed

lemma route_line_length: "23 \<le> length (route_line r)"
  using length_dec_nat_pos [of "mr_hops r"] by (simp add: route_line_def)

text \<open>
  C40. The neighbour and route files do not always fit theirs. While the lines of the active
  entries come to less than 512 bytes the file is exactly those lines. But with 11 active
  neighbours, or 24 active routes, the remaining size wraps and a line is written past the end of
  the static buffer (\<open>None\<close>).
\<close>

theorem neighbor_file_bounds:
  "(length (concat (neighbor_lines now m)) < 512 \<longrightarrow> gen_neighbors now (Some m) sz 0 nb
      = Some (take sz (concat (neighbor_lines now m)), concat (neighbor_lines now m))) \<and>
   (11 \<le> length (neighbor_lines now m) \<longrightarrow> gen_neighbors now (Some m) sz 0 nb = None) \<and>
   (length (concat (route_lines m)) < 512 \<longrightarrow> gen_routes (Some m) sz 0 rb
      = Some (take sz (concat (route_lines m)), concat (route_lines m))) \<and>
   (24 \<le> length (route_lines m) \<longrightarrow> gen_routes (Some m) sz 0 rb = None)"
proof -
  have fit: "length (concat ls) < 512 \<Longrightarrow> sn_lines 512 ls (0, []) = Some (length (concat ls), concat ls)" for ls
    using sn_lines_fit [of "[]" 0 ls 512] by (simp add: length_concat)
  have n: "11 \<le> length (neighbor_lines now m) \<Longrightarrow> sn_lines 512 (neighbor_lines now m) (0, []) = None"
    by (rule sn_lines_overrun [of _ 53]) (auto simp: neighbor_lines_def neighbor_line_length)
  have r: "24 \<le> length (route_lines m) \<Longrightarrow> sn_lines 512 (route_lines m) (0, []) = None"
    by (rule sn_lines_overrun [of _ 23]) (auto simp: route_lines_def route_line_length)
  show ?thesis
    using fit n r by (simp add: gen_neighbors_def gen_routes_def gen_text_read segment_def)
qed

subsection \<open>The chat log\<close>

text \<open>
  The chat log stays below its 1024 bytes. A message whose text (up to a NUL) has at most 86
  bytes is appended as one whole line after what is kept of the log: everything, or the newest
  512 bytes when it would not fit. With 88 bytes or more, which the mesh delivers, the copy runs
  past the line buffer.
\<close>

theorem chat_log_keeps:
  assumes "length clog < CHAT_LOG_SIZE"
  shows "(aether_9p_chat_log src d clog = None \<longleftrightarrow> 88 \<le> length (cstr d)) \<and>
    (\<forall>clog'. aether_9p_chat_log src d clog = Some clog' \<longrightarrow> length clog' < CHAT_LOG_SIZE) \<and>
    (length (cstr d) \<le> 86 \<longrightarrow> (\<exists>k. aether_9p_chat_log src d clog = Some (drop k clog @ chat_line src d) \<and>
       (k = 0 \<or> length clog - k = 512)))"
proof -
  have n: "length (chat_line src d) = length (cstr d) + 9"
    by (simp add: chat_line_def)
  have eq: "aether_9p_chat_log src d clog = (if 88 \<le> length (cstr d) then None
     else Some ((if CHAT_LOG_SIZE \<le> length clog + length (chat_line src d)
        then drop (length clog - 512) clog else clog) @
        take (length (chat_line src d)) (take 95 (chat_line src d) @ [0])))"
    using n by (auto simp: aether_9p_chat_log_def Let_def)
  have line: "length (cstr d) \<le> 86 \<Longrightarrow>
      take (length (chat_line src d)) (take 95 (chat_line src d) @ [0]) = chat_line src d"
    using n by simp
  show ?thesis
  proof (intro conjI)
    show "aether_9p_chat_log src d clog = None \<longleftrightarrow> 88 \<le> length (cstr d)"
      using eq by simp
    show "\<forall>clog'. aether_9p_chat_log src d clog = Some clog' \<longrightarrow> length clog' < CHAT_LOG_SIZE"
      using eq n assms by auto
    have "CHAT_LOG_SIZE \<le> length clog + length (chat_line src d) \<Longrightarrow> length (cstr d) \<le> 86 \<Longrightarrow> 512 \<le> length clog"
      using n by simp
    then show "length (cstr d) \<le> 86 \<longrightarrow> (\<exists>k. aether_9p_chat_log src d clog = Some (drop k clog @ chat_line src d) \<and>
       (k = 0 \<or> length clog - k = 512))"
      using eq line by (auto intro: exI [of _ 0] exI [of _ "length clog - 512"])
  qed
qed

subsection \<open>Telemetry\<close>

text \<open>Chunks taken out of the packetizer, in order.\<close>

fun taken :: "'p packetizer \<Rightarrow> byte list list \<Rightarrow> 'p \<Rightarrow> 'p \<Rightarrow> bool" where
  "taken K [] p p' = (p' = p)"
| "taken K (c # cs) p p' =
     (pk_available K p \<and> (\<exists>q. pk_get_chunk K 192 p = Some (c, q) \<and> taken K cs q p'))"

definition chunks_fit :: "'p packetizer \<Rightarrow> bool" where
  "chunks_fit K \<longleftrightarrow> (\<forall>n p c p'. pk_get_chunk K n p = Some (c, p') \<longrightarrow> length c \<le> n)"

lemma length_mc_line: "length (mc_line c) = 5 + 4 * ((length c + 2) div 3)"
  by (simp add: mc_line_def length_b64enc)

lemma mflt_loop_run:
  "chunks_fit K \<Longrightarrow> mflt_loop K sz tot out p = (n, out', p') \<Longrightarrow> tot = length out \<Longrightarrow> tot \<le> sz \<Longrightarrow>
    n = length out' \<and> n \<le> sz \<and> (\<exists>cs. taken K cs p p' \<and> out' = out @ concat (map mc_line cs)) \<and>
    (pk_available K p' \<longrightarrow> sz < n + 270 \<or> pk_get_chunk K 192 p' = None)"
proof (induction K sz tot out p rule: mflt_loop.induct)
  case (1 K sz tot out p)
  show ?case
  proof (cases "\<not> pk_available K p \<or> sz < tot + 270 \<or> pk_get_chunk K 192 p = None")
    case True
    then have "n = tot" "out' = out" "p' = p"
      using "1.prems"(2) by (subst (asm) mflt_loop.simps; auto split: if_splits)+
    then show ?thesis using "1.prems" True by (auto intro: exI [of _ "[]"])
  next
    case False
    then obtain c q where g: "pk_get_chunk K 192 p = Some (c, q)" by auto
    then have c: "length c \<le> 192" using "1.prems"(1) unfolding chunks_fit_def by blast
    have "mflt_loop K sz (tot + length (mc_line c)) (out @ mc_line c) q = (n, out', p')"
      using "1.prems"(2) False g by (subst (asm) mflt_loop.simps) simp
    moreover have "4 * ((length c + 2) div 3) \<le> 256" using c by simp
    then have "tot + length (mc_line c) \<le> sz" using False unfolding length_mc_line by linarith
    ultimately have ih: "n = length out'" "n \<le> sz"
      "pk_available K p' \<longrightarrow> sz < n + 270 \<or> pk_get_chunk K 192 p' = None"
      "\<exists>cs. taken K cs q p' \<and> out' = (out @ mc_line c) @ concat (map mc_line cs)"
      using "1.IH" [OF _ g refl "1.prems"(1)] False "1.prems"(3) by auto
    then obtain cs where cs: "taken K cs q p'" "out' = (out @ mc_line c) @ concat (map mc_line cs)" by blast
    then have "taken K (c # cs) p p'" "out' = out @ concat (map mc_line (c # cs))" using False g by auto
    then show ?thesis using ih(1-3) by blast
  qed
qed

lemma length_dev_line: "length (dev_line e) = 23"
  by (cases e) (simp add: dev_line_def)

text \<open>
  A read of the telemetry file takes chunks out of the packetizer and returns them all, each
  as one line, in order, after a line that names the node; it never exceeds the reader's buffer,
  and it stops only when no chunk is pending, the packetizer has none to give, or another line
  might not fit.
\<close>

theorem mflt_drains:
  fixes sz :: nat
  assumes "chunks_fit K" and "23 < sz" and "pk_available K p"
    and "gen_mflt K (Some m) sz 0 p = (n, out, p')"
  shows "n = length out \<and> n \<le> sz \<and>
    (\<exists>cs. taken K cs p p' \<and> out = dev_line (mc_node_eui m) @ concat (map mc_line cs)) \<and>
    (pk_available K p' \<longrightarrow> sz < n + 270 \<or> pk_get_chunk K 192 p' = None)"
proof -
  have a: "mflt_loop K sz 23 (dev_line (mc_node_eui m)) p = (n, out, p')"
    using assms by (simp add: gen_mflt_def snprintf_out_def length_dev_line)
  have "23 \<le> sz" using assms(2) by (rule less_imp_le)
  with a show ?thesis by (intro mflt_loop_run [OF assms(1) a length_dev_line [symmetric]])
qed

lemma length_drain_diag: "length (drain_diag a n N) \<le> 62"
  using length_pr_d [of n] length_pr_d [of "n_drain_sr N"] length_pr_d [of "n_drain_gr N"]
  by (simp add: drain_diag_def length_hex6)

lemma net_wf_drain_marks: "net_wf E cts cap (N\<lparr>n_drain_sr := a, n_drain_gr := b\<rparr>) = net_wf E cts cap N"
  "slots_in_use (N\<lparr>n_drain_sr := a, n_drain_gr := b\<rparr>) = slots_in_use N"
  by (simp_all add: net_wf_def tree_wf_def queues_wf_def slots_in_use_def)

lemma mflt_mesh_loop_ok:
  assumes k: "msgq_ok E cts cap" and mx: "28 \<le> e_max_msg E" "e_max_msg E < 2 ^ 31" and sz: "sz < 2 ^ 31"
  shows "net_wf E cts cap N \<Longrightarrow> tot = length out \<Longrightarrow> tot \<le> sz \<Longrightarrow>
    mflt_mesh_loop H E start sz nbs dr (tot, out) N = (Some (tot', out'), N') \<Longrightarrow>
    net_wf E cts cap N' \<and> slots_in_use N' = slots_in_use N \<and> tot' = length out' \<and> tot' \<le> sz \<and>
    (\<exists>ext. out' = out @ ext)"
proof (induction nbs arbitrary: dr tot out N)
  case (Cons nb nbs)
  let ?M = "N\<lparr>n_drain_sr := -99, n_drain_gr := -99\<rparr>"
  consider (stop) "3 \<le> dr \<or> eligible nb \<and> (int sz - int tot < 128 \<or> 10000 < hr_uptime H (n_trace N) - start)"
    | (skip) "\<not> 3 \<le> dr" "\<not> eligible nb"
    | (drain) "\<not> 3 \<le> dr" "eligible nb" "\<not> int sz - int tot < 128" "\<not> 10000 < hr_uptime H (n_trace N) - start"
    by blast
  then show ?case
  proof cases
    case stop
    then show ?thesis using Cons.prems by (cases "eligible nb") (auto split: if_splits)
  next
    case skip
    then show ?thesis using Cons.IH Cons.prems by simp
  next
    case drain
    obtain x N1 where d: "aether_net_drain_peer E (nb_eui nb) (sz - tot) ?M = (x, N1)" by fastforce
    obtain r where r: "x = Some r" using Cons.prems(4) drain d by (cases x) auto
    have w: "net_wf E cts cap ?M" "slots_in_use ?M = slots_in_use N"
      using Cons.prems(1) net_wf_drain_marks by blast+
    have N1: "net_wf E cts cap N1" "slots_in_use N1 = slots_in_use N"
      "case r of Inl e \<Rightarrow> e = ENOSPC | Inr got \<Rightarrow> length got \<le> (sz - tot) - 1"
      using drain_peer_run [OF k w(1) mx _ d [unfolded r]] sz w(2) by auto
    note step = Cons.prems(4) [unfolded mflt_mesh_loop.simps d r]
    show ?thesis
    proof (cases r)
      case (Inl e)
      let ?dg = "drain_diag (nb_eui nb) (- int (e_errno E e)) N1"
      have room: "length ?dg < sz - tot" using length_drain_diag [of "nb_eui nb" "- int (e_errno E e)" N1] drain by linarith
      then have st: "mflt_mesh_loop H E start sz nbs dr (tot + length ?dg, out @ ?dg) N1 = (Some (tot', out'), N')"
        using step drain Inl by (simp add: Let_def snprintf_out_def)
      have p: "tot + length ?dg = length (out @ ?dg)" "tot + length ?dg \<le> sz" using Cons.prems(2) room by auto
      show ?thesis using Cons.IH [OF N1(1) p st] N1(2) by auto
    next
      case (Inr got)
      let ?dg = "drain_diag (nb_eui nb) 0 N1"
      have room: "length ?dg < sz - tot" using length_drain_diag [of "nb_eui nb" 0 N1] drain by linarith
      show ?thesis
      proof (cases "got = []")
        case True
        then have st: "mflt_mesh_loop H E start sz nbs dr (tot + length ?dg, out @ ?dg) N1 = (Some (tot', out'), N')"
          using step drain Inr room by (simp add: Let_def snprintf_out_def)
        have p: "tot + length ?dg = length (out @ ?dg)" "tot + length ?dg \<le> sz" using Cons.prems(2) room by auto
        show ?thesis using Cons.IH [OF N1(1) p st] N1(2) by auto
      next
        case False
        then have st: "mflt_mesh_loop H E start sz nbs (dr + 1) (tot + length got, out @ got) N1 = (Some (tot', out'), N')"
          using step drain Inr by (simp add: Let_def)
        have p: "tot + length got = length (out @ got)" "tot + length got \<le> sz"
          using N1(3) Inr drain Cons.prems(2) by auto
        show ?thesis using Cons.IH [OF N1(1) p st] N1(2) by auto
      qed
    qed
  qed
qed simp

text \<open>
  The file that drains the whole neighbourhood leaves no conversation behind, whatever the
  peers answer, and reports exactly the bytes it wrote: a diagnostic header whenever there is
  room, then the peers' telemetry, never more than the reader's buffer.
\<close>

theorem mflt_mesh_bounded:
  assumes k: "msgq_ok E cts cap" and w: "net_wf E cts cap N"
    and mx: "28 \<le> e_max_msg E" "e_max_msg E < 2 ^ 31" and sz: "sz < 2 ^ 31"
    and few: "length (mc_neighbors m) < 1000"
    and run: "gen_mflt_mesh H E (Some m) sz 0 N = (Some (n, out), N')"
  shows "net_wf E cts cap N' \<and> slots_in_use N' = slots_in_use N \<and> n = length out \<and> n \<le> sz \<and>
    (48 < sz \<longrightarrow> (\<exists>rest. out = mesh_header m sz @ rest))"
proof -
  define h where "h = (if 48 < sz then mesh_header m sz else [])"
  have cnt: "length (pr_d (int (length (filter P (mc_neighbors m))))) \<le> 3" for P
    using le_less_trans [OF length_filter_le [of P "mc_neighbors m"] few] by (intro length_pr_d_small) auto
  have "length (mesh_header m sz) \<le> 48"
    using cnt [of nb_active] cnt [of eligible] length_pr_d [of "int sz"] by (simp add: mesh_header_def)
  then have h: "length h \<le> sz" "snprintf_out sz h = h" by (auto simp: h_def snprintf_out_def)
  have "mflt_mesh_loop H E (hr_uptime H (n_trace N)) sz (mc_neighbors m) 0 (length h, h) N = (Some (n, out), N')"
    using run h(2) by (simp add: gen_mflt_mesh_def h_def [symmetric] Let_def)
  from mflt_mesh_loop_ok [OF k mx sz w refl h(1) this] show ?thesis by (auto simp: h_def)
qed

subsection \<open>OTA control\<close>

lemma hexnib_digits: "map hexnib hex_digits = map int [0..<16]"
  by code_simp

lemma hexnib_hexd: "n < 16 \<Longrightarrow> hexnib (hexd n) = int n"
proof -
  assume n: "n < 16"
  then have "hexnib (hexd n) = map hexnib hex_digits ! n" by (simp add: hexd_digits)
  also have "\<dots> = int n" using n by (simp add: hexnib_digits)
  finally show ?thesis .
qed

lemma eui_bytes_hex: "eui_bytes (length bs) (concat (map fmt_02x bs) @ r) = Some bs"
proof (induction bs)
  case (Cons b bs)
  have "word_of_int (int (unat b div 16) * 16 + int (unat b mod 16)) = b"
  proof -
    have "int (unat b div 16) * 16 + int (unat b mod 16) = int (unat b)"
      using div_mult_mod_eq [of "unat b" 16] by linarith
    then show ?thesis by simp
  qed
  then show ?case using Cons nibbles_lt16 [of b] by (simp add: fmt_02x_def hexnib_hexd)
qed simp

lemma parse_eui12_hex6: "parse_eui12 (hex6 a @ r) = Some a"
proof -
  have "eui_bytes 6 (hex6 a @ r) = Some (addr_bytes a)"
    using eui_bytes_hex [of "addr_bytes a" r] by (simp add: hex6_def)
  then show ?thesis
    using addr_at_bytes [of a "[]"] length_hex6 [of a] by (simp add: parse_eui12_def hex6_def)
qed

lemma hex6_chars: "set (hex6 a) \<subseteq> set hex_digits"
  using hexd_mem [OF nibbles_lt16(1)] hexd_mem [OF nibbles_lt16(2)]
  by (cases a) (simp add: hex6_def fmt_02x_def)

lemma push_command_hex:
  assumes "length pre \<le> 40" and "e = [] \<or> e = [nl]"
  shows "push_command (pre @ hex6 a @ e) = pre @ hex6 a"
proof -
  let ?q = "\<lambda>b. b = nl \<or> b = cr \<or> b = space"
  have l: "length (hex6 a) = 12" using length_hex6 by (simp add: hex6_def)
  then have ne: "hex6 a \<noteq> []" by auto
  then have "last (hex6 a) \<in> set hex_digits" using hex6_chars last_in_set by blast
  then have "\<not> ?q (last (pre @ hex6 a))" using ne hex_digits_plain by fastforce
  then have "strip_end ?q (pre @ hex6 a) = pre @ hex6 a" using ne by (intro strip_end_id) auto
  then show ?thesis
    using assms l strip_end_append [of ?q nl "pre @ hex6 a"] by (auto simp: push_command_def)
qed

text \<open>
  The control file of OTA over the mesh understands an address written as twelve hex digits,
  with or without a newline: \<open>target\<close> opens the streaming session to that node, \<open>reboot\<close> and
  \<open>confirm\<close> write the respective file of that node, and the result is that of the operation.
  What is no command is refused and changes nothing.
\<close>

theorem push_ctl_commands:
  assumes e: "e = [] \<or> e = [nl]"
  shows "write_push_ctl E (ascii ''target '' @ hex6 a @ e) (P, N) =
      (let (r, PN1) = aether_net_push_open E a (P, N) in (ctl_result r (19 + length e), PN1)) \<and>
    write_push_ctl E (ascii ''reboot '' @ hex6 a @ e) (P, N) =
      (let (r, N1) = aether_net_push_ctl E a (ascii ''reboot'') True N in (ctl_result r (19 + length e), P, N1)) \<and>
    write_push_ctl E (ascii ''confirm '' @ hex6 a @ e) (P, N) =
      (let (r, N1) = aether_net_push_ctl E a (ascii ''confirm'') False N in (ctl_result r (20 + length e), P, N1)) \<and>
    write_push_ctl E (hex6 a @ e) (P, N) = (Inl EINVAL, P, N)"
proof -
  have l: "length (hex6 a) = 12" using length_hex6 by (simp add: hex6_def)
  have p: "parse_eui12 (hex6 a) = Some a" using parse_eui12_hex6 [of a "[]"] by simp
  have c: "push_command (ascii s @ hex6 a @ e) = ascii s @ hex6 a" if "length s \<le> 40" for s
    using push_command_hex [OF _ e, of "ascii s" a] that by simp
  have np: "\<not> is_prefix p (hex6 a)" if "\<not> set p \<subseteq> set hex_digits" for p
    using hex6_chars [of a] that set_take_subset [of "length p" "hex6 a"] by (auto simp: is_prefix_def)
  have none: "\<not> is_prefix (ascii ''target '') (hex6 a)" "\<not> is_prefix (ascii ''commit'') (hex6 a)"
    "\<not> is_prefix (ascii ''reboot '') (hex6 a)" "\<not> is_prefix (ascii ''confirm '') (hex6 a)"
    by (intro np, simp add: ascii_def hex_digits_def)+
  have bad: "push_command (hex6 a @ e) = hex6 a" using c [of "[]"] by (simp add: ascii_def)
  have one: "is_prefix (ascii s) (ascii s @ x)" for s x by simp
  have two: "\<not> is_prefix (ascii ''target '') (ascii ''reboot '' @ x)" "\<not> is_prefix (ascii ''commit'') (ascii ''reboot '' @ x)"
    "\<not> is_prefix (ascii ''target '') (ascii ''confirm '' @ x)" "\<not> is_prefix (ascii ''commit'') (ascii ''confirm '' @ x)"
    "\<not> is_prefix (ascii ''reboot '') (ascii ''confirm '' @ x)" for x
    by (simp_all add: is_prefix_def ascii_def)
  show ?thesis
    using c [of "''target ''"] c [of "''reboot ''"] c [of "''confirm ''"] bad p l none one two
    by (simp add: write_push_ctl_def)
qed

subsection \<open>Firmware status\<close>

text \<open>
  The mesh is quiesced exactly while an image comes in over the wire: after a wired report it
  is quiet if and only if that report says erasing or receiving, whatever came before; reports of
  an image that comes in over the mesh itself never touch it.
\<close>

theorem dfu_quiesce:
  "st \<noteq> DFU_IDLE \<Longrightarrow>
     fold (\<lambda>(serving, s). dfu_status serving s) (evs @ [(False, st)]) q = (st = DFU_ERASING \<or> st = DFU_RECEIVING)"
  "fold (\<lambda>(serving, s). dfu_status serving s) (map (Pair True) sts) q = q"
proof -
  show "st \<noteq> DFU_IDLE \<Longrightarrow>
     fold (\<lambda>(serving, s). dfu_status serving s) (evs @ [(False, st)]) q = (st = DFU_ERASING \<or> st = DFU_RECEIVING)"
    by (cases st) (simp_all add: dfu_status_def)
  show "fold (\<lambda>(serving, s). dfu_status serving s) (map (Pair True) sts) q = q"
    by (induction sts arbitrary: q) (simp_all add: dfu_status_def)
qed

end
