(* ===== verification/ForwardProps.thy ===== *)
theory ForwardProps
  imports Forward NodeProps
begin

text \<open>
  Telemetry end to end: what the nodes write, the forwarder cuts into the same chunks and posts
  under the node that made them.
\<close>

subsection \<open>Text without tokens\<close>

text \<open>Lines that hold no token: a stretch that is empty or ends with a newline.\<close>

definition noise :: "byte list \<Rightarrow> bool" where
  "noise l \<longleftrightarrow> (l = [] \<or> last l = nl) \<and> strstr l dev_tok = None \<and> strstr l mc_tok = None"

lemma strstr_hit [simp]: "strstr (n @ s) n = Some (n @ s)"
  by (subst strstr.simps) simp

lemma strstr_skip:
  assumes "nl \<notin> set n" and "n \<noteq> []"
  shows "l = [] \<or> last l = nl \<Longrightarrow> strstr l n = None \<Longrightarrow> strstr (l @ s) n = strstr s n"
proof (induction l)
  case (Cons x l)
  have l: "l = [] \<or> last l = nl" using Cons.prems(1) by (cases l) auto
  have no: "\<not> is_prefix n (x # l)" and rest: "strstr l n = None"
    using Cons.prems(2) by (subst (asm) strstr.simps; auto split: if_splits)+
  have "\<not> is_prefix n ((x # l) @ s)"
  proof
    assume "is_prefix n ((x # l) @ s)"
    then have n: "take (length n) ((x # l) @ s) = n" by (simp only: is_prefix_def)
    show False
    proof (cases "length n \<le> length (x # l)")
      case True
      then have "take (length n) ((x # l) @ s) = take (length n) (x # l)" by (simp only: take_append) simp
      then have "take (length n) (x # l) = n" using n by (simp only:)
      then show False using no by (simp add: is_prefix_def)
    next
      case False
      then have "take (length n) ((x # l) @ s) = (x # l) @ take (length n - length (x # l)) s"
        by (simp only: take_append) simp
      then have "n = (x # l) @ take (length n - length (x # l)) s" using n by (simp only:)
      then have "set (x # l) \<subseteq> set n" by (metis set_append sup_ge1)
      moreover have "nl \<in> set (x # l)" using Cons.prems(1) last_in_set [of "x # l"] by (metis list.distinct(1))
      ultimately show False using assms(1) by blast
    qed
  qed
  then show ?case
    using Cons.IH [OF l rest] by (subst strstr.simps) simp
qed simp

lemma noise_skip: "noise l \<Longrightarrow> strstr (l @ s) dev_tok = strstr s dev_tok \<and> strstr (l @ s) mc_tok = strstr s mc_tok"
  using strstr_skip [of dev_tok l s] strstr_skip [of mc_tok l s] by (simp add: noise_def)

lemma noise_Nil [simp]: "noise []"
  by (simp add: noise_def strstr.simps is_prefix_def)

lemma stream_loop_noise:
  assumes "noise l" and "s \<noteq> [] \<or> l = []"
  shows "stream_loop C (l @ s) serial k S = stream_loop C s serial k S"
proof (cases "l = []")
  case False
  then show ?thesis
    using assms noise_skip [OF assms(1), of s] by (subst (1 2) stream_loop.simps) simp
qed simp

lemma stream_loop_noise_end: "noise l \<Longrightarrow> stream_loop C l serial k S = (k, S)"
  using noise_skip [of l "[]"] by (subst stream_loop.simps) (simp add: noise_def)

subsection \<open>Streams\<close>

datatype item = Dev "byte list" | Chunk "byte list" | Noise "byte list"

fun item_ok :: "item \<Rightarrow> bool" where
  "item_ok (Dev s) = (colon \<notin> set s \<and> 0 \<notin> set s \<and> length s \<le> 39)"
| "item_ok (Chunk c) = (length c \<le> 512)"
| "item_ok (Noise l) = (noise l \<and> 0 \<notin> set l)"

fun render :: "item \<Rightarrow> byte list" where
  "render (Dev s) = dev_tok @ s @ [colon, nl]"
| "render (Chunk c) = mc_line c"
| "render (Noise l) = l"

text \<open>Who must get what: each chunk that is not empty, under the last device named before it.\<close>

fun attributed :: "byte list \<Rightarrow> item list \<Rightarrow> post list" where
  "attributed s [] = []"
| "attributed s (Dev d # is) = attributed d is"
| "attributed s (Chunk c # is) = (if s = [] \<or> c = [] then [] else [(s, c)]) @ attributed s is"
| "attributed s (Noise l # is) = attributed s is"

text \<open>Posting them one after the other.\<close>

definition post_one :: "collector \<Rightarrow> post \<Rightarrow> nat \<times> fwd \<Rightarrow> nat \<times> fwd" where
  "post_one C sp kS = (case post_token C (fst sp) (b64enc (snd sp)) (snd kS) of
     (ok, S') \<Rightarrow> (if ok then fst kS + 1 else fst kS, S'))"

lemma b64_chunk: "length c \<le> 512 \<Longrightarrow> b64dec (b64enc c) 512 = c"
  using b64dec_loop_enc [of "[]" c 512 0] by (simp add: b64dec_def)

lemma post_token_none: "s = [] \<or> c = [] \<Longrightarrow> length c \<le> 512 \<Longrightarrow> post_token C s (b64enc c) S = (False, S)"
  by (simp add: post_token_def b64_chunk)

lemma nl_noise: "noise [nl]"
  by (simp add: noise_def strstr.simps is_prefix_def)

lemma strstr_nl: "strstr (nl # s) dev_tok = strstr s dev_tok" "strstr (nl # s) mc_tok = strstr s mc_tok"
  using noise_skip [OF nl_noise, of s] by simp_all

lemma stream_loop_nl: "stream_loop C (nl # s) serial k S = stream_loop C s serial k S"
proof (cases "s = []")
  case True
  then show ?thesis
    using stream_loop_noise_end [OF nl_noise] by (simp add: stream_loop.simps [of C "[]"])
next
  case False
  then show ?thesis using stream_loop_noise [OF nl_noise, of s] by simp
qed

lemma strstr_later:
  assumes "strstr (x # s) n = Some r" and "hd n \<noteq> x" and "n \<noteq> []"
  shows "length r \<le> length s"
proof -
  have "\<not> is_prefix n (x # s)" using assms(2,3) by (cases n) (auto simp: is_prefix_def)
  then have "strstr s n = Some r" using assms(1) by (subst (asm) strstr.simps) simp
  then show ?thesis by (rule strstr_suffix)
qed

lemma stream_loop_chunk:
  "stream_loop C (mc_line c @ s) serial k S =
     (case post_token C serial (b64enc c) S of (ok, S1) \<Rightarrow> stream_loop C s serial (if ok then k + 1 else k) S1)"
proof -
  let ?p = "mc_line c @ s"
  have p: "?p = 77 # 67 # colon # b64enc c @ colon # nl # s" by (simp add: mc_line_def ascii_def)
  have mc: "strstr ?p mc_tok = Some ?p"
    using strstr_hit [of mc_tok "b64enc c @ colon # nl # s"] by (simp add: p)
  have dv: "strstr ?p dev_tok = None \<or> length (the (strstr ?p dev_tok)) < length ?p"
    using strstr_later [of 77 "67 # colon # b64enc c @ colon # nl # s" dev_tok] by (cases "strstr ?p dev_tok") (auto simp: p)
  have e: "split_at colon (drop 3 ?p) = Some (b64enc c, nl # s)"
    using split_at_append [OF b64enc_no_sep(1), of c "nl # s"] by (simp add: p)
  have "stream_loop C ?p serial k S =
     (case post_token C serial (b64enc c) S of (ok, S1) \<Rightarrow> stream_loop C (nl # s) serial (if ok then k + 1 else k) S1)"
    using mc dv e p by (subst stream_loop.simps) (auto simp: Let_def)
  then show ?thesis by (simp add: stream_loop_nl)
qed

lemma stream_loop_dev:
  assumes "colon \<notin> set d" and "length d \<le> 39"
  shows "stream_loop C (dev_tok @ d @ [colon, nl] @ s) serial k S = stream_loop C s d k S"
proof -
  let ?p = "dev_tok @ d @ [colon, nl] @ s"
  have dv: "strstr ?p dev_tok = Some ?p" by (rule strstr_hit)
  have mc: "strstr ?p mc_tok = None \<or> \<not> length ?p < length (the (strstr ?p mc_tok))"
    using strstr_suffix [of ?p mc_tok] by (cases "strstr ?p mc_tok") auto
  have e: "split_at colon (drop 4 ?p) = Some (d, nl # s)"
    using split_at_append [OF assms(1), of "nl # s"] by simp
  have "stream_loop C ?p serial k S = stream_loop C (nl # s) d k S"
    using dv mc e assms(2) by (subst stream_loop.simps) (auto simp: Let_def split: option.splits)
  then show ?thesis by (simp add: stream_loop_nl)
qed

lemma stream_loop_items:
  "list_all item_ok is \<Longrightarrow>
     stream_loop C (concat (map render is)) serial k S = fold (post_one C) (attributed serial is) (k, S)"
proof (induction "is" arbitrary: serial k S)
  case Nil
  then show ?case by (simp add: stream_loop.simps)
next
  case (Cons i "is")
  have ih: "stream_loop C (concat (map render is)) serial k S = fold (post_one C) (attributed serial is) (k, S)"
    for serial k S using Cons by simp
  show ?case
  proof (cases i)
    case (Dev d)
    then show ?thesis using Cons.prems stream_loop_dev ih by simp
  next
    case (Chunk c)
    then have c: "length c \<le> 512" using Cons.prems by simp
    show ?thesis
    proof (cases "serial = [] \<or> c = []")
      case True
      then show ?thesis using Chunk c ih post_token_none [OF True c] by (auto simp: stream_loop_chunk)
    next
      case False
      have "post_one C (serial, c) (k, S)
              = (case post_token C serial (b64enc c) S of (ok, S1) \<Rightarrow> (if ok then k + 1 else k, S1))"
        by (simp add: post_one_def split: prod.split)
      then show ?thesis using False Chunk ih by (auto simp: stream_loop_chunk split: prod.splits)
    qed
  next
    case (Noise l)
    show ?thesis
    proof (cases "concat (map render is) = []")
      case True
      then have e: "concat (map render (i # is)) = l" using Noise by (simp only: list.map concat.simps render.simps append_Nil2)
      have "stream_loop C (concat (map render is)) serial k S = (k, S)"
        unfolding True by (simp add: stream_loop.simps)
      then show ?thesis
        unfolding e using Noise Cons.prems ih [of serial k S] stream_loop_noise_end [of l C serial k S] by simp
    next
      case False
      have n: "noise l" using Noise Cons.prems by simp
      show ?thesis
        using stream_loop_noise [OF n disjI1 [OF False], of C serial k S] ih by (simp add: Noise)
    qed
  qed
qed

lemma no_nul_chunks: "0 \<notin> set (mc_line c)"
  using b64enc_no_sep(3) [of c] by (auto simp: mc_line_def ascii_def)

lemma no_nul_items: "list_all item_ok is \<Longrightarrow> 0 \<notin> set (concat (map render is))"
proof (induction "is")
  case (Cons i "is")
  have "0 \<notin> set (render i)" using Cons.prems no_nul_chunks by (cases i) auto
  then show ?case using Cons by simp
qed simp

lemma stream_roundtrip_run:
  "list_all item_ok is \<Longrightarrow>
     forward_stream C (concat (map render is)) S = fold (post_one C) (attributed [] is) (0, S)"
  unfolding forward_stream_def using stream_loop_items [of "is" C "[]" 0 S] cstr_id [OF no_nul_items, of "is"] by (simp only:)


subsection \<open>From the node to the collector\<close>

lemma dev_find_posts [simp]: "fw_posts (snd (post_token C s b S)) =
    fw_posts S @ (if s = [] \<or> b64dec b 512 = [] then [] else [(s, b64dec b 512)])"
  by (auto simp: post_token_def Let_def split: prod.splits option.splits)

lemma post_one_posts: "s \<noteq> [] \<Longrightarrow> c \<noteq> [] \<Longrightarrow> length c \<le> 512 \<Longrightarrow>
    fw_posts (snd (post_one C (s, c) kS)) = fw_posts (snd kS) @ [(s, c)]"
  using dev_find_posts [of C s "b64enc c" "snd kS"]
  by (cases "post_token C s (b64enc c) (snd kS)") (simp add: post_one_def b64_chunk)

lemma fold_posts:
  "\<forall>c \<in> set cs. c \<noteq> [] \<and> length c \<le> 512 \<Longrightarrow> s \<noteq> [] \<Longrightarrow>
     fw_posts (snd (fold (post_one C) (map (Pair s) cs) kS)) = fw_posts (snd kS) @ map (Pair s) cs"
  by (induction cs arbitrary: kS) (simp_all add: post_one_posts)

lemma attributed_chunks: "s \<noteq> [] \<Longrightarrow> attributed s (map Chunk cs) = map (Pair s) (filter (\<lambda>c. c \<noteq> []) cs)"
  by (induction cs) auto

lemma taken_fit: "chunks_fit K \<Longrightarrow> taken K cs p p' \<Longrightarrow> \<forall>c \<in> set cs. length c \<le> 192"
  by (induction cs arbitrary: p) (simp, fastforce simp: chunks_fit_def)

definition node_serial :: "addr6 \<Rightarrow> byte list" where
  "node_serial e = ascii ''dect-'' @ hex6 e"

lemma dev_line_item: "dev_line e = render (Dev (node_serial e))"
  by (simp add: dev_line_def node_serial_def hex6_def ascii_def)

lemma node_serial_ok: "item_ok (Dev (node_serial e))" "node_serial e \<noteq> []"
  using hex6_chars [of e] hex_digits_plain length_hex6 [of e]
  by (auto simp: node_serial_def ascii_def hex6_def)

text \<open>What a packetizer loop appends to the line of a device is posted under its serial.\<close>

lemma drained_posts:
  assumes fit: "chunks_fit K" and s: "item_ok (Dev s)" "s \<noteq> []"
    and run: "mflt_loop K sz (length (render (Dev s))) (render (Dev s)) p = (n, out, p')"
    and sz: "length (render (Dev s)) \<le> sz"
  shows "n = length out \<and> n \<le> sz \<and> (\<exists>cs. taken K cs p p' \<and>
    fw_posts (snd (forward_stream C out S)) = fw_posts S @ map (Pair s) (filter (\<lambda>c. c \<noteq> []) cs))"
proof -
  from mflt_loop_run [OF fit run refl sz]
  obtain cs where cs: "taken K cs p p'" "out = render (Dev s) @ concat (map mc_line cs)" and n: "n = length out" "n \<le> sz" by auto
  have fits: "\<forall>c \<in> set cs. length c \<le> 192" by (rule taken_fit [OF fit cs(1)])
  have ok: "list_all item_ok (Dev s # map Chunk cs)" using fits s(1) by (auto simp: list_all_iff)
  have "concat (map render (Dev s # map Chunk cs)) = out" by (simp add: cs(2) comp_def)
  then have "forward_stream C out S = fold (post_one C) (attributed [] (Dev s # map Chunk cs)) (0, S)"
    using stream_roundtrip_run [OF ok, of C S] by (simp only:)
  moreover have "attributed [] (Dev s # map Chunk cs) = map (Pair s) (filter (\<lambda>c. c \<noteq> []) cs)"
    by (simp only: attributed.simps attributed_chunks [OF s(2)])
  moreover have "\<forall>c \<in> set (filter (\<lambda>c. c \<noteq> []) cs). c \<noteq> [] \<and> length c \<le> 512" using fits by force
  from fold_posts [OF this s(2), of C "(0, S)"]
  have "fw_posts (snd (fold (post_one C) (map (Pair s) (filter (\<lambda>c. c \<noteq> []) cs)) (0, S))) =
      fw_posts S @ map (Pair s) (filter (\<lambda>c. c \<noteq> []) cs)" by simp
  ultimately have "fw_posts (snd (forward_stream C out S)) = fw_posts S @ map (Pair s) (filter (\<lambda>c. c \<noteq> []) cs)"
    by (simp only:)
  then show ?thesis using cs(1) n by blast
qed

text \<open>
  C6. End to end: what a read of a node's telemetry file returns reaches the collector. The chunks
  that the read took out of the packetizer, except empty ones, are posted once each and in order
  under the serial of that node, after what was posted before.
\<close>

theorem telemetry_end_to_end:
  assumes fit: "chunks_fit K" and sz: "23 < sz" and av: "pk_available K p"
    and gen: "gen_mflt K (Some m) sz 0 p = (n, out, p')"
  shows "\<exists>cs. taken K cs p p' \<and>
    fw_posts (snd (forward_stream C out S)) =
      fw_posts S @ map (Pair (node_serial (mc_node_eui m))) (filter (\<lambda>c. c \<noteq> []) cs)"
proof -
  let ?s = "node_serial (mc_node_eui m)"
  have "mflt_loop K sz 23 (dev_line (mc_node_eui m)) p = (n, out, p')"
    using av sz gen by (simp add: gen_mflt_def snprintf_out_def length_dev_line)
  then have "mflt_loop K sz (length (render (Dev ?s))) (render (Dev ?s)) p = (n, out, p')"
    "length (render (Dev ?s)) \<le> sz"
    using sz length_dev_line [of "mc_node_eui m"] unfolding dev_line_item by simp_all
  from drained_posts [OF fit node_serial_ok this] show ?thesis by blast
qed


subsection \<open>The device table\<close>

definition devs_wf :: "fwd \<Rightarrow> bool" where
  "devs_wf S \<longleftrightarrow> distinct (map dv_serial (fw_devs S)) \<and> length (fw_devs S) \<le> 64 \<and>
     (\<forall>d \<in> set (fw_devs S). dv_serial d \<noteq> [] \<and> length (dv_serial d) \<le> 39 \<and>
        (dv_active d \<longrightarrow> dv_serial d \<in> set (map fst (fw_posts S))))"

lemma dev_index_None: "dev_index s ds = None \<longleftrightarrow> s \<notin> set (map dv_serial ds)"
  by (induction ds) (auto split: option.splits)

lemma dev_index_Some: "dev_index s ds = Some i \<Longrightarrow> i < length ds \<and> dv_serial (ds ! i) = s"
  by (induction ds arbitrary: i) (auto split: if_splits option.splits)

lemma devs_seen:
  assumes "distinct (map dv_serial ds)" and "i < length ds"
  shows "map dv_serial (ds[i := dev_seen now (ds ! i)]) = map dv_serial ds"
  using assms(2) by (auto simp: map_update dev_seen_def intro: list_update_same_conv [THEN iffD2])

lemma post_token_devs:
  assumes w: "devs_wf S" and l: "length s \<le> 39"
  shows "devs_wf (snd (post_token C s b S))"
proof (cases "s = [] \<or> b64dec b 512 = [] \<or> \<not> co_accepts C (fw_posts S) (s, b64dec b 512)")
  case True
  then show ?thesis using w by (auto simp: post_token_def devs_wf_def Let_def)
next
  case False
  then have s: "s \<noteq> []" by simp
  let ?ds = "fw_devs S" and ?P = "fw_posts S @ [(s, b64dec b 512)]"
  let ?t = "co_time C ?P"
  show ?thesis
  proof (cases "dev_index s ?ds")
    case None
    let ?new = "\<lparr>dv_serial = s, dv_last = 0, dv_chunks = 0, dv_active = False\<rparr>"
    have e: "snd (post_token C s b S) = S\<lparr>fw_posts := ?P,
        fw_devs := (if length ?ds < 64 then ?ds @ [dev_seen ?t ?new] else ?ds)\<rparr>"
      using False None l by (simp add: post_token_def dev_find_def Let_def snprintf_out_def)
    have "s \<notin> dv_serial ` set ?ds" using None by (simp add: dev_index_None)
    then show ?thesis
      unfolding e using w l s by (auto simp: devs_wf_def dev_seen_def)
  next
    case (Some i)
    note i = dev_index_Some [OF Some]
    have e: "snd (post_token C s b S) = S\<lparr>fw_posts := ?P, fw_devs := ?ds[i := dev_seen ?t (?ds ! i)]\<rparr>"
      using False Some by (simp add: post_token_def dev_find_def Let_def)
    define x where "x = dev_seen ?t (?ds ! i)"
    have m: "?ds ! i \<in> set ?ds" "dv_serial x = s" using i by (simp_all add: x_def dev_seen_def)
    have ser: "map dv_serial (?ds[i := x]) = map dv_serial ?ds"
      using devs_seen [of ?ds i ?t] i w by (simp add: devs_wf_def x_def)
    have "set (?ds[i := x]) \<subseteq> insert x (set ?ds)" by (rule set_update_subset_insert)
    then have "\<forall>d \<in> set (?ds[i := x]). dv_serial d \<noteq> [] \<and> length (dv_serial d) \<le> 39 \<and>
        (dv_active d \<longrightarrow> dv_serial d \<in> set (map fst ?P))"
      using w l s m(2) by (fastforce simp: devs_wf_def)
    then show ?thesis
      using w ser unfolding e devs_wf_def x_def [symmetric] by simp
  qed
qed

lemma strstr_set: "strstr s t = Some r \<Longrightarrow> set r \<subseteq> set s"
proof (induction s)
  case Nil
  then show ?case by (subst (asm) strstr.simps) (auto split: if_splits)
next
  case (Cons x s)
  then show ?case by (subst (asm) strstr.simps) (auto split: if_splits)
qed

lemma stream_loop_step:
  obtains (stop) "stream_loop C p serial k S = (k, S)"
  | (dev) b rest where "length rest < length p" "stream_loop C p serial k S = stream_loop C rest (take 39 b) k S"
      "set b \<union> set rest \<subseteq> set p"
  | (chunk) b rest ok S1 where "length rest < length p" "post_token C serial b S = (ok, S1)"
      "stream_loop C p serial k S = stream_loop C rest serial (if ok then k + 1 else k) S1" "set rest \<subseteq> set p"
proof -
  let ?dv = "strstr p dev_tok" and ?mc = "strstr p mc_tok"
  have cut: "length rest < length p" if "strstr p t = Some m" "split_at colon (drop j m) = Some (b, rest)" for t m j b rest
    using strstr_suffix [OF that(1)] split_at_shorter [OF that(2)] by simp
  have part: "set b \<union> set rest \<subseteq> set p" if "strstr p t = Some m" "split_at colon (drop j m) = Some (b, rest)" for t m j b rest
    using strstr_set [OF that(1)] split_at_Some [OF that(2)] set_drop_subset [of j m] by auto
  consider "p = []" | m where "p \<noteq> []" "?mc = Some m" "?dv = None \<or> length (the ?dv) < length m"
    | d where "p \<noteq> []" "?dv = Some d" "\<And>m. ?mc = Some m \<Longrightarrow> \<not> length d < length m"
    | "p \<noteq> []" "?dv = None" "?mc = None"
    by (cases ?dv; cases ?mc; cases "p = []") auto
  then show thesis
  proof cases
    case 1
    then show thesis by (intro stop) (simp add: stream_loop.simps)
  next
    case (2 m)
    show thesis
    proof (cases "split_at colon (drop 3 m)")
      case None
      with 2 show thesis by (intro stop) (subst stream_loop.simps, simp)
    next
      case (Some br)
      then obtain b rest where br: "split_at colon (drop 3 m) = Some (b, rest)" by (cases br) simp
      obtain ok S1 where t: "post_token C serial b S = (ok, S1)" by fastforce
      have "stream_loop C p serial k S = stream_loop C rest serial (if ok then k + 1 else k) S1"
        using 2 br t by (subst stream_loop.simps) simp
      with cut [OF 2(2) br] t show thesis using part [OF 2(2) br] by (intro chunk) auto
    qed
  next
    case (3 d)
    show thesis
    proof (cases "split_at colon (drop 4 d)")
      case None
      with 3 show thesis by (intro stop) (subst stream_loop.simps, auto simp: Let_def split: option.split)
    next
      case (Some br)
      then obtain b rest where br: "split_at colon (drop 4 d) = Some (b, rest)" by (cases br) simp
      have "stream_loop C p serial k S = stream_loop C rest (take 39 b) k S"
        using 3 br by (subst stream_loop.simps) (auto simp: Let_def split: option.split)
      with cut [OF 3(2) br] show thesis using part [OF 3(2) br] by (rule dev)
    qed
  next
    case 4
    then show thesis by (intro stop) (subst stream_loop.simps, simp)
  qed
qed

lemma stream_loop_devs:
  "devs_wf S \<Longrightarrow> length serial \<le> 39 \<Longrightarrow> devs_wf (snd (stream_loop C p serial k S))"
proof (induction "length p" arbitrary: p serial k S rule: less_induct)
  case less
  show ?case
  proof (cases rule: stream_loop_step [of C p serial k S])
    case stop
    then show ?thesis using less.prems by simp
  next
    case (dev b rest)
    then show ?thesis using less.hyps [OF dev(1) less.prems(1), of "take 39 b" k] by simp
  next
    case (chunk b rest ok S1)
    have "devs_wf S1" using post_token_devs [OF less.prems, of C b] chunk(2) by simp
    then show ?thesis using less.hyps [OF chunk(1)] less.prems(2) chunk(3) by simp
  qed
qed

lemma dev_age_devs: "devs_wf S \<Longrightarrow> devs_wf (dev_age now interval S)"
proof -
  assume w: "devs_wf S"
  have "map dv_serial (fw_devs (dev_age now interval S)) = map dv_serial (fw_devs S)" by (auto simp: dev_age_def)
  moreover have "\<forall>d \<in> set (fw_devs (dev_age now interval S)). dv_serial d \<noteq> [] \<and> length (dv_serial d) \<le> 39 \<and>
      (dv_active d \<longrightarrow> dv_serial d \<in> set (map fst (fw_posts (dev_age now interval S))))"
    using w by (auto simp: devs_wf_def dev_age_def split: if_splits)
  moreover have "length (fw_devs (dev_age now interval S)) \<le> 64" using w by (simp add: devs_wf_def dev_age_def)
  ultimately show ?thesis using w unfolding devs_wf_def by (simp only:)
qed

lemma forward_stream_devs: "devs_wf S \<Longrightarrow> devs_wf (snd (forward_stream C text S))"
  unfolding forward_stream_def by (intro stream_loop_devs) simp_all

text \<open>
  The table of devices stays well formed whatever the nodes send and however the collector
  answers: at most 64 entries, no serial twice, none empty or longer than its field, and a device
  is active only if something was posted for it; ageing keeps all that.
\<close>

theorem device_table_invariant:
  assumes "devs_wf S"
  shows "devs_wf (snd (forward_stream C text S)) \<and> devs_wf (dev_age now interval S)"
  using assms by (simp add: forward_stream_devs dev_age_devs)

end
