(* ===== verification/MeshShell.thy ===== *)
theory MeshShell
  imports Node9p NetFs
begin

text \<open>
  The console of a node (\<open>dect_mesh/src/main.c\<close>): the party-line commands and those that take an
  address, and the throughput and device id of \<open>dect_metrics.c\<close>. The words after the command are a
  list of C strings; a result is the error or what is printed. The commands that only print the
  mesh context are left out.
\<close>

subsection \<open>Party line\<close>

definition chat_recv_cb :: "addr6 \<Rightarrow> byte list \<Rightarrow> bool \<Rightarrow> byte list \<Rightarrow> byte list option" where
  "chat_recv_cb src d bcast clog = (if bcast then aether_9p_chat_log src d clog else Some clog)"

text \<open>The words joined into a message of at most \<open>mx\<close> bytes.\<close>

fun chat_join :: "nat \<Rightarrow> bool \<Rightarrow> byte list \<Rightarrow> byte list list \<Rightarrow> byte list option" where
  "chat_join mx first msg [] = Some msg"
| "chat_join mx first msg (w # ws) =
     (if mx + 1 \<le> length msg + length w + (if first then 0 else 1) then None
      else chat_join mx False (msg @ (if first then [] else [space]) @ w) ws)"

definition cmd_aether_chat ::
    "'q env \<Rightarrow> nat \<Rightarrow> bool \<Rightarrow> byte list list \<Rightarrow> 'q net \<Rightarrow> byte list res \<times> 'q net" where
  "cmd_aether_chat E mx iface args N =
     (if args = [] then (Inl EINVAL, N)
      else if \<not> iface then (Inl ENODEV, N)
      else case chat_join mx True [] args of
        None \<Rightarrow> (Inl EMSGSIZE, N)
      | Some msg \<Rightarrow>
          (case mesh_send E addr_bcast msg N of
             (Inl e, N1) \<Rightarrow> (Inl e, N1)
           | (Inr _, N1) \<Rightarrow> (Inr (ascii ''<you> '' @ msg), N1)))"

text \<open>\<open>strtol(s, &end, 10)\<close>: the value, within a 32-bit long, and what is left at \<open>end\<close>.\<close>

definition strtol10 :: "byte list \<Rightarrow> int \<times> byte list" where
  "strtol10 s =
     (let s1 = dropWhile is_space s;
          neg = (s1 \<noteq> [] \<and> hd s1 = 45);
          s2 = (if s1 \<noteq> [] \<and> (hd s1 = 43 \<or> hd s1 = 45) then tl s1 else s1);
          ds = takeWhile (\<lambda>b. 48 \<le> b \<and> b \<le> 57) s2;
          v = foldl (\<lambda>a d. 10 * a + (uint d - 48)) 0 ds
      in if ds = [] then (0, s)
         else (if neg then max (- 2147483648) (- v) else min 2147483647 v, drop (length ds) s2))"

text \<open>Where the last \<open>n\<close> lines of the text before \<open>p\<close> begin; \<open>count\<close> newlines were passed already.\<close>

fun tail_start :: "byte list \<Rightarrow> int \<Rightarrow> nat \<Rightarrow> int \<Rightarrow> nat" where
  "tail_start snap n 0 count = 0"
| "tail_start snap n (Suc p) count =
     (if snap ! p \<noteq> nl then tail_start snap n p count
      else if n < count + 1 then Suc p
      else tail_start snap n p (count + 1))"

definition cmd_aether_chatlog :: "byte list list \<Rightarrow> byte list \<Rightarrow> byte list res" where
  "cmd_aether_chatlog args clog =
     (let snap = aether_9p_chat_log_snapshot 1024 clog;
          show = (\<lambda>start. if snap = [] then ascii ''(no chat history yet)'' else cstr (drop start snap))
      in case args of
           [] \<Rightarrow> Inr (show 0)
         | a # _ \<Rightarrow>
             (case strtol10 a of
                (n, rest) \<Rightarrow>
                  if rest \<noteq> [] \<or> n < 0 then Inl EINVAL
                  else Inr (show (tail_start snap n (length snap) 0))))"

subsection \<open>Addresses\<close>

text \<open>\<open>sscanf(s, "%2x:%2x:\<dots>")\<close> with \<open>n\<close> conversions: the values converted.\<close>

fun scan_colon_2x :: "nat \<Rightarrow> byte list \<Rightarrow> u32 list" where
  "scan_colon_2x 0 s = []"
| "scan_colon_2x (Suc n) s =
     (case scan_2x s of
        None \<Rightarrow> []
      | Some (v, rest) \<Rightarrow>
          v # (case rest of c # rest' \<Rightarrow> if c = colon then scan_colon_2x n rest' else [] | [] \<Rightarrow> []))"

definition parse_mesh_addr :: "byte list \<Rightarrow> addr6 res" where
  "parse_mesh_addr s =
     (let b = scan_colon_2x 6 s in if length b \<noteq> 6 then Inl EINVAL else Inr (addr_at (map ucast b)))"

definition cmd_aether_deny :: "bool \<Rightarrow> (addr6 \<Rightarrow> errno option) \<Rightarrow> byte list \<Rightarrow> addr6 res" where
  "cmd_aether_deny iface deny arg =
     (case parse_mesh_addr arg of
        Inl _ \<Rightarrow> Inl EINVAL
      | Inr a \<Rightarrow> if \<not> iface then Inl ENODEV else (case deny a of Some e \<Rightarrow> Inl e | None \<Rightarrow> Inr a))"

definition cmd_aether_allow :: "bool \<Rightarrow> (addr6 \<Rightarrow> errno option) \<Rightarrow> byte list \<Rightarrow> addr6 res" where
  "cmd_aether_allow iface allow arg =
     (case parse_mesh_addr arg of
        Inl _ \<Rightarrow> Inl EINVAL
      | Inr a \<Rightarrow> if \<not> iface then Inl ENODEV else (case allow a of Some e \<Rightarrow> Inl e | None \<Rightarrow> Inr a))"

text \<open>
  \<open>cmd_aether_send\<close> converts into \<open>(unsigned int *)&dst[i]\<close>: each conversion stores four bytes.
  \<open>mem\<close> is the stack from the first byte of \<open>dst\<close> on.
\<close>

definition store_u32 :: "nat \<Rightarrow> u32 \<Rightarrow> byte list \<Rightarrow> byte list" where
  "store_u32 i v mem = take i mem @ np32 v @ drop (i + 4) mem"

fun store_fields :: "nat \<Rightarrow> u32 list \<Rightarrow> byte list \<Rightarrow> byte list" where
  "store_fields i [] mem = mem"
| "store_fields i (v # vs) mem = store_fields (i + 1) vs (store_u32 i v mem)"

definition cmd_aether_send ::
    "'q env \<Rightarrow> nat \<Rightarrow> bool \<Rightarrow> byte list list \<Rightarrow> byte list \<Rightarrow> 'q net \<Rightarrow> addr6 res \<times> byte list \<times> 'q net" where
  "cmd_aether_send E mx iface args mem N =
     (case args of
        [a, message] \<Rightarrow>
          (if \<not> iface then (Inl ENODEV, mem, N)
           else let vs = scan_colon_2x 6 a; mem1 = store_fields 0 vs mem in
             if length vs \<noteq> 6 then (Inl EINVAL, mem1, N)
             else if mx < length message then (Inl EMSGSIZE, mem1, N)
             else (case mesh_send E (addr_at mem1) message N of
                (Inl e, N1) \<Rightarrow> (Inl e, mem1, N1)
              | (Inr _, N1) \<Rightarrow> (Inr (addr_at mem1), mem1, N1)))
      | _ \<Rightarrow> (Inl EINVAL, mem, N))"

subsection \<open>Metrics\<close>

record rates =
  rt_prev_txb :: u32
  rt_prev_rxb :: u32
  rt_have_prev :: bool

definition bits_per_s :: "u32 \<Rightarrow> u32 \<Rightarrow> u32" where
  "bits_per_s now prev = ucast ((ucast (now - prev) :: u64) * 8 div 15)"

text \<open>One sample: the two rates, if there is an earlier one.\<close>

definition throughput :: "u32 \<Rightarrow> u32 \<Rightarrow> rates \<Rightarrow> (u32 \<times> u32) option \<times> rates" where
  "throughput txb rxb R =
     (if rt_have_prev R then Some (bits_per_s txb (rt_prev_txb R), bits_per_s rxb (rt_prev_rxb R)) else None,
      R\<lparr>rt_prev_txb := txb, rt_prev_rxb := rxb, rt_have_prev := True\<rparr>)"

definition device_id :: "mesh_ctx option \<Rightarrow> u32 \<Rightarrow> byte list" where
  "device_id c node_id =
     snprintf_out 24
       (case c of
          Some m \<Rightarrow> ascii ''dect-'' @ concat (map fmt_02x (addr_bytes (mc_node_eui m)))
        | None \<Rightarrow> ascii ''dect-mesh-'' @ fmt_0x 8 (unat node_id))"

end
