(* ===== verification/NodeMain.thy ===== *)
theory NodeMain
  imports MeshShell NetFs
begin

text \<open>
  The start of a node: the tree it serves and the order in which it is composed (\<open>aether_9p.c\<close>,
  \<open>aether_9p_mesh.c\<close>), and \<open>main\<close> of \<open>dect_mesh/src/main.c\<close> with its periodic status. Calls into the
  9P server, the mesh and the kernel are values in a log; their results are given by an environment.
  The build has HONR routing, the 9P server, the shell and Memfault, as \<open>prj.conf\<close> says.
\<close>

subsection \<open>The served tree\<close>

abbreviation EEXIST :: errno where "EEXIST \<equiv> Errno 17"
abbreviation ENETDOWN :: errno where "ENETDOWN \<equiv> Errno 115"

datatype nhandler =
    Dfu_write_reboot | Dfu_write_confirm | Write_push_ctl | Write_push | Gen_addr | Gen_rank | Gen_parent
  | Gen_nodeid | Gen_tree | Gen_neighbors | Gen_routes | Gen_chat | Write_chat | Gen_mflt | Gen_mflt_mesh
  | Gen_mflt_probe

datatype nreceiver = Chat_recv_cb | Aether_recv_cb | Led_rx_cb | Mesh9p_recv_cb

datatype node_call =
    Chat_mutex_init
  | Sysfs_init nat
  | Register_dir string
  | Register string "nhandler option" "nhandler option" \<comment> \<open>read, write\<close>
  | Dfu_init string
  | Net_init addr6
  | Union_fs_init nat
  | Union_fs_mount string
  | Uart_transport_init
  | Server_init
  | Server_start
  | Workq_start
  | Mesh_server_init
  | Mesh_server_start
  | Receive nreceiver
  | Set_ack_gate
  | If_up
  | Mesh_init nat
  | Led_init
  | Metrics_init
  | Set_prompt "byte list"
  | Log "byte list"
  | Send_hello

text \<open>What the failure of a call does: nothing, or it ends the function, but for one error.\<close>

datatype call_weight = Ignored | Fatal | Fatal_but errno

record node_env =
  ne_uart_ready :: bool
  ne_result :: "node_call list \<Rightarrow> node_call \<Rightarrow> errno option"

fun boot_calls :: "node_env \<Rightarrow> (call_weight \<times> node_call) list \<Rightarrow> node_call list \<Rightarrow> errno option \<times> node_call list" where
  "boot_calls E [] log = (None, log)"
| "boot_calls E ((w, c) # cs) log =
     (case ne_result E log c of
        Some e \<Rightarrow>
          if w = Ignored \<or> w = Fatal_but e then boot_calls E cs (log @ [c]) else (Some e, log @ [c])
      | None \<Rightarrow> boot_calls E cs (log @ [c]))"

definition register_dev :: "(call_weight \<times> node_call) list" where
  "register_dev =
     [(Fatal_but EEXIST, Register_dir ''dev''),
      (Ignored, Register ''dev/reboot'' None (Some Dfu_write_reboot)),
      (Ignored, Register ''dev/confirm'' None (Some Dfu_write_confirm)),
      (Ignored, Register ''dev/push_ctl'' None (Some Write_push_ctl)),
      (Ignored, Register ''dev/push'' None (Some Write_push)),
      (Fatal, Dfu_init ''dev/firmware'')]"

definition register_dev_aether :: "(call_weight \<times> node_call) list" where
  "register_dev_aether =
     [(Fatal_but EEXIST, Register_dir ''dev/aether''),
      (Ignored, Register ''dev/aether/addr'' (Some Gen_addr) None),
      (Ignored, Register ''dev/aether/rank'' (Some Gen_rank) None),
      (Ignored, Register ''dev/aether/parent'' (Some Gen_parent) None),
      (Ignored, Register ''dev/aether/nodeid'' (Some Gen_nodeid) None),
      (Ignored, Register ''dev/aether/tree'' (Some Gen_tree) None),
      (Ignored, Register ''dev/aether/neighbors'' (Some Gen_neighbors) None),
      (Ignored, Register ''dev/aether/routes'' (Some Gen_routes) None),
      (Ignored, Register ''dev/aether/chat'' (Some Gen_chat) (Some Write_chat)),
      (Ignored, Register ''dev/mflt'' (Some Gen_mflt) None),
      (Ignored, Register ''dev/mflt_mesh'' (Some Gen_mflt_mesh) None),
      (Ignored, Register ''dev/mflt_probe'' (Some Gen_mflt_probe) None)]"

text \<open>The server over the mesh: the callback is registered before the gate is set.\<close>

definition aether_9p_mesh_init :: "(call_weight \<times> node_call) list" where
  "aether_9p_mesh_init =
     [(Ignored, Workq_start), (Fatal, Mesh_server_init), (Fatal, Mesh_server_start),
      (Fatal, Receive Mesh9p_recv_cb), (Ignored, Set_ack_gate)]"

definition serve_steps :: "addr6 \<Rightarrow> (call_weight \<times> node_call) list" where
  "serve_steps my =
     [(Fatal, Sysfs_init 24)] @ register_dev @ register_dev_aether
     @ [(Fatal, Net_init my), (Fatal, Union_fs_init 2), (Fatal, Union_fs_mount ''/''), (Fatal, Union_fs_mount ''/net/aether''),
        (Fatal, Uart_transport_init), (Fatal, Server_init), (Fatal, Server_start)]"

text \<open>The failure of the server over the mesh does not count. \<open>Net_init\<close> stands for \<open>aether_net_init\<close>.\<close>

definition aether_9p_init :: "node_env \<Rightarrow> addr6 option \<Rightarrow> node_call list \<Rightarrow> errno option \<times> node_call list" where
  "aether_9p_init E local log =
     (let log1 = log @ [Chat_mutex_init] in
      if \<not> ne_uart_ready E then (Some ENODEV, log1)
      else case boot_calls E (serve_steps (case local of Some a \<Rightarrow> a | None \<Rightarrow> addr_zero)) log1 of
        (Some e, log2) \<Rightarrow> (Some e, log2)
      | (None, log2) \<Rightarrow> (None, snd (boot_calls E aether_9p_mesh_init log2)))"

subsection \<open>The status in the log\<close>

datatype heymac_addr = Short_addr byte byte | Long_addr addr6

text \<open>What a status prints: the link address and network if they can be read, and the two counts.\<close>

record mesh_counts =
  ms_addr :: "heymac_addr option"
  ms_net_id :: int
  ms_neighbors :: int
  ms_routes :: int

definition print_status :: "mesh_counts \<Rightarrow> byte list list" where
  "print_status M =
     (case ms_addr M of
        None \<Rightarrow> []
      | Some (Short_addr a b) \<Rightarrow> [ascii ''Local address: '' @ fmt_02x a @ [colon] @ fmt_02x b @ ascii '' (short)'']
      | Some (Long_addr a) \<Rightarrow> [ascii ''Local address: '' @ fmt_addr a @ ascii '' (long)''])
     @ (if 0 \<le> ms_net_id M then [ascii ''Network ID: 0x'' @ fmt_0x 4 (nat (ms_net_id M))] else [])
     @ [ascii ''Mesh status: '' @ dec_int (ms_neighbors M) @ ascii '' neighbors, '' @ dec_int (ms_routes M) @ ascii '' routes'']"

text \<open>A turn of the main loop, given its number and the counts it finds.\<close>

definition node_turn :: "u32 \<Rightarrow> mesh_counts \<Rightarrow> node_call list" where
  "node_turn k M = (if k mod 10 = 0 then map Log (print_status M) else []) @ [Send_hello]"

fun node_turns :: "u32 \<Rightarrow> mesh_counts list \<Rightarrow> node_call list" where
  "node_turns k [] = []"
| "node_turns k (M # Ms) = node_turn k M @ node_turns (k + 1) Ms"

subsection \<open>The program\<close>

text \<open>
  \<open>nm_polls\<close> tells when the interface is up, poll by poll. The address is that of the mesh context
  once it exists.
\<close>

record main_world =
  nm_iface :: bool
  nm_polls :: "nat \<Rightarrow> bool"
  nm_mesh :: "errno option" \<comment> \<open>result of \<open>aether_mesh_init\<close>\<close>
  nm_local :: "addr6 option" \<comment> \<open>\<open>g_mesh_ctx->local_addr\<close>\<close>
  nm_shell :: bool
  nm_first :: mesh_counts

text \<open>The poll at which the wait ends, at most \<open>n\<close> after poll \<open>k\<close>.\<close>

fun wait_up :: "(nat \<Rightarrow> bool) \<Rightarrow> nat \<Rightarrow> nat \<Rightarrow> nat" where
  "wait_up up k 0 = k"
| "wait_up up k (Suc n) = (if up k then k else wait_up up (k + 1) n)"

definition node_prompt :: "addr6 \<Rightarrow> byte list" where
  "node_prompt a = snprintf_out 16 (ascii ''ae '' @ last2 a @ ascii ''> '')"

text \<open>The error with which \<open>main\<close> ends, or \<open>None\<close> when it loops, through the turns given.\<close>

definition node_main :: "node_env \<Rightarrow> main_world \<Rightarrow> mesh_counts list \<Rightarrow> errno option \<times> node_call list" where
  "node_main E W turns =
     (if \<not> nm_iface W then (Some ENODEV, [])
      else if \<not> nm_polls W (wait_up (nm_polls W) 0 20) then (Some ENETDOWN, [If_up])
      else case nm_mesh W of
        Some e \<Rightarrow> (Some e, [If_up, Mesh_init 0x915E])
      | None \<Rightarrow>
          (let log1 = [If_up, Mesh_init 0x915E, Receive Chat_recv_cb];
               log2 = snd (aether_9p_init E (nm_local W) log1)
           in (None, log2 @ [Led_init, Metrics_init]
                @ (case nm_local W of Some a \<Rightarrow> if nm_shell W then [Set_prompt (node_prompt a)] else [] | None \<Rightarrow> [])
                @ map Log (print_status (nm_first W)) @ node_turns 0 turns)))"

end
