(* ===== verification/NodeConsole.thy ===== *)
theory NodeConsole
  imports MeshShell
begin

text \<open>
  The commands of the node's console that print its state (\<open>dect_mesh/src/main.c\<close>), as the lines they
  print, and the sampling of its metrics (\<open>dect_metrics.c\<close>). The mesh context is the one of the node
  files with the fields only these read.
\<close>

subsection \<open>The mesh context\<close>

record mesh_info = mesh_ctx +
  mi_local_addr :: addr6
  mi_net_id :: u16
  mi_hello_sent :: u32
  mi_hello_received :: u32
  mi_forwarded :: u32
  mi_dropped :: u32
  mi_denylist :: "addr6 list"
  mi_reelections :: u32
  mi_orphans :: u32
  mi_arq_retx :: u32
  mi_arq_failed :: u32

datatype heymac_state =
    HEYMAC_STATE_INITIAL | HEYMAC_STATE_INITIALIZING | HEYMAC_STATE_LURKING | HEYMAC_STATE_BEACONING
  | HEYMAC_STATE_LINKING | Heymac_other nat

fun heymac_state_name :: "heymac_state \<Rightarrow> byte list" where
  "heymac_state_name HEYMAC_STATE_INITIAL = ascii ''INITIAL''"
| "heymac_state_name HEYMAC_STATE_INITIALIZING = ascii ''INITIALIZING''"
| "heymac_state_name HEYMAC_STATE_LURKING = ascii ''LURKING''"
| "heymac_state_name HEYMAC_STATE_BEACONING = ascii ''BEACONING''"
| "heymac_state_name HEYMAC_STATE_LINKING = ascii ''LINKING''"
| "heymac_state_name (Heymac_other n) = ascii ''?''"

record heymac =
  hx_state :: heymac_state
  hx_rx_packets :: u32
  hx_tx_packets :: u32
  hx_rx_errors :: u32
  hx_tx_errors :: u32
  hx_tx_beacons :: u32
  hx_rx_beacons :: u32
  hx_rssi :: int
  hx_snr :: int

text \<open>The letter AE in UTF-8, and what \<open>%u\<close> prints.\<close>

abbreviation (input) AE :: "byte list" where "AE \<equiv> [0xc3, 0x86]"

abbreviation (input) pr_u :: "u32 \<Rightarrow> byte list" where "pr_u n \<equiv> dec_nat (unat n)"

subsection \<open>status\<close>

definition status_neighbor :: "u32 \<Rightarrow> neighbor \<Rightarrow> byte list" where
  "status_neighbor now nb =
     ascii ''    '' @ fmt_addr (nb_addr nb) @ ascii ''  rssi '' @ dec_int (nb_rssi nb) @ ascii ''  ''
     @ pr_u ((now - nb_last_seen nb) div 1000) @ ascii ''s ago''"

definition status_route :: "mroute \<Rightarrow> byte list" where
  "status_route r =
     ascii ''    '' @ fmt_addr (mr_dest r) @ ascii ''  via '' @ last2 (mr_next_hop r) @ ascii ''  hops '' @ dec_nat (mr_hops r)"

text \<open>The lines before the neighbours; their count is the mesh's, like that of the routes.\<close>

definition status_head :: "mesh_info \<Rightarrow> heymac option \<Rightarrow> int \<Rightarrow> byte list list" where
  "status_head c hctx nbrs =
     [ascii ''=== '' @ AE @ ascii ''ther Node Status ==='',
      ascii ''  identity  '' @ fmt_addr (mc_node_eui c),
      ascii ''  honr addr '' @ fmt_addr (mi_local_addr c),
      ascii ''  net_id 0x'' @ x4 (mi_net_id c)]
     @ (case hctx of
          None \<Rightarrow> []
        | Some h \<Rightarrow>
            [ascii ''  state  '' @ heymac_state_name (hx_state h),
             ascii ''  rx/tx  '' @ pr_u (hx_rx_packets h) @ [47] @ pr_u (hx_tx_packets h) @ ascii '' pkts, ''
               @ pr_u (hx_rx_errors h) @ [47] @ pr_u (hx_tx_errors h) @ ascii '' err'',
             ascii ''  beacon tx '' @ pr_u (hx_tx_beacons h) @ ascii '', rx '' @ pr_u (hx_rx_beacons h)])
     @ [ascii ''  neighbors '' @ dec_int nbrs]"

definition cmd_aether_status ::
    "bool \<Rightarrow> mesh_info option \<Rightarrow> heymac option \<Rightarrow> int \<Rightarrow> int \<Rightarrow> u32 \<Rightarrow> byte list list res" where
  "cmd_aether_status iface ctx hctx nbrs rts now =
     (case ctx of
        None \<Rightarrow> Inl ENODEV
      | Some c \<Rightarrow>
          if \<not> iface then Inl ENODEV
          else Inr
            (status_head c hctx nbrs
             @ map (status_neighbor now) (filter nb_active (mc_neighbors c))
             @ [ascii ''  routes '' @ dec_int rts]
             @ map status_route (filter mr_active (mc_routes c))
             @ [ascii ''  hello  sent '' @ pr_u (mi_hello_sent c) @ ascii '', recv '' @ pr_u (mi_hello_received c),
                ascii ''  fwd '' @ pr_u (mi_forwarded c) @ ascii '', drop '' @ pr_u (mi_dropped c)]))"

definition cmd_aether_hello :: "bool \<Rightarrow> errno option \<Rightarrow> byte list list res" where
  "cmd_aether_hello iface sent_hello =
     (if \<not> iface then Inl ENODEV
      else case sent_hello of Some e \<Rightarrow> Inl e | None \<Rightarrow> Inr [ascii ''Hello message sent''])"

subsection \<open>info\<close>

record shell_config =
  sc_ttl :: nat
  sc_hello :: nat
  sc_beacon :: nat
  sc_nbr_timeout :: nat
  sc_route_timeout :: nat
  sc_max_payload :: nat
  sc_max_nbrs :: nat
  sc_max_routes :: nat

definition cmd_aether_info ::
    "shell_config \<Rightarrow> bool \<Rightarrow> mesh_info option \<Rightarrow> heymac option \<Rightarrow> byte list list res" where
  "cmd_aether_info K iface ctx hctx =
     (case ctx of
        None \<Rightarrow> Inl ENODEV
      | Some c \<Rightarrow>
          if \<not> iface then Inl ENODEV
          else Inr
            [ascii ''=== '' @ AE @ ascii ''ther Parameters ==='',
             ascii ''  identity    '' @ fmt_addr (mc_node_eui c),
             ascii ''  net_id      0x'' @ x4 (mi_net_id c),
             ascii ''  mac state   '' @ (case hctx of Some h \<Rightarrow> heymac_state_name (hx_state h) | None \<Rightarrow> ascii ''?''),
             ascii ''  honr addr   '' @ x4 (mc_honr_addr c) @ ascii '' ('' @ (if mc_honr_joined c then ascii ''joined'' else ascii ''unjoined'')
               @ ascii '', routing address -- churns with the tree)'',
             ascii ''  ttl         '' @ dec_nat (sc_ttl K) @ ascii '' hops'',
             ascii ''  hello int   '' @ dec_nat (sc_hello K) @ ascii '' s'',
             ascii ''  beacon int  '' @ dec_nat (sc_beacon K) @ ascii '' ms'',
             ascii ''  nbr timeout '' @ dec_nat (sc_nbr_timeout K) @ ascii '' s'',
             ascii ''  route tmout '' @ dec_nat (sc_route_timeout K) @ ascii '' s'',
             ascii ''  max payload '' @ dec_nat (sc_max_payload K) @ ascii '' bytes'',
             ascii ''  max nbrs    '' @ dec_nat (sc_max_nbrs K),
             ascii ''  max routes  '' @ dec_nat (sc_max_routes K)])"

subsection \<open>denylist\<close>

text \<open>The lines, and whether the list is cleared.\<close>

definition denied_line :: "addr6 \<Rightarrow> byte list" where
  "denied_line a = ascii ''    '' @ fmt_addr a"

definition cmd_aether_denylist :: "bool \<Rightarrow> mesh_info option \<Rightarrow> byte list list \<Rightarrow> bool \<times> byte list list" where
  "cmd_aether_denylist iface ctx args =
     (if args \<noteq> [] \<and> hd args = ascii ''clear'' then (iface, [ascii ''Denylist cleared''])
      else (False, case ctx of
          None \<Rightarrow> [AE @ ascii ''ther mesh not initialized'']
        | Some c \<Rightarrow> (ascii ''Denylist ('' @ dec_nat (length (mi_denylist c)) @ ascii ''):'')
            # map denied_line (mi_denylist c)))"

subsection \<open>tree\<close>

definition shell_children :: "honr \<Rightarrow> mesh_info \<Rightarrow> u16 list" where
  "shell_children H c =
     map (\<lambda>n. hr_set_nibble H (mc_honr_addr c) (hr_rank H (mc_honr_addr c)) (of_nat n))
       (filter (\<lambda>n. bit (mc_child_bitmap c) n) [hr_child_min H..<hr_child_max H + 1])"

definition cmd_aether_tree :: "honr \<Rightarrow> bool \<Rightarrow> mesh_info option \<Rightarrow> byte list list res" where
  "cmd_aether_tree H iface ctx =
     (case ctx of
        None \<Rightarrow> Inl ENODEV
      | Some c \<Rightarrow>
          if \<not> iface then Inl ENODEV
          else let a = mc_honr_addr c; root = hr_is_root H a; kids = shell_children H c in Inr
            ([ascii ''=== HONR Tree (local view) ==='',
              ascii ''  node     '' @ x4 a @ ascii ''  rank '' @ dec_nat (unat (hr_rank H a)) @ ascii '' (depth)  ''
                @ (if root then ascii ''ROOT'' else if mc_honr_joined c then ascii ''joined'' else ascii ''unjoined''),
              ascii ''  node_id  '' @ x8 (hr_node_id H) @ ascii ''  (lowest id wins the root election)'',
              if root then ascii ''  parent   (none - root)''
              else if mc_honr_joined c then ascii ''  parent   '' @ x4 (hr_parent H a)
              else ascii ''  parent   (none - not joined yet)'']
             @ map (\<lambda>k. ascii ''  child    '' @ x4 k) kids
             @ [if kids = [] then ascii ''  children (none)''
                else ascii ''  children '' @ dec_nat (length kids) @ ascii '' of ''
                  @ dec_nat (hr_child_max H - hr_child_min H + 1) @ ascii '' slots used'']))"

subsection \<open>Metrics\<close>

datatype metric =
    Unsigned string u32
  | Signed string int
  | Text_value string "byte list"
  | Trace_event string

record phy_stats =
  py_tx_ok :: u32
  py_tx_busy :: u32
  py_rx_pcc :: u32
  py_rx_frames :: u32
  py_temp :: "int option" \<comment> \<open>\<open>None\<close>: not measured\<close>
  py_voltage :: u32
  py_tx_bytes :: u32
  py_rx_bytes :: u32
  py_carrier :: "byte list" \<comment> \<open>as the driver prints it\<close>

record sampler =
  sm_rates :: rates
  sm_prev_reel :: u32
  sm_prev_orph :: u32
  sm_prev_arqf :: u32

definition sampler_boot :: sampler where
  "sampler_boot = \<lparr>sm_rates = \<lparr>rt_prev_txb = 0, rt_prev_rxb = 0, rt_have_prev = False\<rparr>,
     sm_prev_reel = 0, sm_prev_orph = 0, sm_prev_arqf = 0\<rparr>"

text \<open>A counter that stepped since the last sample.\<close>

definition stepped :: "string \<Rightarrow> u32 \<Rightarrow> u32 \<Rightarrow> metric list" where
  "stepped name now prev = (if prev < now then [Trace_event name] else [])"

text \<open>What a sample sets, in order, before the events.\<close>

definition metrics_body ::
    "honr \<Rightarrow> u32 \<times> u32 \<Rightarrow> mesh_info \<Rightarrow> heymac option \<Rightarrow> phy_stats \<Rightarrow> u32 \<times> u32 \<times> u32 \<Rightarrow> (u32 \<times> u32) option \<Rightarrow> metric list" where
  "metrics_body H rf c hc ps data bps =
     [Unsigned ''dect_neighbors'' (of_nat (length (filter nb_active (mc_neighbors c)))),
      Unsigned ''dect_routes'' (of_nat (length (filter mr_active (mc_routes c)))),
      Unsigned ''dect_honr_rank'' (ucast (hr_rank H (mc_honr_addr c))),
      Unsigned ''dect_honr_joined'' (if mc_honr_joined c then 1 else 0),
      Unsigned ''dect_hello_sent'' (mi_hello_sent c), Unsigned ''dect_hello_recv'' (mi_hello_received c),
      Unsigned ''dect_forwarded'' (mi_forwarded c), Unsigned ''dect_dropped'' (mi_dropped c),
      Unsigned ''dect_is_root'' (if hr_is_root H (mc_honr_addr c) then 1 else 0)]
     @ (case hc of
          None \<Rightarrow> []
        | Some h \<Rightarrow> [Signed ''dect_rssi'' (hx_rssi h), Signed ''dect_snr'' (hx_snr h),
            Unsigned ''dect_tx_err'' (hx_tx_errors h), Unsigned ''dect_rx_err'' (hx_rx_errors h)])
     @ [Unsigned ''dect_carrier'' (fst rf), Unsigned ''dect_tx_power'' (snd rf),
        Unsigned ''dect_tx_ok'' (py_tx_ok ps), Unsigned ''dect_lbt_busy'' (py_tx_busy ps),
        Unsigned ''dect_rx_pcc'' (py_rx_pcc ps), Unsigned ''dect_rx_frames'' (py_rx_frames ps)]
     @ (case py_temp ps of None \<Rightarrow> [] | Some t \<Rightarrow> [Signed ''dect_temp'' t])
     @ (if py_voltage ps \<noteq> 0 then [Unsigned ''dect_voltage'' (py_voltage ps)] else [])
     @ [Unsigned ''dect_tx_bytes'' (py_tx_bytes ps), Unsigned ''dect_rx_bytes'' (py_rx_bytes ps)]
     @ (case bps of None \<Rightarrow> [] | Some (t, r) \<Rightarrow> [Unsigned ''dect_tx_bps'' t, Unsigned ''dect_rx_bps'' r])
     @ [Text_value ''dect_carrier_decoded'' (take 23 (py_carrier ps)),
        Unsigned ''dect_reelections'' (mi_reelections c), Unsigned ''dect_orphans'' (mi_orphans c),
        Unsigned ''dect_arq_retx'' (mi_arq_retx c), Unsigned ''dect_arq_failed'' (mi_arq_failed c)]
     @ (case data of (tx, rx, drp) \<Rightarrow>
          [Unsigned ''dect_data_tx'' tx, Unsigned ''dect_data_rx'' rx, Unsigned ''dect_rxq_drops'' drp])"

text \<open>One sample; nothing without a mesh context. It is always due again.\<close>

definition metrics_collect ::
    "honr \<Rightarrow> u32 \<times> u32 \<Rightarrow> mesh_info option \<Rightarrow> heymac option \<Rightarrow> phy_stats \<Rightarrow> u32 \<times> u32 \<times> u32 \<Rightarrow> sampler \<Rightarrow> metric list \<times> sampler" where
  "metrics_collect H rf ctx hc ps data S =
     (case ctx of
        None \<Rightarrow> ([], S)
      | Some c \<Rightarrow>
          let (bps, R) = throughput (py_tx_bytes ps) (py_rx_bytes ps) (sm_rates S) in
          (metrics_body H rf c hc ps data bps
           @ stepped ''Dect_Reelection'' (mi_reelections c) (sm_prev_reel S)
           @ stepped ''Dect_Orphan'' (mi_orphans c) (sm_prev_orph S)
           @ stepped ''Dect_ArqFailed'' (mi_arq_failed c) (sm_prev_arqf S),
           \<lparr>sm_rates = R, sm_prev_reel = mi_reelections c, sm_prev_orph = mi_orphans c, sm_prev_arqf = mi_arq_failed c\<rparr>))"

end
