(* ===== verification/MeshShellProps.thy ===== *)
theory MeshShellProps
  imports MeshShell NetData ForwardProps
begin

text \<open>
  Properties of the console: what a chat command broadcasts, what the log command shows, what the
  send command overwrites; the rates are exact across a wrap of the counters.
\<close>

subsection \<open>Party line\<close>

fun unwords :: "byte list list \<Rightarrow> byte list" where
  "unwords [] = []"
| "unwords [w] = w"
| "unwords (w # ws) = w @ space # unwords ws"

lemma chat_join_later: "length msg \<le> mx \<Longrightarrow> chat_join mx False msg ws =
    (let m = msg @ concat (map (\<lambda>w. space # w) ws) in if length m \<le> mx then Some m else None)"
proof (induction ws arbitrary: msg)
  case (Cons w ws)
  show ?case
  proof (cases "length (msg @ space # w) \<le> mx")
    case True
    then show ?thesis using Cons.IH [of "msg @ space # w"] by (simp add: Let_def)
  qed (simp add: Let_def)
qed (simp add: Let_def)

lemma unwords_Cons: "unwords (w # ws) = w @ concat (map (\<lambda>w. space # w) ws)"
  by (induction ws arbitrary: w) simp_all

lemma chat_join_unwords: "chat_join mx True [] ws = (if length (unwords ws) \<le> mx then Some (unwords ws) else None)"
proof (cases ws)
  case (Cons w ws')
  show ?thesis
  proof (cases "length w \<le> mx")
    case True
    then show ?thesis unfolding Cons unwords_Cons using chat_join_later [of w mx ws'] by (simp add: Let_def)
  qed (simp add: Cons unwords_Cons)
qed simp

text \<open>
  A chat command broadcasts its words joined by single spaces as one datagram, and shows them, if
  they fit the payload; otherwise it sends nothing.
\<close>

theorem chat_command:
  assumes "args \<noteq> []"
  shows "cmd_aether_chat E mx True args N =
    (if length (unwords args) \<le> mx
     then case mesh_send E addr_bcast (unwords args) N of
            (Inl e, N1) \<Rightarrow> (Inl e, N1) | (Inr _, N1) \<Rightarrow> (Inr (ascii ''<you> '' @ unwords args), N1)
     else (Inl EMSGSIZE, N))"
  using assms by (simp add: cmd_aether_chat_def chat_join_unwords)

definition text_of :: "byte list list \<Rightarrow> byte list" where
  "text_of ls = concat (map (\<lambda>l. l @ [nl]) ls)"

lemma tail_start_line:
  "nl \<notin> set l \<Longrightarrow> tail_start (pre @ l @ rest) n (length pre + length l) c = tail_start (pre @ l @ rest) n (length pre) c"
proof (induction l arbitrary: rest rule: rev_induct)
  case (snoc x l)
  have "(pre @ l @ x # rest) ! (length pre + length l) = x" by (metis append.assoc length_append nth_append_length)
  then show ?case using snoc.IH [of "x # rest"] snoc.prems by simp
qed simp

lemma tail_start_lines:
  "\<forall>l \<in> set ls. nl \<notin> set l \<Longrightarrow> 0 \<le> c \<Longrightarrow> c \<le> n \<Longrightarrow>
     tail_start (text_of ls @ rest) n (length (text_of ls)) c = length (text_of (take (length ls - nat (n - c)) ls))"
proof (induction ls arbitrary: c rest rule: rev_induct)
  case (snoc l ls)
  let ?t = "text_of ls"
  have t: "text_of (ls @ [l]) = ?t @ l @ [nl]" by (simp add: text_of_def)
  have nth: "(?t @ l @ nl # rest) ! (length ?t + length l) = nl" by (metis append.assoc length_append nth_append_length)
  show ?case
  proof (cases "n < c + 1")
    case True
    then have "n = c" using snoc.prems by simp
    then show ?thesis using nth by (simp add: t)
  next
    case False
    have "tail_start (?t @ l @ nl # rest) n (length ?t + length l) (c + 1) = tail_start (?t @ l @ nl # rest) n (length ?t) (c + 1)"
      using snoc.prems by (intro tail_start_line) simp
    also have "\<dots> = length (text_of (take (length ls - nat (n - (c + 1))) ls))"
      using snoc.IH [of "c + 1" "l @ nl # rest"] snoc.prems False by simp
    also have "take (length ls - nat (n - (c + 1))) ls = take (length (ls @ [l]) - nat (n - c)) (ls @ [l])"
    proof -
      have "nat (n - c) = Suc (nat (n - (c + 1)))" using False by simp
      then show ?thesis by simp
    qed
    finally show ?thesis using nth False by (simp add: t)
  qed
qed (simp add: text_of_def)

lemma text_of_append: "text_of (a @ b) = text_of a @ text_of b"
  by (simp add: text_of_def)

text \<open>
  The log command with a number shows exactly that many of the newest lines, or all if there are
  fewer.
\<close>

theorem chatlog_tail:
  assumes ls: "\<forall>l \<in> set ls. nl \<notin> set l \<and> 0 \<notin> set l" "ls \<noteq> []" and fits: "length (text_of ls) \<le> 1024"
    and n: "strtol10 a = (n, [])" "0 \<le> n"
  shows "cmd_aether_chatlog [a] (text_of ls) = Inr (text_of (drop (length ls - nat n) ls))"
proof -
  let ?k = "length ls - nat n"
  have s: "aether_9p_chat_log_snapshot 1024 (text_of ls) = text_of ls" "text_of ls \<noteq> []"
    using fits ls(2) by (auto simp: aether_9p_chat_log_snapshot_def text_of_def)
  have st: "tail_start (text_of ls) n (length (text_of ls)) 0 = length (text_of (take ?k ls))"
    using tail_start_lines [of ls 0 n "[]"] ls(1) n(2) by simp
  have "text_of ls = text_of (take ?k ls) @ text_of (drop ?k ls)" by (simp flip: text_of_append)
  then have d: "drop (length (text_of (take ?k ls))) (text_of ls) = text_of (drop ?k ls)" by (metis append_eq_conv_conj)
  have "0 \<notin> set (text_of (drop ?k ls))" using ls(1) by (auto simp: text_of_def dest: in_set_dropD)
  then show ?thesis using s st d n by (simp add: cmd_aether_chatlog_def Let_def cstr_id)
qed

subsection \<open>Addresses\<close>

lemma scan_colon_2x_fmt: "scan_colon_2x 6 (fmt_addr a) = map ucast (addr_bytes a)"
proof -
  have c: "scan_colon_2x (Suc n) (fmt_02x b @ colon # s) = ucast b # scan_colon_2x n s" for n b s
    by (simp add: scan_2x_fmt_02x)
  have l: "scan_colon_2x (Suc 0) (fmt_02x b) = [ucast b]" for b using scan_2x_fmt_02x [of b "[]"] by simp
  show ?thesis
    by (cases a) (simp add: fmt_addr_def numeral_eq_Suc c l del: scan_colon_2x.simps)
qed

lemma parse_mesh_addr_fmt: "parse_mesh_addr (fmt_addr a) = Inr a"
  by (cases a) (simp add: parse_mesh_addr_def scan_colon_2x_fmt addr_at_def)

lemma np32_byte: "np32 (ucast (b :: byte)) = [b, 0, 0, 0]"
proof -
  have "(ucast (drop_bit k (ucast b :: u32)) :: byte) = drop_bit k b" if "k < 32" for k
    by (rule bit_word_eqI) (auto simp: bit_simps dest: bit_imp_le_length)
  moreover have "drop_bit k b = 0" if "8 \<le> k" for k
    by (rule bit_word_eqI) (use that in \<open>auto simp: bit_simps dest: bit_imp_le_length\<close>)
  ultimately show ?thesis by (simp add: np32_def)
qed

text \<open>
  The send command overruns its address: it sends to the address it was given, but its six
  conversions of four bytes each also clear the three bytes of the stack behind the array.
\<close>

theorem send_overruns:
  assumes "9 \<le> length mem" and "length message \<le> mx"
    and "mesh_send E a message N = (Inr r, N1)"
  shows "cmd_aether_send E mx True [fmt_addr a, message] mem N =
    (Inr a, addr_bytes a @ [0, 0, 0] @ drop 9 mem, N1)"
proof -
  obtain m0 m1 m2 m3 m4 m5 m6 m7 m8 rest where mem: "mem = m0 # m1 # m2 # m3 # m4 # m5 # m6 # m7 # m8 # rest"
    using assms(1) by (auto simp: numeral_eq_Suc Suc_le_length_iff)
  have "store_fields 0 (map ucast (addr_bytes a)) mem = addr_bytes a @ [0, 0, 0] @ drop 9 mem"
    by (cases a) (simp add: mem store_u32_def np32_byte)
  then show ?thesis
    using assms(2,3) by (simp add: cmd_aether_send_def scan_colon_2x_fmt Let_def)
qed

subsection \<open>Metrics\<close>

text \<open>
  The rate is exact even if the counter wrapped between the samples: it is that of the true byte
  counts, as long as they differ by less than \<open>2^32\<close>.
\<close>

theorem throughput_exact:
  assumes "a \<le> b" "b - a < 2 ^ 32"
  shows "unat (bits_per_s (of_nat b) (of_nat a)) = (b - a) * 8 div 15"
proof -
  have "(of_nat b - of_nat a :: u32) = of_nat (b - a)" using assms(1) by simp
  then have "unat (of_nat b - of_nat a :: u32) = b - a" using assms(2) by (simp add: unsigned_of_nat take_bit_nat_eq_self)
  then have "unat (ucast (of_nat b - of_nat a :: u32) :: u64) = b - a"
    using assms(2) by (simp add: unsigned_ucast_eq take_bit_nat_eq_self)
  then have "unat ((ucast (of_nat b - of_nat a :: u32) :: u64) * 8) = (b - a) * 8"
    using assms(2) by (subst unat_mult_lem [THEN iffD1]) simp_all
  then have "unat ((ucast (of_nat b - of_nat a :: u32) :: u64) * 8 div 15) = (b - a) * 8 div 15"
    by (simp add: unat_div)
  moreover have "(b - a) * 8 div 15 < 2 ^ 32" using assms(2) by linarith
  ultimately show ?thesis by (simp add: bits_per_s_def unsigned_ucast_eq take_bit_nat_eq_self)
qed

text \<open>The id under which the metrics are kept is the serial of the node's chunks.\<close>

lemma device_id_serial: "device_id (Some m) i = node_serial (mc_node_eui m)"
  using length_hex6 [of "mc_node_eui m"]
  by (simp add: device_id_def node_serial_def snprintf_out_def ascii_def hex6_def)

end
