(* ===== verification/NodeMainProps.thy ===== *)
theory NodeMainProps
  imports NodeMain NodeConsole MeshShellProps
begin

text \<open>
  The order of a node's start, its periodic hello, the agreement of its console with its files and
  with its own commands, and the events among its metrics.
\<close>

subsection \<open>Start\<close>

lemma boot_calls_prefix:
  "boot_calls E cs log = (r, log') \<Longrightarrow>
     \<exists>k \<le> length cs. log' = log @ map snd (take k cs) \<and> (r = None \<longrightarrow> k = length cs)"
proof (induction E cs log rule: boot_calls.induct)
  case (2 E w c cs log)
  show ?case
  proof (cases "ne_result E log c = None \<or> w = Ignored \<or> (\<exists>e. ne_result E log c = Some e \<and> w = Fatal_but e)")
    case True
    then have "boot_calls E cs (log @ [c]) = (r, log')" using 2(3) by (auto split: option.splits if_splits)
    moreover have "boot_calls E cs (log @ [c]) = (r, log') \<Longrightarrow> \<exists>k \<le> length cs. log' = (log @ [c]) @ map snd (take k cs) \<and> (r = None \<longrightarrow> k = length cs)"
      using 2(1,2) True by (cases "ne_result E log c") auto
    ultimately obtain k where "k \<le> length cs" "log' = (log @ [c]) @ map snd (take k cs)" "r = None \<longrightarrow> k = length cs" by blast
    then show ?thesis by (intro exI [of _ "Suc k"]) auto
  next
    case False
    then obtain e where "ne_result E log c = Some e" "w \<noteq> Ignored" "w \<noteq> Fatal_but e" by auto
    then have "log' = log @ [c]" "r = Some e" using 2(3) by simp_all
    then show ?thesis by (intro exI [of _ 1]) simp
  qed
qed simp

text \<open>A function whose steps are cut short has not made its last call, if it makes that once.\<close>

lemma cut_short:
  assumes "distinct (map snd cs)" and "cs \<noteq> []" and "snd (last cs) \<in> set (map snd (take k cs))"
  shows "take k cs = cs"
proof (rule ccontr)
  assume n: "take k cs \<noteq> cs"
  then have "k \<le> length cs - 1" by (cases "k < length cs") auto
  then have "set (take k cs) \<subseteq> set (butlast cs)" by (metis set_take_subset_set_take butlast_conv_take)
  then have "snd (last cs) \<in> set (map snd (butlast cs))" using assms(3) by auto
  moreover have "map snd cs = map snd (butlast cs) @ [snd (last cs)]"
    by (metis assms(2) append_butlast_last_id list.simps(8) list.simps(9) map_append)
  ultimately show False using assms(1) by (metis distinct_append insert_disjoint(1) list.set(2) disjoint_iff)
qed

lemmas serve_defs = serve_steps_def register_dev_def register_dev_aether_def

lemma serve_steps_distinct: "distinct (map snd (serve_steps a))" "snd (last (serve_steps a)) = Server_start" "serve_steps a \<noteq> []"
  by (simp_all add: serve_defs)

definition registered_names :: "node_call list \<Rightarrow> string list" where
  "registered_names log = concat (map (\<lambda>c. case c of Register n r w \<Rightarrow> [n] | Register_dir n \<Rightarrow> [n] | Dfu_init n \<Rightarrow> [n] | _ \<Rightarrow> []) log)"

text \<open>What the start of the 9P servers leaves in the log.\<close>

lemma init_log:
  fixes local :: "addr6 option"
  defines "a \<equiv> (case local of Some a \<Rightarrow> a | None \<Rightarrow> addr_zero)"
  assumes "aether_9p_init E local log = (r, log')"
  shows "\<exists>k j. log' = log @ Chat_mutex_init # map snd (take k (serve_steps a)) @ map snd (take j aether_9p_mesh_init) \<and>
    (k < length (serve_steps a) \<longrightarrow> j = 0) \<and> (r = None \<longrightarrow> length (serve_steps a) \<le> k)"
proof (cases "ne_uart_ready E")
  case False
  then have "log' = log @ [Chat_mutex_init]" "r = Some ENODEV" using assms(2) by (simp_all add: aether_9p_init_def)
  then show ?thesis by (intro exI [of _ 0]) simp
next
  case True
  obtain r1 log1 where b: "boot_calls E (serve_steps a) (log @ [Chat_mutex_init]) = (r1, log1)" by fastforce
  then obtain k where k: "k \<le> length (serve_steps a)" "log1 = (log @ [Chat_mutex_init]) @ map snd (take k (serve_steps a))"
    "r1 = None \<longrightarrow> k = length (serve_steps a)" using boot_calls_prefix by blast
  show ?thesis
  proof (cases r1)
    case (Some e)
    then have "log' = log1" "r = Some e" using assms(2) b True by (simp_all add: aether_9p_init_def Let_def a_def)
    then show ?thesis using k by (intro exI [of _ k] exI [of _ 0]) simp
  next
    case None
    obtain r2 log2 where m: "boot_calls E aether_9p_mesh_init log1 = (r2, log2)" by fastforce
    then obtain j where "log2 = log1 @ map snd (take j aether_9p_mesh_init)" using boot_calls_prefix by blast
    moreover have "log' = log2" using assms(2) b m None True by (simp add: aether_9p_init_def Let_def a_def)
    ultimately show ?thesis using k None by (intro exI [of _ k] exI [of _ j]) simp
  qed
qed

text \<open>The log of \<open>main\<close>: what is made before the servers, their calls, and what comes after.\<close>

definition late_call :: "node_call \<Rightarrow> bool" where
  "late_call c \<longleftrightarrow> c = Led_init \<or> c = Metrics_init \<or> c = Send_hello \<or> (\<exists>p. c = Set_prompt p) \<or> (\<exists>l. c = Log l)"

lemma late_turns: "list_all late_call (node_turns k Ms)"
  by (induction Ms arbitrary: k) (auto simp: node_turn_def late_call_def list_all_iff)

lemma main_log:
  assumes "node_main E W turns = (None, log)"
  shows "\<exists>k j rest. log = [If_up, Mesh_init 0x915E, Receive Chat_recv_cb, Chat_mutex_init]
      @ map snd (take k (serve_steps (case nm_local W of Some a \<Rightarrow> a | None \<Rightarrow> addr_zero))) @ map snd (take j aether_9p_mesh_init) @ rest \<and>
    (k < length (serve_steps (case nm_local W of Some a \<Rightarrow> a | None \<Rightarrow> addr_zero)) \<longrightarrow> j = 0) \<and> list_all late_call rest"
proof -
  obtain r log2 where i: "aether_9p_init E (nm_local W) [If_up, Mesh_init 0x915E, Receive Chat_recv_cb] = (r, log2)" by fastforce
  let ?rest = "[Led_init, Metrics_init] @ (case nm_local W of Some a \<Rightarrow> if nm_shell W then [Set_prompt (node_prompt a)] else [] | None \<Rightarrow> [])
      @ map Log (print_status (nm_first W)) @ node_turns 0 turns"
  have "log = log2 @ ?rest"
    using assms i by (simp add: node_main_def Let_def split: if_splits option.splits)
  moreover have "list_all late_call ?rest"
    using late_turns by (auto simp: late_call_def list_all_iff split: option.splits)
  moreover obtain k j where "log2 = [If_up, Mesh_init 0x915E, Receive Chat_recv_cb] @ Chat_mutex_init
      # map snd (take k (serve_steps (case nm_local W of Some a \<Rightarrow> a | None \<Rightarrow> addr_zero))) @ map snd (take j aether_9p_mesh_init)"
    "k < length (serve_steps (case nm_local W of Some a \<Rightarrow> a | None \<Rightarrow> addr_zero)) \<longrightarrow> j = 0"
    using init_log [OF i] by blast
  ultimately show ?thesis by (intro exI [of _ k] exI [of _ j] exI [of _ ?rest]) simp
qed

lemma late_names: "list_all late_call rest \<Longrightarrow> registered_names rest = []"
  by (induction rest) (auto simp: registered_names_def late_call_def)

lemma names_append: "registered_names (xs @ ys) = registered_names xs @ registered_names ys"
  by (simp add: registered_names_def)

lemma mesh_init_calls:
  "Server_start \<notin> set (map snd (take j aether_9p_mesh_init))" "registered_names (map snd (take j aether_9p_mesh_init)) = []"
  by (auto simp: aether_9p_mesh_init_def registered_names_def take_Cons split: nat.splits)

lemma serve_names:
  "distinct (registered_names (map snd (serve_steps a)))" "length (registered_names (map snd (serve_steps a))) = 18"
  "Receive r \<notin> set (map snd (take k (serve_steps a)))"
  by (auto simp: serve_defs registered_names_def dest!: in_set_takeD)


lemma enumerate_Suc: "enumerate (Suc n) xs = map (\<lambda>(i, x). (Suc i, x)) (enumerate n xs)"
  by (induction xs arbitrary: n) auto

text \<open>The loop sends one hello a turn, and prints the status in every tenth.\<close>

theorem main_loop_hellos:
  assumes "unat k + length Ms < 2 ^ 32"
  shows "length (filter (\<lambda>c. c = Send_hello) (node_turns k Ms)) = length Ms \<and>
    node_turns k Ms = concat (map (\<lambda>(i, M). (if (unat k + i) mod 10 = 0 then map Log (print_status M) else []) @ [Send_hello]) (enumerate 0 Ms))"
  using assms
proof (induction Ms arbitrary: k)
  case (Cons M Ms)
  have u: "unat (k + 1) = unat k + 1" using Cons.prems by (simp add: unat_plus_simple [THEN iffD1] unat_word_ariths)
  have m: "k mod 10 = 0 \<longleftrightarrow> unat k mod 10 = 0"
    using unat_eq_zero [of "k mod 10"] by (simp add: unat_mod)
  have "enumerate 1 Ms = map (\<lambda>(i, M). (Suc i, M)) (enumerate 0 Ms)"
    using enumerate_Suc [of 0 Ms] by simp
  then show ?case using Cons.IH [of "k + 1"] Cons.prems u m by (auto simp: node_turn_def comp_def case_prod_unfold cong: if_cong)
qed simp

subsection \<open>The console\<close>

text \<open>The word of a line at position \<open>k\<close>.\<close>

abbreviation (input) word_at :: "nat \<Rightarrow> byte list \<Rightarrow> byte list" where "word_at k l \<equiv> take 17 (drop k l)"

lemma tree_children_file:
  "filter (is_prefix (ascii ''child '')) (tree_lines H (Some m)) =
     map (\<lambda>n. ascii ''child '' @ x4 (hr_set_nibble H (mc_honr_addr m) (hr_rank H (mc_honr_addr m)) (of_nat n)) @ [nl])
       (filter (\<lambda>n. bit (mc_child_bitmap m) n) [hr_child_min H..<hr_child_max H + 1])"
proof -
  have c: "is_prefix (ascii ''child '') (ascii ''child '' @ s)" "\<not> is_prefix (ascii ''child '') (ascii ''parent '' @ s)" for s
    by (simp_all add: is_prefix_def ascii_def)
  show ?thesis by (simp add: tree_lines_def Let_def filter_map comp_def c)
qed

text \<open>
  What the console prints it also accepts, and it agrees with the node's files: the identity that
  \<open>status\<close> and \<open>info\<close> print, and each entry of \<open>denylist\<close>, is read by \<open>deny\<close> and \<open>allow\<close> as that address;
  the children of \<open>tree\<close> are those of the tree file, in the same order.
\<close>

theorem console_consistent:
  assumes "cmd_aether_status True (Some c) h nbrs rts now = Inr ls" and "cmd_aether_info K True (Some c) h = Inr is"
    and "cmd_aether_tree H True (Some c) = Inr ts"
  shows "cmd_aether_deny True (\<lambda>_. None) (word_at 12 (ls ! 1)) = Inr (mc_node_eui c) \<and>
    cmd_aether_deny True (\<lambda>_. None) (word_at 14 (is ! 1)) = Inr (mc_node_eui c) \<and>
    map (\<lambda>l. cmd_aether_allow True (\<lambda>_. None) (word_at 4 l)) (tl (snd (cmd_aether_denylist True (Some c) []))) = map Inr (mi_denylist c) \<and>
    map (\<lambda>k. ascii ''child '' @ x4 k @ [nl]) (shell_children H c)
      = filter (is_prefix (ascii ''child '')) (tree_lines H (Some (mesh_ctx.truncate c))) \<and>
    map (\<lambda>k. ascii ''  child    '' @ x4 k) (shell_children H c) = take (length (shell_children H c)) (drop 4 ts)"
proof -
  have w: "word_at (length p) (p @ fmt_addr a) = fmt_addr a" for p a by simp
  have "ls ! 1 = ascii ''  identity  '' @ fmt_addr (mc_node_eui c)" "is ! 1 = ascii ''  identity    '' @ fmt_addr (mc_node_eui c)"
    using assms(1,2) by (auto simp: cmd_aether_status_def status_head_def cmd_aether_info_def)
  then have i: "word_at 12 (ls ! 1) = fmt_addr (mc_node_eui c)" "word_at 14 (is ! 1) = fmt_addr (mc_node_eui c)"
    using w [of "ascii ''  identity  ''"] w [of "ascii ''  identity    ''"] by (simp_all add: ascii_def)
  have d: "word_at 4 (denied_line a) = fmt_addr a" for a using w [of "ascii ''    ''" a] by (simp add: denied_line_def ascii_def)
  have k: "map (\<lambda>k. ascii ''  child    '' @ x4 k) (shell_children H c) = take (length (shell_children H c)) (drop 4 ts)"
    using assms(3) by (auto simp: cmd_aether_tree_def Let_def)
  have deny: "cmd_aether_deny True (\<lambda>_. None) (word_at 12 (ls ! 1)) = Inr (mc_node_eui c)"
    "cmd_aether_deny True (\<lambda>_. None) (word_at 14 (is ! 1)) = Inr (mc_node_eui c)"
    unfolding i by (simp_all add: cmd_aether_deny_def parse_mesh_addr_fmt)
  have allow: "map (\<lambda>l. cmd_aether_allow True (\<lambda>_. None) (word_at 4 l)) (tl (snd (cmd_aether_denylist True (Some c) []))) = map Inr (mi_denylist c)"
    by (simp add: cmd_aether_denylist_def comp_def d cmd_aether_allow_def parse_mesh_addr_fmt)
  have "map (\<lambda>k. ascii ''child '' @ x4 k @ [nl]) (shell_children H c) = filter (is_prefix (ascii ''child '')) (tree_lines H (Some (mesh_ctx.truncate c)))"
    unfolding tree_children_file by (simp add: shell_children_def mesh_ctx.truncate_def comp_def)
  then show ?thesis using deny allow k by (simp only: simp_thms)
qed

subsection \<open>Metrics\<close>

text \<open>Samples one after the other, each with its surroundings.\<close>

type_synonym sample = "mesh_info \<times> heymac option \<times> phy_stats \<times> u32 \<times> u32 \<times> u32"

fun metrics_run :: "honr \<Rightarrow> u32 \<times> u32 \<Rightarrow> sample list \<Rightarrow> sampler \<Rightarrow> metric list" where
  "metrics_run H rf [] S = []"
| "metrics_run H rf ((c, hc, ps, d) # xs) S =
     (case metrics_collect H rf (Some c) hc ps d S of (ms, S1) \<Rightarrow> ms @ metrics_run H rf xs S1)"

text \<open>How often a sequence of counter values rises.\<close>

fun rises :: "u32 \<Rightarrow> u32 list \<Rightarrow> nat" where
  "rises p [] = 0"
| "rises p (x # xs) = (if p < x then 1 else 0) + rises x xs"

definition events :: "string \<Rightarrow> metric list \<Rightarrow> nat" where
  "events name ms = length (filter (\<lambda>m. m = Trace_event name) ms)"

lemma events_simps:
  "events n [] = 0" "events n (a @ b) = events n a + events n b"
  "events n (stepped m x p) = (if n = m \<and> p < x then 1 else 0)"
  by (auto simp: events_def stepped_def)

lemma body_no_event: "events n (metrics_body H rf c hc ps d bps) = 0"
  by (auto simp: metrics_body_def events_def split: option.splits prod.splits)

lemma sample_events:
  assumes "metrics_collect H rf (Some c) hc ps d S = (ms, S1)"
  shows "events ''Dect_Reelection'' ms = (if sm_prev_reel S < mi_reelections c then 1 else 0)"
    "events ''Dect_Orphan'' ms = (if sm_prev_orph S < mi_orphans c then 1 else 0)"
    "events ''Dect_ArqFailed'' ms = (if sm_prev_arqf S < mi_arq_failed c then 1 else 0)"
    "sm_prev_reel S1 = mi_reelections c" "sm_prev_orph S1 = mi_orphans c" "sm_prev_arqf S1 = mi_arq_failed c"
  using assms by (auto simp: metrics_collect_def events_simps body_no_event split: prod.splits)

text \<open>
  The events of a metrics client tell every rise of the three counters once: over any run of
  samples, the number of re-election, orphaning and lost-frame events is the number of samples whose
  counter is above the one before, the first sample measured against zero.
\<close>

theorem events_tell_rises:
  "events ''Dect_Reelection'' (metrics_run H rf xs sampler_boot) = rises 0 (map (mi_reelections \<circ> fst) xs) \<and>
   events ''Dect_Orphan'' (metrics_run H rf xs sampler_boot) = rises 0 (map (mi_orphans \<circ> fst) xs) \<and>
   events ''Dect_ArqFailed'' (metrics_run H rf xs sampler_boot) = rises 0 (map (mi_arq_failed \<circ> fst) xs)"
proof -
  have "events ''Dect_Reelection'' (metrics_run H rf xs S) = rises (sm_prev_reel S) (map (mi_reelections \<circ> fst) xs) \<and>
     events ''Dect_Orphan'' (metrics_run H rf xs S) = rises (sm_prev_orph S) (map (mi_orphans \<circ> fst) xs) \<and>
     events ''Dect_ArqFailed'' (metrics_run H rf xs S) = rises (sm_prev_arqf S) (map (mi_arq_failed \<circ> fst) xs)" for S
  proof (induction xs arbitrary: S)
    case (Cons x xs)
    obtain c hc ps tx rx drp where x: "x = (c, hc, ps, tx, rx, drp)" by (metis surj_pair)
    obtain ms S1 where m: "metrics_collect H rf (Some c) hc ps (tx, rx, drp) S = (ms, S1)" by fastforce
    show ?case using sample_events [OF m] Cons.IH [of S1] by (simp add: x m events_simps)
  qed (simp add: events_simps)
  from this [of sampler_boot] show ?thesis by (simp add: sampler_boot_def)
qed

end
