(* ===== verification/NodeWitness.thy ===== *)
theory NodeWitness
  imports Demo ForwardProps NetClientProps NodeMainProps
begin

text \<open>
  The properties of the node's files and of the forwarder, each applied at a concrete node: a mesh
  context with one neighbour that has an identity, a packetizer that is a list of chunks, and a
  collector that accepts everything.
\<close>

definition demo_neighbor :: neighbor where
  "demo_neighbor = \<lparr>nb_active = True, nb_addr = demo_route, nb_eui = demo_eui, nb_rssi = -60, nb_snr = 12, nb_last_seen = 1000\<rparr>"

definition demo_mesh :: mesh_ctx where
  "demo_mesh = \<lparr>mc_honr_addr = 0x12, mc_honr_joined = True, mc_child_bitmap = 6, mc_node_eui = demo_eui,
     mc_neighbors = [demo_neighbor],
     mc_routes = [\<lparr>mr_active = True, mr_dest = demo_route, mr_next_hop = demo_self, mr_hops = 2\<rparr>]\<rparr>"

definition demo_honr :: honr where
  "demo_honr = \<lparr>hr_rank = (\<lambda>_. 2), hr_is_root = (\<lambda>_. False), hr_parent = (\<lambda>_. 0x10), hr_set_nibble = (\<lambda>a _ _. a),
     hr_node_id = 7, hr_child_min = 1, hr_child_max = 15, hr_uptime = (\<lambda>_. 0)\<rparr>"

definition demo_pk :: "byte list list packetizer" where
  "demo_pk = \<lparr>pk_available = (\<lambda>p. p \<noteq> []),
     pk_get_chunk = (\<lambda>n p. case p of [] \<Rightarrow> None | c # cs \<Rightarrow> Some (take n c, cs))\<rparr>"

definition demo_collector :: collector where
  "demo_collector = \<lparr>co_accepts = (\<lambda>_ _. True), co_time = (\<lambda>ps. int (length ps))\<rparr>"

definition demo_fwd :: fwd where
  "demo_fwd = \<lparr>fw_devs = [], fw_posts = []\<rparr>"

lemma demo_pk_fit: "chunks_fit demo_pk"
  by (auto simp: chunks_fit_def demo_pk_def split: list.splits)

theorem tree_file_snapshot_witness:
  "\<exists>full. gen_tree demo_honr (Some demo_mesh) 40 0 [] = Some (take 40 full, full) \<and> length full < 256"
  using tree_file_snapshot [of demo_honr "Some demo_mesh" 40 "[]"] by (auto simp: demo_honr_def)

theorem neighbor_file_bounds_witness:
  "gen_neighbors 9000 (Some demo_mesh) 100 0 [] = Some (take 100 (neighbor_line 9000 demo_neighbor), neighbor_line 9000 demo_neighbor) \<and>
   gen_neighbors 9000 (Some (demo_mesh\<lparr>mc_neighbors := replicate 11 demo_neighbor\<rparr>)) 100 0 [] = None"
proof -
  have one: "neighbor_lines 9000 demo_mesh = [neighbor_line 9000 demo_neighbor]"
    by (simp add: neighbor_lines_def demo_mesh_def demo_neighbor_def)
  have "length (neighbor_line 9000 demo_neighbor) < 512" by code_simp
  moreover have "length (neighbor_lines 9000 (demo_mesh\<lparr>mc_neighbors := replicate 11 demo_neighbor\<rparr>)) = 11"
    by (simp add: neighbor_lines_def demo_neighbor_def)
  ultimately show ?thesis
    using neighbor_file_bounds [of 9000 demo_mesh 100 "[]" "[]"] one
      neighbor_file_bounds [of 9000 "demo_mesh\<lparr>mc_neighbors := replicate 11 demo_neighbor\<rparr>" 100 "[]" "[]"] by simp
qed

theorem chat_log_keeps_witness:
  "aether_9p_chat_log demo_route (ascii ''hi'') [] = Some (chat_line demo_route (ascii ''hi'')) \<and>
   aether_9p_chat_log demo_route (replicate 88 65) [] = None"
proof -
  have a: "length (cstr (ascii ''hi'')) = 2" "length (cstr (replicate 88 65)) = 88" by code_simp+
  show ?thesis
    using chat_log_keeps [of "[]" demo_route "ascii ''hi''"] chat_log_keeps [of "[]" demo_route "replicate 88 65"] a
    by auto
qed

theorem mflt_drains_witness:
  "\<exists>n out p' cs. gen_mflt demo_pk (Some demo_mesh) 1024 0 [[1, 2, 3]] = (n, out, p') \<and>
     taken demo_pk cs [[1, 2, 3]] p' \<and> out = dev_line demo_eui @ concat (map mc_line cs)"
proof -
  obtain n out p' where g: "gen_mflt demo_pk (Some demo_mesh) 1024 0 [[1, 2, 3]] = (n, out, p')" by (metis prod_cases3)
  from mflt_drains [OF demo_pk_fit _ _ g] show ?thesis using g by (auto simp: demo_pk_def demo_mesh_def)
qed

theorem telemetry_end_to_end_witness:
  "\<exists>out. gen_mflt demo_pk (Some demo_mesh) 1024 0 [[1, 2, 3], [4]] = (length out, out, []) \<and>
     fw_posts (snd (forward_stream demo_collector out demo_fwd)) =
       [(node_serial demo_eui, [1, 2, 3]), (node_serial demo_eui, [4])]"
proof -
  obtain n out p' where g: "gen_mflt demo_pk (Some demo_mesh) 1024 0 [[1, 2, 3], [4]] = (n, out, p')" by (metis prod_cases3)
  have e: "length (snd (snd (gen_mflt demo_pk (Some demo_mesh) 1024 0 [[1, 2, 3], [4]]))) = 0"
    "fst (gen_mflt demo_pk (Some demo_mesh) 1024 0 [[1, 2, 3], [4]]) =
     length (fst (snd (gen_mflt demo_pk (Some demo_mesh) 1024 0 [[1, 2, 3], [4]])))"
    by code_simp+
  then have p: "p' = []" "n = length out" using g by simp_all
  from telemetry_end_to_end [OF demo_pk_fit _ _ g, of demo_collector demo_fwd] obtain cs where
    cs: "taken demo_pk cs [[1, 2, 3], [4]] []"
      "fw_posts (snd (forward_stream demo_collector out demo_fwd)) = map (Pair (node_serial demo_eui)) (filter (\<lambda>c. c \<noteq> []) cs)"
    by (auto simp: demo_pk_def demo_mesh_def demo_fwd_def p)
  have t: "taken demo_pk xs ys [] \<Longrightarrow> xs = map (take 192) ys" for xs ys
    by (induction xs arbitrary: ys) (auto simp: demo_pk_def split: list.splits)
  show ?thesis using g p cs t [OF cs(1)] by simp
qed


theorem device_table_invariant_witness:
  "devs_wf (snd (forward_stream demo_collector (dev_line demo_eui @ mc_line [1]) demo_fwd)) \<and> devs_wf (dev_age 100 30 demo_fwd)"
proof -
  have "devs_wf demo_fwd" by (simp add: devs_wf_def demo_fwd_def)
  then show ?thesis by (rule device_table_invariant)
qed

theorem mflt_mesh_bounded_witness:
  "\<exists>n out N'. gen_mflt_mesh demo_honr demo_env (Some demo_mesh) 512 0 demo_start = (Some (n, out), N') \<and>
     n = length out \<and> n \<le> 512 \<and> slots_in_use N' = slots_in_use demo_start"
proof -
  have "fst (gen_mflt_mesh demo_honr demo_env (Some demo_mesh) 512 0 demo_start) \<noteq> None" by code_simp
  then obtain n out N' where g: "gen_mflt_mesh demo_honr demo_env (Some demo_mesh) 512 0 demo_start = (Some (n, out), N')"
    by (metis prod.collapse option.collapse)
  from mflt_mesh_bounded [OF demo_msgq demo_start_wf _ _ _ _ g] show ?thesis
    using g by (auto simp: demo_mesh_def)
qed

theorem push_ctl_commands_witness:
  "fst (write_push_ctl demo_env (hex6 demo_eui @ [nl]) (push_zero, demo_start)) = Inl EINVAL"
  using push_ctl_commands [of "[nl]" demo_env demo_eui push_zero demo_start] by simp


text \<open>A start in which every call succeeds, and a console on the mesh of \<open>NodeWitness\<close>.\<close>

definition demo_node_env :: node_env where
  "demo_node_env = \<lparr>ne_uart_ready = True, ne_result = (\<lambda>log c. None)\<rparr>"

definition demo_world :: main_world where
  "demo_world = \<lparr>nm_iface = True, nm_polls = (\<lambda>k. 3 \<le> k), nm_mesh = None, nm_local = Some demo_self, nm_shell = True,
     nm_first = \<lparr>ms_addr = None, ms_net_id = 1, ms_neighbors = 0, ms_routes = 0\<rparr>\<rparr>"

lemma demo_calls: "boot_calls demo_node_env cs log = (None, log @ map snd cs)"
  by (induction cs arbitrary: log) (auto simp: demo_node_env_def)


definition demo_info :: mesh_info where
  "demo_info = mesh_ctx.extend demo_mesh
     \<lparr>mi_local_addr = demo_self, mi_net_id = 0x915E, mi_hello_sent = 1, mi_hello_received = 2, mi_forwarded = 3, mi_dropped = 4,
      mi_denylist = [demo_eui], mi_reelections = 0, mi_orphans = 0, mi_arq_retx = 0, mi_arq_failed = 0\<rparr>"

definition demo_config :: shell_config where
  "demo_config = \<lparr>sc_ttl = 8, sc_hello = 30, sc_beacon = 1000, sc_nbr_timeout = 90, sc_route_timeout = 120, sc_max_payload = 448,
     sc_max_nbrs = 8, sc_max_routes = 16\<rparr>"

theorem console_consistent_witness:
  "\<exists>ls. cmd_aether_status True (Some demo_info) None 1 1 9000 = Inr ls \<and>
     cmd_aether_deny True (\<lambda>_. None) (word_at 12 (ls ! 1)) = Inr demo_eui"
proof -
  obtain ls js ts where r: "cmd_aether_status True (Some demo_info) None 1 1 9000 = Inr ls"
    "cmd_aether_info demo_config True (Some demo_info) None = Inr js" "cmd_aether_tree demo_honr True (Some demo_info) = Inr ts"
    by (simp add: cmd_aether_status_def cmd_aether_info_def cmd_aether_tree_def Let_def)
  have "mc_node_eui demo_info = demo_eui" by (simp add: demo_info_def mesh_ctx.extend_def demo_mesh_def)
  then show ?thesis using r(1) conjunct1 [OF console_consistent [OF r]] by simp
qed

end
