(* ===== verification/Ninep.thy ===== *)
theory Ninep
  imports Text "HOL-Library.Multiset"
begin

text \<open>
  The 9P client library as the relay sees it (\<open>ninep_client_*\<close> of the 9p4z module, not part of
  this repository). The relay owns two clients: the carrier over the UART to the nRF9151, and the
  nested one that is tunnelled through a conversation. Each call is a parameter of the model
  that may answer by everything that was called and answered before; calls and answers are
  logged. From the log one can read which fids the relay holds at the carrier: those it walked
  and has not clunked.
\<close>

datatype client = Carrier | Nested

text \<open>
  A call that assigns a fid gives the fid, or an error and what it wrote to the caller's variable
  before it failed, if anything.
\<close>

type_synonym fid_res = "(errno \<times> u32 option) + u32"

datatype nev =
    EVersion client "unit res"
  | EAttach client fid_res
  | EWalk u32 "byte list" fid_res
  | EOpen u32 byte "unit res"
  | ERead u32 u64 nat "byte list res"
  | EWrite u32 u64 "byte list" "nat res"
  | EClunk u32 "unit res"
  | EReset

type_synonym nlog = "nev list"

record ncl =
  nc_version :: "nlog \<Rightarrow> client \<Rightarrow> unit res"
  nc_attach :: "nlog \<Rightarrow> client \<Rightarrow> fid_res"
  nc_walk :: "nlog \<Rightarrow> u32 \<Rightarrow> byte list \<Rightarrow> fid_res"
  nc_open :: "nlog \<Rightarrow> u32 \<Rightarrow> byte \<Rightarrow> unit res"
  nc_read :: "nlog \<Rightarrow> u32 \<Rightarrow> u64 \<Rightarrow> nat \<Rightarrow> byte list res"
  nc_write :: "nlog \<Rightarrow> u32 \<Rightarrow> u64 \<Rightarrow> byte list \<Rightarrow> nat res"
  nc_clunk :: "nlog \<Rightarrow> u32 \<Rightarrow> unit res"
  nc_uptime :: "nlog \<Rightarrow> u32" \<comment> \<open>\<open>k_uptime_get_32\<close>\<close>
  nc_chunk :: nat \<comment> \<open>\<open>CONFIG_NINEP_REMOTE_FS_WRITE_CHUNK\<close>\<close>

abbreviation (input) NOFID :: u32 where "NOFID \<equiv> 0xffffffff"
abbreviation (input) OREAD :: byte where "OREAD \<equiv> 0"
abbreviation (input) OWRITE :: byte where "OWRITE \<equiv> 1"
abbreviation (input) ORDWR :: byte where "ORDWR \<equiv> 2"

definition n_version :: "ncl \<Rightarrow> client \<Rightarrow> nlog \<Rightarrow> unit res \<times> nlog" where
  "n_version E c h = (nc_version E h c, h @ [EVersion c (nc_version E h c)])"

definition n_attach :: "ncl \<Rightarrow> client \<Rightarrow> nlog \<Rightarrow> fid_res \<times> nlog" where
  "n_attach E c h = (nc_attach E h c, h @ [EAttach c (nc_attach E h c)])"

definition n_walk :: "ncl \<Rightarrow> u32 \<Rightarrow> byte list \<Rightarrow> nlog \<Rightarrow> fid_res \<times> nlog" where
  "n_walk E root path h = (nc_walk E h root path, h @ [EWalk root path (nc_walk E h root path)])"

definition n_open :: "ncl \<Rightarrow> u32 \<Rightarrow> byte \<Rightarrow> nlog \<Rightarrow> unit res \<times> nlog" where
  "n_open E fid mode h = (nc_open E h fid mode, h @ [EOpen fid mode (nc_open E h fid mode)])"

definition n_read :: "ncl \<Rightarrow> u32 \<Rightarrow> u64 \<Rightarrow> nat \<Rightarrow> nlog \<Rightarrow> byte list res \<times> nlog" where
  "n_read E fid off cap h = (nc_read E h fid off cap, h @ [ERead fid off cap (nc_read E h fid off cap)])"

definition n_write :: "ncl \<Rightarrow> u32 \<Rightarrow> u64 \<Rightarrow> byte list \<Rightarrow> nlog \<Rightarrow> nat res \<times> nlog" where
  "n_write E fid off d h = (nc_write E h fid off d, h @ [EWrite fid off d (nc_write E h fid off d)])"

definition n_clunk :: "ncl \<Rightarrow> u32 \<Rightarrow> nlog \<Rightarrow> unit res \<times> nlog" where
  "n_clunk E fid h = (nc_clunk E h fid, h @ [EClunk fid (nc_clunk E h fid)])"

named_theorems ninep_simps "the client calls with their log entries"

declare n_version_def [ninep_simps] n_attach_def [ninep_simps] n_walk_def [ninep_simps]
  n_open_def [ninep_simps] n_read_def [ninep_simps] n_write_def [ninep_simps] n_clunk_def [ninep_simps]

subsection \<open>What the client promises\<close>

text \<open>
  Documented behaviour of the library: a fid it assigns is not \<open>NOFID\<close>, which also holds for
  what a failed walk may have stored; a read returns no more than was asked for, a write reports
  no more than it was given.
\<close>

definition ncl_ok :: "ncl \<Rightarrow> bool" where
  "ncl_ok E \<longleftrightarrow>
     (\<forall>h r p f. nc_walk E h r p = Inr f \<longrightarrow> f \<noteq> NOFID) \<and>
     (\<forall>h r p e f. nc_walk E h r p = Inl (e, Some f) \<longrightarrow> f = NOFID) \<and>
     (\<forall>h f off cap d. nc_read E h f off cap = Inr d \<longrightarrow> length d \<le> cap) \<and>
     (\<forall>h f off d n. nc_write E h f off d = Inr n \<longrightarrow> n \<le> length d)"

lemma ncl_okD:
  "ncl_ok E \<Longrightarrow> nc_walk E h r p = Inr f \<Longrightarrow> f \<noteq> NOFID"
  "ncl_ok E \<Longrightarrow> nc_walk E h r p = Inl (e, Some f') \<Longrightarrow> f' = NOFID"
  "ncl_ok E \<Longrightarrow> nc_read E h f off cap = Inr d \<Longrightarrow> length d \<le> cap"
  "ncl_ok E \<Longrightarrow> nc_write E h f off d' = Inr n \<Longrightarrow> n \<le> length d'"
  unfolding ncl_ok_def by blast+

subsection \<open>Fids held\<close>

text \<open>A fid comes into the relay's hands by a walk that succeeds and leaves by a clunk.\<close>

fun held_step :: "nev \<Rightarrow> u32 multiset \<Rightarrow> u32 multiset" where
  "held_step (EWalk r p (Inr f)) m = add_mset f m"
| "held_step (EClunk f r) m = m - {#f#}"
| "held_step _ m = m"

definition held :: "nlog \<Rightarrow> u32 multiset" where
  "held h = fold held_step h {#}"

lemma held_Nil [simp]: "held [] = {#}"
  by (simp add: held_def)

lemma held_append [simp]: "held (h @ es) = fold held_step es (held h)"
  by (simp add: held_def)

lemma held_version [simp]: "held (snd (n_version E c h)) = held h"
  and held_attach [simp]: "held (snd (n_attach E c h)) = held h"
  and held_open [simp]: "held (snd (n_open E f mode h)) = held h"
  and held_read [simp]: "held (snd (n_read E f off cap h)) = held h"
  and held_write [simp]: "held (snd (n_write E f off d h)) = held h"
  and held_clunk [simp]: "held (snd (n_clunk E f h)) = held h - {#f#}"
  by (simp_all add: ninep_simps Let_def)

lemma held_walk [simp]:
  "held (snd (n_walk E r p h)) = (case fst (n_walk E r p h) of Inl _ \<Rightarrow> held h | Inr f \<Rightarrow> add_mset f (held h))"
  by (cases "nc_walk E h r p") (simp_all add: ninep_simps Let_def)

end
