(* ===== verification/ConvTransport.thy ===== *)
theory ConvTransport
  imports Ninep
begin

text \<open>
  \<open>aether_conv_transport.c\<close> of the relay: a transport that carries the messages of the nested 9P
  client as datagrams of a conversation on the nRF9151. The state is \<open>struct
  aether_conv_transport\<close>; the log is that of the carrier client. \<open>send\<close> leaves a message for
  the pump and wakes it; the pump writes it, polls for the reply with the same tag and hands that
  to the nested client. Connecting opens the conversation, disconnecting gives it back.
\<close>

subsection \<open>State\<close>

record ct =
  ct_ctl :: u32
  ct_data :: u32
  ct_conv :: int
  ct_connected :: bool
  ct_peer :: "byte list"
  ct_tx :: "byte list" \<comment> \<open>\<open>txbuf[0..txlen)\<close>\<close>
  ct_sem :: bool \<comment> \<open>\<open>tx_sem\<close>, a semaphore of limit 1\<close>

abbreviation (input) AETHER_CONV_MTU :: nat where "AETHER_CONV_MTU \<equiv> 448"
abbreviation (input) TX_ATTEMPTS :: nat where "TX_ATTEMPTS \<equiv> 8"
abbreviation (input) RX_POLLS :: nat where "RX_POLLS \<equiv> 6"

definition aether_conv_transport_init :: ct where
  "aether_conv_transport_init =
     \<lparr>ct_ctl = NOFID, ct_data = NOFID, ct_conv = -1, ct_connected = False, ct_peer = [], ct_tx = [], ct_sem = False\<rparr>"

text \<open>The 16-bit tag of a framed message.\<close>

definition tag16 :: "byte list \<Rightarrow> u16" where
  "tag16 m = ucast (m ! 5) OR push_bit 8 (ucast (m ! 6))"

definition aether_tx_send :: "byte list \<Rightarrow> ct \<Rightarrow> nat res \<times> ct" where
  "aether_tx_send buf t =
     (if length buf < 7 \<or> AETHER_CONV_MTU + 16 < length buf then (Inl EMSGSIZE, t)
      else (Inr (length buf), t\<lparr>ct_tx := buf, ct_sem := True\<rparr>))"

subsection \<open>The pump\<close>

text \<open>The polls of one attempt: the matching reply, if one came.\<close>

fun pump_polls :: "ncl \<Rightarrow> u32 \<Rightarrow> u16 \<Rightarrow> nat \<Rightarrow> nlog \<Rightarrow> byte list option \<times> nlog" where
  "pump_polls E dfid want 0 h = (None, h)"
| "pump_polls E dfid want (Suc k) h =
     (case n_read E dfid 0 (AETHER_CONV_MTU + 16) h of
        (Inr rb, h1) \<Rightarrow>
          if 7 \<le> length rb \<and> tag16 rb = want then (Some rb, h1)
          else pump_polls E dfid want k h1
      | (Inl _, h1) \<Rightarrow> pump_polls E dfid want k h1)"

fun pump_attempts :: "ncl \<Rightarrow> u32 \<Rightarrow> byte list \<Rightarrow> nat \<Rightarrow> nlog \<Rightarrow> byte list option \<times> nlog" where
  "pump_attempts E dfid tx 0 h = (None, h)"
| "pump_attempts E dfid tx (Suc k) h =
     (case n_write E dfid 0 tx h of
        (Inl _, h1) \<Rightarrow> pump_attempts E dfid tx k h1
      | (Inr _, h1) \<Rightarrow>
          (case pump_polls E dfid (tag16 tx) RX_POLLS h1 of
             (Some rb, h2) \<Rightarrow> (Some rb, h2)
           | (None, h2) \<Rightarrow> pump_attempts E dfid tx k h2))"

text \<open>
  One turn of the pump's loop, taken when the semaphore can be: the message handed to the nested
  client, if any.
\<close>

definition pump_turn :: "ncl \<Rightarrow> ct \<Rightarrow> nlog \<Rightarrow> byte list option \<times> ct \<times> nlog" where
  "pump_turn E t h =
     (if \<not> ct_sem t then (None, t, h)
      else let t1 = t\<lparr>ct_sem := False\<rparr> in
        if \<not> ct_connected t1 then (None, t1, h)
        else case pump_attempts E (ct_data t1) (ct_tx t1) TX_ATTEMPTS h of
               (r, h1) \<Rightarrow> (r, t1, h1))"

subsection \<open>The conversation\<close>

definition clunk_if :: "ncl \<Rightarrow> u32 \<Rightarrow> nlog \<Rightarrow> nlog" where
  "clunk_if E fid h = (if fid \<noteq> NOFID then snd (n_clunk E fid h) else h)"

definition aether_conv_transport_disconnect :: "ncl \<Rightarrow> ct \<times> nlog \<Rightarrow> ct \<times> nlog" where
  "aether_conv_transport_disconnect E th =
     (let (t, h) = th;
          h1 = (if ct_connected t then clunk_if E (ct_ctl t) (clunk_if E (ct_data t) h) else h)
      in (t\<lparr>ct_data := NOFID, ct_ctl := NOFID, ct_conv := -1, ct_connected := False\<rparr>, h1))"

text \<open>
  What a failing walk leaves in the caller's variable, which was \<open>NOFID\<close>.
\<close>

definition fid_var :: "fid_res \<Rightarrow> u32" where
  "fid_var r = (case r of Inl (e, Some f) \<Rightarrow> f | Inl (e, None) \<Rightarrow> NOFID | Inr f \<Rightarrow> f)"

definition data_path :: "int \<Rightarrow> byte list" where
  "data_path conv = snprintf_out 48 (ascii ''net/aether/'' @ dec_int conv @ ascii ''/data'')"

text \<open>\<open>fail\<close>: give back what was walked.\<close>

definition conv_fail :: "ncl \<Rightarrow> u32 \<Rightarrow> u32 \<Rightarrow> nlog \<Rightarrow> nlog" where
  "conv_fail E ctl data h = clunk_if E ctl (clunk_if E data h)"

text \<open>
  The steps of connecting, in order: walk \<open>clone\<close> and open it, read the number of the
  conversation, walk and open its data file, write the connect command. Each failing step leads
  to \<open>fail\<close>.
\<close>

definition conv_dial :: "ncl \<Rightarrow> u32 \<Rightarrow> byte list \<Rightarrow> nlog \<Rightarrow> (errno + (u32 \<times> u32 \<times> int)) \<times> nlog" where
  "conv_dial E root peer h =
     (case n_walk E root (ascii ''net/aether/clone'') h of
        (Inl (e, w), h1) \<Rightarrow> (Inl e, conv_fail E (fid_var (Inl (e, w))) NOFID h1)
      | (Inr ctl, h1) \<Rightarrow>
     (case n_open E ctl ORDWR h1 of
        (Inl e, h2) \<Rightarrow> (Inl e, conv_fail E ctl NOFID h2)
      | (Inr _, h2) \<Rightarrow>
     (case n_read E ctl 0 15 h2 of
        (Inl e, h3) \<Rightarrow> (Inl EIO, conv_fail E ctl NOFID h3)
      | (Inr nb, h3) \<Rightarrow>
          (if nb = [] then (Inl EIO, conv_fail E ctl NOFID h3)
           else let conv = atoi (cstr nb) in
     (case n_walk E root (data_path conv) h3 of
        (Inl (e, w), h4) \<Rightarrow> (Inl e, conv_fail E ctl (fid_var (Inl (e, w))) h4)
      | (Inr data, h4) \<Rightarrow>
     (case n_open E data ORDWR h4 of
        (Inl e, h5) \<Rightarrow> (Inl e, conv_fail E ctl data h5)
      | (Inr _, h5) \<Rightarrow>
     (case n_write E ctl 0 (ascii ''connect '' @ peer) h5 of
        (Inl e, h6) \<Rightarrow> (Inl e, conv_fail E ctl data h6)
      | (Inr _, h6) \<Rightarrow> (Inr (ctl, data, conv), h6))))))))"

definition aether_conv_transport_connect ::
    "ncl \<Rightarrow> u32 \<Rightarrow> byte list \<Rightarrow> ct \<times> nlog \<Rightarrow> unit res \<times> ct \<times> nlog" where
  "aether_conv_transport_connect E root peer th =
     (if ct_connected (fst th) \<and> ct_peer (fst th) = peer then (Inr (), th)
      else let (t, h) = aether_conv_transport_disconnect E th in
        case conv_dial E root peer h of
          (Inl e, h1) \<Rightarrow> (Inl e, t, h1)
        | (Inr (ctl, data, conv), h1) \<Rightarrow>
            (Inr (), t\<lparr>ct_ctl := ctl, ct_data := data, ct_conv := conv,
                       ct_peer := take 23 peer, ct_connected := True\<rparr>, h1))"

end
