(* ===== verification/RelayRx.thy ===== *)
theory RelayRx
  imports Wire
begin

text \<open>
  The receive side of the relay's link to the nRF9151 (\<open>mesh_uart_isr\<close>, \<open>mesh_rx_work_handler\<close>,
  \<open>mesh_rx_reset\<close> of \<open>dect_relay/src/main.c\<close>). The interrupt handler gathers bytes until a 9P
  message is complete, then a work item hands the message to the client. Meanwhile everything
  that comes in is dropped. The size \<open>M\<close> of the buffer is
  \<open>CONFIG_NINEP_MAX_MESSAGE_SIZE\<close>. The counters and the byte dump kept for diagnosis are not
  modelled.
\<close>

subsection \<open>The framer\<close>

record rx =
  rx_buf :: "byte list"
  rx_len :: nat
  rx_expected :: u32
  rx_have_hdr :: bool
  rx_processing :: bool
  rx_proc_len :: u32
  rx_pending :: bool \<comment> \<open>the work item is submitted and has not run\<close>

definition rx_boot :: "nat \<Rightarrow> rx" where
  "rx_boot M = \<lparr>rx_buf = replicate M 0, rx_len = 0, rx_expected = 0, rx_have_hdr = False,
     rx_processing = False, rx_proc_len = 0, rx_pending = False\<rparr>"

text \<open>One byte stored; an accumulator that is full starts over.\<close>

definition rx_store :: "nat \<Rightarrow> byte \<Rightarrow> rx \<Rightarrow> rx" where
  "rx_store M b S =
     (let S1 = (if M \<le> rx_len S then S\<lparr>rx_len := 0, rx_have_hdr := False\<rparr> else S)
      in S1\<lparr>rx_buf := (rx_buf S1)[rx_len S1 := b], rx_len := rx_len S1 + 1\<rparr>)"

definition rx_complete :: "rx \<Rightarrow> rx" where
  "rx_complete S = S\<lparr>rx_proc_len := rx_expected S, rx_processing := True, rx_pending := True\<rparr>"

text \<open>
  The bytes of one FIFO read. After a message is complete the rest of the read is dropped
  (\<open>break\<close>); a size that cannot be one restarts the accumulator (\<open>continue\<close>).
\<close>

fun rx_bytes :: "nat \<Rightarrow> byte list \<Rightarrow> rx \<Rightarrow> rx" where
  "rx_bytes M [] S = S"
| "rx_bytes M (b # bs) S =
     (let S2 = rx_store M b S;
          hdr = (\<not> rx_have_hdr S2 \<and> 7 \<le> rx_len S2);
          S3 = (if hdr then S2\<lparr>rx_expected := ng32 (rx_buf S2)\<rparr> else S2)
      in if hdr \<and> (rx_expected S3 < 7 \<or> M < unat (rx_expected S3)) then rx_bytes M bs (S3\<lparr>rx_len := 0\<rparr>)
         else let S4 = (if hdr then S3\<lparr>rx_have_hdr := True\<rparr> else S3)
              in if rx_have_hdr S4 \<and> unat (rx_expected S4) \<le> rx_len S4 then rx_complete S4
                 else rx_bytes M bs S4)"

definition rx_fifo :: "nat \<Rightarrow> byte list \<Rightarrow> rx \<Rightarrow> rx" where
  "rx_fifo M bs S = (if rx_processing S then S else rx_bytes M bs S)"

text \<open>One interrupt: FIFO reads until the FIFO is empty.\<close>

definition mesh_uart_isr :: "nat \<Rightarrow> byte list list \<Rightarrow> rx \<Rightarrow> rx" where
  "mesh_uart_isr M reads S = fold (rx_fifo M) reads S"

definition mesh_rx_reset :: "rx \<Rightarrow> rx" where
  "mesh_rx_reset S = S\<lparr>rx_len := 0, rx_have_hdr := False, rx_expected := 0, rx_processing := False\<rparr>"

text \<open>The work item, when it is pending: the message handed to the client.\<close>

definition mesh_rx_work_handler :: "rx \<Rightarrow> byte list option \<times> rx" where
  "mesh_rx_work_handler S =
     (if \<not> rx_pending S then (None, S)
      else (Some (take (unat (rx_proc_len S)) (rx_buf S)), (mesh_rx_reset S)\<lparr>rx_pending := False\<rparr>))"

subsection \<open>Interleavings\<close>

datatype rx_event = Isr "byte list list" | Work | Reset

fun rx_step :: "nat \<Rightarrow> rx_event \<Rightarrow> byte list list \<times> rx \<Rightarrow> byte list list \<times> rx" where
  "rx_step M (Isr reads) (out, S) = (out, mesh_uart_isr M reads S)"
| "rx_step M Work (out, S) =
     (case mesh_rx_work_handler S of (None, S') \<Rightarrow> (out, S') | (Some m, S') \<Rightarrow> (out @ [m], S'))"
| "rx_step M Reset (out, S) = (out, mesh_rx_reset S)"

definition rx_run :: "nat \<Rightarrow> rx_event list \<Rightarrow> rx \<Rightarrow> byte list list \<times> rx" where
  "rx_run M evs S = fold (rx_step M) evs ([], S)"

subsection \<open>Invariant\<close>

definition rx_wf :: "nat \<Rightarrow> rx \<Rightarrow> bool" where
  "rx_wf M S \<longleftrightarrow> length (rx_buf S) = M \<and> rx_len S \<le> M \<and>
     (rx_have_hdr S \<longrightarrow> 7 \<le> unat (rx_expected S) \<and> unat (rx_expected S) \<le> M) \<and>
     (\<not> rx_processing S \<longrightarrow> (if rx_have_hdr S then rx_len S < unat (rx_expected S) else rx_len S < 7)) \<and>
     (rx_processing S \<longrightarrow> rx_pending S) \<and>
     (rx_pending S \<longrightarrow> 7 \<le> unat (rx_proc_len S) \<and> unat (rx_proc_len S) \<le> M)"

lemma rx_wf_boot: "7 \<le> M \<Longrightarrow> rx_wf M (rx_boot M)"
  by (simp add: rx_wf_def rx_boot_def)

lemma rx_wf_reset: "rx_wf M S \<Longrightarrow> rx_wf M (mesh_rx_reset S)"
  by (simp add: rx_wf_def mesh_rx_reset_def)

lemma rx_wf_work: "rx_wf M S \<Longrightarrow> rx_wf M (snd (mesh_rx_work_handler S))"
  by (auto simp: rx_wf_def mesh_rx_work_handler_def mesh_rx_reset_def)

lemma word_lt7: "(e :: u32) < 7 \<longleftrightarrow> unat e < 7"
  by (simp add: word_less_nat_alt)

lemma rx_wf_bytes: "rx_wf M S \<Longrightarrow> \<not> rx_processing S \<Longrightarrow> 7 \<le> M \<Longrightarrow> rx_wf M (rx_bytes M bs S)"
proof (induction M bs S rule: rx_bytes.induct)
  case (2 M b bs S)
  have l: "rx_len S < M" using "2.prems" by (auto simp: rx_wf_def split: if_splits)
  define S2 where "S2 = S\<lparr>rx_buf := (rx_buf S)[rx_len S := b], rx_len := rx_len S + 1\<rparr>"
  have st: "rx_store M b S = S2" using l by (simp add: rx_store_def S2_def)
  show ?case
  proof (cases "\<not> rx_have_hdr S \<and> 7 \<le> rx_len S + 1")
    case True
    define e where "e = ng32 (rx_buf S2)"
    have hdr: "\<not> rx_have_hdr S2 \<and> 7 \<le> rx_len S2" using True by (simp add: S2_def)
    show ?thesis
    proof (cases "e < 7 \<or> M < unat e")
      case bad: True
      have "rx_wf M (S2\<lparr>rx_expected := e, rx_len := 0\<rparr>)" using "2.prems" True by (auto simp: rx_wf_def S2_def)
      moreover have "\<not> rx_processing (S2\<lparr>rx_expected := e, rx_len := 0\<rparr>)" using "2.prems" by (simp add: S2_def)
      ultimately show ?thesis using "2.IH"(1) [OF refl refl refl] bad hdr "2.prems"(3)
        by (simp add: st Let_def e_def)
    next
      case False
      have w: "rx_wf M (rx_complete (S2\<lparr>rx_expected := e, rx_have_hdr := True\<rparr>))"
        "unat e > rx_len S2 \<Longrightarrow> rx_wf M (S2\<lparr>rx_expected := e, rx_have_hdr := True\<rparr>)"
        "\<not> rx_processing (S2\<lparr>rx_expected := e, rx_have_hdr := True\<rparr>)"
        using "2.prems" True False l by (auto simp: rx_wf_def S2_def rx_complete_def word_lt7)
      then show ?thesis using "2.IH"(2) [OF refl refl refl _ refl] False hdr "2.prems"(3)
        by (auto simp: st Let_def e_def)
    qed
  next
    case False
    have w: "rx_have_hdr S \<Longrightarrow> rx_wf M (rx_complete S2)"
      "\<not> (rx_have_hdr S \<and> unat (rx_expected S) \<le> rx_len S + 1) \<Longrightarrow> rx_wf M S2" "\<not> rx_processing S2"
      using "2.prems" False l by (auto simp: rx_wf_def S2_def rx_complete_def split: if_splits)
    then show ?thesis using "2.IH"(2) [OF refl refl refl _ refl] False "2.prems"(3)
      by (auto simp: st Let_def S2_def)
  qed
qed simp

lemma rx_wf_isr: "rx_wf M S \<Longrightarrow> 7 \<le> M \<Longrightarrow> rx_wf M (mesh_uart_isr M reads S)"
  unfolding mesh_uart_isr_def by (induction reads arbitrary: S) (simp_all add: rx_fifo_def rx_wf_bytes)

lemma rx_wf_run: "rx_wf M S \<Longrightarrow> 7 \<le> M \<Longrightarrow> rx_wf M (snd (fold (rx_step M) evs (out, S)))"
proof (induction evs arbitrary: out S)
  case (Cons ev evs)
  obtain out1 S1 where s: "rx_step M ev (out, S) = (out1, S1)" by fastforce
  have "rx_wf M S1"
    using s Cons.prems rx_wf_isr rx_wf_reset rx_wf_work [of M S]
    by (cases ev) (auto split: prod.splits option.splits)
  then show ?case using Cons.IH Cons.prems s by simp
qed simp

text \<open>
  Whatever bytes come over the link, however they are fragmented, and however interrupts, the
  work queue and resets interleave: the accumulator never leaves its buffer, what is handed to the
  client has the length that was framed, between 7 and the size of the buffer, and a receiver that
  drops bytes always has the work item pending that will open it again.
\<close>

theorem relay_rx_invariant:
  assumes "7 \<le> M" and "rx_run M evs (rx_boot M) = (out, S)"
  shows "rx_len S \<le> M \<and> length (rx_buf S) = M \<and> (rx_processing S \<longrightarrow> rx_pending S) \<and>
    (rx_pending S \<longrightarrow> 7 \<le> unat (rx_proc_len S) \<and> unat (rx_proc_len S) \<le> M) \<and>
    (\<forall>m \<in> set out. 7 \<le> length m \<and> length m \<le> M) \<and>
    \<not> rx_processing (snd (rx_step M Work (out, S)))"
proof -
  have w: "rx_wf M S" using rx_wf_run [OF rx_wf_boot assms(1), of evs "[]"] assms by (simp add: rx_run_def)
  have "\<forall>m \<in> set out. 7 \<le> length m \<and> length m \<le> M" if "fold (rx_step M) evs ([], rx_boot M) = (out, S)"
    using that
  proof (induction evs arbitrary: out S rule: rev_induct)
    case (snoc ev evs)
    obtain out1 S1 where r: "fold (rx_step M) evs ([], rx_boot M) = (out1, S1)" by fastforce
    have w1: "rx_wf M S1" using rx_wf_run [OF rx_wf_boot assms(1), of evs "[]"] assms(1) r by simp
    show ?case
      using snoc.IH [OF r] snoc.prems r w1
      by (cases ev) (auto simp: mesh_rx_work_handler_def rx_wf_def split: if_splits)
  qed simp
  then show ?thesis
    using w assms(2)
    by (auto simp: rx_run_def rx_wf_def mesh_rx_work_handler_def mesh_rx_reset_def split: if_splits)
qed

subsection \<open>Framing\<close>

definition frame_ok :: "nat \<Rightarrow> byte list \<Rightarrow> bool" where
  "frame_ok M m \<longleftrightarrow> 7 \<le> length m \<and> length m \<le> M \<and> ng32 m = of_nat (length m)"

definition rx_idle :: "nat \<Rightarrow> rx \<Rightarrow> bool" where
  "rx_idle M S \<longleftrightarrow> length (rx_buf S) = M \<and> rx_len S = 0 \<and> \<not> rx_have_hdr S \<and> \<not> rx_processing S \<and> \<not> rx_pending S"

text \<open>The receiver has got the first bytes \<open>p\<close> of the message \<open>m\<close>.\<close>

definition rx_got :: "nat \<Rightarrow> byte list \<Rightarrow> byte list \<Rightarrow> rx \<Rightarrow> bool" where
  "rx_got M m p S \<longleftrightarrow> length (rx_buf S) = M \<and> rx_len S = length p \<and> take (length p) (rx_buf S) = p \<and>
     \<not> rx_processing S \<and> \<not> rx_pending S \<and> (rx_have_hdr S \<longleftrightarrow> 7 \<le> length p) \<and>
     (rx_have_hdr S \<longrightarrow> rx_expected S = of_nat (length m))"

definition rx_done :: "nat \<Rightarrow> byte list \<Rightarrow> rx \<Rightarrow> bool" where
  "rx_done M m S \<longleftrightarrow> length (rx_buf S) = M \<and> take (length m) (rx_buf S) = m \<and> rx_processing S \<and> rx_pending S \<and>
     rx_proc_len S = of_nat (length m)"

lemma ng32_take: "4 \<le> length p \<Longrightarrow> ng32 (p @ xs) = ng32 p"
  by (auto simp: ng32_def nth_append)

lemma rx_bytes_one:
  assumes f: "frame_ok M m" and M: "M < 2 ^ 32" and g: "rx_got M m p S" and m: "m = p @ b # r"
  obtains S' where "rx_bytes M (b # bs) S = (if r = [] then S' else rx_bytes M bs S')"
    "if r = [] then rx_done M m S' else rx_got M m (p @ [b]) S'"
proof -
  have l: "length p < M" "length m = length p + 1 + length r" using f m by (auto simp: frame_ok_def)
  define S2 where "S2 = S\<lparr>rx_buf := (rx_buf S)[length p := b], rx_len := length p + 1\<rparr>"
  have st: "rx_store M b S = S2" using g l by (simp add: rx_store_def S2_def rx_got_def)
  have t: "take (length p + 1) (rx_buf S2) = p @ [b]"
    using g l by (simp add: S2_def rx_got_def take_Suc_conv_app_nth)
  have un: "unat (of_nat (length m) :: u32) = length m"
    using f M by (simp add: frame_ok_def unsigned_of_nat take_bit_nat_eq_self)
  have ng: "ng32 (rx_buf S2) = of_nat (length m)" if "7 \<le> length p + 1"
  proof -
    have e: "rx_buf S2 = (p @ [b]) @ drop (length p + 1) (rx_buf S2)"
      unfolding t [symmetric] by (simp only: append_take_drop_id)
    have "4 \<le> length (p @ [b])" using that by simp
    then have "ng32 (rx_buf S2) = ng32 (p @ [b])" by (subst e) (rule ng32_take)
    also have "\<dots> = ng32 m" using that ng32_take [of "p @ [b]" r] m by simp
    finally show ?thesis using f by (simp add: frame_ok_def)
  qed
  have ge: "\<not> (of_nat (length m) :: u32) < 7" "\<not> M < length m" using f un by (auto simp: frame_ok_def word_less_nat_alt)
  have len: "length (rx_buf S2) = M" "rx_len S2 = length p + 1" using g by (simp_all add: S2_def rx_got_def)
  define S4 where "S4 = (if \<not> rx_have_hdr S \<and> 7 \<le> length p + 1
      then S2\<lparr>rx_expected := of_nat (length m), rx_have_hdr := True\<rparr> else S2)"
  have step: "rx_bytes M (b # bs) S =
      (if rx_have_hdr S4 \<and> unat (rx_expected S4) \<le> rx_len S4 then rx_complete S4 else rx_bytes M bs S4)"
    using ng ge un by (auto simp: st Let_def S4_def S2_def)
  have hdr: "rx_have_hdr S4 \<longleftrightarrow> 7 \<le> length p + 1" "rx_have_hdr S4 \<Longrightarrow> rx_expected S4 = of_nat (length m)"
    "rx_len S4 = length p + 1" "rx_buf S4 = rx_buf S2" "\<not> rx_processing S4" "\<not> rx_pending S4"
    using g by (auto simp: S4_def S2_def rx_got_def)
  show thesis
  proof (cases "r = []")
    case True
    then have "7 \<le> length p + 1" "length p + 1 = length m" using f l by (auto simp: frame_ok_def)
    then have "rx_done M m (rx_complete S4)" "rx_bytes M (b # bs) S = rx_complete S4"
      using step hdr un len t m True by (auto simp: rx_done_def rx_complete_def)
    then show thesis using that [of "rx_complete S4"] True by simp
  next
    case False
    then have no: "\<not> (rx_have_hdr S4 \<and> unat (rx_expected S4) \<le> rx_len S4)" using hdr un l by (cases r) auto
    have "rx_bytes M (b # bs) S = rx_bytes M bs S4" unfolding step by (rule if_not_P [OF no])
    moreover have "rx_got M m (p @ [b]) S4" using hdr len t by (auto simp: rx_got_def)
    ultimately show thesis using that [of S4] False by simp
  qed
qed

lemma rx_bytes_part:
  assumes "frame_ok M m" and "M < 2 ^ 32"
  shows "rx_got M m p S \<Longrightarrow> m = p @ bs @ r \<Longrightarrow> r \<noteq> [] \<Longrightarrow> rx_got M m (p @ bs) (rx_bytes M bs S)"
proof (induction bs arbitrary: p S)
  case (Cons b bs)
  have m: "m = p @ b # bs @ r" using Cons.prems by simp
  from rx_bytes_one [OF assms Cons.prems(1) m, of bs] Cons.prems(3)
  obtain S' where S': "rx_bytes M (b # bs) S = rx_bytes M bs S'" "rx_got M m (p @ [b]) S'" by auto
  show ?case using Cons.IH [OF S'(2)] Cons.prems S'(1) by simp
qed simp

lemma rx_bytes_last:
  assumes "frame_ok M m" and "M < 2 ^ 32"
  shows "rx_got M m p S \<Longrightarrow> m = p @ bs \<Longrightarrow> bs \<noteq> [] \<Longrightarrow> rx_done M m (rx_bytes M (bs @ junk) S)"
proof (induction bs arbitrary: p S)
  case (Cons b bs)
  have m: "m = p @ b # bs" using Cons.prems by simp
  from rx_bytes_one [OF assms Cons.prems(1) m, of "bs @ junk"]
  obtain S' where S': "rx_bytes M (b # bs @ junk) S = (if bs = [] then S' else rx_bytes M (bs @ junk) S')"
    "if bs = [] then rx_done M m S' else rx_got M m (p @ [b]) S'" by blast
  show ?case
  proof (cases "bs = []")
    case False
    then show ?thesis using Cons.IH [of "p @ [b]" S'] Cons.prems(2) S' by simp
  qed (use S' in simp)
qed simp

lemma rx_idle_got: "rx_idle M S \<Longrightarrow> rx_got M m [] S"
  by (simp add: rx_idle_def rx_got_def)

lemma rx_done_work:
  assumes "frame_ok M m" and "M < 2 ^ 32" and "rx_done M m S"
  shows "\<exists>S'. mesh_rx_work_handler S = (Some m, S') \<and> rx_idle M S'"
proof -
  have "unat (of_nat (length m) :: u32) = length m"
    using assms(1,2) by (simp add: frame_ok_def unsigned_of_nat take_bit_nat_eq_self)
  then show ?thesis
    using assms(3) by (simp add: mesh_rx_work_handler_def rx_done_def rx_idle_def mesh_rx_reset_def)
qed

lemma rx_fifo_frame:
  assumes f: "frame_ok M m" and M: "M < 2 ^ 32"
  shows "rx_got M m p S \<Longrightarrow> m = p @ concat cs \<Longrightarrow> [] \<notin> set cs \<Longrightarrow> cs \<noteq> [] \<Longrightarrow> rx_done M m (fold (rx_fifo M) cs S)"
proof (induction cs arbitrary: p S)
  case (Cons c cs)
  have c: "c \<noteq> []" using Cons.prems(3) by auto
  have np: "rx_fifo M c S = rx_bytes M c S" using Cons.prems(1) by (simp add: rx_fifo_def rx_got_def)
  show ?case
  proof (cases "cs = []")
    case True
    then show ?thesis using rx_bytes_last [OF f M Cons.prems(1) _ c, of "[]"] Cons.prems(2) np by simp
  next
    case False
    then have r: "concat cs \<noteq> []" using Cons.prems(3) by (cases cs) auto
    have "rx_got M m (p @ c) (rx_fifo M c S)"
      using rx_bytes_part [OF f M Cons.prems(1) _ r, of c] Cons.prems(2) np by simp
    then show ?thesis using Cons.IH [of "p @ c"] Cons.prems(2,3) False by simp
  qed
qed simp

definition isr_events :: "byte list list list \<Rightarrow> rx_event list" where
  "isr_events irqs = map Isr irqs @ [Work]"

lemma rx_isrs: "fold (rx_step M) (map Isr irqs) (out, S) = (out, fold (rx_fifo M) (concat irqs) S)"
  by (induction irqs arbitrary: S) (simp_all add: mesh_uart_isr_def fold_append)

lemma rx_one_frame:
  assumes f: "frame_ok M m" and M: "M < 2 ^ 32" and i: "rx_idle M S"
    and c: "concat (concat irqs) = m" "[] \<notin> set (concat irqs)"
  shows "\<exists>S'. fold (rx_step M) (isr_events irqs) (out, S) = (out @ [m], S') \<and> rx_idle M S'"
proof -
  have ne: "concat irqs \<noteq> []"
  proof
    assume "concat irqs = []"
    then have "m = []" using c(1) by (simp only: concat.simps)
    then show False using f by (simp add: frame_ok_def)
  qed
  have m: "m = [] @ concat (concat irqs)" using c(1) by (simp only: append_Nil)
  have "rx_done M m (fold (rx_fifo M) (concat irqs) S)"
    by (rule rx_fifo_frame [OF f M rx_idle_got [OF i] m c(2) ne])
  from rx_done_work [OF f M this] show ?thesis by (auto simp: isr_events_def rx_isrs)
qed


text \<open>
  Two replies that come close together are not both received: what follows a complete message
  in the same interrupt, or comes before the work item has run, is dropped. A second message is
  lost whole, with nothing to tell the client.
\<close>

theorem relay_rx_drops_second:
  assumes f: "frame_ok M m1" and M: "M < 2 ^ 32"
  shows "\<exists>S'. rx_run M [Isr [m1 @ m2], Isr later, Work] (rx_boot M) = ([m1], S') \<and> rx_idle M S'"
proof -
  have "rx_got M m1 [] (rx_boot M)" by (intro rx_idle_got) (simp add: rx_idle_def rx_boot_def)
  then have d: "rx_done M m1 (rx_bytes M (m1 @ m2) (rx_boot M))"
    using f by (intro rx_bytes_last [OF f M]) (auto simp: frame_ok_def)
  then have "fold (rx_fifo M) later (rx_bytes M (m1 @ m2) (rx_boot M)) = rx_bytes M (m1 @ m2) (rx_boot M)"
    by (induction later) (simp_all add: rx_fifo_def rx_done_def)
  then show ?thesis
    using rx_done_work [OF f M d] by (auto simp: rx_run_def mesh_uart_isr_def rx_fifo_def rx_boot_def)
qed

end
