(* ===== verification/Relay.thy ===== *)
theory Relay
  imports ConvTransport RelayRx
begin

text \<open>
  The relay (\<open>dect_relay/src/main.c\<close>): its link to the nRF9151 and the files it serves over that
  link. A handler is one step of the model, from its call to its return, including the calls of
  the 9P client it makes; the locks only serialise handlers, so they are not written out.
\<close>

subsection \<open>State\<close>

record relay =
  rl_log :: nlog
  rl_rx :: rx
  rl_root :: u32
  rl_attached :: bool
  rl_versioned :: bool
  rl_last_contact :: u32
  rl_relink_attempts :: u32
  rl_relink_total :: u32
  rl_autoconfirm :: bool
  rl_armed :: bool
  rl_staged_major :: byte
  rl_staged_minor :: byte
  rl_staged_rev :: u16
  rl_staged_valid :: bool
  rl_wfid :: u32 \<comment> \<open>\<open>fw9151_wfid\<close>, \<open>fw9151_writing\<close>, \<open>fw9151_woff\<close>\<close>
  rl_writing :: bool
  rl_woff :: u64
  rl_push_wfid :: u32
  rl_push_writing :: bool
  rl_mesh_peer :: "byte list"
  rl_m9_root :: u32 \<comment> \<open>\<open>mesh9p_root_fid\<close>, \<open>mesh9p_attached\<close>\<close>
  rl_m9_attached :: bool
  rl_ct :: ct \<comment> \<open>\<open>mesh9p_transport\<close>\<close>

definition relay_boot :: "nat \<Rightarrow> relay" where
  "relay_boot M = \<lparr>rl_log = [], rl_rx = rx_boot M, rl_root = 0, rl_attached = False, rl_versioned = False,
     rl_last_contact = 0, rl_relink_attempts = 0, rl_relink_total = 0, rl_autoconfirm = True,
     rl_armed = False, rl_staged_major = 0, rl_staged_minor = 0, rl_staged_rev = 0,
     rl_staged_valid = False, rl_wfid = 0, rl_writing = False, rl_woff = 0, rl_push_wfid = 0,
     rl_push_writing = False, rl_mesh_peer = [], rl_m9_root = 0, rl_m9_attached = False,
     rl_ct = aether_conv_transport_init\<rparr>"

definition mesh_note_contact :: "ncl \<Rightarrow> relay \<Rightarrow> relay" where
  "mesh_note_contact E S = S\<lparr>rl_last_contact := nc_uptime E (rl_log S)\<rparr>"

subsection \<open>Attaching\<close>

text \<open>\<open>ninep_client_attach(&mesh_client, &mesh_root_fid, \<dots>)\<close>.\<close>

definition mesh_attach :: "ncl \<Rightarrow> relay \<Rightarrow> fid_res \<times> relay" where
  "mesh_attach E S =
     (case n_attach E Carrier (rl_log S) of
        (r, h) \<Rightarrow> (r, S\<lparr>rl_log := h, rl_root := (case r of Inl (e, Some f) \<Rightarrow> f | Inl (e, None) \<Rightarrow> rl_root S | Inr f \<Rightarrow> f)\<rparr>))"

definition mesh_attached_ok :: "ncl \<Rightarrow> relay \<Rightarrow> u32 res \<times> relay" where
  "mesh_attached_ok E S =
     (Inr (rl_root S), mesh_note_contact E (S\<lparr>rl_attached := True, rl_relink_attempts := 0\<rparr>))"

definition mesh_reversion :: "ncl \<Rightarrow> relay \<Rightarrow> u32 res \<times> relay" where
  "mesh_reversion E S =
     (case n_version E Carrier (rl_log S) of
        (Inl e, h) \<Rightarrow> (Inl e, S\<lparr>rl_log := h\<rparr>)
      | (Inr _, h) \<Rightarrow>
          (case mesh_attach E (S\<lparr>rl_log := h, rl_versioned := True\<rparr>) of
             (Inl (e, _), S1) \<Rightarrow> (Inl e, S1)
           | (Inr _, S1) \<Rightarrow> mesh_attached_ok E S1))"

definition mesh_ensure_attached :: "ncl \<Rightarrow> relay \<Rightarrow> u32 res \<times> relay" where
  "mesh_ensure_attached E S =
     (if rl_attached S then (Inr (rl_root S), S)
      else let S0 = S\<lparr>rl_rx := mesh_rx_reset (rl_rx S)\<rparr> in
        if rl_versioned S0
        then (case mesh_attach E S0 of
                (Inr _, S1) \<Rightarrow> mesh_attached_ok E S1
              | (Inl _, S1) \<Rightarrow> mesh_reversion E (S1\<lparr>rl_versioned := False\<rparr>))
        else mesh_reversion E S0)"

definition mesh_remote_root :: "ncl \<Rightarrow> relay \<Rightarrow> u32 res \<times> relay" where
  "mesh_remote_root E S = mesh_ensure_attached E S"

definition mesh_remote_down :: "relay \<Rightarrow> relay" where
  "mesh_remote_down S = S\<lparr>rl_attached := False\<rparr>"

definition mesh_host_disconnected :: "relay \<Rightarrow> relay" where
  "mesh_host_disconnected S = S\<lparr>rl_log := rl_log S @ [EReset], rl_attached := False, rl_versioned := False\<rparr>"

subsection \<open>The nested mount\<close>

definition mesh9p_remote_down :: "ncl \<Rightarrow> relay \<Rightarrow> relay" where
  "mesh9p_remote_down E S =
     (case aether_conv_transport_disconnect E (rl_ct S, rl_log S) of
        (t, h) \<Rightarrow> S\<lparr>rl_m9_attached := False, rl_ct := t, rl_log := h\<rparr>)"

definition mesh9p_handshake :: "ncl \<Rightarrow> relay \<Rightarrow> u32 res \<times> relay" where
  "mesh9p_handshake E S =
     (case n_version E Nested (rl_log S) of
        (Inl e, h) \<Rightarrow> (Inl e, S\<lparr>rl_log := h\<rparr>)
      | (Inr _, h) \<Rightarrow>
          (case n_attach E Nested h of
             (Inl (e, w), h1) \<Rightarrow> (Inl e, S\<lparr>rl_log := h1, rl_m9_root := (case w of None \<Rightarrow> rl_m9_root S | Some f \<Rightarrow> f)\<rparr>)
           | (Inr f, h1) \<Rightarrow> (Inr f, S\<lparr>rl_log := h1, rl_m9_root := f, rl_m9_attached := True\<rparr>)))"

definition mesh9p_remote_root :: "ncl \<Rightarrow> relay \<Rightarrow> u32 res \<times> relay" where
  "mesh9p_remote_root E S =
     (if rl_mesh_peer S = [] then (Inl ENOTCONN, S)
      else if rl_m9_attached S then (Inr (rl_m9_root S), S)
      else case mesh_ensure_attached E S of
        (Inl e, S1) \<Rightarrow> (Inl e, S1)
      | (Inr root, S1) \<Rightarrow>
          (case aether_conv_transport_connect E root (rl_mesh_peer S1) (rl_ct S1, rl_log S1) of
             (Inl e, t, h) \<Rightarrow> (Inl e, S1\<lparr>rl_ct := t, rl_log := h\<rparr>)
           | (Inr _, t, h) \<Rightarrow> mesh9p_handshake E (S1\<lparr>rl_ct := t, rl_log := h\<rparr>)))"

definition is_eol :: "byte \<Rightarrow> bool" where
  "is_eol b \<longleftrightarrow> b = nl \<or> b = cr \<or> b = space"

definition mesh_peer_text :: "byte list \<Rightarrow> byte list" where
  "mesh_peer_text buf =
     (let inp = strip_end is_eol (take 23 buf)
      in if inp \<noteq> [] \<and> length inp \<le> 5 then snprintf_out 24 (ascii ''00:00:00:00:'' @ cstr inp)
         else take 23 (cstr inp))"

definition fw_write_mesh_peer :: "ncl \<Rightarrow> byte list \<Rightarrow> relay \<Rightarrow> nat \<times> relay" where
  "fw_write_mesh_peer E buf S =
     (case aether_conv_transport_disconnect E (rl_ct S, rl_log S) of
        (t, h) \<Rightarrow> (length buf, S\<lparr>rl_mesh_peer := mesh_peer_text buf, rl_m9_attached := False, rl_ct := t, rl_log := h\<rparr>))"

definition mesh_peer_read :: "nat \<Rightarrow> nat \<Rightarrow> relay \<Rightarrow> byte list" where
  "mesh_peer_read buf_size off S =
     segment off buf_size ((if rl_mesh_peer S \<noteq> [] then rl_mesh_peer S else ascii ''unset'') @ [nl])"

subsection \<open>Files of the nRF9151\<close>

fun open_tries :: "ncl \<Rightarrow> byte list \<Rightarrow> byte \<Rightarrow> errno \<Rightarrow> nat \<Rightarrow> relay \<Rightarrow> u32 res \<times> relay" where
  "open_tries E path mode ret 0 S = (Inl ret, S)"
| "open_tries E path mode ret (Suc k) S =
     (case mesh_ensure_attached E S of
        (Inl e, S1) \<Rightarrow> (Inl e, S1)
      | (Inr root, S1) \<Rightarrow>
          (case n_walk E root path (rl_log S1) of
             (Inl (e, _), h) \<Rightarrow> open_tries E path mode e k (S1\<lparr>rl_log := h, rl_attached := False\<rparr>)
           | (Inr fid, h) \<Rightarrow>
               (case n_open E fid mode h of
                  (Inl e, h1) \<Rightarrow> (Inl e, S1\<lparr>rl_log := snd (n_clunk E fid h1)\<rparr>)
                | (Inr _, h1) \<Rightarrow> (Inr fid, S1\<lparr>rl_log := h1\<rparr>))))"

definition fw9151_open_remote :: "ncl \<Rightarrow> byte list \<Rightarrow> byte \<Rightarrow> relay \<Rightarrow> u32 res \<times> relay" where
  "fw9151_open_remote E path mode S = open_tries E path mode EIO 2 S"

definition aether_state_read :: "ncl \<Rightarrow> byte list \<Rightarrow> nat \<Rightarrow> u64 \<Rightarrow> relay \<Rightarrow> byte list res \<times> relay" where
  "aether_state_read E path buf_size off S =
     (case fw9151_open_remote E path OREAD S of
        (Inl e, S1) \<Rightarrow> (Inl e, S1)
      | (Inr fid, S1) \<Rightarrow>
          (case n_read E fid off buf_size (rl_log S1) of
             (r, h) \<Rightarrow>
               (let S2 = S1\<lparr>rl_log := h\<rparr>;
                    S3 = (if is_ok r then mesh_note_contact E S2 else S2)
                in (r, S3\<lparr>rl_log := snd (n_clunk E fid (rl_log S3))\<rparr>))))"

definition fw9151_read :: "ncl \<Rightarrow> nat \<Rightarrow> u64 \<Rightarrow> relay \<Rightarrow> byte list res \<times> relay" where
  "fw9151_read E buf_size off S = aether_state_read E (ascii ''dev/firmware'') buf_size off S"

definition mflt9151_read :: "ncl \<Rightarrow> nat \<Rightarrow> u64 \<Rightarrow> relay \<Rightarrow> byte list res \<times> relay" where
  "mflt9151_read E buf_size off S = aether_state_read E (ascii ''dev/mflt'') buf_size off S"

definition mflt_mesh_read :: "ncl \<Rightarrow> nat \<Rightarrow> u64 \<Rightarrow> relay \<Rightarrow> byte list res \<times> relay" where
  "mflt_mesh_read E buf_size off S = aether_state_read E (ascii ''dev/mflt_mesh'') buf_size off S"

definition mflt_probe_read :: "ncl \<Rightarrow> nat \<Rightarrow> u64 \<Rightarrow> relay \<Rightarrow> byte list res \<times> relay" where
  "mflt_probe_read E buf_size off S = aether_state_read E (ascii ''dev/mflt_probe'') buf_size off S"

text \<open>A one-shot write: open, write at offset 0, clunk. The number the client reports is dropped.\<close>

definition one_shot_write :: "ncl \<Rightarrow> byte list \<Rightarrow> byte list \<Rightarrow> relay \<Rightarrow> nat res \<times> relay" where
  "one_shot_write E path buf S =
     (case fw9151_open_remote E path OWRITE S of
        (Inl e, S1) \<Rightarrow> (Inl e, S1)
      | (Inr fid, S1) \<Rightarrow>
          (case n_write E fid 0 buf (rl_log S1) of
             (r, h) \<Rightarrow> (r, S1\<lparr>rl_log := snd (n_clunk E fid h)\<rparr>)))"

definition aether_state_write :: "ncl \<Rightarrow> byte list \<Rightarrow> byte list \<Rightarrow> relay \<Rightarrow> nat res \<times> relay" where
  "aether_state_write E path buf S =
     (case one_shot_write E path buf S of
        (r, S1) \<Rightarrow> (case r of Inl e \<Rightarrow> Inl e | Inr _ \<Rightarrow> Inr (length buf), S1))"

definition push_ctl_write :: "ncl \<Rightarrow> byte list \<Rightarrow> relay \<Rightarrow> nat res \<times> relay" where
  "push_ctl_write E buf S =
     (case one_shot_write E (ascii ''dev/push_ctl'') buf S of
        (Inl e, S1) \<Rightarrow> (Inl e, S1)
      | (Inr _, S1) \<Rightarrow> (Inr (length buf), mesh_note_contact E S1))"

text \<open>
  Control files of the nRF9151. After a reboot the session is dropped, and no reply counts as
  success once the file could be opened.
\<close>

definition fw9151_ctl_write :: "ncl \<Rightarrow> byte list \<Rightarrow> byte list \<Rightarrow> bool \<Rightarrow> relay \<Rightarrow> nat res \<times> relay" where
  "fw9151_ctl_write E path d expect_reset S =
     (case fw9151_open_remote E path OWRITE S of
        (Inl e, S1) \<Rightarrow> (Inl e, S1)
      | (Inr fid, S1) \<Rightarrow>
          (case n_write E fid 0 d (rl_log S1) of
             (r, h) \<Rightarrow>
               (let S2 = S1\<lparr>rl_log := snd (n_clunk E fid h)\<rparr>
                in if expect_reset
                   then (case r of Inl _ \<Rightarrow> Inr (length d) | Inr n \<Rightarrow> Inr n, S2\<lparr>rl_attached := False\<rparr>)
                   else (r, S2))))"

definition fw9151_reboot_write :: "ncl \<Rightarrow> byte list \<Rightarrow> relay \<Rightarrow> nat res \<times> relay" where
  "fw9151_reboot_write E buf S =
     (case fw9151_ctl_write E (ascii ''dev/reboot'') (ascii ''1'') True S of
        (r, S1) \<Rightarrow> (case r of Inl e \<Rightarrow> Inl e | Inr _ \<Rightarrow> Inr (length buf), S1))"

definition fw9151_confirm_write :: "ncl \<Rightarrow> byte list \<Rightarrow> relay \<Rightarrow> nat res \<times> relay" where
  "fw9151_confirm_write E buf S =
     (case fw9151_ctl_write E (ascii ''dev/confirm'') (ascii ''1'') False S of
        (r, S1) \<Rightarrow> (case r of Inl e \<Rightarrow> Inl e | Inr _ \<Rightarrow> Inr (length buf), S1))"

subsection \<open>Streams\<close>

text \<open>
  The loop that forwards a block in pieces of at most \<open>nc_chunk\<close> bytes from offset \<open>base\<close>. It does
  not end if pieces are empty; \<open>None\<close> is that case.
\<close>

partial_function (option) chunk_loop ::
    "ncl \<Rightarrow> u32 \<Rightarrow> u64 \<Rightarrow> byte list \<Rightarrow> nat \<Rightarrow> nlog \<Rightarrow> (nat res \<times> nlog) option" where
  "chunk_loop E fid base buf dn h =
     (if length buf \<le> dn then Some (Inr dn, h)
      else let n = min (length buf - dn) (nc_chunk E);
               (r, h1) = n_write E fid (base + of_nat dn) (segment dn n buf) h
           in (case r of
                 Inl e \<Rightarrow> Some (Inl e, h1)
               | Inr w \<Rightarrow> if w < n then Some (Inr (dn + w), h1) else chunk_loop E fid base buf (dn + w) h1))"

text \<open>The image header at the start of a stream: magic and version.\<close>

definition stage_header :: "byte list \<Rightarrow> relay \<Rightarrow> relay" where
  "stage_header buf S =
     (if 28 \<le> length buf \<and> buf ! 0 = 0x3d \<and> buf ! 1 = 0xb8 \<and> buf ! 2 = 0xf3 \<and> buf ! 3 = 0x96
      then S\<lparr>rl_staged_major := buf ! 20, rl_staged_minor := buf ! 21,
             rl_staged_rev := ucast (buf ! 22) OR push_bit 8 (ucast (buf ! 23)), rl_staged_valid := True\<rparr>
      else S\<lparr>rl_staged_valid := False\<rparr>)"

definition fw9151_begin :: "ncl \<Rightarrow> byte list \<Rightarrow> relay \<Rightarrow> unit res \<times> relay" where
  "fw9151_begin E buf S =
     (if rl_writing S then (Inr (), S)
      else case fw9151_open_remote E (ascii ''dev/firmware'') OWRITE S of
        (Inl e, S1) \<Rightarrow> (Inl e, S1)
      | (Inr fid, S1) \<Rightarrow> (Inr (), stage_header buf (S1\<lparr>rl_wfid := fid, rl_writing := True, rl_woff := 0\<rparr>)))"

definition fw9151_write :: "ncl \<Rightarrow> byte list \<Rightarrow> relay \<Rightarrow> (nat res \<times> relay) option" where
  "fw9151_write E buf S =
     (case fw9151_begin E buf S of
        (Inl e, S1) \<Rightarrow> Some (Inl e, S1)
      | (Inr _, S1) \<Rightarrow>
          map_option (\<lambda>(r, h). case r of
              Inl e \<Rightarrow> (Inl e, S1\<lparr>rl_log := snd (n_clunk E (rl_wfid S1) h), rl_writing := False\<rparr>)
            | Inr dn \<Rightarrow> (Inr dn, S1\<lparr>rl_log := h, rl_woff := rl_woff S1 + of_nat dn\<rparr>))
          (chunk_loop E (rl_wfid S1) (rl_woff S1) buf 0 (rl_log S1)))"

definition fw9151_clunk :: "ncl \<Rightarrow> relay \<Rightarrow> unit res \<times> relay" where
  "fw9151_clunk E S =
     (if \<not> rl_writing S then (Inr (), S)
      else case n_clunk E (rl_wfid S) (rl_log S) of
        (r, h) \<Rightarrow> (r, S\<lparr>rl_log := h, rl_writing := False, rl_armed := rl_staged_valid S\<rparr>))"

definition push_begin :: "ncl \<Rightarrow> relay \<Rightarrow> unit res \<times> relay" where
  "push_begin E S =
     (if rl_push_writing S then (Inr (), S)
      else case fw9151_open_remote E (ascii ''dev/push'') OWRITE S of
        (Inl e, S1) \<Rightarrow> (Inl e, S1)
      | (Inr fid, S1) \<Rightarrow> (Inr (), S1\<lparr>rl_push_wfid := fid, rl_push_writing := True\<rparr>))"

definition push_write :: "ncl \<Rightarrow> byte list \<Rightarrow> u64 \<Rightarrow> relay \<Rightarrow> (nat res \<times> relay) option" where
  "push_write E buf off S =
     (case push_begin E S of
        (Inl e, S1) \<Rightarrow> Some (Inl e, S1)
      | (Inr _, S1) \<Rightarrow>
          map_option (\<lambda>(r, h). case r of
              Inl e \<Rightarrow> (Inl e, S1\<lparr>rl_log := snd (n_clunk E (rl_push_wfid S1) h), rl_push_writing := False\<rparr>)
            | Inr dn \<Rightarrow> (Inr dn, S1\<lparr>rl_log := h\<rparr>))
          (chunk_loop E (rl_push_wfid S1) off buf 0 (rl_log S1)))"

definition push_clunk :: "ncl \<Rightarrow> relay \<Rightarrow> unit res \<times> relay" where
  "push_clunk E S =
     (if \<not> rl_push_writing S then (Inr (), S)
      else case n_clunk E (rl_push_wfid S) (rl_log S) of
        (r, h) \<Rightarrow> (r, S\<lparr>rl_log := h, rl_push_writing := False\<rparr>))"

subsection \<open>Auto-confirm\<close>

fun scan_decdigits :: "nat \<Rightarrow> byte list \<Rightarrow> nat \<times> byte list" where
  "scan_decdigits acc [] = (acc, [])"
| "scan_decdigits acc (b # s) =
     (if 48 \<le> b \<and> b \<le> 57 then scan_decdigits (10 * acc + (unat b - 48)) s else (acc, b # s))"

text \<open>The conversion \<open>%u\<close> of \<open>sscanf\<close>.\<close>

definition scan_u :: "byte list \<Rightarrow> (u32 \<times> byte list) option" where
  "scan_u s0 =
     (let s1 = dropWhile is_space s0;
          neg = (s1 \<noteq> [] \<and> hd s1 = 45);
          s2 = (if s1 \<noteq> [] \<and> (hd s1 = 43 \<or> hd s1 = 45) then tl s1 else s1)
      in if s2 = [] \<or> \<not> (48 \<le> hd s2 \<and> hd s2 \<le> 57) then None
         else (let (v, rest) = scan_decdigits 0 s2 in Some (if neg then - of_nat v else of_nat v, rest)))"

text \<open>\<open>sscanf(s, "%u.%u.%u", \<dots>)\<close> into variables that are 0.\<close>

definition scan_version :: "byte list \<Rightarrow> u32 \<times> u32 \<times> u32" where
  "scan_version s =
     (case scan_u s of
        None \<Rightarrow> (0, 0, 0)
      | Some (a, r) \<Rightarrow>
          (if r = [] \<or> hd r \<noteq> 46 then (a, 0, 0)
           else case scan_u (tl r) of
             None \<Rightarrow> (a, 0, 0)
           | Some (b, r2) \<Rightarrow>
               (if r2 = [] \<or> hd r2 \<noteq> 46 then (a, b, 0)
                else case scan_u (tl r2) of None \<Rightarrow> (a, b, 0) | Some (c, _) \<Rightarrow> (a, b, c))))"

definition running_version :: "byte list \<Rightarrow> u32 \<times> u32 \<times> u32" where
  "running_version s =
     (case strstr s (ascii ''current '') of None \<Rightarrow> (0, 0, 0) | Some p \<Rightarrow> scan_version (drop 8 p))"

definition status_confirmed :: "byte list \<Rightarrow> bool" where
  "status_confirmed s =
     (case strstr s (ascii ''confirmed '') of None \<Rightarrow> False | Some q \<Rightarrow> is_prefix (ascii ''yes'') (drop 10 q))"

definition staged_matches :: "byte list \<Rightarrow> relay \<Rightarrow> bool" where
  "staged_matches s S \<longleftrightarrow> running_version s = (ucast (rl_staged_major S), ucast (rl_staged_minor S), ucast (rl_staged_rev S))"

definition fw9151_auto_confirm_check :: "ncl \<Rightarrow> relay \<Rightarrow> relay" where
  "fw9151_auto_confirm_check E S =
     (case fw9151_read E 159 0 S of
        (Inl e, S1) \<Rightarrow> S1
      | (Inr d, S1) \<Rightarrow>
          (let s = cstr d in
           if \<not> status_confirmed s
           then if staged_matches s S1
                then (snd (fw9151_ctl_write E (ascii ''dev/confirm'') (ascii ''1'') False S1))\<lparr>rl_armed := False\<rparr>
                else S1\<lparr>rl_armed := False\<rparr>
           else if staged_matches s S1 then S1\<lparr>rl_armed := False\<rparr>
           else S1))"

definition fw9151auto_read :: "nat \<Rightarrow> nat \<Rightarrow> relay \<Rightarrow> byte list" where
  "fw9151auto_read buf_size off S =
     segment off buf_size (ascii ''auto-confirm: '' @ (if rl_autoconfirm S then ascii ''on'' else ascii ''off'') @ [nl])"

definition fw9151auto_write :: "byte list \<Rightarrow> relay \<Rightarrow> nat \<times> relay" where
  "fw9151auto_write buf S =
     (length buf,
      if buf \<noteq> [] \<and> (hd buf = 48 \<or> hd buf = 49) then S\<lparr>rl_autoconfirm := (hd buf = 49)\<rparr> else S)"

subsection \<open>The link monitor and its status file\<close>

text \<open>One turn of the monitor, with the milliseconds it sleeps afterwards.\<close>

definition mesh_link_monitor_turn :: "ncl \<Rightarrow> relay \<Rightarrow> nat \<times> relay" where
  "mesh_link_monitor_turn E S =
     (if rl_attached S then (4000, S)
      else case mesh_ensure_attached E S of
        (Inl e, S1) \<Rightarrow> (1500, S1\<lparr>rl_relink_attempts := rl_relink_attempts S1 + 1\<rparr>)
      | (Inr _, S1) \<Rightarrow>
          (let S2 = S1\<lparr>rl_relink_total := rl_relink_total S1 + 1\<rparr>
           in (4000, if rl_autoconfirm S2 \<and> rl_armed S2 then fw9151_auto_confirm_check E S2 else S2)))"

definition link9151_text :: "u32 \<Rightarrow> relay \<Rightarrow> byte list" where
  "link9151_text now S =
     ascii ''link: '' @ (if rl_attached S then ascii ''up'' else ascii ''down'') @ [nl]
     @ ascii ''relink_attempts: '' @ dec_nat (unat (rl_relink_attempts S)) @ [nl]
     @ ascii ''relinks_total: '' @ dec_nat (unat (rl_relink_total S)) @ [nl]
     @ ascii ''last_contact: ''
     @ (if rl_last_contact S = 0 then ascii ''never''
        else dec_nat (unat (now - rl_last_contact S) div 1000) @ ascii ''s ago'') @ [nl]"

definition link9151_read :: "u32 \<Rightarrow> nat \<Rightarrow> nat \<Rightarrow> relay \<Rightarrow> byte list" where
  "link9151_read now buf_size off S = segment off buf_size (link9151_text now S)"

end
