(* ===== verification/ConvTransportProps.thy ===== *)
theory ConvTransportProps
  imports ConvTransport
begin

text \<open>
  Properties of the transport over a conversation: what the pump delivers, at what cost, and that
  connecting and disconnecting account for every fid.
\<close>

subsection \<open>The pump\<close>

fun matching :: "u16 \<Rightarrow> nev \<Rightarrow> bool" where
  "matching want (ERead f off cap (Inr rb)) = (7 \<le> length rb \<and> tag16 rb = want)"
| "matching want _ = False"

fun is_read :: "u32 \<Rightarrow> nev \<Rightarrow> bool" where
  "is_read fid (ERead f off cap r) = (f = fid \<and> off = 0 \<and> cap = 464)"
| "is_read fid _ = False"

fun is_write :: "u32 \<Rightarrow> byte list \<Rightarrow> nev \<Rightarrow> bool" where
  "is_write fid d (EWrite f off d' r) = (f = fid \<and> off = 0 \<and> d' = d)"
| "is_write fid d _ = False"

lemma not_both [simp]: "is_read f e \<Longrightarrow> \<not> is_write g d e"
  by (cases e) auto

lemma pump_polls_run:
  "pump_polls E dfid want k h = (r, h') \<Longrightarrow> \<exists>evs. h' = h @ evs \<and> length evs \<le> k \<and> list_all (is_read dfid) evs \<and>
     (case r of None \<Rightarrow> length evs = k \<and> (\<forall>e \<in> set evs. \<not> matching want e)
      | Some rb \<Rightarrow> 7 \<le> length rb \<and> tag16 rb = want \<and> evs \<noteq> [] \<and> last evs = ERead dfid 0 464 (Inr rb) \<and>
          (\<forall>e \<in> set (butlast evs). \<not> matching want e))"
proof (induction k arbitrary: h)
  case (Suc k)
  define a where "a = nc_read E h dfid 0 464"
  let ?h1 = "h @ [ERead dfid 0 464 a]"
  show ?case
  proof (cases "\<exists>rb. a = Inr rb \<and> 7 \<le> length rb \<and> tag16 rb = want")
    case True
    then obtain rb where rb: "a = Inr rb" "7 \<le> length rb" "tag16 rb = want" by blast
    then have "r = Some rb" "h' = ?h1" using Suc.prems by (simp_all add: n_read_def a_def)
    then show ?thesis using rb by (intro exI [of _ "[ERead dfid 0 464 a]"]) simp
  next
    case False
    then have nm: "\<not> matching want (ERead dfid 0 464 a)" by (cases a) auto
    have "pump_polls E dfid want k ?h1 = (r, h')"
      using Suc.prems False by (cases a) (auto simp: n_read_def a_def split: if_splits)
    from Suc.IH [OF this] obtain evs where
      e: "h' = ?h1 @ evs" "length evs \<le> k" "list_all (is_read dfid) evs" and
      c: "case r of None \<Rightarrow> length evs = k \<and> (\<forall>e \<in> set evs. \<not> matching want e)
        | Some rb \<Rightarrow> 7 \<le> length rb \<and> tag16 rb = want \<and> evs \<noteq> [] \<and> last evs = ERead dfid 0 464 (Inr rb) \<and>
            (\<forall>e \<in> set (butlast evs). \<not> matching want e)" by blast
    show ?thesis
      using e c nm by (intro exI [of _ "ERead dfid 0 464 a # evs"]) (auto split: option.splits)
  qed
qed simp

definition reads :: "nlog \<Rightarrow> nat" where
  "reads evs = length (filter (\<lambda>e. case e of ERead _ _ _ _ \<Rightarrow> True | _ \<Rightarrow> False) evs)"

definition writes :: "nlog \<Rightarrow> nat" where
  "writes evs = length (filter (\<lambda>e. case e of EWrite _ _ _ _ \<Rightarrow> True | _ \<Rightarrow> False) evs)"

lemma counts [simp]:
  "reads [] = 0" "writes [] = 0" "reads (xs @ ys) = reads xs + reads ys" "writes (xs @ ys) = writes xs + writes ys"
  "reads (EWrite a b c d # ys) = reads ys" "writes (EWrite a b c d # ys) = Suc (writes ys)"
  by (simp_all add: reads_def writes_def)

lemma counts_reads: "list_all (is_read f) evs \<Longrightarrow> reads evs = length evs \<and> writes evs = 0"
  by (induction evs) (auto simp: reads_def writes_def elim!: is_read.elims)

definition pump_log :: "u32 \<Rightarrow> byte list \<Rightarrow> byte list option \<Rightarrow> nlog \<Rightarrow> bool" where
  "pump_log dfid tx r evs \<longleftrightarrow>
     list_all (\<lambda>e. is_read dfid e \<or> is_write dfid tx e) evs \<and>
     (case r of
        None \<Rightarrow> \<forall>e \<in> set evs. \<not> matching (tag16 tx) e
      | Some rb \<Rightarrow> 7 \<le> length rb \<and> tag16 rb = tag16 tx \<and> evs \<noteq> [] \<and> last evs = ERead dfid 0 464 (Inr rb) \<and>
          (\<forall>e \<in> set (butlast evs). \<not> matching (tag16 tx) e))"

lemma pump_log_append:
  "list_all (\<lambda>e. is_read dfid e \<or> is_write dfid tx e) a \<Longrightarrow> \<forall>e \<in> set a. \<not> matching (tag16 tx) e \<Longrightarrow>
     pump_log dfid tx r b \<Longrightarrow> pump_log dfid tx r (a @ b)"
  by (auto simp: pump_log_def butlast_append split: option.splits)

lemma pump_attempts_run:
  "pump_attempts E dfid tx k h = (r, h') \<Longrightarrow>
     \<exists>evs. h' = h @ evs \<and> pump_log dfid tx r evs \<and> writes evs \<le> k \<and> reads evs \<le> 6 * k \<and> (r = None \<longrightarrow> writes evs = k)"
proof (induction k arbitrary: h)
  case 0
  then show ?case by (simp add: pump_log_def)
next
  case (Suc k)
  define a where "a = nc_write E h dfid 0 tx"
  let ?w = "EWrite dfid 0 tx a"
  show ?case
  proof (cases a)
    case (Inl e)
    then have "pump_attempts E dfid tx k (h @ [?w]) = (r, h')" using Suc.prems by (simp add: n_write_def a_def)
    from Suc.IH [OF this] obtain evs where e: "h' = (h @ [?w]) @ evs" "pump_log dfid tx r evs"
      "writes evs \<le> k" "reads evs \<le> 6 * k" "r = None \<longrightarrow> writes evs = k" by blast
    show ?thesis
      using e pump_log_append [of dfid tx "[?w]" r evs] by (intro exI [of _ "?w # evs"]) simp
  next
    case (Inr n)
    obtain r1 h2 where p: "pump_polls E dfid (tag16 tx) 6 (h @ [?w]) = (r1, h2)" by fastforce
    from pump_polls_run [OF p] obtain rs where rs: "h2 = (h @ [?w]) @ rs" "length rs \<le> 6" "list_all (is_read dfid) rs"
      "case r1 of None \<Rightarrow> length rs = 6 \<and> (\<forall>e \<in> set rs. \<not> matching (tag16 tx) e)
        | Some rb \<Rightarrow> 7 \<le> length rb \<and> tag16 rb = tag16 tx \<and> rs \<noteq> [] \<and> last rs = ERead dfid 0 464 (Inr rb) \<and>
            (\<forall>e \<in> set (butlast rs). \<not> matching (tag16 tx) e)" by blast
    have c: "reads rs \<le> 6" "writes rs = 0" using counts_reads [OF rs(3)] rs(2) by auto
    have al: "list_all (\<lambda>e. is_read dfid e \<or> is_write dfid tx e) rs" using rs(3) by (auto simp: list_all_iff)
    have wl: "list_all (\<lambda>e. is_read dfid e \<or> is_write dfid tx e) (?w # rs)" using al by simp
    show ?thesis
    proof (cases r1)
      case (Some rb)
      then have "r = Some rb" "h' = h2" using Suc.prems p Inr by (simp_all add: n_write_def a_def [symmetric])
      moreover have "pump_log dfid tx (Some rb) (?w # rs)" using rs(4) Some wl by (simp add: pump_log_def)
      ultimately show ?thesis using rs(1) c by (intro exI [of _ "?w # rs"]) simp
    next
      case None
      then have "pump_attempts E dfid tx k h2 = (r, h')" using Suc.prems p Inr by (simp add: n_write_def a_def [symmetric])
      from Suc.IH [OF this] obtain evs where e: "h' = h2 @ evs" "pump_log dfid tx r evs"
        "writes evs \<le> k" "reads evs \<le> 6 * k" "r = None \<longrightarrow> writes evs = k" by blast
      have "pump_log dfid tx r ((?w # rs) @ evs)"
        using rs(4) None wl by (intro pump_log_append e(2)) auto
      then show ?thesis using e rs(1) c by (intro exI [of _ "(?w # rs) @ evs"]) simp
    qed
  qed
qed

text \<open>
  The pump hands the nested client nothing but the reply to the message that was sent: a frame
  read from the conversation's data file that carries the message's tag, the first such frame that
  it read. It costs at most eight writes, each of the same message, and 48 reads, and it gives up
  only after eight writes. Without a conversation it does nothing at all.
\<close>

theorem pump_delivers_reply:
  assumes "ct_sem t" and "pump_turn E t h = (r, t', h')"
  shows "t' = t\<lparr>ct_sem := False\<rparr> \<and>
    (\<not> ct_connected t \<longrightarrow> r = None \<and> h' = h) \<and>
    (ct_connected t \<longrightarrow>
      (\<exists>evs. h' = h @ evs \<and> pump_log (ct_data t) (ct_tx t) r evs \<and> writes evs \<le> 8 \<and> reads evs \<le> 48 \<and>
         (r = None \<longrightarrow> writes evs = 8)))"
  using assms pump_attempts_run [of E "ct_data t" "ct_tx t" 8 h r h']
  by (auto simp: pump_turn_def Let_def split: prod.splits if_splits)

subsection \<open>Fids of the conversation\<close>

text \<open>The fids a connected transport holds.\<close>

definition ct_fids :: "ct \<Rightarrow> u32 multiset" where
  "ct_fids t = (if ct_connected t then {#ct_ctl t, ct_data t#} else {#})"

definition ct_wf :: "ct \<Rightarrow> bool" where
  "ct_wf t \<longleftrightarrow> (ct_connected t \<longrightarrow> ct_ctl t \<noteq> NOFID \<and> ct_data t \<noteq> NOFID \<and> length (ct_peer t) \<le> 23)"

lemma held_clunk_if [simp]: "held (clunk_if E f h) = (if f = NOFID then held h else held h - {#f#})"
  by (simp add: clunk_if_def)

lemma disconnect_fids:
  assumes "ct_wf t" and "held h = M + ct_fids t"
    and "aether_conv_transport_disconnect E (t, h) = (t', h')"
  shows "held h' = M \<and> \<not> ct_connected t' \<and> ct_fids t' = {#} \<and> ct_wf t' \<and> ct_conv t' = -1
    \<and> ct_ctl t' = NOFID \<and> ct_data t' = NOFID"
  using assms by (auto simp: aether_conv_transport_disconnect_def ct_wf_def ct_fids_def)

lemma conv_dial_fids:
  assumes "ncl_ok E" and "conv_dial E root peer h = (r, h')"
  shows "case r of Inl e \<Rightarrow> held h' = held h
    | Inr (ctl, data, conv) \<Rightarrow> held h' = held h + {#ctl, data#} \<and> ctl \<noteq> NOFID \<and> data \<noteq> NOFID"
proof -
  have "fid_var (Inl (e, w)) = NOFID" if "nc_walk E h' r p = Inl (e, w)" for h' r p e w
    using ncl_okD(2) [OF assms(1)] that by (cases w) (auto simp: fid_var_def)
  then show ?thesis
    using assms(2) ncl_okD(1) [OF assms(1)]
    by (auto simp: conv_dial_def conv_fail_def ninep_simps Let_def split: sum.splits if_splits)
qed

lemma conv_connect_fids:
  assumes ok: "ncl_ok E" and w: "ct_wf t" and h: "held h = M + ct_fids t" and p: "length peer \<le> 23"
    and run: "aether_conv_transport_connect E root peer (t, h) = (r, t', h')"
  shows "ct_wf t' \<and> held h' = M + ct_fids t' \<and> (ct_connected t' \<longleftrightarrow> is_ok r) \<and> (is_ok r \<longrightarrow> ct_peer t' = peer)"
proof (cases "ct_connected t \<and> ct_peer t = peer")
  case True
  then show ?thesis using run w h by (auto simp: aether_conv_transport_connect_def)
next
  case False
  obtain t1 h1 where d: "aether_conv_transport_disconnect E (t, h) = (t1, h1)" by fastforce
  note d' = disconnect_fids [OF w h d]
  obtain x h2 where c: "conv_dial E root peer h1 = (x, h2)" by fastforce
  show ?thesis
    using False run d d' c conv_dial_fids [OF ok c] p
    by (cases x) (auto simp: aether_conv_transport_connect_def ct_wf_def ct_fids_def split: prod.splits)
qed

text \<open>
  Connecting the transport leaks no fid on any path. Afterwards it either holds exactly the two
  fids of the new conversation, bound to the wanted peer, or the call failed, it is disconnected
  and holds none; all others that were held are still held. A second call for the same peer does
  nothing, and disconnecting gives both fids back.
\<close>

theorem conv_transport_fids:
  assumes ok: "ncl_ok E" and w: "ct_wf t" and h: "held h = M + ct_fids t" and p: "length peer \<le> 23"
    and run: "aether_conv_transport_connect E root peer (t, h) = (r, t', h')"
  shows "ct_wf t' \<and> held h' = M + ct_fids t' \<and> (ct_connected t' \<longleftrightarrow> is_ok r) \<and> (is_ok r \<longrightarrow> ct_peer t' = peer) \<and>
    (is_ok r \<longrightarrow> aether_conv_transport_connect E root2 peer (t', h') = (Inr (), t', h')) \<and>
    held (snd (aether_conv_transport_disconnect E (t', h'))) = M"
proof -
  note main = conv_connect_fids [OF ok w h p run]
  moreover obtain t2 h2 where "aether_conv_transport_disconnect E (t', h') = (t2, h2)" by fastforce
  ultimately show ?thesis
    using disconnect_fids [of t' h' M E t2 h2] by (auto simp: aether_conv_transport_connect_def)
qed

end
