(* ===== verification/RelayProps.thy ===== *)
theory RelayProps
  imports Relay ConvTransportProps
begin

text \<open>
  Properties of the relay: how it attaches, that no handler leaks a fid, what the streams write,
  when a new image is confirmed, and that the link comes up again.
\<close>

subsection \<open>What a handler leaves alone\<close>

text \<open>The part of the state that is about fids held for files and for the nested mount.\<close>

definition file_fids :: "relay \<Rightarrow> u32 multiset" where
  "file_fids S = (if rl_writing S then {#rl_wfid S#} else {#}) + (if rl_push_writing S then {#rl_push_wfid S#} else {#})"

definition rl_files where
  "rl_files S = (rl_writing S, rl_wfid S, rl_push_writing S, rl_push_wfid S, rl_ct S, rl_mesh_peer S)"

definition rl_image where
  "rl_image S = (rl_autoconfirm S, rl_armed S, rl_staged_major S, rl_staged_minor S, rl_staged_rev S, rl_staged_valid S, rl_woff S)"

text \<open>
  A handler that only talks to the nRF9151: it extends the log, holds what it held, and keeps
  the streams, the nested mount and the staged image; if the link was consistent it still is.
\<close>

definition quiet :: "relay \<Rightarrow> relay \<Rightarrow> bool" where
  "quiet S S' \<longleftrightarrow> (\<exists>evs. rl_log S' = rl_log S @ evs) \<and> held (rl_log S') = held (rl_log S) \<and>
     rl_files S' = rl_files S \<and> rl_image S' = rl_image S \<and>
     ((rl_attached S \<longrightarrow> rl_versioned S) \<longrightarrow> rl_attached S' \<longrightarrow> rl_versioned S')"

lemma quiet_refl [simp]: "quiet S S"
  by (simp add: quiet_def)

lemma quiet_trans: "quiet S S1 \<Longrightarrow> quiet S1 S2 \<Longrightarrow> quiet S S2"
  by (auto simp: quiet_def)

lemma ensure_quiet: "quiet S (snd (mesh_ensure_attached E S))"
  by (auto simp: quiet_def rl_files_def rl_image_def mesh_ensure_attached_def mesh_reversion_def mesh_attach_def
      mesh_attached_ok_def mesh_note_contact_def ninep_simps Let_def split: sum.splits option.splits prod.splits)

text \<open>Opening: afterwards one more fid is held, or none.\<close>

definition opened :: "relay \<Rightarrow> u32 res \<times> relay \<Rightarrow> bool" where
  "opened S rS \<longleftrightarrow> (case rS of
     (Inl e, S') \<Rightarrow> quiet S S'
   | (Inr f, S') \<Rightarrow> \<exists>evs. rl_log S' = rl_log S @ evs \<and> held (rl_log S') = add_mset f (held (rl_log S)) \<and>
       rl_files S' = rl_files S \<and> rl_image S' = rl_image S \<and>
       ((rl_attached S \<longrightarrow> rl_versioned S) \<longrightarrow> rl_attached S' \<longrightarrow> rl_versioned S'))"

lemma opened_quiet: "quiet S S1 \<Longrightarrow> opened S1 rS \<Longrightarrow> opened S rS"
  unfolding opened_def by (cases rS; cases "fst rS") (auto intro: quiet_trans, auto simp: quiet_def)

lemma open_tries_opened: "opened S (open_tries E path mode ret k S)"
proof (induction k arbitrary: S ret)
  case (Suc k)
  obtain r S1 where a: "mesh_ensure_attached E S = (r, S1)" by fastforce
  then have q: "quiet S S1" using ensure_quiet [of S E] by simp
  show ?case
  proof (cases r)
    case (Inl e)
    then show ?thesis using a q by (simp add: opened_def)
  next
    case (Inr root)
    show ?thesis
    proof (cases "nc_walk E (rl_log S1) root path")
      case (Inl ew)
      obtain e w where ew: "ew = (e, w)" by fastforce
      let ?S2 = "S1\<lparr>rl_log := rl_log S1 @ [EWalk root path (Inl (e, w))], rl_attached := False\<rparr>"
      have "quiet S1 ?S2" by (simp add: quiet_def rl_files_def rl_image_def)
      then have "opened S (open_tries E path mode e k ?S2)"
        using Suc.IH [of ?S2 e] q by (blast intro: opened_quiet quiet_trans)
      then show ?thesis using a Inr Inl ew by (simp add: n_walk_def)
    next
      case fid: (Inr fid)
      have "opened S1 (open_tries E path mode ret (Suc k) S)"
        using a Inr fid by (cases "nc_open E (rl_log S1 @ [EWalk root path (Inr fid)]) fid mode")
          (auto simp: opened_def quiet_def rl_files_def rl_image_def ninep_simps)
      then show ?thesis using q by (rule opened_quiet [rotated])
    qed
  qed
qed (simp add: opened_def)

lemma open_remote_opened: "opened S (fw9151_open_remote E path mode S)"
  unfolding fw9151_open_remote_def by (rule open_tries_opened)

lemma state_read_quiet: "quiet S (snd (aether_state_read E path sz off S))"
proof -
  obtain r S1 where o: "fw9151_open_remote E path OREAD S = (r, S1)" by fastforce
  then show ?thesis
    using open_remote_opened [of S E path OREAD]
    by (cases r) (auto simp: opened_def aether_state_read_def quiet_def rl_files_def rl_image_def ninep_simps
        mesh_note_contact_def Let_def)
qed

lemma one_shot_quiet: "quiet S (snd (one_shot_write E path buf S))"
proof -
  obtain r S1 where o: "fw9151_open_remote E path OWRITE S = (r, S1)" by fastforce
  then show ?thesis
    using open_remote_opened [of S E path OWRITE]
    by (cases r) (auto simp: opened_def one_shot_write_def quiet_def rl_files_def rl_image_def ninep_simps)
qed

lemma state_write_quiet: "quiet S (snd (aether_state_write E path buf S))"
  using one_shot_quiet [of S E path buf] by (cases "one_shot_write E path buf S") (simp add: aether_state_write_def)

lemma push_ctl_quiet: "quiet S (snd (push_ctl_write E buf S))"
proof -
  obtain r S1 where o: "one_shot_write E (ascii ''dev/push_ctl'') buf S = (r, S1)" by fastforce
  then have "quiet S S1" using one_shot_quiet [of S E "ascii ''dev/push_ctl''" buf] by simp
  moreover have "quiet S1 (mesh_note_contact E S1)"
    by (simp add: quiet_def mesh_note_contact_def rl_files_def rl_image_def)
  ultimately show ?thesis using o by (cases r) (auto simp: push_ctl_write_def intro: quiet_trans)
qed

lemma ctl_write_quiet: "quiet S (snd (fw9151_ctl_write E path d reset S))"
proof -
  obtain r S1 where o: "fw9151_open_remote E path OWRITE S = (r, S1)" by fastforce
  then show ?thesis
    using open_remote_opened [of S E path OWRITE]
    by (cases r) (auto simp: opened_def fw9151_ctl_write_def quiet_def rl_files_def rl_image_def ninep_simps Let_def)
qed

subsection \<open>Attaching\<close>

text \<open>
  C27. Attaching disturbs the nRF9151 as little as can be. On a live link nothing is sent and
  nothing changes. Otherwise at most three messages go out, and a Tversion, which clears all fids
  of the other side, only if the link was never versioned or a Tattach has just been refused.
  The call succeeds if and only if the link is up afterwards, and then its result is the root
  fid of the last attach.
\<close>

theorem attach_nondestructive:
  assumes "mesh_ensure_attached E S = (r, S')"
  shows "(rl_attached S \<longrightarrow> S' = S \<and> r = Inr (rl_root S)) \<and>
    (is_ok r \<longleftrightarrow> rl_attached S') \<and> (\<forall>f. r = Inr f \<longrightarrow> f = rl_root S') \<and>
    (\<not> rl_attached S \<longrightarrow>
      (\<exists>evs. rl_log S' = rl_log S @ evs \<and> evs \<noteq> [] \<and> length evs \<le> 3 \<and>
         (\<forall>c a. EVersion c a \<in> set evs \<longrightarrow> \<not> rl_versioned S \<or> (\<exists>e. hd evs = EAttach Carrier (Inl e))) \<and>
         (is_ok r \<longrightarrow> rl_versioned S' \<and> last evs = EAttach Carrier (Inr (rl_root S')))))"
  using assms
  by (auto simp: mesh_ensure_attached_def mesh_reversion_def mesh_attach_def
      mesh_attached_ok_def mesh_note_contact_def ninep_simps Let_def split: sum.splits option.splits prod.splits if_splits)

subsection \<open>Streams\<close>

definition accepted :: "nlog \<Rightarrow> byte list" where
  "accepted evs = concat (map (\<lambda>e. case e of EWrite f off d (Inr w) \<Rightarrow> take w d | _ \<Rightarrow> []) evs)"

lemma accepted_simps [simp]:
  "accepted [] = []" "accepted (EWrite f off d (Inr w) # evs) = take w d @ accepted evs"
  "accepted (EWrite f off d (Inl e) # evs) = accepted evs"
  by (simp_all add: accepted_def)

text \<open>Pieces written one after the other, each where the bytes accepted before it end.\<close>

fun contiguous :: "u32 \<Rightarrow> u64 \<Rightarrow> nat \<Rightarrow> nat \<Rightarrow> nlog \<Rightarrow> bool" where
  "contiguous fid base mx dn [] = True"
| "contiguous fid base mx dn (EWrite f off d a # evs) =
     (f = fid \<and> off = base + of_nat dn \<and> d \<noteq> [] \<and> length d \<le> mx \<and>
      (case a of Inl e \<Rightarrow> evs = []
       | Inr w \<Rightarrow> w \<le> length d \<and> (w < length d \<longrightarrow> evs = []) \<and> contiguous fid base mx (dn + w) evs))"
| "contiguous fid base mx dn (e # evs) = False"

text \<open>What the pieces written and the result have to do with each other.\<close>

definition chunk_done :: "u32 \<Rightarrow> byte list \<Rightarrow> nat \<Rightarrow> nlog \<Rightarrow> nat res \<Rightarrow> bool" where
  "chunk_done fid buf dn evs r \<longleftrightarrow> accepted evs = segment dn (length (accepted evs)) buf \<and>
     (case r of
        Inr n \<Rightarrow> n = dn + length (accepted evs) \<and> n \<le> length buf \<and>
          (n < length buf \<longrightarrow> (\<exists>off d w. evs \<noteq> [] \<and> last evs = EWrite fid off d (Inr w) \<and> w < length d))
      | Inl e \<Rightarrow> \<exists>off d. evs \<noteq> [] \<and> last evs = EWrite fid off d (Inl e))"

lemma chunk_done_step:
  assumes "chunk_done fid buf (dn + n) evs r" and "dn + n \<le> length buf" and "take n d = segment dn n buf"
  shows "chunk_done fid buf dn (EWrite fid off d (Inr n) # evs) r"
proof -
  have l: "length (segment dn n buf) = n" using assms(2) by simp
  have "accepted (EWrite fid off d (Inr n) # evs) = segment dn n buf @ segment (dn + n) (length (accepted evs)) buf"
    using assms(1,3) by (simp only: chunk_done_def accepted_simps)
  also have "\<dots> = segment dn (n + length (accepted evs)) buf" by (rule segment_append)
  finally have acc: "accepted (EWrite fid off d (Inr n) # evs) = segment dn (n + length (accepted evs)) buf" .
  have len: "length (accepted (EWrite fid off d (Inr n) # evs)) = n + length (accepted evs)"
    using l assms(3) by (simp only: accepted_simps length_append)
  have "accepted (EWrite fid off d (Inr n) # evs)
      = segment dn (length (accepted (EWrite fid off d (Inr n) # evs))) buf"
    unfolding len by (rule acc)
  then show ?thesis
    using assms(1) unfolding chunk_done_def len by (cases r) auto
qed

lemma chunk_loop_run:
  assumes ok: "ncl_ok E" and c: "0 < nc_chunk E"
  shows "dn \<le> length buf \<Longrightarrow> \<exists>r evs. chunk_loop E fid base buf dn h = Some (r, h @ evs) \<and>
     contiguous fid base (nc_chunk E) dn evs \<and> held (h @ evs) = held h \<and> chunk_done fid buf dn evs r"
proof (induction "length buf - dn" arbitrary: dn h rule: less_induct)
  case less
  show ?case
  proof (cases "dn = length buf")
    case True
    then show ?thesis
      by (intro exI [of _ "Inr dn"] exI [of _ "[]"]) (simp add: chunk_loop.simps chunk_done_def segment_def)
  next
    case False
    define n where "n = min (length buf - dn) (nc_chunk E)"
    define d where "d = segment dn n buf"
    define a where "a = nc_write E h fid (base + of_nat dn) d"
    define e where "e = EWrite fid (base + of_nat dn) d a"
    have n: "0 < n" "length d = n" "n \<le> nc_chunk E" "dn + n \<le> length buf"
      using False less.prems c by (auto simp: n_def d_def)
    have d0: "d \<noteq> []" using n by auto
    have hld: "held (h @ [e]) = held h" by (simp add: e_def)
    have loop: "chunk_loop E fid base buf dn h = (case a of Inl x \<Rightarrow> Some (Inl x, h @ [e])
        | Inr w \<Rightarrow> if w < n then Some (Inr (dn + w), h @ [e]) else chunk_loop E fid base buf (dn + w) (h @ [e]))"
      using False less.prems by (subst chunk_loop.simps)
        (cases a; simp add: n_write_def Let_def n_def [symmetric] d_def [symmetric] a_def [symmetric] e_def)
    show ?thesis
    proof (cases a)
      case (Inl x)
      have "contiguous fid base (nc_chunk E) dn [e]" using Inl n d0 by (simp add: e_def)
      moreover have "chunk_done fid buf dn [e] (Inl x)" using Inl by (simp add: e_def chunk_done_def segment_def)
      moreover have "chunk_loop E fid base buf dn h = Some (Inl x, h @ [e])" using loop Inl by simp
      ultimately show ?thesis using hld by blast
    next
      case (Inr w)
      have w: "w \<le> n" using ncl_okD(4) [OF ok] Inr n by (metis a_def)
      have tk: "take w d = segment dn w buf" using w by (simp add: d_def segment_def min_def)
      show ?thesis
      proof (cases "w < n")
        case True
        have "contiguous fid base (nc_chunk E) dn [e]" using Inr n d0 True by (simp add: e_def)
        moreover have "chunk_done fid buf dn [e] (Inr (dn + w))"
          using Inr tk True n by (simp add: e_def chunk_done_def)
        moreover have "chunk_loop E fid base buf dn h = Some (Inr (dn + w), h @ [e])" using loop Inr True by simp
        ultimately show ?thesis using hld by blast
      next
        case False
        then have wn: "w = n" using w by simp
        have "length buf - (dn + n) < length buf - dn" "dn + n \<le> length buf" using n by simp_all
        from less.hyps [OF this, of "h @ [e]"] obtain r evs where
          i: "chunk_loop E fid base buf (dn + n) (h @ [e]) = Some (r, (h @ [e]) @ evs)"
            "contiguous fid base (nc_chunk E) (dn + n) evs" "held ((h @ [e]) @ evs) = held (h @ [e])"
            "chunk_done fid buf (dn + n) evs r" by blast
        have "chunk_loop E fid base buf dn h = Some (r, h @ e # evs)" using loop Inr wn i(1) by simp
        moreover have "contiguous fid base (nc_chunk E) dn (e # evs)" using Inr wn i(2) n d0 by (simp add: e_def)
        moreover have "held (h @ e # evs) = held h" using i(3) hld by simp
        moreover have "chunk_done fid buf dn (e # evs) r"
          using chunk_done_step [OF i(4) n(4), of d "base + of_nat dn"] tk wn Inr by (simp add: e_def)
        ultimately show ?thesis by blast
      qed
    qed
  qed
qed

text \<open>A piece is a whole chunk, or what is left; so the number of pieces is bounded.\<close>

lemma chunk_loop_calls:
  assumes ok: "ncl_ok E" and c: "0 < nc_chunk E"
  shows "dn \<le> length buf \<Longrightarrow> \<exists>r evs. chunk_loop E fid base buf dn h = Some (r, h @ evs) \<and>
     length evs * nc_chunk E < length buf - dn + nc_chunk E"
proof (induction "length buf - dn" arbitrary: dn h rule: less_induct)
  case less
  show ?case
  proof (cases "dn = length buf")
    case True
    then show ?thesis using c by (intro exI [of _ "Inr dn"] exI [of _ "[]"]) (simp add: chunk_loop.simps)
  next
    case False
    define n where "n = min (length buf - dn) (nc_chunk E)"
    define a where "a = nc_write E h fid (base + of_nat dn) (segment dn n buf)"
    define e where "e = EWrite fid (base + of_nat dn) (segment dn n buf) a"
    have n: "0 < n" "dn + n \<le> length buf" using False less.prems c by (auto simp: n_def)
    have loop: "chunk_loop E fid base buf dn h = (case a of Inl x \<Rightarrow> Some (Inl x, h @ [e])
        | Inr w \<Rightarrow> if w < n then Some (Inr (dn + w), h @ [e]) else chunk_loop E fid base buf (dn + w) (h @ [e]))"
      using False less.prems by (subst chunk_loop.simps)
        (cases a; simp add: n_write_def Let_def n_def [symmetric] a_def [symmetric] e_def)
    have one: "length [e] * nc_chunk E < length buf - dn + nc_chunk E" using n by simp
    show ?thesis
    proof (cases a)
      case (Inl x)
      then have "chunk_loop E fid base buf dn h = Some (Inl x, h @ [e])" using loop by simp
      with one show ?thesis by blast
    next
      case (Inr w)
      have "w \<le> length (segment dn n buf)" using ncl_okD(4) [OF ok] Inr by (metis a_def)
      then have w: "w \<le> n" by simp
      show ?thesis
      proof (cases "w < n")
        case True
        then have "chunk_loop E fid base buf dn h = Some (Inr (dn + w), h @ [e])" using loop Inr by simp
        with one show ?thesis by blast
      next
        case False
        have "length buf - (dn + n) < length buf - dn" using n by simp
        from less.hyps [OF this n(2), of "h @ [e]"] obtain r evs where
          i: "chunk_loop E fid base buf (dn + n) (h @ [e]) = Some (r, (h @ [e]) @ evs)"
            "length evs * nc_chunk E < length buf - (dn + n) + nc_chunk E" by blast
        have "chunk_loop E fid base buf dn h = Some (r, h @ e # evs)" using loop Inr w False i(1) by simp
        moreover have "length (e # evs) * nc_chunk E < length buf - dn + nc_chunk E"
        proof (cases "nc_chunk E \<le> length buf - dn")
          case True
          then have "n = nc_chunk E" by (simp add: n_def)
          then show ?thesis using i(2) n(2) by simp
        next
          case False
          then have "n = length buf - dn" by (simp add: n_def)
          then have "dn + n = length buf" using n by simp
          then have "length evs * nc_chunk E < nc_chunk E" using i(2) by simp
          then have "evs = []" by (cases evs) auto
          then show ?thesis using one by simp
        qed
        ultimately show ?thesis by blast
      qed
    qed
  qed
qed

lemma chunk_loop_stuck:
  assumes ok: "ncl_ok E" and w: "\<And>h off. \<exists>n. nc_write E h fid off [] = Inr n"
    and run: "chunk_loop E fid base buf dn h = Some y" and z: "nc_chunk E = 0" "buf \<noteq> []" "dn = 0"
  shows False
proof -
  have stay: "nc_write E h fid off [] = Inr 0" for h off
    using w [of h off] ncl_okD(4) [OF ok, of h fid off "[]"] by auto
  define Q where "Q = (\<lambda>F f (base :: u64) (b :: byte list) d (h :: nlog) (y :: nat res \<times> nlog). \<not> (F = E \<and> f = fid \<and> b \<noteq> [] \<and> d = (0::nat)))"
  have "Q E fid base buf dn h y"
  proof (rule chunk_loop.raw_induct [OF _ run])
    fix loop F f base b d h y
    assume ih: "\<And>F f base b d h y. loop F f base b d h = Some y \<Longrightarrow> Q F f base b d h y"
    assume body: "(if length b \<le> d then Some (Inr d, h)
      else let n = min (length b - d) (nc_chunk F);
               (r, h1) = n_write F f (base + of_nat d) (segment d n b) h
           in (case r of Inl e \<Rightarrow> Some (Inl e, h1)
               | Inr w \<Rightarrow> if w < n then Some (Inr (d + w), h1) else loop F f base b (d + w) h1)) = Some y"
    show "Q F f base b d h y"
    proof (cases "F = E \<and> f = fid \<and> b \<noteq> [] \<and> d = 0")
      case True
      then have "loop F f base b d (h @ [EWrite fid base [] (Inr 0)]) = Some y"
        using body z(1) stay by (simp add: n_write_def segment_def)
      from ih [OF this] True show ?thesis by (simp add: Q_def)
    qed (simp add: Q_def)
  qed
  then show False using z by (simp add: Q_def)
qed

text \<open>
  C37. The loops that forward a block end: with pieces of at least one byte a block of \<open>n\<close> bytes
  takes at most \<open>n / chunk\<close> writes, rounded up, whatever the nRF9151 answers. With empty pieces
  they would never end on a block that is not empty, as long as the writes do not fail.
\<close>

theorem stream_loop_terminates:
  assumes ok: "ncl_ok E"
  shows "(0 < nc_chunk E \<longrightarrow> (\<exists>r evs. chunk_loop E fid base buf 0 h = Some (r, h @ evs) \<and>
      length evs \<le> (length buf + nc_chunk E - 1) div nc_chunk E)) \<and>
    (nc_chunk E = 0 \<and> buf \<noteq> [] \<and> (\<forall>h off. \<exists>n. nc_write E h fid off [] = Inr n) \<longrightarrow>
      chunk_loop E fid base buf 0 h = None)"
proof (intro conjI impI)
  assume c: "0 < nc_chunk E"
  obtain r evs where l: "chunk_loop E fid base buf 0 h = Some (r, h @ evs)"
    "length evs * nc_chunk E < length buf + nc_chunk E" using chunk_loop_calls [OF ok c, where dn = 0 and buf = buf and fid = fid and base = base and h = h] by auto
  then have "length evs * nc_chunk E \<le> length buf + nc_chunk E - 1" by simp
  then have "length evs \<le> (length buf + nc_chunk E - 1) div nc_chunk E" using c by (simp add: less_eq_div_iff_mult_less_eq)
  with l(1) show "\<exists>r evs. chunk_loop E fid base buf 0 h = Some (r, h @ evs) \<and>
      length evs \<le> (length buf + nc_chunk E - 1) div nc_chunk E" by blast
next
  assume z: "nc_chunk E = 0 \<and> buf \<noteq> [] \<and> (\<forall>h off. \<exists>n. nc_write E h fid off [] = Inr n)"
  then show "chunk_loop E fid base buf 0 h = None"
    using chunk_loop_stuck [OF ok, of fid base buf 0 h] by (cases "chunk_loop E fid base buf 0 h") auto
qed


subsection \<open>The relay as a system\<close>

datatype relay_op =
    Attach | Down | Host_gone | Mount | Unmount | Peer "byte list" | Read_file "byte list" nat u64
  | Write_file "byte list" "byte list" | Push_ctl "byte list" | Reboot "byte list" | Confirm "byte list"
  | Fw_write "byte list" | Fw_clunk | Push_write "byte list" u64 | Push_clunk | Auto "byte list" | Monitor

fun relay_handler :: "ncl \<Rightarrow> relay_op \<Rightarrow> relay \<Rightarrow> relay option" where
  "relay_handler E Attach S = Some (snd (mesh_remote_root E S))"
| "relay_handler E Down S = Some (mesh_remote_down S)"
| "relay_handler E Host_gone S = Some (mesh_host_disconnected S)"
| "relay_handler E Mount S = Some (snd (mesh9p_remote_root E S))"
| "relay_handler E Unmount S = Some (mesh9p_remote_down E S)"
| "relay_handler E (Peer buf) S = Some (snd (fw_write_mesh_peer E buf S))"
| "relay_handler E (Read_file path sz off) S = Some (snd (aether_state_read E path sz off S))"
| "relay_handler E (Write_file path buf) S = Some (snd (aether_state_write E path buf S))"
| "relay_handler E (Push_ctl buf) S = Some (snd (push_ctl_write E buf S))"
| "relay_handler E (Reboot buf) S = Some (snd (fw9151_reboot_write E buf S))"
| "relay_handler E (Confirm buf) S = Some (snd (fw9151_confirm_write E buf S))"
| "relay_handler E (Fw_write buf) S = map_option snd (fw9151_write E buf S)"
| "relay_handler E Fw_clunk S = Some (snd (fw9151_clunk E S))"
| "relay_handler E (Push_write buf off) S = map_option snd (push_write E buf off S)"
| "relay_handler E Push_clunk S = Some (snd (push_clunk E S))"
| "relay_handler E (Auto buf) S = Some (snd (fw9151auto_write buf S))"
| "relay_handler E Monitor S = Some (snd (mesh_link_monitor_turn E S))"

inductive relay_reach :: "ncl \<Rightarrow> nat \<Rightarrow> relay \<Rightarrow> bool" for E M where
  boot: "relay_reach E M (relay_boot M)"
| step: "relay_reach E M S \<Longrightarrow> relay_handler E op S = Some S' \<Longrightarrow> relay_reach E M S'"

definition rl_inv :: "relay \<Rightarrow> bool" where
  "rl_inv S \<longleftrightarrow> held (rl_log S) = file_fids S + ct_fids (rl_ct S) \<and> ct_wf (rl_ct S) \<and>
     (rl_attached S \<longrightarrow> rl_versioned S) \<and> length (rl_mesh_peer S) \<le> 23"

lemma file_fids_eq: "rl_files S' = rl_files S \<Longrightarrow> file_fids S' = file_fids S \<and> rl_ct S' = rl_ct S \<and> rl_mesh_peer S' = rl_mesh_peer S"
  by (simp add: rl_files_def file_fids_def)

lemma quiet_inv: "rl_inv S \<Longrightarrow> quiet S S' \<Longrightarrow> rl_inv S'"
  using file_fids_eq [of S' S] by (auto simp: rl_inv_def quiet_def)

lemma inv_fields [simp]:
  "rl_inv (S\<lparr>rl_armed := a\<rparr>) = rl_inv S" "rl_inv (S\<lparr>rl_autoconfirm := a\<rparr>) = rl_inv S"
  "rl_inv (S\<lparr>rl_relink_attempts := n\<rparr>) = rl_inv S" "rl_inv (S\<lparr>rl_relink_total := n\<rparr>) = rl_inv S"
  by (simp_all add: rl_inv_def file_fids_def)

lemma length_mesh_peer_text: "length (mesh_peer_text buf) \<le> 23"
  by (simp add: mesh_peer_text_def Let_def snprintf_out_def)

lemma disconnect_inv:
  assumes "rl_inv S"
  shows "rl_inv (snd (fw_write_mesh_peer E buf S)) \<and> rl_inv (mesh9p_remote_down E S)"
proof -
  obtain t h where d: "aether_conv_transport_disconnect E (rl_ct S, rl_log S) = (t, h)" by fastforce
  have "held h = file_fids S \<and> \<not> ct_connected t \<and> ct_fids t = {#} \<and> ct_wf t"
    using disconnect_fids [OF _ _ d, of "file_fids S"] assms by (auto simp: rl_inv_def)
  then show ?thesis
    using assms d length_mesh_peer_text [of buf]
    by (simp add: fw_write_mesh_peer_def mesh9p_remote_down_def rl_inv_def file_fids_def)
qed

lemma mount_inv:
  assumes ok: "ncl_ok E" and i: "rl_inv S"
  shows "rl_inv (snd (mesh9p_remote_root E S))"
proof (cases "rl_mesh_peer S = [] \<or> rl_m9_attached S")
  case True
  then show ?thesis using i by (auto simp: mesh9p_remote_root_def)
next
  case False
  obtain r S1 where a: "mesh_ensure_attached E S = (r, S1)" by fastforce
  then have i1: "rl_inv S1" using quiet_inv [OF i ensure_quiet [of S E]] by simp
  show ?thesis
  proof (cases r)
    case (Inl e)
    then show ?thesis using a i1 False by (simp add: mesh9p_remote_root_def)
  next
    case (Inr root)
    obtain x t h where c: "aether_conv_transport_connect E root (rl_mesh_peer S1) (rl_ct S1, rl_log S1) = (x, t, h)"
      by (metis prod_cases3)
    have "ct_wf t \<and> held h = file_fids S1 + ct_fids t"
      using conv_connect_fids [OF ok _ _ _ c, of "file_fids S1"] i1 by (auto simp: rl_inv_def)
    then have i2: "rl_inv (S1\<lparr>rl_ct := t, rl_log := h\<rparr>)" using i1 by (simp add: rl_inv_def file_fids_def)
    have "rl_inv (snd (mesh9p_handshake E (S1\<lparr>rl_ct := t, rl_log := h\<rparr>)))"
      using i2 by (auto simp: mesh9p_handshake_def ninep_simps rl_inv_def file_fids_def split: sum.splits prod.splits option.splits)
    then show ?thesis using a Inr c i2 False by (cases x) (auto simp: mesh9p_remote_root_def)
  qed
qed

lemma stage_header_inv: "rl_inv (stage_header buf S) = rl_inv S" "rl_writing (stage_header buf S) = rl_writing S"
  by (simp_all add: stage_header_def rl_inv_def file_fids_def)

lemma opened_stream:
  assumes "rl_inv S" and "opened S (Inr f, S0)" and "\<not> rl_writing S"
  shows "rl_inv (S0\<lparr>rl_wfid := f, rl_writing := True, rl_woff := 0\<rparr>)"
  using assms by (simp add: opened_def rl_inv_def rl_files_def file_fids_def)

lemma fw_write_inv:
  assumes ok: "ncl_ok E" and c: "0 < nc_chunk E" and i: "rl_inv S"
  shows "\<exists>r S'. fw9151_write E buf S = Some (r, S') \<and> rl_inv S'"
proof -
  obtain b S1 where bg: "fw9151_begin E buf S = (b, S1)" by fastforce
  have i1: "rl_inv S1 \<and> (is_ok b \<longrightarrow> rl_writing S1)"
  proof (cases "rl_writing S")
    case True
    then show ?thesis using bg i by (simp add: fw9151_begin_def)
  next
    case False
    obtain r S0 where o: "fw9151_open_remote E (ascii ''dev/firmware'') OWRITE S = (r, S0)" by fastforce
    have op: "opened S (r, S0)" using open_remote_opened [of S E "ascii ''dev/firmware''" OWRITE] o by simp
    show ?thesis
    proof (cases r)
      case (Inl e)
      then show ?thesis using bg o op False quiet_inv [OF i] by (auto simp: fw9151_begin_def opened_def)
    next
      case (Inr f)
      then have "S1 = stage_header buf (S0\<lparr>rl_wfid := f, rl_writing := True, rl_woff := 0\<rparr>)"
        using bg o False by (simp add: fw9151_begin_def)
      then show ?thesis using opened_stream [OF i op [unfolded Inr] False] by (simp add: stage_header_inv)
    qed
  qed
  show ?thesis
  proof (cases b)
    case (Inl e)
    then show ?thesis using bg i1 by (simp add: fw9151_write_def)
  next
    case (Inr u)
    obtain r evs where l: "chunk_loop E (rl_wfid S1) (rl_woff S1) buf 0 (rl_log S1) = Some (r, rl_log S1 @ evs)"
      "held (rl_log S1 @ evs) = held (rl_log S1)"
      using chunk_loop_run [OF ok c, of 0 buf] by blast
    show ?thesis
      using bg Inr l i1 by (cases r) (auto simp: fw9151_write_def rl_inv_def file_fids_def)
  qed
qed

lemma push_write_inv:
  assumes ok: "ncl_ok E" and c: "0 < nc_chunk E" and i: "rl_inv S"
  shows "\<exists>r S'. push_write E buf off S = Some (r, S') \<and> rl_inv S'"
proof -
  obtain b S1 where bg: "push_begin E S = (b, S1)" by fastforce
  have i1: "rl_inv S1 \<and> (is_ok b \<longrightarrow> rl_push_writing S1)"
  proof (cases "rl_push_writing S")
    case True
    then show ?thesis using bg i by (simp add: push_begin_def)
  next
    case False
    obtain r S0 where o: "fw9151_open_remote E (ascii ''dev/push'') OWRITE S = (r, S0)" by fastforce
    have op: "opened S (r, S0)" using open_remote_opened [of S E "ascii ''dev/push''" OWRITE] o by simp
    show ?thesis
    proof (cases r)
      case (Inl e)
      then show ?thesis using bg o op False quiet_inv [OF i] by (auto simp: push_begin_def opened_def)
    next
      case (Inr f)
      then show ?thesis
        using bg o op False i by (auto simp: push_begin_def opened_def rl_inv_def rl_files_def file_fids_def)
    qed
  qed
  show ?thesis
  proof (cases b)
    case (Inl e)
    then show ?thesis using bg i1 by (simp add: push_write_def)
  next
    case (Inr u)
    obtain r evs where l: "chunk_loop E (rl_push_wfid S1) off buf 0 (rl_log S1) = Some (r, rl_log S1 @ evs)"
      "held (rl_log S1 @ evs) = held (rl_log S1)"
      using chunk_loop_run [OF ok c, of 0 buf] by blast
    show ?thesis
      using bg Inr l i1 by (cases r) (auto simp: push_write_def rl_inv_def file_fids_def)
  qed
qed

end
