(* ===== verification/RelaySafety.thy ===== *)
theory RelaySafety
  imports RelayProps
begin

text \<open>
  What holds of the relay as a whole: no operation leaks a fid, a new image is confirmed only when
  it is the one that was staged, and the link comes up once the nRF9151 answers.
\<close>

subsection \<open>No fid is leaked\<close>

lemma auto_confirm_inv: "rl_inv S \<Longrightarrow> rl_inv (fw9151_auto_confirm_check E S)"
proof -
  assume i: "rl_inv S"
  obtain r S1 where rd: "fw9151_read E 159 0 S = (r, S1)" by fastforce
  then have i1: "rl_inv S1" using quiet_inv [OF i state_read_quiet [of S E "ascii ''dev/firmware''" 159 0]] by (simp add: fw9151_read_def)
  have "rl_inv (snd (fw9151_ctl_write E (ascii ''dev/confirm'') (ascii ''1'') False S1))"
    using quiet_inv [OF i1 ctl_write_quiet] .
  then show ?thesis using rd i1 by (cases r) (auto simp: fw9151_auto_confirm_check_def Let_def)
qed

lemma monitor_inv: "rl_inv S \<Longrightarrow> rl_inv (snd (mesh_link_monitor_turn E S))"
proof -
  assume i: "rl_inv S"
  obtain r S1 where a: "mesh_ensure_attached E S = (r, S1)" by fastforce
  then have "rl_inv S1" using quiet_inv [OF i ensure_quiet [of S E]] by simp
  then show ?thesis
    using i a auto_confirm_inv [of "S1\<lparr>rl_relink_total := rl_relink_total S1 + 1\<rparr>" E]
    by (cases r) (auto simp: mesh_link_monitor_turn_def Let_def)
qed

lemma clunk_inv: "rl_inv S \<Longrightarrow> rl_inv (snd (fw9151_clunk E S)) \<and> rl_inv (snd (push_clunk E S))"
  by (auto simp: fw9151_clunk_def push_clunk_def rl_inv_def file_fids_def ninep_simps)

lemma reboot_confirm_inv:
  "rl_inv S \<Longrightarrow> rl_inv (snd (fw9151_reboot_write E buf S)) \<and> rl_inv (snd (fw9151_confirm_write E buf S))"
  using quiet_inv [OF _ ctl_write_quiet, of S E "ascii ''dev/reboot''" "ascii ''1''" True]
    quiet_inv [OF _ ctl_write_quiet, of S E "ascii ''dev/confirm''" "ascii ''1''" False]
  by (cases "fw9151_ctl_write E (ascii ''dev/reboot'') (ascii ''1'') True S";
      cases "fw9151_ctl_write E (ascii ''dev/confirm'') (ascii ''1'') False S")
    (simp add: fw9151_reboot_write_def fw9151_confirm_write_def)

lemma relay_handler_inv:
  assumes ok: "ncl_ok E" and c: "0 < nc_chunk E" and i: "rl_inv S"
  shows "\<exists>S'. relay_handler E op S = Some S' \<and> rl_inv S'"
proof (cases op)
  case Attach
  then show ?thesis using quiet_inv [OF i ensure_quiet] by (simp add: mesh_remote_root_def)
next
  case Mount
  then show ?thesis using mount_inv [OF ok i] by simp
next
  case (Read_file path sz off)
  then show ?thesis using quiet_inv [OF i state_read_quiet] by simp
next
  case (Write_file path buf)
  then show ?thesis using quiet_inv [OF i state_write_quiet] by simp
next
  case (Push_ctl buf)
  then show ?thesis using quiet_inv [OF i push_ctl_quiet] by simp
next
  case (Fw_write buf)
  then show ?thesis using fw_write_inv [OF ok c i, of buf] by auto
next
  case (Push_write buf off)
  then show ?thesis using push_write_inv [OF ok c i, of buf off] by auto
qed (use i disconnect_inv [OF i] monitor_inv [OF i] clunk_inv [OF i] reboot_confirm_inv [OF i] in
    \<open>simp_all add: mesh_remote_down_def mesh_host_disconnected_def fw9151auto_write_def rl_inv_def file_fids_def\<close>)

lemma relay_reach_inv:
  "relay_reach E M S \<Longrightarrow> ncl_ok E \<Longrightarrow> 0 < nc_chunk E \<Longrightarrow> rl_inv S"
proof (induction rule: relay_reach.induct)
  case boot
  show ?case by (simp add: rl_inv_def relay_boot_def file_fids_def ct_fids_def ct_wf_def aether_conv_transport_init_def)
next
  case (step S op S')
  then show ?case using relay_handler_inv [of E S op] by auto
qed


subsection \<open>Confirming a new image\<close>

definition confirms :: "nlog \<Rightarrow> bool" where
  "confirms evs \<longleftrightarrow> (\<exists>root r. EWalk root (ascii ''dev/confirm'') r \<in> set evs)"

lemma ensure_no_walk:
  "mesh_ensure_attached E S = (r, S') \<Longrightarrow> \<exists>evs. rl_log S' = rl_log S @ evs \<and> \<not> (\<exists>root p r. EWalk root p r \<in> set evs)"
  by (auto simp: mesh_ensure_attached_def mesh_reversion_def mesh_attach_def
      mesh_attached_ok_def mesh_note_contact_def ninep_simps Let_def split: sum.splits option.splits prod.splits if_splits)

lemma open_tries_walks:
  "open_tries E path mode ret k S = (r, S') \<Longrightarrow>
     \<exists>evs. rl_log S' = rl_log S @ evs \<and> (\<forall>root p a. EWalk root p a \<in> set evs \<longrightarrow> p = path)"
proof (induction k arbitrary: S ret)
  case (Suc k)
  obtain x S1 where a: "mesh_ensure_attached E S = (x, S1)" by fastforce
  obtain e0 where e0: "rl_log S1 = rl_log S @ e0" "\<not> (\<exists>root p r. EWalk root p r \<in> set e0)"
    using ensure_no_walk [OF a] by blast
  show ?case
  proof (cases x)
    case (Inl e)
    then show ?thesis using Suc.prems a e0 by auto
  next
    case (Inr root)
    show ?thesis
    proof (cases "nc_walk E (rl_log S1) root path")
      case (Inl ew)
      obtain e w where ew: "ew = (e, w)" by fastforce
      let ?S2 = "S1\<lparr>rl_log := rl_log S1 @ [EWalk root path (Inl (e, w))], rl_attached := False\<rparr>"
      have "open_tries E path mode e k ?S2 = (r, S')" using Suc.prems a Inr Inl ew by (simp add: n_walk_def)
      from Suc.IH [OF this] obtain evs where evs: "rl_log S' = rl_log ?S2 @ evs"
        "\<forall>root p a. EWalk root p a \<in> set evs \<longrightarrow> p = path" by blast
      show ?thesis using evs e0 by (intro exI [of _ "e0 @ EWalk root path (Inl (e, w)) # evs"]) auto
    next
      case fid: (Inr fid)
      show ?thesis
        using Suc.prems a Inr fid e0
        by (cases "nc_open E (rl_log S1 @ [EWalk root path (Inr fid)]) fid mode") (auto simp: ninep_simps)
    qed
  qed
qed simp

lemma fw9151_read_log:
  assumes "fw9151_read E sz off S = (r, S')"
  shows "\<exists>evs. rl_log S' = rl_log S @ evs \<and> \<not> confirms evs \<and> (\<forall>d. r = Inr d \<longrightarrow> (\<exists>fid. ERead fid off sz (Inr d) \<in> set evs))"
proof -
  obtain x S1 where o: "fw9151_open_remote E (ascii ''dev/firmware'') OREAD S = (x, S1)" by fastforce
  have ne: "ascii ''dev/firmware'' \<noteq> ascii ''dev/confirm''" by (simp add: ascii_def)
  obtain e0 where e0: "rl_log S1 = rl_log S @ e0" "\<forall>root p a. EWalk root p a \<in> set e0 \<longrightarrow> p = ascii ''dev/firmware''"
    using open_tries_walks o unfolding fw9151_open_remote_def by blast
  then have "\<not> confirms e0" using ne unfolding confirms_def by metis
  then show ?thesis
    using assms o e0(1)
    by (cases x) (auto simp: fw9151_read_def aether_state_read_def ninep_simps Let_def mesh_note_contact_def confirms_def)
qed

text \<open>
  C10. The relay confirms an image of the nRF9151 on its own account only right after the link came
  up, with auto-confirm on and an image staged, when the status file it has just read shows the
  staged version running and not yet confirmed. Then it is no longer armed, whether or not the
  confirmation was written: it does not try again.
\<close>

theorem confirms_only_staged:
  assumes t: "mesh_link_monitor_turn E S = (ms, S')" and l: "rl_log S' = rl_log S @ evs" and c: "confirms evs"
  shows "\<not> rl_attached S \<and> rl_autoconfirm S \<and> rl_armed S \<and> \<not> rl_armed S' \<and>
    (\<exists>fid d. ERead fid 0 159 (Inr d) \<in> set evs \<and> \<not> status_confirmed (cstr d) \<and>
       running_version (cstr d) = (ucast (rl_staged_major S), ucast (rl_staged_minor S), ucast (rl_staged_rev S)))"
proof -
  have na: "\<not> rl_attached S"
    using t l c by (auto simp: mesh_link_monitor_turn_def confirms_def)
  obtain r S1 where a: "mesh_ensure_attached E S = (r, S1)" by fastforce
  obtain e0 where e0: "rl_log S1 = rl_log S @ e0" "\<not> (\<exists>root p r. EWalk root p r \<in> set e0)"
    using ensure_no_walk [OF a] by blast
  have im: "rl_image S1 = rl_image S" using ensure_quiet [of S E] a by (simp add: quiet_def)
  obtain root where r: "r = Inr root"
    using t a na l c e0 by (cases r) (auto simp: mesh_link_monitor_turn_def confirms_def)
  define S2 where "S2 = S1\<lparr>rl_relink_total := rl_relink_total S1 + 1\<rparr>"
  have s2: "rl_image S2 = rl_image S" "rl_log S2 = rl_log S1" using im by (simp_all add: S2_def rl_image_def)
  have auto: "rl_autoconfirm S2 \<and> rl_armed S2"
    using t a na l c e0 r by (auto simp: mesh_link_monitor_turn_def confirms_def S2_def Let_def split: if_splits)
  then have S': "S' = fw9151_auto_confirm_check E S2"
    using t a na r by (simp add: mesh_link_monitor_turn_def S2_def Let_def)
  obtain x S3 where rd: "fw9151_read E 159 0 S2 = (x, S3)" by fastforce
  have im3: "rl_image S3 = rl_image S2"
    using state_read_quiet [of S2 E "ascii ''dev/firmware''" 159 0] rd by (simp add: quiet_def fw9151_read_def)
  obtain e1 where e1: "rl_log S3 = rl_log S2 @ e1" "\<not> confirms e1"
    "\<forall>d. x = Inr d \<longrightarrow> (\<exists>fid. ERead fid 0 159 (Inr d) \<in> set e1)"
    using fw9151_read_log [OF rd] by blast
  have nc: "rl_log S' \<noteq> rl_log S3"
  proof
    assume "rl_log S' = rl_log S3"
    then have "evs = e0 @ e1" using l e0 e1 s2 by simp
    then show False using c e0 e1(2) by (auto simp: confirms_def)
  qed
  obtain d where d: "x = Inr d" using nc S' rd by (cases x) (auto simp: fw9151_auto_confirm_check_def)
  have cond: "\<not> status_confirmed (cstr d)" "staged_matches (cstr d) S3"
    using nc S' rd d by (auto simp: fw9151_auto_confirm_check_def Let_def split: if_splits)
  then have fin: "S' = (snd (fw9151_ctl_write E (ascii ''dev/confirm'') (ascii ''1'') False S3))\<lparr>rl_armed := False\<rparr>"
    using S' rd d by (simp add: fw9151_auto_confirm_check_def Let_def)
  obtain e2 where "rl_log S' = rl_log S3 @ e2"
    using ctl_write_quiet [of S3 E "ascii ''dev/confirm''" "ascii ''1''" False] fin by (auto simp: quiet_def)
  then have "set e1 \<subseteq> set evs" using l e0 e1 s2 by auto
  then show ?thesis
    using na auto fin cond im3 s2 e1(3) d unfolding staged_matches_def rl_image_def by auto
qed

subsection \<open>The link comes up\<close>

definition turns :: "ncl \<Rightarrow> nat \<Rightarrow> relay \<Rightarrow> relay" where
  "turns E n S = ((\<lambda>S. snd (mesh_link_monitor_turn E S)) ^^ n) S"

lemma failed_attach_grows:
  "\<not> is_ok (fst (mesh_ensure_attached E S)) \<Longrightarrow> length (rl_log S) < length (rl_log (snd (mesh_link_monitor_turn E S)))"
  by (auto simp: mesh_link_monitor_turn_def mesh_ensure_attached_def mesh_reversion_def mesh_attach_def
      mesh_attached_ok_def mesh_note_contact_def ninep_simps Let_def split: sum.splits option.splits prod.splits)

lemma answered_attach:
  assumes "\<And>h. length (rl_log S) \<le> length h \<Longrightarrow> nc_version E h Carrier = Inr ()"
    and "\<And>h. length (rl_log S) \<le> length h \<Longrightarrow> is_ok_fid (nc_attach E h Carrier)"
    and "\<And>r. is_ok_fid r \<longleftrightarrow> (\<exists>f. r = Inr f)"
  shows "is_ok (fst (mesh_ensure_attached E S))"
proof -
  obtain f where f: "nc_attach E (rl_log S) Carrier = Inr f" using assms(2) [of "rl_log S"] assms(3) by auto
  obtain g where g: "nc_attach E (rl_log S @ [EVersion Carrier (Inr ())]) Carrier = Inr g"
    using assms(2) [of "rl_log S @ [EVersion Carrier (Inr ())]"] assms(3) by auto
  show ?thesis
    using f g assms(1) [of "rl_log S"]
    by (auto simp: mesh_ensure_attached_def mesh_reversion_def mesh_attach_def mesh_attached_ok_def n_attach_def n_version_def Let_def)
qed

text \<open>
  C17. The link comes up by itself: if the nRF9151 answers every version and attach request from
  some point on, after any number \<open>T\<close> of calls, then within \<open>T\<close> turns of the monitor attaching
  succeeds, whatever failed before. Each turn ends with a sleep of 1.5 or 4 seconds.
\<close>

theorem link_comes_up:
  assumes "\<And>h. T \<le> length h \<Longrightarrow> nc_version E h Carrier = Inr ()"
    and "\<And>h. T \<le> length h \<Longrightarrow> \<exists>f. nc_attach E h Carrier = Inr f"
  shows "\<exists>n \<le> T. is_ok (fst (mesh_ensure_attached E (turns E n S))) \<and>
    fst (mesh_link_monitor_turn E (turns E n S)) = 4000"
proof -
  have "\<exists>n \<le> T. is_ok (fst (mesh_ensure_attached E (turns E n S)))"
  proof (rule ccontr)
    assume "\<not> ?thesis"
    then have no: "n \<le> T \<Longrightarrow> \<not> is_ok (fst (mesh_ensure_attached E (turns E n S)))" for n by blast
    have "n \<le> T \<Longrightarrow> n \<le> length (rl_log (turns E n S))" for n
    proof (induction n)
      case (Suc n)
      have "turns E (Suc n) S = snd (mesh_link_monitor_turn E (turns E n S))" by (simp add: turns_def)
      then show ?case using Suc failed_attach_grows [OF no, of n] by simp
    qed simp
    from this [of T] have "is_ok (fst (mesh_ensure_attached E (turns E T S)))"
      using assms by (intro answered_attach [of _ _ "\<lambda>r. \<exists>f. r = Inr f"]) auto
    then show False using no by simp
  qed
  then obtain n where n: "n \<le> T" "is_ok (fst (mesh_ensure_attached E (turns E n S)))" by blast
  then have "fst (mesh_link_monitor_turn E (turns E n S)) = 4000"
    by (cases "mesh_ensure_attached E (turns E n S)"; cases "fst (mesh_ensure_attached E (turns E n S))")
      (auto simp: mesh_link_monitor_turn_def Let_def)
  with n show ?thesis by blast
qed

subsection \<open>Selecting a peer\<close>

text \<open>
  The peer written to \<open>mesh_peer\<close> is the one that is read back and that the next mount dials. A
  short address \<open>HH:LL\<close> stands for the mesh address that ends so, a full one for itself, with or
  without an end of line; whatever was mounted before is gone, and its conversation is given back.
\<close>

theorem mesh_peer_roundtrip:
  assumes a: "0 \<notin> set a" "a \<noteq> []" "\<not> is_eol (last a)" and l: "length a \<le> 5 \<or> length a = 17"
    and e: "set e \<subseteq> {nl, cr, space}" "length a + length e \<le> 23"
    and w: "fw_write_mesh_peer E (a @ e) S = (n, S')"
  shows "n = length a + length e \<and>
    mesh_peer_read 32 0 S' = (if length a \<le> 5 then ascii ''00:00:00:00:'' @ a else a) @ [nl] \<and>
    \<not> rl_m9_attached S' \<and> ct_fids (rl_ct S') = {#} \<and>
    (is_ok (fst (mesh9p_remote_root E S')) \<longrightarrow>
       ct_connected (rl_ct (snd (mesh9p_remote_root E S'))) \<and> ct_peer (rl_ct (snd (mesh9p_remote_root E S'))) = rl_mesh_peer S')"
proof -
  have st: "strip_end is_eol (a @ e) = a"
    using e(1)
  proof (induction e rule: rev_induct)
    case Nil
    then show ?case using a strip_end_id [of a is_eol] by simp
  next
    case (snoc x e)
    then have "is_eol x" by (auto simp: is_eol_def)
    then show ?case using snoc strip_end_append [of is_eol x "a @ e"] by simp
  qed
  have c: "cstr a = a" using a(1) by (rule cstr_id)
  have t: "mesh_peer_text (a @ e) = (if length a \<le> 5 then ascii ''00:00:00:00:'' @ a else a)"
    using st c a(2) e(2) l by (auto simp: mesh_peer_text_def Let_def snprintf_out_def ascii_def)
  have ne: "mesh_peer_text (a @ e) \<noteq> []" using t a(2) by auto
  have len: "length (mesh_peer_text (a @ e)) \<le> 17" using t l by (auto simp: ascii_def)
  obtain tt h where d: "aether_conv_transport_disconnect E (rl_ct S, rl_log S) = (tt, h)" by fastforce
  have dc: "\<not> ct_connected tt" using d by (auto simp: aether_conv_transport_disconnect_def Let_def)
  have S': "S' = S\<lparr>rl_mesh_peer := mesh_peer_text (a @ e), rl_m9_attached := False, rl_ct := tt, rl_log := h\<rparr>"
    "n = length a + length e" using w d by (simp_all add: fw_write_mesh_peer_def)
  have rd: "mesh_peer_read 32 0 S' = mesh_peer_text (a @ e) @ [nl]"
    using ne len by (simp add: mesh_peer_read_def S' segment_all)
  have "is_ok (fst (mesh9p_remote_root E S')) \<longrightarrow>
      ct_connected (rl_ct (snd (mesh9p_remote_root E S'))) \<and> ct_peer (rl_ct (snd (mesh9p_remote_root E S'))) = rl_mesh_peer S'"
  proof -
    obtain x S1 where m: "mesh_ensure_attached E S' = (x, S1)" by fastforce
    then have f: "rl_ct S1 = tt" "rl_mesh_peer S1 = rl_mesh_peer S'"
      using ensure_quiet [of S' E] by (simp_all add: quiet_def rl_files_def S')
    have hs: "rl_ct (snd (mesh9p_handshake E X)) = rl_ct X" for X
      by (auto simp: mesh9p_handshake_def ninep_simps split: sum.splits prod.splits)
    show ?thesis
    proof (cases x)
      case (Inl e1)
      then show ?thesis using m ne by (simp add: mesh9p_remote_root_def S')
    next
      case (Inr root)
      obtain y t2 h2 where c2: "aether_conv_transport_connect E root (rl_mesh_peer S1) (rl_ct S1, rl_log S1) = (y, t2, h2)"
        by (metis prod_cases3)
      have "is_ok y \<longrightarrow> ct_connected t2 \<and> ct_peer t2 = rl_mesh_peer S'"
        using c2 f dc len by (auto simp: aether_conv_transport_connect_def S' split: sum.splits prod.splits)
      then show ?thesis using m Inr c2 ne hs by (cases y) (auto simp: mesh9p_remote_root_def S')
    qed
  qed
  then show ?thesis using S' rd t dc by (auto simp: ct_fids_def)
qed

end
