(* ===== verification/RelayWitness.thy ===== *)
theory RelayWitness
  imports RelaySafety
begin

text \<open>
  The properties of the relay, each applied at a concrete client: one that answers every call,
  whose reads return given bytes, and that takes pieces of two bytes.
\<close>

definition demo_ncl :: "byte list \<Rightarrow> ncl" where
  "demo_ncl d = \<lparr>nc_version = (\<lambda>_ _. Inr ()), nc_attach = (\<lambda>_ _. Inr 1), nc_walk = (\<lambda>_ _ _. Inr 7),
     nc_open = (\<lambda>_ _ _. Inr ()), nc_read = (\<lambda>_ _ _ cap. Inr (take cap d)), nc_write = (\<lambda>_ _ _ x. Inr (length x)),
     nc_clunk = (\<lambda>_ _. Inr ()), nc_uptime = (\<lambda>h. of_nat (length h)), nc_chunk = 2\<rparr>"

lemma demo_ncl_ok: "ncl_ok (demo_ncl d)" "nc_chunk (demo_ncl d) = 2"
  by (simp_all add: ncl_ok_def demo_ncl_def)

definition demo_relay :: relay where
  "demo_relay = relay_boot 64"

definition demo_streaming :: relay where
  "demo_streaming = demo_relay\<lparr>rl_writing := True, rl_wfid := 7, rl_log := [EWalk 1 [] (Inr 7)]\<rparr>"

definition demo_frame :: "byte list" where
  "demo_frame = [9, 0, 0, 0, 101, 5, 0, 1, 2]"

lemma demo_frame_ok: "frame_ok 64 demo_frame" "length demo_frame = 9"
  by (simp_all add: frame_ok_def demo_frame_def ng32_def)

theorem relay_rx_invariant_witness:
  "let (out, S) = rx_run 64 [Isr [take 4 demo_frame], Reset, Isr [demo_frame, [1]], Work] (rx_boot 64)
   in rx_len S \<le> 64 \<and> (\<forall>m \<in> set out. 7 \<le> length m \<and> length m \<le> 64)"
  using relay_rx_invariant [of 64 "[Isr [take 4 demo_frame], Reset, Isr [demo_frame, [1]], Work]"]
  by (auto split: prod.split)


theorem relay_rx_drops_second_witness:
  "fst (rx_run 64 [Isr [demo_frame @ demo_frame], Isr [], Work] (rx_boot 64)) = [demo_frame]"
  using relay_rx_drops_second [OF demo_frame_ok(1), of demo_frame "[]"] by auto

theorem pump_delivers_reply_witness:
  "\<exists>t' h'. pump_turn (demo_ncl demo_frame)
     (aether_conv_transport_init\<lparr>ct_connected := True, ct_data := 7, ct_tx := demo_frame, ct_sem := True\<rparr>) []
     = (Some demo_frame, t', h') \<and> writes h' \<le> 8"
proof -
  let ?t = "aether_conv_transport_init\<lparr>ct_connected := True, ct_data := 7, ct_tx := demo_frame, ct_sem := True\<rparr>"
  obtain r t' h' where p: "pump_turn (demo_ncl demo_frame) ?t [] = (r, t', h')" by (metis prod_cases3)
  have "fst (pump_turn (demo_ncl demo_frame) ?t []) = Some demo_frame" by code_simp
  then show ?thesis using pump_delivers_reply [OF _ p] p by auto
qed

theorem conv_transport_fids_witness:
  "\<exists>t' h'. aether_conv_transport_connect (demo_ncl [51]) 1 (ascii ''00:00:00:00:30:00'') (aether_conv_transport_init, []) = (Inr (), t', h')
     \<and> ct_connected t' \<and> held h' = {#7, 7#}"
proof -
  obtain r t' h' where c: "aether_conv_transport_connect (demo_ncl [51]) 1 (ascii ''00:00:00:00:30:00'') (aether_conv_transport_init, []) = (r, t', h')"
    by (metis prod_cases3)
  have r: "r = Inr ()" "ct_ctl t' = 7" "ct_data t' = 7"
    using c by (auto simp: aether_conv_transport_connect_def aether_conv_transport_disconnect_def conv_dial_def demo_ncl_def Let_def
        ninep_simps aether_conv_transport_init_def)
  have "ct_wf aether_conv_transport_init" "held [] = {#} + ct_fids aether_conv_transport_init"
    by (simp_all add: ct_wf_def ct_fids_def aether_conv_transport_init_def)
  from conv_transport_fids [OF demo_ncl_ok(1) this _ c] r c show ?thesis by (auto simp: ct_fids_def)
qed

theorem attach_nondestructive_witness:
  "\<exists>S'. mesh_ensure_attached (demo_ncl []) demo_relay = (Inr 1, S') \<and> rl_attached S' \<and> rl_versioned S' \<and>
     last (rl_log S') = EAttach Carrier (Inr 1)"
proof -
  obtain r S' where m: "mesh_ensure_attached (demo_ncl []) demo_relay = (r, S')" by fastforce
  have "\<not> rl_attached demo_relay" "rl_log demo_relay = []" by (simp_all add: demo_relay_def relay_boot_def)
  moreover have "r = Inr 1" using m by (auto simp: mesh_ensure_attached_def demo_relay_def relay_boot_def mesh_reversion_def
        mesh_attach_def mesh_attached_ok_def demo_ncl_def ninep_simps)
  ultimately show ?thesis using attach_nondestructive [OF m] m by auto
qed


theorem stream_loop_terminates_witness:
  "\<exists>r evs. chunk_loop (demo_ncl []) 7 0 [1, 2, 3] 0 [] = Some (r, evs) \<and> length evs \<le> 2"
  using stream_loop_terminates [OF demo_ncl_ok(1), of "[]" 7 0 "[1, 2, 3]" "[]"] demo_ncl_ok(2) [of "[]"] by auto


definition demo_status :: "byte list" where
  "demo_status = ascii ''current 1.2.3 confirmed no''"

definition demo_armed :: relay where
  "demo_armed = demo_relay\<lparr>rl_armed := True, rl_staged_major := 1, rl_staged_minor := 2, rl_staged_rev := 3\<rparr>"

theorem confirms_only_staged_witness:
  "\<exists>ms S'. mesh_link_monitor_turn (demo_ncl demo_status) demo_armed = (ms, S') \<and> confirms (rl_log S') \<and>
     running_version demo_status = (1, 2, 3) \<and> \<not> rl_armed S'"
proof -
  obtain ms S' where t: "mesh_link_monitor_turn (demo_ncl demo_status) demo_armed = (ms, S')" by fastforce
  have l: "rl_log S' = rl_log demo_armed @ rl_log S'" by (simp add: demo_armed_def demo_relay_def relay_boot_def)
  have st: "take 159 demo_status = demo_status" "cstr demo_status = demo_status"
    "\<not> status_confirmed demo_status" "running_version demo_status = (1, 2, 3)" by code_simp+
  have c: "confirms (rl_log S')"
  proof -
    have "EWalk 1 (ascii ''dev/confirm'') (Inr 7) \<in> set (rl_log (snd (mesh_link_monitor_turn (demo_ncl demo_status) demo_armed)))"
      by code_simp
    then show ?thesis using t unfolding confirms_def by auto
  qed
  show ?thesis using confirms_only_staged [OF t l c] t c st(4) by auto
qed

theorem link_comes_up_witness:
  "\<exists>n \<le> 5. is_ok (fst (mesh_ensure_attached (demo_ncl []) (turns (demo_ncl []) n demo_relay)))"
proof -
  have "\<exists>n \<le> 5. is_ok (fst (mesh_ensure_attached (demo_ncl []) (turns (demo_ncl []) n demo_relay))) \<and>
      fst (mesh_link_monitor_turn (demo_ncl []) (turns (demo_ncl []) n demo_relay)) = 4000"
    by (rule link_comes_up) (simp_all add: demo_ncl_def)
  then show ?thesis by blast
qed

theorem mesh_peer_roundtrip_witness:
  "\<exists>n S'. fw_write_mesh_peer (demo_ncl []) (ascii ''30:00'' @ [nl]) demo_relay = (n, S') \<and>
     mesh_peer_read 32 0 S' = ascii ''00:00:00:00:30:00'' @ [nl]"
proof -
  obtain n S' where w: "fw_write_mesh_peer (demo_ncl []) (ascii ''30:00'' @ [nl]) demo_relay = (n, S')" by fastforce
  have "0 \<notin> set (ascii ''30:00'')" "ascii ''30:00'' \<noteq> []" "\<not> is_eol (last (ascii ''30:00''))"
    by (simp_all add: ascii_def is_eol_def)
  from mesh_peer_roundtrip [OF this _ _ _ w] w show ?thesis by (auto simp: ascii_def)
qed

end
