(* ===== verification/ForwardLink.thy ===== *)
theory ForwardLink
  imports Forward Wire
begin

text \<open>
  The 9P client of \<open>aether_forwarder.c\<close> on its serial port. What the port does is a list of events:
  bytes that one \<open>read\<close> finds, an interrupted call, silence until a deadline, a hang-up. A write
  adds the events it causes at the end. The message buffer \<open>mbuf\<close> keeps what earlier messages left
  behind a shorter one. The texts kept for log lines (\<open>lerr\<close>, \<open>g_where\<close>) are not modelled.
\<close>

subsection \<open>The port\<close>

datatype io_event = Bytes "byte list" | Again | Quiet | Hangup

datatype rc = RC_TIMEOUT | RC_ERR | RC_BAD

abbreviation (input) MSIZE :: nat where "MSIZE \<equiv> 8192"

record port =
  po_writes :: "byte list list \<Rightarrow> bool" \<comment> \<open>\<open>write\<close> takes the whole frame, given all frames so far\<close>
  po_reply :: "byte list list \<Rightarrow> io_event list"

record flink =
  lk_in :: "io_event list"
  lk_mbuf :: "byte list"
  lk_sent :: "byte list list"

text \<open>
  Exactly \<open>n\<close> bytes: those read, and what is left of the events. A read that finds no byte is the end
  of the file. On a time-out the bytes read so far are lost to the caller.
\<close>

fun readn_to :: "nat \<Rightarrow> byte list \<Rightarrow> io_event list \<Rightarrow> rc option \<times> byte list \<times> io_event list" where
  "readn_to n got [] = (if n \<le> length got then None else Some RC_TIMEOUT, got, [])"
| "readn_to n got (ev # evs) =
     (if n \<le> length got then (None, got, ev # evs)
      else case ev of
        Bytes d \<Rightarrow>
          if d = [] then (Some RC_ERR, got, evs)
          else if length d \<le> n - length got then readn_to n (got @ d) evs
          else (None, got @ take (n - length got) d, Bytes (drop (n - length got) d) # evs)
      | Again \<Rightarrow> readn_to n got evs
      | Quiet \<Rightarrow> (Some RC_TIMEOUT, got, evs)
      | Hangup \<Rightarrow> (Some RC_ERR, got, evs))"

definition overlay :: "byte list \<Rightarrow> byte list \<Rightarrow> byte list" where
  "overlay b m = b @ drop (length b) m"

definition rpc_to :: "port \<Rightarrow> byte list \<Rightarrow> flink \<Rightarrow> (rc + byte) \<times> flink" where
  "rpc_to E body L =
     (let frame = np32 (of_nat (4 + length body)) @ body;
          sent = lk_sent L @ [frame];
          L1 = L\<lparr>lk_mbuf := overlay frame (lk_mbuf L), lk_sent := sent\<rparr>
      in if \<not> po_writes E sent then (Inl RC_ERR, L1)
         else case readn_to 4 [] (lk_in L1 @ po_reply E sent) of
           (Some e, _, evs) \<Rightarrow> (Inl e, L1\<lparr>lk_in := evs\<rparr>)
         | (None, hdr, evs) \<Rightarrow>
             (let sz = unat (ng32 hdr) in
              if sz < 7 \<or> MSIZE < sz then (Inl RC_ERR, L1\<lparr>lk_in := evs\<rparr>)
              else case readn_to (sz - 4) [] evs of
                (x, b, evs2) \<Rightarrow>
                  (let L2 = L1\<lparr>lk_in := evs2, lk_mbuf := overlay b (lk_mbuf L1)\<rparr>
                   in (case x of Some e \<Rightarrow> Inl e | None \<Rightarrow> Inr (lk_mbuf L2 ! 0), L2))))"

subsection \<open>Requests\<close>

definition do_version :: "port \<Rightarrow> flink \<Rightarrow> bool \<times> flink" where
  "do_version E L =
     (case rpc_to E ([100] @ np16 0xffff @ np32 8192 @ np16 6 @ ascii ''9P2000'') L of
        (r, L1) \<Rightarrow> (r = Inr 101, L1))"

definition do_attach :: "port \<Rightarrow> u32 \<Rightarrow> flink \<Rightarrow> bool \<times> flink" where
  "do_attach E fid L =
     (case rpc_to E ([104] @ np16 1 @ np32 fid @ np32 0xffffffff @ np16 1 @ ascii ''t'' @ np16 0) L of
        (r, L1) \<Rightarrow> (r = Inr 105, L1))"

text \<open>\<open>strtok(tmp, "/")\<close>, at most 16 parts of the first 127 bytes.\<close>

fun slash_parts :: "byte list \<Rightarrow> byte list \<Rightarrow> byte list list" where
  "slash_parts cur [] = (if cur = [] then [] else [cur])"
| "slash_parts cur (b # s) =
     (if b = 47 then (if cur = [] then [] else [cur]) @ slash_parts [] s else slash_parts (cur @ [b]) s)"

definition rc_of :: "byte \<Rightarrow> (rc + byte) \<Rightarrow> rc + unit" where
  "rc_of want r = (case r of Inl e \<Rightarrow> Inl e | Inr t \<Rightarrow> if t = want then Inr () else Inl RC_BAD)"

definition do_walk :: "port \<Rightarrow> u32 \<Rightarrow> u32 \<Rightarrow> byte list \<Rightarrow> flink \<Rightarrow> (rc + unit) \<times> flink" where
  "do_walk E fid newfid path L =
     (let parts = take 16 (slash_parts [] (take 127 path))
      in case rpc_to E ([110] @ np16 1 @ np32 fid @ np32 newfid @ np16 (of_nat (length parts))
              @ concat (map (\<lambda>p. np16 (of_nat (length p)) @ p) parts)) L of
           (r, L1) \<Rightarrow> (rc_of 111 r, L1))"

definition do_open :: "port \<Rightarrow> u32 \<Rightarrow> byte \<Rightarrow> flink \<Rightarrow> (rc + unit) \<times> flink" where
  "do_open E fid mode L =
     (case rpc_to E ([112] @ np16 1 @ np32 fid @ [mode]) L of (r, L1) \<Rightarrow> (rc_of 113 r, L1))"

text \<open>
  The count of a Rread is compared with the room as a signed number and not with the length of the
  message; a copy from behind \<open>mbuf\<close> or past the room is \<open>None\<close>.
\<close>

definition read_count :: "nat \<Rightarrow> u32 \<Rightarrow> nat" where
  "read_count cap n = (if int cap < sint n then cap else unat n)"

definition do_read :: "port \<Rightarrow> u32 \<Rightarrow> u64 \<Rightarrow> nat \<Rightarrow> flink \<Rightarrow> (rc + byte list) option \<times> flink" where
  "do_read E fid off cap L =
     (case rpc_to E ([116] @ np16 1 @ np32 fid @ np32 (ucast off) @ np32 (ucast (drop_bit 32 off)) @ np32 (of_nat cap)) L of
        (Inl e, L1) \<Rightarrow> (Some (Inl e), L1)
      | (Inr t, L1) \<Rightarrow>
          (if t \<noteq> 117 then (Some (Inl RC_BAD), L1)
           else let n = read_count cap (ng32 (drop 3 (lk_mbuf L1)))
                in (if cap < n \<or> MSIZE < 7 + n then None else Some (Inr (segment 7 n (lk_mbuf L1))), L1)))"

definition do_write_fid :: "port \<Rightarrow> u32 \<Rightarrow> byte list \<Rightarrow> flink \<Rightarrow> (rc + u32) \<times> flink" where
  "do_write_fid E fid d L =
     (case rpc_to E ([118] @ np16 1 @ np32 fid @ np32 0 @ np32 0 @ np32 (of_nat (length d)) @ d) L of
        (Inl e, L1) \<Rightarrow> (Inl e, L1)
      | (Inr t, L1) \<Rightarrow> (if t \<noteq> 119 then Inl RC_BAD else Inr (ng32 (drop 3 (lk_mbuf L1))), L1))"

definition do_clunk :: "port \<Rightarrow> u32 \<Rightarrow> flink \<Rightarrow> flink" where
  "do_clunk E fid L = snd (rpc_to E ([120] @ np16 1 @ np32 fid) L)"

subsection \<open>Reading files\<close>

abbreviation (input) FID_ROOT :: u32 where "FID_ROOT \<equiv> 0"
abbreviation (input) FID_FILE :: u32 where "FID_FILE \<equiv> 5"

text \<open>The loop of \<open>read_file\<close>: at most eight reads, all at offset 0.\<close>

fun read_turns :: "port \<Rightarrow> nat \<Rightarrow> nat \<Rightarrow> byte list \<Rightarrow> flink \<Rightarrow> (rc + byte list) option \<times> flink" where
  "read_turns E cap 0 out L = (Some (Inr out), L)"
| "read_turns E cap (Suc k) out L =
     (if cap \<le> length out + 8 then (Some (Inr out), L)
      else case do_read E FID_FILE 0 (cap - 1 - length out) L of
        (None, L1) \<Rightarrow> (None, L1)
      | (Some (Inl e), L1) \<Rightarrow> (Some (if e = RC_ERR then Inl RC_ERR else Inr out), L1)
      | (Some (Inr d), L1) \<Rightarrow> if d = [] then (Some (Inr out), L1) else read_turns E cap k (out @ d) L1)"

definition read_file :: "port \<Rightarrow> byte list \<Rightarrow> nat \<Rightarrow> flink \<Rightarrow> (rc + byte list) option \<times> flink" where
  "read_file E path cap L =
     (case do_walk E FID_ROOT FID_FILE path L of
        (Inl e, L1) \<Rightarrow> (Some (Inl e), L1)
      | (Inr _, L1) \<Rightarrow>
          (case do_open E FID_FILE 0 L1 of
             (Inl e, L2) \<Rightarrow> (Some (Inr []), do_clunk E FID_FILE L2)
           | (Inr _, L2) \<Rightarrow>
               (case read_turns E cap 8 [] L2 of
                  (None, L3) \<Rightarrow> (None, L3)
                | (Some r, L3) \<Rightarrow> (Some r, do_clunk E FID_FILE L3))))"

definition read_drain :: "port \<Rightarrow> byte list \<Rightarrow> nat \<Rightarrow> flink \<Rightarrow> (rc + byte list) option \<times> flink" where
  "read_drain E path cap L =
     (case do_walk E FID_ROOT FID_FILE path L of
        (Inl e, L1) \<Rightarrow> (Some (Inl e), L1)
      | (Inr _, L1) \<Rightarrow>
          (case do_open E FID_FILE 0 L1 of
             (Inl e, L2) \<Rightarrow> (Some (Inr []), do_clunk E FID_FILE L2)
           | (Inr _, L2) \<Rightarrow>
               (case do_read E FID_FILE 0 (cap - 1) L2 of
                  (None, L3) \<Rightarrow> (None, L3)
                | (Some (Inl e), L3) \<Rightarrow> (Some (if e = RC_BAD then Inr [] else Inl e), do_clunk E FID_FILE L3)
                | (Some (Inr d), L3) \<Rightarrow> (Some (Inr d), do_clunk E FID_FILE L3))))"

subsection \<open>One cycle\<close>

text \<open>What a read contributes: the chunks posted and the new state.\<close>

definition forward_read :: "collector \<Rightarrow> (rc + byte list) \<Rightarrow> fwd \<Rightarrow> nat \<times> fwd" where
  "forward_read C r S = (case r of Inl e \<Rightarrow> (0, S) | Inr d \<Rightarrow> if d = [] then (0, S) else forward_stream C d S)"

text \<open>
  The gateway's two chips, then all neighbours; \<open>Some (Inl RC_ERR)\<close> asks for a reconnect. The
  result counts the chunks posted and those from the neighbours.
\<close>

definition cycle ::
    "port \<Rightarrow> collector \<Rightarrow> int \<Rightarrow> flink \<times> fwd \<Rightarrow> (rc + (nat \<times> nat)) option \<times> flink \<times> fwd" where
  "cycle E C interval LS =
     (case read_file E (ascii ''dev/mflt5340'') 16384 (fst LS) of
        (None, L1) \<Rightarrow> (None, L1, snd LS)
      | (Some r1, L1) \<Rightarrow>
     (if r1 = Inl RC_ERR then (Some (Inl RC_ERR), L1, snd LS)
      else let (k1, S1) = forward_read C r1 (snd LS) in
     (case read_file E (ascii ''dev/mflt9151'') 16384 L1 of
        (None, L2) \<Rightarrow> (None, L2, S1)
      | (Some r2, L2) \<Rightarrow>
     (if r2 = Inl RC_ERR then (Some (Inl RC_ERR), L2, S1)
      else let (k2, S2) = forward_read C r2 S1 in
     (case read_drain E (ascii ''dev/mflt_mesh'') 16384 L2 of
        (None, L3) \<Rightarrow> (None, L3, S2)
      | (Some r3, L3) \<Rightarrow>
     (if r3 = Inl RC_ERR then (Some (Inl RC_ERR), L3, S2)
      else let (k3, S3) = forward_read C r3 S2
           in (Some (Inr (k1 + k2 + k3, k3)), L3, dev_age (co_time C (fw_posts S3)) interval S3)))))))"

subsection \<open>The main loop\<close>

text \<open>
  One turn of the loop of \<open>main\<close>; \<open>up\<close> is what \<open>open_serial\<close> gives: no port, or a port with what
  is on its line. The state says whether the port is held. \<open>None\<close> is a copy out of bounds.
\<close>

definition connect_port :: "port \<Rightarrow> io_event list option \<Rightarrow> flink \<Rightarrow> bool \<times> flink" where
  "connect_port E up L =
     (case up of
        None \<Rightarrow> (False, L)
      | Some evs \<Rightarrow>
          (case do_version E (L\<lparr>lk_in := evs\<rparr>) of
             (ok, L1) \<Rightarrow> if ok then do_attach E FID_ROOT L1 else (False, L1)))"

definition main_turn ::
    "port \<Rightarrow> collector \<Rightarrow> int \<Rightarrow> io_event list option \<Rightarrow> bool \<times> flink \<times> fwd \<Rightarrow> (bool \<times> flink \<times> fwd) option" where
  "main_turn E C interval up st =
     (case st of (held, L, S) \<Rightarrow>
        (case (if held then (True, L) else connect_port E up L) of
           (False, L1) \<Rightarrow> Some (False, L1, S)
         | (True, L1) \<Rightarrow>
             (case cycle E C interval (L1, S) of
                (None, _) \<Rightarrow> None
              | (Some r, L2, S2) \<Rightarrow> Some (r \<noteq> Inl RC_ERR, L2, S2))))"

text \<open>The loop, as long as the program is not asked to stop: one port state per turn.\<close>

fun main_loop ::
    "port \<Rightarrow> collector \<Rightarrow> int \<Rightarrow> io_event list option list \<Rightarrow> bool \<times> flink \<times> fwd \<Rightarrow> (bool \<times> flink \<times> fwd) option" where
  "main_loop E C interval [] st = Some st"
| "main_loop E C interval (up # ups) st =
     (case main_turn E C interval up st of None \<Rightarrow> None | Some st1 \<Rightarrow> main_loop E C interval ups st1)"

end
