(* ===== verification/ForwardLinkProps.thy ===== *)
theory ForwardLinkProps
  imports ForwardLink ForwardProps
begin

text \<open>
  Properties of the forwarder's client: a reply is read the same however the port delivers it, and
  an answer that comes after its deadline is taken for the answer to the next request.
\<close>

subsection \<open>Reading bytes\<close>

fun bytes_of :: "io_event list \<Rightarrow> byte list" where
  "bytes_of [] = []"
| "bytes_of (Bytes d # evs) = d @ bytes_of evs"
| "bytes_of (_ # evs) = bytes_of evs"

text \<open>Events that only delay: bytes, and interrupted calls.\<close>

fun plain :: "io_event \<Rightarrow> bool" where
  "plain (Bytes d) = (d \<noteq> [])"
| "plain Again = True"
| "plain _ = False"

lemma bytes_of_append [simp]: "bytes_of (a @ b) = bytes_of a @ bytes_of b"
proof (induction a)
  case (Cons ev a)
  then show ?case by (cases ev) auto
qed simp

lemma readn_plain:
  "list_all plain evs \<Longrightarrow> length got \<le> n \<Longrightarrow> n \<le> length (got @ bytes_of evs) \<Longrightarrow>
     \<exists>rest. readn_to n got (evs @ later) = (None, take n (got @ bytes_of evs), rest @ later) \<and>
       list_all plain rest \<and> bytes_of rest = drop n (got @ bytes_of evs)"
proof (induction evs arbitrary: got)
  case Nil
  then show ?case by (cases later) auto
next
  case (Cons ev evs)
  show ?case
  proof (cases "n \<le> length got")
    case True
    then show ?thesis using Cons.prems by (intro exI [of _ "ev # evs"]) auto
  next
    case False
    show ?thesis
    proof (cases ev)
      case (Bytes d)
      show ?thesis
      proof (cases "length d \<le> n - length got")
        case True
        then show ?thesis using Cons.IH [of "got @ d"] Cons.prems Bytes False by auto
      next
        case more: False
        then have "drop (n - length got) d \<noteq> []" by simp
        then show ?thesis
          using more Cons.prems Bytes False
          by (intro exI [of _ "Bytes (drop (n - length got) d) # evs"]) auto
      qed
    next
      case Again
      then show ?thesis using Cons.IH [of got] Cons.prems False by simp
    qed (use Cons.prems in simp_all)
  qed
qed

lemma overlay_nth0: "b \<noteq> [] \<Longrightarrow> overlay b m ! 0 = b ! 0"
  by (cases b) (simp_all add: overlay_def)

definition reply_ok :: "byte list \<Rightarrow> bool" where
  "reply_ok m \<longleftrightarrow> 7 \<le> length m \<and> length m \<le> MSIZE \<and> ng32 m = of_nat (length m)"

text \<open>One request whose answer is the first thing on the line.\<close>

lemma rpc_answer:
  assumes m: "reply_ok m" and p: "list_all plain evs" and b: "bytes_of evs = m @ rest"
    and i: "lk_in L @ po_reply E (lk_sent L @ [frame]) = evs @ later" and w: "po_writes E (lk_sent L @ [frame])"
    and f: "frame = np32 (of_nat (4 + length body)) @ body"
  shows "\<exists>evs'. rpc_to E body L = (Inr (m ! 4),
      L\<lparr>lk_sent := lk_sent L @ [frame], lk_mbuf := overlay (drop 4 m) (overlay frame (lk_mbuf L)), lk_in := evs' @ later\<rparr>) \<and>
    list_all plain evs' \<and> bytes_of evs' = rest"
proof -
  have l: "7 \<le> length m" "length m \<le> 8192" using m by (auto simp: reply_ok_def)
  obtain e1 where e1: "readn_to 4 [] (evs @ later) = (None, take 4 m, e1 @ later)" "list_all plain e1"
    "bytes_of e1 = drop 4 m @ rest"
    using readn_plain [OF p, of "[]" 4 later] b l by auto
  have ng: "ng32 (take 4 m) = ng32 m"
  proof -
    have "m = take 4 m @ drop 4 m" by simp
    then show ?thesis using l by (simp add: ng32_def)
  qed
  have sz: "unat (ng32 (take 4 m)) = length m"
    using m l unfolding ng by (simp add: reply_ok_def unsigned_of_nat take_bit_nat_eq_self)
  have le: "length m - 4 \<le> length ([] @ bytes_of e1)" using e1(3) l by simp
  obtain e2 where e2: "readn_to (length m - 4) [] (e1 @ later) = (None, drop 4 m, e2 @ later)" "list_all plain e2"
    "bytes_of e2 = rest"
    using readn_plain [OF e1(2) _ le, of later] e1(3) l by auto
  have "drop 4 m ! 0 = m ! 4" "drop 4 m \<noteq> []" using l by simp_all
  then show ?thesis
    using e1 e2 i w l sz unfolding f by (intro exI [of _ e2]) (simp add: rpc_to_def Let_def overlay_nth0)
qed

text \<open>
  A request is answered the same however the port cuts the answer into reads and however often a
  call is interrupted in between: the type of the first message on the line, whole in the message
  buffer, and what follows it stays for the next request.
\<close>

theorem rpc_equivalence:
  assumes "reply_ok m" and "list_all plain evs" and "bytes_of evs = m @ rest"
    and "lk_in L @ po_reply E (lk_sent L @ [np32 (of_nat (4 + length body)) @ body]) = evs @ later"
    and "po_writes E (lk_sent L @ [np32 (of_nat (4 + length body)) @ body])"
  shows "\<exists>evs' L'. rpc_to E body L = (Inr (m ! 4), L') \<and> take (length m - 4) (lk_mbuf L') = drop 4 m \<and>
    lk_in L' = evs' @ later \<and> list_all plain evs' \<and> bytes_of evs' = rest"
  using rpc_answer [OF assms refl] by (auto simp: overlay_def)

text \<open>
  A late answer shifts all the following ones: a request that times out is followed by one that
  gets the answer of the first, because no answer is checked for its tag; its own answer is left
  on the line for the request after it.
\<close>

theorem late_reply_taken:
  assumes q: "lk_in L = []" "po_reply E (lk_sent L @ [f1]) = [Quiet]"
    and r1: "reply_ok m1" and late: "po_reply E (lk_sent L @ [f1, f2]) = [Bytes m1, Bytes m2]" and m2: "m2 \<noteq> []"
    and w: "\<And>s. po_writes E s"
    and f: "f1 = np32 (of_nat (4 + length b1)) @ b1" "f2 = np32 (of_nat (4 + length b2)) @ b2"
  shows "\<exists>L1 L2. rpc_to E b1 L = (Inl RC_TIMEOUT, L1) \<and> rpc_to E b2 L1 = (Inr (m1 ! 4), L2) \<and> bytes_of (lk_in L2) = m2"
proof -
  let ?L1 = "L\<lparr>lk_mbuf := overlay f1 (lk_mbuf L), lk_sent := lk_sent L @ [f1], lk_in := []\<rparr>"
  have one: "rpc_to E b1 L = (Inl RC_TIMEOUT, ?L1)"
    using q w unfolding f(1) by (simp add: rpc_to_def Let_def)
  have "m1 \<noteq> []" using r1 by (auto simp: reply_ok_def)
  then have "list_all plain [Bytes m1, Bytes m2]" "bytes_of [Bytes m1, Bytes m2] = m1 @ m2" using m2 by simp_all
  from rpc_answer [OF r1 this, of ?L1 E f2 "[]" b2] late w f(2) one show ?thesis by auto
qed

subsection \<open>Reading a file over the link\<close>

text \<open>A line on which nothing is left, and a port that answers a frame with one message.\<close>

definition quiet_line :: "flink \<Rightarrow> bool" where
  "quiet_line L \<longleftrightarrow> list_all plain (lk_in L) \<and> bytes_of (lk_in L) = []"

definition answers :: "port \<Rightarrow> byte list list \<Rightarrow> byte list \<Rightarrow> bool" where
  "answers E fs m \<longleftrightarrow> reply_ok m \<and> po_writes E fs \<and>
     list_all plain (po_reply E fs) \<and> bytes_of (po_reply E fs) = m"

definition frame :: "byte list \<Rightarrow> byte list" where
  "frame body = np32 (of_nat (4 + length body)) @ body"

lemma rpc_answers:
  assumes "quiet_line L" and "answers E (lk_sent L @ [frame body]) m"
  shows "\<exists>L'. rpc_to E body L = (Inr (m ! 4), L') \<and> take (length m - 4) (lk_mbuf L') = drop 4 m \<and>
    quiet_line L' \<and> lk_sent L' = lk_sent L @ [frame body]"
proof -
  have "reply_ok m" "list_all plain (lk_in L @ po_reply E (lk_sent L @ [frame body]))"
    "bytes_of (lk_in L @ po_reply E (lk_sent L @ [frame body])) = m @ []"
    using assms by (auto simp: quiet_line_def answers_def)
  moreover have "po_writes E (lk_sent L @ [frame body])" using assms by (simp add: answers_def)
  ultimately obtain evs' where "rpc_to E body L = (Inr (m ! 4),
      L\<lparr>lk_sent := lk_sent L @ [frame body], lk_mbuf := overlay (drop 4 m) (overlay (frame body) (lk_mbuf L)), lk_in := evs' @ []\<rparr>)"
    "list_all plain evs'" "bytes_of evs' = []"
    using rpc_answer [of m "lk_in L @ po_reply E (lk_sent L @ [frame body])" "[]" L E "frame body" "[]" body]
    by (auto simp: frame_def)
  then show ?thesis by (simp add: quiet_line_def overlay_def)
qed

text \<open>The frames of \<open>read_drain\<close>, and the answer to its read.\<close>

definition walk_frame :: "byte list \<Rightarrow> byte list" where
  "walk_frame path = (let parts = take 16 (slash_parts [] (take 127 path)) in
     frame ([110] @ np16 1 @ np32 FID_ROOT @ np32 FID_FILE @ np16 (of_nat (length parts))
       @ concat (map (\<lambda>p. np16 (of_nat (length p)) @ p) parts)))"

definition open_frame :: "byte list" where
  "open_frame = frame ([112] @ np16 1 @ np32 FID_FILE @ [0])"

definition read_frame :: "nat \<Rightarrow> byte list" where
  "read_frame cap = frame ([116] @ np16 1 @ np32 FID_FILE @ np32 0 @ np32 0 @ np32 (of_nat cap))"

definition clunk_frame :: "byte list" where
  "clunk_frame = frame ([120] @ np16 1 @ np32 FID_FILE)"

definition rread :: "u16 \<Rightarrow> byte list \<Rightarrow> byte list" where
  "rread tag d = np32 (of_nat (11 + length d)) @ [117] @ np16 tag @ np32 (of_nat (length d)) @ d"

lemma rread_reply:
  assumes m: "take (length (rread tag d) - 4) mb = drop 4 (rread tag d)" and l: "length d \<le> cap" "length d \<le> 8181"
  shows "rread tag d ! 4 = 117" "read_count cap (ng32 (drop 3 mb)) = length d" "segment 7 (length d) mb = d"
proof -
  have d4: "drop 4 (rread tag d) = [117] @ np16 tag @ np32 (of_nat (length d)) @ d"
    by (simp add: rread_def np32_def)
  obtain rest where mb: "mb = [117] @ np16 tag @ np32 (of_nat (length d)) @ d @ rest"
    using m d4 by (metis append_take_drop_id append.assoc)
  have "ng32 (drop 3 mb) = of_nat (length d)"
    by (simp add: mb np16_def ng32_np32)
  moreover have "sint (of_nat (length d) :: u32) = int (length d)" "unat (of_nat (length d) :: u32) = length d"
    using l(2) by (simp_all add: signed_of_nat unsigned_of_nat take_bit_nat_eq_self signed_take_bit_int_eq_self)
  ultimately show "read_count cap (ng32 (drop 3 mb)) = length d" using l(1) by (simp add: read_count_def)
  show "segment 7 (length d) mb = d" "rread tag d ! 4 = 117"
    by (simp_all add: mb segment_def rread_def np16_def np32_def)
qed

lemma do_read_answer:
  assumes "quiet_line L" and "answers E (lk_sent L @ [read_frame cap]) (rread tag d)"
    and "length d \<le> cap" "length d \<le> 8181"
  shows "\<exists>L'. do_read E FID_FILE 0 cap L = (Some (Inr d), L') \<and> quiet_line L' \<and>
    lk_sent L' = lk_sent L @ [read_frame cap]"
proof -
  obtain L' where L': "rpc_to E ([116] @ np16 1 @ np32 FID_FILE @ np32 0 @ np32 0 @ np32 (of_nat cap)) L = (Inr (rread tag d ! 4), L')"
    "take (length (rread tag d) - 4) (lk_mbuf L') = drop 4 (rread tag d)" "quiet_line L'" "lk_sent L' = lk_sent L @ [read_frame cap]"
    using rpc_answers [OF assms(1) assms(2) [unfolded read_frame_def]] by (auto simp: read_frame_def)
  show ?thesis
    using L' rread_reply [OF L'(2) assms(3,4)] assms(3,4) by (simp add: do_read_def)
qed

lemma walk_answer:
  assumes "quiet_line L" and "answers E (lk_sent L @ [walk_frame path]) m" and "m ! 4 = 111"
  shows "\<exists>L'. do_walk E FID_ROOT FID_FILE path L = (Inr (), L') \<and> quiet_line L' \<and>
    lk_sent L' = lk_sent L @ [walk_frame path]"
  using rpc_answers [OF assms(1) assms(2) [unfolded walk_frame_def Let_def]] assms(3)
  by (auto simp: do_walk_def walk_frame_def Let_def rc_of_def)

lemma open_answer:
  assumes "quiet_line L" and "answers E (lk_sent L @ [open_frame]) m" and "m ! 4 = 113"
  shows "\<exists>L'. do_open E FID_FILE 0 L = (Inr (), L') \<and> quiet_line L' \<and> lk_sent L' = lk_sent L @ [open_frame]"
  using rpc_answers [OF assms(1) assms(2) [unfolded open_frame_def]] assms(3)
  by (auto simp: do_open_def open_frame_def rc_of_def)

lemma clunk_answer:
  assumes "quiet_line L" and "answers E (lk_sent L @ [clunk_frame]) m"
  shows "quiet_line (do_clunk E FID_FILE L) \<and> lk_sent (do_clunk E FID_FILE L) = lk_sent L @ [clunk_frame]"
  using rpc_answers [OF assms(1) assms(2) [unfolded clunk_frame_def]]
  by (auto simp: do_clunk_def clunk_frame_def)

text \<open>
  The answers to a sequence of reads at offset 0 into a buffer of \<open>cap\<close> bytes: the pieces \<open>ds\<close>, none
  empty, then an empty one.
\<close>

fun reads_answered :: "port \<Rightarrow> nat \<Rightarrow> byte list list \<Rightarrow> byte list \<Rightarrow> byte list list \<Rightarrow> bool" where
  "reads_answered E cap fs out [] =
     (length out + 8 < cap \<and> (\<exists>tag. answers E (fs @ [read_frame (cap - 1 - length out)]) (rread tag [])))"
| "reads_answered E cap fs out (d # ds) =
     (length out + 8 < cap \<and> d \<noteq> [] \<and> length d \<le> cap - 1 - length out \<and> length d \<le> 8181 \<and>
      (\<exists>tag. answers E (fs @ [read_frame (cap - 1 - length out)]) (rread tag d)) \<and>
      reads_answered E cap (fs @ [read_frame (cap - 1 - length out)]) (out @ d) ds)"

fun read_frames :: "nat \<Rightarrow> byte list \<Rightarrow> byte list list \<Rightarrow> byte list list" where
  "read_frames cap out [] = [read_frame (cap - 1 - length out)]"
| "read_frames cap out (d # ds) = read_frame (cap - 1 - length out) # read_frames cap (out @ d) ds"

lemma read_turns_answers:
  "quiet_line L \<Longrightarrow> reads_answered E cap (lk_sent L) out ds \<Longrightarrow> length ds < k \<Longrightarrow>
     \<exists>L'. read_turns E cap k out L = (Some (Inr (out @ concat ds)), L') \<and> quiet_line L' \<and>
       lk_sent L' = lk_sent L @ read_frames cap out ds"
proof (induction ds arbitrary: L out k)
  case Nil
  then obtain tag j where "answers E (lk_sent L @ [read_frame (cap - 1 - length out)]) (rread tag [])" "k = Suc j"
    by (auto dest: gr0_implies_Suc)
  then show ?case using do_read_answer [OF Nil.prems(1)] Nil.prems by fastforce
next
  case (Cons d ds)
  obtain tag j where a: "answers E (lk_sent L @ [read_frame (cap - 1 - length out)]) (rread tag d)" "k = Suc j"
    using Cons.prems by (cases k) auto
  obtain L1 where L1: "do_read E FID_FILE 0 (cap - 1 - length out) L = (Some (Inr d), L1)" "quiet_line L1"
    "lk_sent L1 = lk_sent L @ [read_frame (cap - 1 - length out)]"
    using do_read_answer [OF Cons.prems(1) a(1)] Cons.prems(2) by auto
  from Cons.IH [OF L1(2), of "out @ d" j] obtain L' where
    "read_turns E cap j (out @ d) L1 = (Some (Inr ((out @ d) @ concat ds)), L')" "quiet_line L'"
    "lk_sent L' = lk_sent L1 @ read_frames cap (out @ d) ds"
    using Cons.prems L1(3) a(2) by auto
  then show ?case using L1 a(2) Cons.prems(2) by auto
qed

text \<open>
  C33. Reading a file over the link gives exactly its pieces in order, whatever the fragmentation of
  the answers: with a server that walks, opens, answers up to seven reads with data and one with
  nothing, the text is the concatenation of the data; the requests are one walk, one open, the
  reads and one clunk, and the line is left clean for the next file.
\<close>

theorem host_reads_file:
  assumes L: "quiet_line L" and fs: "fs = lk_sent L @ [walk_frame path, open_frame]"
    and w: "answers E (lk_sent L @ [walk_frame path]) rw" "rw ! 4 = 111"
    and op: "answers E fs ro" "ro ! 4 = 113"
    and rd: "reads_answered E cap fs [] ds" "length ds < 8"
    and cl: "answers E (fs @ read_frames cap [] ds @ [clunk_frame]) rc"
  shows "\<exists>L'. read_file E path cap L = (Some (Inr (concat ds)), L') \<and> quiet_line L' \<and>
    lk_sent L' = fs @ read_frames cap [] ds @ [clunk_frame]"
proof -
  obtain L1 where L1: "do_walk E FID_ROOT FID_FILE path L = (Inr (), L1)" "quiet_line L1"
    "lk_sent L1 = lk_sent L @ [walk_frame path]" using walk_answer [OF L w] by blast
  have "answers E (lk_sent L1 @ [open_frame]) ro" using op(1) fs L1(3) by simp
  from open_answer [OF L1(2) this op(2)] obtain L2 where L2: "do_open E FID_FILE 0 L1 = (Inr (), L2)" "quiet_line L2"
    "lk_sent L2 = fs" using fs L1(3) by auto
  from read_turns_answers [OF L2(2) _ rd(2)] rd(1) L2(3) obtain L3 where
    L3: "read_turns E cap 8 [] L2 = (Some (Inr (concat ds)), L3)" "quiet_line L3" "lk_sent L3 = fs @ read_frames cap [] ds"
    by fastforce
  have "answers E (lk_sent L3 @ [clunk_frame]) rc" using cl L3(3) by simp
  from clunk_answer [OF L3(2) this] show ?thesis using L1(1) L2(1) L3 by (simp add: read_file_def)
qed

subsection \<open>The main loop\<close>

lemma forward_read_devs: "devs_wf S \<Longrightarrow> forward_read C r S = (k, S') \<Longrightarrow> devs_wf S'"
  using forward_stream_devs [of S C] by (auto simp: forward_read_def split: sum.splits if_splits) (metis snd_conv)+

lemma cycle_devs: "devs_wf S \<Longrightarrow> cycle E C interval (L, S) = (r, L', S') \<Longrightarrow> devs_wf S'"
  unfolding cycle_def Let_def
  by (auto split: prod.splits option.splits if_splits intro!: dev_age_devs) (metis forward_read_devs)+

lemma main_turn_devs: "devs_wf S \<Longrightarrow> main_turn E C interval up (held, L, S) = Some (held', L', S') \<Longrightarrow> devs_wf S'"
  by (auto simp: main_turn_def dest: cycle_devs split: prod.splits bool.splits option.splits)

text \<open>
  However long the forwarder runs, whatever the ports deliver, drop or cut off and whatever the
  collector refuses, its device table stays well formed: at most 64 entries, no serial twice, none
  empty or longer than its field, and a device is active only if something was posted for it.
\<close>

theorem forwarder_devices_invariant:
  "devs_wf S \<Longrightarrow> main_loop E C interval ups (held, L, S) = Some (held', L', S') \<Longrightarrow> devs_wf S'"
proof (induction ups arbitrary: held L S)
  case (Cons up ups)
  then obtain h L1 S1 where "main_turn E C interval up (held, L, S) = Some (h, L1, S1)"
    "main_loop E C interval ups (h, L1, S1) = Some (held', L', S')"
    by (auto split: option.splits)
  with Cons.IH main_turn_devs [OF Cons.prems(1)] show ?case by blast
qed simp

end
