(* ===== verification/ForwardWitness.thy ===== *)
theory ForwardWitness
  imports NodeWitness ForwardLinkProps
begin

text \<open>
  The properties of the forwarder's client at a concrete port, whose answers come in pieces, with
  an interrupted call in between: a file of three bytes in one piece, then nothing.
\<close>

definition small_reply :: "byte \<Rightarrow> byte list" where
  "small_reply t = [7, 0, 0, 0, t, 1, 0]"

definition demo_answer :: "byte list list \<Rightarrow> byte list" where
  "demo_answer fs =
     (let t = last fs ! 4 in
      if t = 116 then (if length (filter (\<lambda>f. f ! 4 = 116) fs) = 1 then rread 1 [10, 11, 12] else rread 1 [])
      else small_reply (t + 1))"

definition demo_port :: port where
  "demo_port = \<lparr>po_writes = (\<lambda>_. True),
     po_reply = (\<lambda>fs. [Again, Bytes (take 5 (demo_answer fs)), Again, Bytes (drop 5 (demo_answer fs))])\<rparr>"

definition demo_link :: flink where
  "demo_link = \<lparr>lk_in = [], lk_mbuf = [], lk_sent = []\<rparr>"

lemma small_reply_ok: "reply_ok (small_reply t)"
  by (simp add: reply_ok_def small_reply_def ng32_def)

lemma rread_ok: "length d \<le> 8181 \<Longrightarrow> reply_ok (rread tag d)"
  by (simp add: reply_ok_def rread_def)

lemma demo_answers: "demo_answer fs = m \<Longrightarrow> reply_ok m \<Longrightarrow> answers demo_port fs m"
  by (auto simp: answers_def demo_port_def reply_ok_def)

theorem rpc_equivalence_witness:
  "\<exists>evs' L'. rpc_to demo_port [112, 1, 0] demo_link = (Inr 113, L') \<and> lk_in L' = evs' \<and> bytes_of evs' = []"
proof -
  let ?f = "np32 (of_nat (4 + length [112, 1, 0 :: byte])) @ [112, 1, 0]"
  have a: "demo_answer (lk_sent demo_link @ [?f]) = small_reply 113"
    by (simp add: demo_link_def demo_answer_def np32_def Let_def)
  have "list_all plain (po_reply demo_port (lk_sent demo_link @ [?f]))"
    "bytes_of (po_reply demo_port (lk_sent demo_link @ [?f])) = small_reply 113 @ []"
    "lk_in demo_link @ po_reply demo_port (lk_sent demo_link @ [?f]) = po_reply demo_port (lk_sent demo_link @ [?f]) @ []"
    "po_writes demo_port (lk_sent demo_link @ [?f])"
    using demo_answers [OF a small_reply_ok] by (simp_all add: answers_def demo_link_def)
  from rpc_equivalence [OF small_reply_ok this] show ?thesis by (auto simp: small_reply_def)
qed

theorem late_reply_taken_witness:
  "\<exists>L1 L2. rpc_to \<lparr>po_writes = (\<lambda>_. True), po_reply = (\<lambda>fs. if length fs = 1 then [Quiet] else [Bytes (small_reply 111), Bytes (small_reply 113)])\<rparr>
      [110] demo_link = (Inl RC_TIMEOUT, L1) \<and>
    rpc_to \<lparr>po_writes = (\<lambda>_. True), po_reply = (\<lambda>fs. if length fs = 1 then [Quiet] else [Bytes (small_reply 111), Bytes (small_reply 113)])\<rparr>
      [112] L1 = (Inr 111, L2) \<and> bytes_of (lk_in L2) = small_reply 113"
  (is "\<exists>L1 L2. rpc_to ?E _ _ = _ \<and> _")
proof -
  have "small_reply 113 \<noteq> []" "small_reply 111 ! 4 = 111" by (simp_all add: small_reply_def)
  then show ?thesis
    using late_reply_taken [of demo_link ?E "np32 (of_nat (4 + length [110 :: byte])) @ [110]" "small_reply 111"
      "np32 (of_nat (4 + length [112 :: byte])) @ [112]" "small_reply 113" "[110]" "[112]", OF _ _ small_reply_ok]
    by (simp add: demo_link_def)
qed

theorem host_reads_file_witness:
  "\<exists>L'. read_file demo_port (ascii ''dev/x'') 16384 demo_link = (Some (Inr [10, 11, 12]), L') \<and> quiet_line L'"
proof -
  let ?w = "walk_frame (ascii ''dev/x'')" and ?r0 = "read_frame 16383" and ?r1 = "read_frame 16380"
  have nth4: "?w ! 4 = 110" "open_frame ! 4 = 112" "?r0 ! 4 = 116" "?r1 ! 4 = 116" "clunk_frame ! 4 = 120"
    by (simp_all add: walk_frame_def open_frame_def read_frame_def clunk_frame_def frame_def np32_def Let_def)
  have a: "demo_answer [?w] = small_reply 111" "demo_answer [?w, open_frame] = small_reply 113"
    "demo_answer [?w, open_frame, ?r0] = rread 1 [10, 11, 12]" "demo_answer [?w, open_frame, ?r0, ?r1] = rread 1 []"
    "demo_answer [?w, open_frame, ?r0, ?r1, clunk_frame] = small_reply 121"
    by (simp_all add: demo_answer_def nth4)
  have r: "answers demo_port [?w] (small_reply 111)" "answers demo_port [?w, open_frame] (small_reply 113)"
    "answers demo_port [?w, open_frame, ?r0] (rread 1 [10, 11, 12])" "answers demo_port [?w, open_frame, ?r0, ?r1] (rread 1 [])"
    "answers demo_port [?w, open_frame, ?r0, ?r1, clunk_frame] (small_reply 121)"
    using demo_answers [OF a(1) small_reply_ok] demo_answers [OF a(2) small_reply_ok] demo_answers [OF a(3) rread_ok]
      demo_answers [OF a(4) rread_ok] demo_answers [OF a(5) small_reply_ok] by simp_all
  have q: "quiet_line demo_link" "lk_sent demo_link = []" by (simp_all add: quiet_line_def demo_link_def)
  have rd: "reads_answered demo_port 16384 [?w, open_frame] [] [[10, 11, 12]]"
    using r(3,4) by (auto intro!: exI [of _ 1])
  have i: "small_reply 111 ! 4 = 111" "small_reply 113 ! 4 = 113" by (simp_all add: small_reply_def)
  show ?thesis
    using host_reads_file [OF q(1), of "[?w, open_frame]" "ascii ''dev/x''" demo_port "small_reply 111" "small_reply 113"
        16384 "[[10, 11, 12]]" "small_reply 121"] r rd q(2) i by auto
qed

text \<open>A port that answers version and attach and then hangs up.\<close>

definition demo_cut :: port where
  "demo_cut = demo_port\<lparr>po_reply := (\<lambda>fs. if length fs = 1 then [Bytes (small_reply 101)]
     else if length fs = 2 then [Bytes (small_reply 105)] else [Hangup])\<rparr>"

theorem forwarder_devices_invariant_witness:
  "\<exists>L S. main_loop demo_cut demo_collector 30 [None, Some []] (False, demo_link, demo_fwd) = Some (False, L, S) \<and>
    length (lk_sent L) = 3 \<and> devs_wf S"
proof -
  have "case main_loop demo_cut demo_collector 30 [None, Some []] (False, demo_link, demo_fwd) of
      Some (h, L, S) \<Rightarrow> \<not> h \<and> length (lk_sent L) = 3 | None \<Rightarrow> False" by code_simp
  then obtain L S where r: "main_loop demo_cut demo_collector 30 [None, Some []] (False, demo_link, demo_fwd) = Some (False, L, S)"
    "length (lk_sent L) = 3"
    by (auto split: option.splits)
  have "devs_wf demo_fwd" by (simp add: devs_wf_def demo_fwd_def)
  from forwarder_devices_invariant [OF this r(1)] r show ?thesis by blast
qed

end
