(* ===== verification/RelayBoot.thy ===== *)
theory RelayBoot
  imports Relay ForwardProps
begin

text \<open>
  The rest of the relay (\<open>dect_relay/src/main.c\<close>): its own telemetry file, the file tree it serves
  and the order in which it is composed, the salt of its file identifiers, the start of the program,
  and Bluetooth advertising. The calls into the 9P server, USB and Bluetooth libraries are values in
  a log; their results are given by an environment.
\<close>

subsection \<open>The relay's own telemetry\<close>

definition relay_serial :: "byte list option \<Rightarrow> byte list" where
  "relay_serial devid =
     (case devid of
        None \<Rightarrow> []
      | Some d \<Rightarrow> if length d < 4 then [] else snprintf_out 24 (ascii ''dect-relay-'' @ concat (map fmt_02x (take 4 d))))"

definition mflt5340_read ::
    "'p packetizer \<Rightarrow> byte list \<Rightarrow> nat \<Rightarrow> nat \<Rightarrow> 'p \<Rightarrow> nat \<times> byte list \<times> 'p" where
  "mflt5340_read K serial buf_size off p =
     (if off \<noteq> 0 \<or> \<not> pk_available K p then (0, [], p)
      else (let l = ascii ''DEV:'' @ serial @ ascii '':'' @ [nl]
            in mflt_loop K buf_size (length l) (snprintf_out buf_size l) p))"

definition fw_write_confirm :: "errno option \<Rightarrow> nat \<Rightarrow> nat res" where
  "fw_write_confirm dfu_confirm n = (case dfu_confirm of Some e \<Rightarrow> Inl e | None \<Rightarrow> Inr n)"

subsection \<open>The served tree\<close>

datatype rhandler =
    Fw_write_reboot | Fw_write_confirm | Fw9151_read | Fw9151_write | Fw9151_clunk | Fw9151_reboot_write
  | Fw9151_confirm_write | Push_ctl_write | Push_write | Push_clunk | Link9151_read | Mflt5340_read
  | Mflt9151_read | Mflt_mesh_read | Mflt_probe_read | Fw9151auto_read | Fw9151auto_write | Mesh_peer_read
  | Fw_write_mesh_peer | Aether_state_read | Aether_state_write

datatype boot_call =
    Sysfs_init nat
  | Sysfs_set_qid_salt u64
  | Device_id_set "byte list"
  | Register string "rhandler option" "rhandler option" "rhandler option" \<comment> \<open>read, write, clunk\<close>
  | Register_dir string
  | Dfu_init string
  | Remote_fs_init string nat
  | Remote_fs_set_qid_salt string u64
  | Conv_transport_init
  | Mesh9p_client_init
  | Union_fs_init nat
  | Union_fs_mount string
  | Pool_uart_init
  | Pool_uart_start

record boot_env =
  bo_cdc_ready :: bool
  bo_devid :: "byte list option"
  bo_memfault :: bool
  bo_devid_runtime :: bool
  bo_result :: "boot_call list \<Rightarrow> boot_call \<Rightarrow> errno option"

definition qid_salt :: "byte list option \<Rightarrow> u64" where
  "qid_salt devid = (case devid of None \<Rightarrow> 0 | Some d \<Rightarrow> foldl (\<lambda>s b. push_bit 8 s OR ucast b) 0 d)"

text \<open>The calls in order; \<open>True\<close> marks those whose failure ends the start-up.\<close>

definition boot_identity :: "boot_env \<Rightarrow> (bool \<times> boot_call) list" where
  "boot_identity E =
     (let salt = qid_salt (bo_devid E); serial = relay_serial (bo_devid E) in
      [(True, Sysfs_init 48)]
      @ (if salt \<noteq> 0 then [(False, Sysfs_set_qid_salt salt)] else [])
      @ (if bo_memfault E \<and> bo_devid_runtime E \<and> serial \<noteq> [] then [(False, Device_id_set serial)] else []))"

definition boot_files :: "boot_env \<Rightarrow> (bool \<times> boot_call) list" where
  "boot_files E =
     map (Pair False)
       ([Register ''dev/reboot'' None (Some Fw_write_reboot) None,
         Register ''dev/confirm'' None (Some Fw_write_confirm) None,
         Register ''dev/fw9151'' (Some Fw9151_read) (Some Fw9151_write) (Some Fw9151_clunk),
         Register ''dev/reboot9151'' None (Some Fw9151_reboot_write) None,
         Register ''dev/confirm9151'' None (Some Fw9151_confirm_write) None,
         Register ''dev/push_ctl'' None (Some Push_ctl_write) None,
         Register ''dev/push'' None (Some Push_write) (Some Push_clunk),
         Register ''dev/link9151'' (Some Link9151_read) None None]
        @ (if bo_memfault E
           then [Register ''dev/mflt5340'' (Some Mflt5340_read) None None,
                 Register ''dev/mflt9151'' (Some Mflt9151_read) None None,
                 Register ''dev/mflt_mesh'' (Some Mflt_mesh_read) None None,
                 Register ''dev/mflt_probe'' (Some Mflt_probe_read) None None]
           else [])
        @ [Register ''dev/fw9151auto'' (Some Fw9151auto_read) (Some Fw9151auto_write) None,
           Register ''dev/mesh_peer'' (Some Mesh_peer_read) (Some Fw_write_mesh_peer) None,
           Register_dir ''dev/aether'',
           Register ''dev/aether/addr'' (Some Aether_state_read) None None,
           Register ''dev/aether/rank'' (Some Aether_state_read) None None,
           Register ''dev/aether/parent'' (Some Aether_state_read) None None,
           Register ''dev/aether/nodeid'' (Some Aether_state_read) None None,
           Register ''dev/aether/tree'' (Some Aether_state_read) None None,
           Register ''dev/aether/neighbors'' (Some Aether_state_read) None None,
           Register ''dev/aether/routes'' (Some Aether_state_read) None None,
           Register ''dev/aether/chat'' (Some Aether_state_read) (Some Aether_state_write) None])
     @ [(True, Dfu_init ''dev/fw5340'')]"

definition boot_mounts :: "boot_env \<Rightarrow> (bool \<times> boot_call) list" where
  "boot_mounts E =
     (let salt = qid_salt (bo_devid E) in
      [(True, Remote_fs_init ''net/aether'' 24)]
      @ (if salt \<noteq> 0 then [(False, Remote_fs_set_qid_salt ''net/aether'' salt)] else [])
      @ [(True, Conv_transport_init), (True, Mesh9p_client_init), (True, Remote_fs_init '''' 16)]
      @ (if salt \<noteq> 0 then [(False, Remote_fs_set_qid_salt '''' (salt + 0x1000))] else [])
      @ [(True, Union_fs_init 3), (True, Union_fs_mount ''/''), (True, Union_fs_mount ''/net/aether''),
         (True, Union_fs_mount ''/net/mesh'')])"

definition boot_pool :: "(bool \<times> boot_call) list" where
  "boot_pool = [(True, Pool_uart_init), (True, Pool_uart_start)]"

definition boot_steps :: "boot_env \<Rightarrow> (bool \<times> boot_call) list" where
  "boot_steps E = boot_identity E @ boot_files E @ boot_mounts E @ boot_pool"

fun boot_run :: "boot_env \<Rightarrow> (bool \<times> boot_call) list \<Rightarrow> boot_call list \<Rightarrow> errno option \<times> boot_call list" where
  "boot_run E [] log = (None, log)"
| "boot_run E ((must, c) # cs) log =
     (case bo_result E log c of
        Some e \<Rightarrow> if must then (Some e, log @ [c]) else boot_run E cs (log @ [c])
      | None \<Rightarrow> boot_run E cs (log @ [c]))"

definition fw_9p_init :: "boot_env \<Rightarrow> errno option \<times> boot_call list" where
  "fw_9p_init E =
     (if \<not> bo_cdc_ready E then (Some ENODEV, [])
      else boot_run E (boot_steps E) [])"

subsection \<open>The start of the program\<close>

datatype main_call =
    Mesh_client_init | Nrf91_probe | Usb_enable | Console_bridge_init | Fw_9p_init | Bt_enable | Pis_init
  | Adv_start | L2cap_init | L2cap_start

record main_env =
  mn_result :: "main_call \<Rightarrow> int"
  mn_uarts_ready :: bool
  mn_EALREADY :: int

definition relay_main :: "main_env \<Rightarrow> main_call list" where
  "relay_main E =
     (let r = mn_result E in
      [Mesh_client_init, Nrf91_probe, Usb_enable]
      @ (if r Usb_enable \<noteq> 0 \<and> r Usb_enable \<noteq> - mn_EALREADY E \<or> \<not> mn_uarts_ready E then []
         else [Console_bridge_init, Fw_9p_init])
      @ [Bt_enable]
      @ (if r Bt_enable \<noteq> 0 then []
         else [Pis_init, Adv_start]
           @ (if r Adv_start \<noteq> 0 then []
              else [L2cap_init] @ (if r L2cap_init \<noteq> 0 then [] else [L2cap_start]))))"

subsection \<open>Advertising\<close>

text \<open>Whether the stack advertises, its connections, and whether the restart work is scheduled.\<close>

record adv =
  av_on :: bool
  av_conns :: nat
  av_work :: bool

definition adv_start :: "int \<Rightarrow> adv \<Rightarrow> adv" where
  "adv_start err A = (if err = 0 then A\<lparr>av_on := True\<rparr> else A)"

definition adv_work_fn :: "int \<Rightarrow> int \<Rightarrow> adv \<Rightarrow> adv" where
  "adv_work_fn already err A =
     (let A1 = adv_start err (A\<lparr>av_work := False\<rparr>)
      in if err = 0 \<or> err = - already then A1 else A1\<lparr>av_work := True\<rparr>)"

definition connected :: "byte \<Rightarrow> adv \<Rightarrow> adv" where
  "connected err A = (if err \<noteq> 0 then A\<lparr>av_work := True\<rparr> else A)"

definition disconnected :: "byte \<Rightarrow> adv \<Rightarrow> adv" where
  "disconnected reason A = A\<lparr>av_work := True\<rparr>"

text \<open>
  The stack: connectable advertising stops by itself when a connection is made or fails, and
  \<open>-EALREADY\<close> is answered only while it advertises.
\<close>

inductive adv_step :: "int \<Rightarrow> adv \<Rightarrow> adv \<Rightarrow> bool" for already where
  work: "av_work A \<Longrightarrow> (err = - already \<Longrightarrow> av_on A) \<Longrightarrow> adv_step already A (adv_work_fn already err A)"
| connect: "av_on A \<Longrightarrow> adv_step already A (connected 0 (A\<lparr>av_on := False, av_conns := av_conns A + 1\<rparr>))"
| refuse: "av_on A \<Longrightarrow> err \<noteq> 0 \<Longrightarrow> adv_step already A (connected err (A\<lparr>av_on := False\<rparr>))"
| hang_up: "0 < av_conns A \<Longrightarrow> adv_step already A (disconnected reason (A\<lparr>av_conns := av_conns A - 1\<rparr>))"

inductive adv_reach :: "int \<Rightarrow> adv \<Rightarrow> bool" for already where
  start: "adv_reach already (adv_start 0 \<lparr>av_on = False, av_conns = 0, av_work = False\<rparr>)"
| step: "adv_reach already A \<Longrightarrow> adv_step already A A' \<Longrightarrow> adv_reach already A'"

text \<open>
  The start of the relay's 9P client on the serial line to the nRF9151, with the operations of its
  transport, and the two callbacks of the firmware files that only log or restart. The client
  library is a parameter: it is given what the transport does when it is started.
\<close>

datatype client_call =
    Sess_mutex_init | Wr_mutex_init | Rx_workq_start | Rx_work_init | Rx_irq_disable | Rx_irq_callback
  | Rx_irq_enable | Monitor_start

text \<open>Bytes go out one by one; the line is the bytes sent so far.\<close>

fun mesh_tx_send :: "byte list \<Rightarrow> byte list \<Rightarrow> byte list" where
  "mesh_tx_send [] line = line"
| "mesh_tx_send (b # buf) line = mesh_tx_send buf (line @ [b])"

definition mesh_tx_start :: "client_call list" where
  "mesh_tx_start = [Rx_irq_disable, Rx_irq_callback, Rx_irq_enable]"

definition mesh_client_init :: "bool \<Rightarrow> (client_call list \<Rightarrow> errno option \<times> client_call list) \<Rightarrow> errno option \<times> client_call list" where
  "mesh_client_init uart_ready client_init =
     (if \<not> uart_ready then (Some ENODEV, [Sess_mutex_init, Wr_mutex_init])
      else case client_init mesh_tx_start of
        (r, calls) \<Rightarrow>
          (r, [Sess_mutex_init, Wr_mutex_init, Rx_workq_start, Rx_work_init] @ calls
            @ (if r = None then [Monitor_start] else [])))"

text \<open>\<open>fw_write_reboot\<close>: whatever is written restarts the relay.\<close>

datatype fw_effect = Restarted | Logged "byte list" | Silent

definition fw_write_reboot :: "byte list \<Rightarrow> nat \<Rightarrow> fw_effect" where
  "fw_write_reboot buf off = Restarted"

datatype ninep_dfu_state = NINEP_DFU_ERASING | NINEP_DFU_COMPLETE | NINEP_DFU_ERROR | Dfu_other nat

fun fw_dfu_status :: "ninep_dfu_state \<Rightarrow> int \<Rightarrow> fw_effect" where
  "fw_dfu_status NINEP_DFU_ERASING err = Logged (ascii ''fw5340 DFU: erasing secondary slot'')"
| "fw_dfu_status NINEP_DFU_COMPLETE err = Logged (ascii ''fw5340 DFU: complete - reboot to apply'')"
| "fw_dfu_status NINEP_DFU_ERROR err = Logged (ascii ''fw5340 DFU: error '' @ dec_int err)"
| "fw_dfu_status (Dfu_other n) err = Silent"

lemma mesh_tx_send_appends: "mesh_tx_send buf line = line @ buf"
  by (induction buf line rule: mesh_tx_send.induct) auto

text \<open>
  A library that starts the transport once gets interrupts only when the work item they submit is
  ready, and the monitor, which uses the locks and the client, runs only after both are.
\<close>

theorem mesh_client_order:
  assumes "client_init = (\<lambda>start. (r, start))"
  shows "snd (mesh_client_init True client_init) =
    [Sess_mutex_init, Wr_mutex_init, Rx_workq_start, Rx_work_init, Rx_irq_disable, Rx_irq_callback, Rx_irq_enable]
    @ (if r = None then [Monitor_start] else [])"
  by (simp add: assms mesh_client_init_def mesh_tx_start_def)

end
