(* ===== verification/RelayBootProps.thy ===== *)
theory RelayBootProps
  imports RelayBoot
begin

text \<open>
  The relay's telemetry reaches the collector under its serial; its file identifiers differ from
  those of any other relay; its tree is served only if it is complete; it stays discoverable.
\<close>

subsection \<open>Telemetry\<close>

lemma relay_serial_ok:
  assumes "4 \<le> length d"
  shows "relay_serial (Some d) = ascii ''dect-relay-'' @ concat (map fmt_02x (take 4 d))"
    and "item_ok (Dev (relay_serial (Some d)))" and "relay_serial (Some d) \<noteq> []"
    and "length (relay_serial (Some d)) = 19"
proof -
  have l: "length (concat (map fmt_02x (take 4 d))) = 8"
  proof -
    have "length (concat (map fmt_02x xs)) = 2 * length xs" for xs by (induction xs) simp_all
    then show ?thesis using assms by simp
  qed
  show eq: "relay_serial (Some d) = ascii ''dect-relay-'' @ concat (map fmt_02x (take 4 d))"
    using assms l by (simp add: relay_serial_def snprintf_out_def ascii_def)
  have "b \<in> set (concat (map fmt_02x xs)) \<Longrightarrow> b \<in> set hex_digits" for b xs
    using hexd_mem [OF nibbles_lt16(1)] hexd_mem [OF nibbles_lt16(2)] by (auto simp: fmt_02x_def)
  then show "item_ok (Dev (relay_serial (Some d)))"
    unfolding eq using l hex_digits_plain by (fastforce simp: ascii_def)
  show "relay_serial (Some d) \<noteq> []" "length (relay_serial (Some d)) = 19" unfolding eq using l by (simp_all add: ascii_def)
qed

text \<open>
  The relay's own telemetry reaches the collector like a node's: the chunks that a read of its
  file took out of the packetizer, except empty ones, are posted once each and in order under the
  relay's serial, and the read returns exactly what it wrote, within the buffer.
\<close>

theorem relay_telemetry:
  assumes fit: "chunks_fit K" and d: "4 \<le> length d" and sz: "25 < sz" and av: "pk_available K p"
    and rd: "mflt5340_read K (relay_serial (Some d)) sz 0 p = (n, out, p')"
  shows "n = length out \<and> n \<le> sz \<and> (\<exists>cs. taken K cs p p' \<and>
    fw_posts (snd (forward_stream C out S)) =
      fw_posts S @ map (Pair (relay_serial (Some d))) (filter (\<lambda>c. c \<noteq> []) cs))"
proof -
  let ?s = "relay_serial (Some d)"
  have r: "ascii ''DEV:'' @ ?s @ ascii '':'' @ [nl] = render (Dev ?s)" "length (render (Dev ?s)) = 25"
    using relay_serial_ok(4) [OF d] by (simp_all add: ascii_def)
  have "mflt_loop K sz (length (render (Dev ?s))) (snprintf_out sz (render (Dev ?s))) p = (n, out, p')"
    using rd av by (simp only: mflt5340_read_def r(1) Let_def) simp
  moreover have "length (render (Dev ?s)) \<le> sz" using sz r(2) by simp
  ultimately show ?thesis
    using drained_posts [OF fit relay_serial_ok(2) [OF d] relay_serial_ok(3) [OF d]] sz r(2) by (simp add: snprintf_out_def)
qed

subsection \<open>File identifiers\<close>

lemma salt_step_bit:
  "bit (push_bit 8 s OR ucast (b :: byte) :: u64) n \<longleftrightarrow> n < 64 \<and> (8 \<le> n \<and> bit s (n - 8) \<or> n < 8 \<and> bit b n)"
  using bit_imp_le_length [of b n] by (auto simp: bit_simps)

abbreviation salt_of :: "byte list \<Rightarrow> u64" where "salt_of d \<equiv> qid_salt (Some d)"

lemma salt_snoc: "salt_of (d @ [b]) = push_bit 8 (salt_of d) OR ucast b"
  by (simp add: qid_salt_def)

lemma salt_bits: "bit (salt_of f) n \<Longrightarrow> n < 8 * length f"
proof (induction f arbitrary: n rule: rev_induct)
  case (snoc x f)
  then show ?case unfolding salt_snoc salt_step_bit by fastforce
qed (simp add: qid_salt_def)

lemma salt_inj:
  "length d = length d' \<Longrightarrow> length d \<le> 8 \<Longrightarrow> salt_of d = salt_of d' \<Longrightarrow> d = d'"
proof (induction d arbitrary: d' rule: rev_induct)
  case (snoc b d)
  obtain c e where d': "d' = e @ [c]" using snoc.prems(1) by (cases d' rule: rev_cases) auto
  have bits: "8 \<le> n \<and> bit (salt_of d) (n - 8) \<or> n < 8 \<and> bit b n \<longleftrightarrow>
      8 \<le> n \<and> bit (salt_of e) (n - 8) \<or> n < 8 \<and> bit c n" if "n < 64" for n
    using arg_cong [OF snoc.prems(3), of "\<lambda>w. bit w n"] that unfolding d' salt_snoc salt_step_bit by simp
  have "b = c"
  proof (rule bit_word_eqI)
    show "bit b n = bit c n" if "n < LENGTH(8)" for n using bits [of n] that by simp
  qed
  moreover have "salt_of d = salt_of e"
  proof (rule bit_word_eqI)
    fix n assume "n < LENGTH(64)"
    show "bit (salt_of d) n = bit (salt_of e) n"
    proof (cases "n < 56")
      case True
      then show ?thesis using bits [of "n + 8"] by simp
    next
      case False
      then show ?thesis using salt_bits [of d n] salt_bits [of e n] snoc.prems(1,2) d' by auto
    qed
  qed
  ultimately show ?case using snoc.IH [of e] snoc.prems(1,2) d' by simp
qed simp

lemma boot_run_calls: "set (snd (boot_run E cs log)) \<subseteq> set log \<union> snd ` set cs"
proof (induction cs arbitrary: log)
  case (Cons x cs)
  obtain m c where x: "x = (m, c)" by fastforce
  have "set (snd (boot_run E cs (log @ [c]))) \<subseteq> set log \<union> snd ` set (x # cs)"
    using Cons.IH [of "log @ [c]"] x by fastforce
  then show ?case using x by (auto split: option.splits)
qed simp

lemma init_calls: "c \<in> set (snd (fw_9p_init E)) \<Longrightarrow> c \<in> snd ` set (boot_steps E)"
  using boot_run_calls [of E "boot_steps E" "[]"] by (auto simp: fw_9p_init_def split: if_splits)

lemmas boot_step_defs = boot_steps_def boot_identity_def boot_files_def boot_mounts_def boot_pool_def Let_def

lemma salt_calls:
  "Sysfs_set_qid_salt s \<in> snd ` set (boot_steps E) \<Longrightarrow> s = qid_salt (bo_devid E)"
  "Remote_fs_set_qid_salt ''net/aether'' s \<in> snd ` set (boot_steps E) \<Longrightarrow> s = qid_salt (bo_devid E)"
  "Remote_fs_set_qid_salt [] s \<in> snd ` set (boot_steps E) \<Longrightarrow> s = qid_salt (bo_devid E) + 0x1000"
  by (auto simp: boot_step_defs split: if_splits)

text \<open>
  Two relays with different device ids never present the same file identifiers: whatever salt
  one of them gives to its tree, or to the part of it that is the node's \<open>net/aether\<close>, differs
  from the salt of the other; the salt of the remote mount differs from both on the same relay.
\<close>

theorem relay_salts_differ:
  assumes d: "bo_devid E = Some d" "bo_devid E' = Some d'" "length d = 8" "length d' = 8" "d \<noteq> d'"
    and c: "c \<in> set (snd (fw_9p_init E))" "c = Sysfs_set_qid_salt s \<or> c = Remote_fs_set_qid_salt ''net/aether'' s"
    and c': "c' \<in> set (snd (fw_9p_init E'))" "c' = Sysfs_set_qid_salt s' \<or> c' = Remote_fs_set_qid_salt ''net/aether'' s'"
  shows "s \<noteq> s' \<and> Remote_fs_set_qid_salt [] s \<notin> set (snd (fw_9p_init E))"
proof -
  have s: "s = salt_of d" "s' = salt_of d'"
    using init_calls [OF c(1)] init_calls [OF c'(1)] c(2) c'(2) salt_calls d(1,2) by metis+
  have "s \<noteq> s'" using salt_inj [of d d'] d(3-5) s by auto
  moreover have "s \<noteq> s + 0x1000" by simp
  ultimately show ?thesis using init_calls salt_calls(3) d(1) s(1) by metis
qed

subsection \<open>The tree is complete when it is served\<close>

lemma boot_run_all:
  "boot_run E cs log = (r, log') \<Longrightarrow> \<exists>k \<le> length cs. log' = log @ map snd (take k cs) \<and>
     (\<forall>i < k - 1. fst (cs ! i) \<longrightarrow> bo_result E (log @ map snd (take i cs)) (snd (cs ! i)) = None)"
proof (induction cs arbitrary: log)
  case (Cons x cs)
  obtain m c where x: "x = (m, c)" by fastforce
  show ?case
  proof (cases "m \<and> bo_result E log c \<noteq> None")
    case True
    then show ?thesis using Cons.prems x by (intro exI [of _ 1]) auto
  next
    case False
    then have "boot_run E cs (log @ [c]) = (r, log')" using Cons.prems x by (auto split: option.splits if_splits)
    from Cons.IH [OF this] obtain k where k: "k \<le> length cs" "log' = (log @ [c]) @ map snd (take k cs)"
      "\<forall>i < k - 1. fst (cs ! i) \<longrightarrow> bo_result E ((log @ [c]) @ map snd (take i cs)) (snd (cs ! i)) = None" by blast
    have "fst ((x # cs) ! i) \<longrightarrow> bo_result E (log @ map snd (take i (x # cs))) (snd ((x # cs) ! i)) = None"
      if "i < Suc k - 1" for i
      using that k(3) False x by (cases i) auto
    then show ?thesis using k x by (intro exI [of _ "Suc k"]) auto
  qed
qed simp

definition registered :: "boot_call list \<Rightarrow> string list" where
  "registered log = concat (map (\<lambda>c. case c of Register p _ _ _ \<Rightarrow> [p] | Register_dir p \<Rightarrow> [p] | Dfu_init p \<Rightarrow> [p] | _ \<Rightarrow> []) log)"

lemma registered_append: "registered (a @ b) = registered a @ registered b"
  by (simp add: registered_def)

lemma registered_steps: "distinct (registered (map snd (boot_steps E))) \<and> length (registered (map snd (boot_steps E))) \<le> 24"
proof -
  have "registered (map snd (boot_identity E)) = []" "registered (map snd (boot_mounts E)) = []" "registered (map snd boot_pool) = []"
    by (simp_all add: boot_identity_def boot_mounts_def boot_pool_def registered_def Let_def)
  then have "registered (map snd (boot_steps E)) = registered (map snd (boot_files E))"
    by (simp add: boot_steps_def registered_append)
  then show ?thesis by (cases "bo_memfault E") (simp_all add: boot_files_def registered_def)
qed

lemma pool_start_last:
  assumes "Pool_uart_start \<in> set (map snd (take k (boot_steps E)))"
  shows "length (boot_steps E) \<le> k"
proof (rule ccontr)
  let ?init = "boot_identity E @ boot_files E @ boot_mounts E @ [(True, Pool_uart_init)]"
  assume k: "\<not> length (boot_steps E) \<le> k"
  have b: "boot_steps E = ?init @ [(True, Pool_uart_start)]" by (simp add: boot_steps_def boot_pool_def)
  have "take k (a @ [x]) = take k a" if "\<not> length (a @ [x]) \<le> k" for a and x :: "bool \<times> boot_call" using that by simp
  from this [of ?init "(True, Pool_uart_start)"] k have "take k (boot_steps E) = take k ?init" unfolding b by blast
  then have "Pool_uart_start \<in> snd ` set ?init" using assms set_take_subset [of k ?init] by (metis image_mono list.set_map subsetD)
  moreover have "Pool_uart_start \<notin> snd ` set (boot_identity E)" "Pool_uart_start \<notin> snd ` set (boot_mounts E)"
    by (auto simp: boot_identity_def boot_mounts_def Let_def split: if_splits)
  moreover have "Pool_uart_start \<notin> snd ` set (boot_files E)" by (cases "bo_memfault E") (simp_all add: boot_files_def)
  ultimately show False by auto
qed

text \<open>
  The tree is served only when it is complete: if the session pool was started, then every call
  before it was made, in order, and each that the tree needs succeeded; the files are registered
  under different names and fit the table of 48 entries.
\<close>

theorem tree_served_complete:
  assumes "Pool_uart_start \<in> set (snd (fw_9p_init E))"
  shows "snd (fw_9p_init E) = map snd (boot_steps E) \<and>
    (\<forall>i < length (boot_steps E) - 1. fst (boot_steps E ! i) \<longrightarrow>
       bo_result E (take i (snd (fw_9p_init E))) (snd (boot_steps E ! i)) = None) \<and>
    distinct (registered (snd (fw_9p_init E))) \<and> length (registered (snd (fw_9p_init E))) \<le> 48"
proof -
  let ?cs = "boot_steps E"
  obtain r log where run: "boot_run E ?cs [] = (r, log)" by fastforce
  have init: "fw_9p_init E = (r, log)" using assms run by (auto simp: fw_9p_init_def split: if_splits)
  obtain k where k: "k \<le> length ?cs" "log = map snd (take k ?cs)"
    "\<forall>i < k - 1. fst (?cs ! i) \<longrightarrow> bo_result E (map snd (take i ?cs)) (snd (?cs ! i)) = None"
    using boot_run_all [OF run] by auto
  have "Pool_uart_start \<in> set (map snd (take k ?cs))" using assms by (simp only: init snd_conv k(2))
  then have "k = length ?cs" using k(1) by (intro antisym pool_start_last)
  then have log: "snd (fw_9p_init E) = map snd ?cs" using k(2) by (simp only: init snd_conv take_all order_refl)
  have ok: "\<forall>i < length ?cs - 1. fst (?cs ! i) \<longrightarrow> bo_result E (take i (map snd ?cs)) (snd (?cs ! i)) = None"
    using k(3) \<open>k = length ?cs\<close> by (simp only: take_map)
  have "length (registered (map snd ?cs)) \<le> 48" using registered_steps [of E] by linarith
  then show ?thesis unfolding log using ok registered_steps [of E] by blast
qed

subsection \<open>Advertising\<close>

lemma adv_step_inv:
  "adv_step al A A' \<Longrightarrow> av_on A \<or> 0 < av_conns A \<or> av_work A \<Longrightarrow> av_on A' \<or> 0 < av_conns A' \<or> av_work A'"
  by (induction rule: adv_step.induct)
    (auto simp: adv_work_fn_def adv_start_def connected_def disconnected_def Let_def)

text \<open>The runs of the restart work, with what the stack answers to each.\<close>

fun adv_tries :: "int \<Rightarrow> int list \<Rightarrow> adv \<Rightarrow> adv" where
  "adv_tries already [] A = A"
| "adv_tries already (r # rs) A = adv_tries already rs (if av_work A then adv_work_fn already r A else A)"

lemma adv_tries_fail:
  "av_work A \<Longrightarrow> \<forall>r \<in> set rs. r \<noteq> 0 \<and> r \<noteq> - already \<Longrightarrow> av_work (adv_tries already rs A) \<and>
     av_on (adv_tries already (rs @ [0]) A) \<and> \<not> av_work (adv_tries already (rs @ [0]) A)"
  by (induction rs arbitrary: A) (simp_all add: adv_work_fn_def adv_start_def Let_def)

text \<open>
  The relay stays discoverable: in every reachable state it advertises, has a connection, or has
  the restart scheduled; and however often the stack refuses to start, the restart stays scheduled
  until a start succeeds, which ends it with the relay advertising.
\<close>

theorem relay_discoverable:
  assumes "adv_reach already A"
  shows "(av_on A \<or> 0 < av_conns A \<or> av_work A) \<and>
    (av_work A \<longrightarrow> (\<forall>r \<in> set rs. r \<noteq> 0 \<and> r \<noteq> - already) \<longrightarrow>
       av_work (adv_tries already rs A) \<and>
       av_on (adv_tries already (rs @ [0]) A) \<and> \<not> av_work (adv_tries already (rs @ [0]) A))"
proof
  show "av_on A \<or> 0 < av_conns A \<or> av_work A"
    using assms
  proof (induction rule: adv_reach.induct)
    case start
    then show ?case by (simp add: adv_start_def)
  next
    case (step A A')
    then show ?case using adv_step_inv by blast
  qed
qed (use adv_tries_fail in blast)

end
