(* ===== verification/Bridge.thy ===== *)
theory Bridge
  imports Prelude "HOL-Library.Sublist"
begin

text \<open>
  The console bridge of the relay (\<open>dect_relay/src/main.c\<close>): two serial devices, the console of the
  nRF9151 and a USB port, each with an interrupt handler that reads its device into the ring towards
  the other one and fills its device from the ring the other one feeds. The handler is modelled
  twice: one pass of its loop as a whole, and its atomic actions, which the handler of the other
  device may interleave. What the devices and the ring library answer during a pass is a record.
\<close>

subsection \<open>State\<close>

datatype bdev = Console | Usb

datatype bring = ConsToHost | HostToCons

record bridge_ep =
  be_self :: bdev
  be_peer :: bdev
  be_rx_ring :: bring
  be_tx_ring :: bring
  be_peer_needs_dtr :: bool

text \<open>
  \<open>br_read\<close>, \<open>br_sent\<close> and \<open>br_dropped\<close> are the history: bytes taken from a device, bytes given to
  it, and whether bytes taken from it were thrown away.
\<close>

record bridge =
  br_ring :: "bring \<Rightarrow> byte list"
  br_tx_irq :: "bdev \<Rightarrow> bool"
  br_read :: "bdev \<Rightarrow> byte list"
  br_sent :: "bdev \<Rightarrow> byte list"
  br_dropped :: "bdev \<Rightarrow> bool"

abbreviation (input) CONS_RING_SIZE :: nat where "CONS_RING_SIZE \<equiv> 1024"

fun console_bridge_init :: "bdev \<Rightarrow> bridge_ep" where
  "console_bridge_init Console =
     \<lparr>be_self = Console, be_peer = Usb, be_rx_ring = ConsToHost, be_tx_ring = HostToCons, be_peer_needs_dtr = True\<rparr>"
| "console_bridge_init Usb =
     \<lparr>be_self = Usb, be_peer = Console, be_rx_ring = HostToCons, be_tx_ring = ConsToHost, be_peer_needs_dtr = False\<rparr>"

definition bridge_boot :: bridge where
  "bridge_boot = \<lparr>br_ring = (\<lambda>_. []), br_tx_irq = (\<lambda>_. False), br_read = (\<lambda>_. []), br_sent = (\<lambda>_. []),
     br_dropped = (\<lambda>_. False)\<rparr>"

text \<open>
  What one pass meets: whether bytes wait, the host's DTR line, the room the ring claims, the bytes
  in the device, a failing read; whether the device takes bytes, the bytes the ring offers, and how
  many of them the device takes.
\<close>

record isr_in =
  ii_rx_ready :: bool
  ii_dtr :: bool
  ii_space :: nat
  ii_fifo :: "byte list"
  ii_fail :: bool
  ii_tx_ready :: bool
  ii_avail :: nat
  ii_wrote :: int

subsection \<open>The handler\<close>

definition uart_fifo_read :: "nat \<Rightarrow> isr_in \<Rightarrow> byte list" where
  "uart_fifo_read n i = (if ii_fail i then [] else take n (ii_fifo i))"

definition bridge_drop :: "bdev \<Rightarrow> isr_in \<Rightarrow> bridge \<Rightarrow> bridge" where
  "bridge_drop d i s = s\<lparr>br_read := (br_read s)(d := br_read s d @ uart_fifo_read 64 i),
     br_dropped := (br_dropped s)(d := True)\<rparr>"

definition bridge_put :: "bridge_ep \<Rightarrow> byte list \<Rightarrow> bridge \<Rightarrow> bridge" where
  "bridge_put e b s = s\<lparr>br_read := (br_read s)(be_self e := br_read s (be_self e) @ b),
     br_ring := (br_ring s)(be_rx_ring e := br_ring s (be_rx_ring e) @ b)\<rparr>"

datatype rx_result = Continue | Idle | Received

definition bridge_rx :: "bridge_ep \<Rightarrow> isr_in \<Rightarrow> bridge \<Rightarrow> rx_result \<times> bridge" where
  "bridge_rx e i s =
     (if \<not> ii_rx_ready i then (Idle, s)
      else if be_peer_needs_dtr e \<and> \<not> ii_dtr i then (Continue, bridge_drop (be_self e) i s)
      else if ii_space i = 0 then (Idle, bridge_drop (be_self e) i s)
      else (let b = uart_fifo_read (ii_space i) i
            in (if b \<noteq> [] then Received else Idle, bridge_put e b s)))"

definition tx_irq :: "bdev \<Rightarrow> bool \<Rightarrow> bridge \<Rightarrow> bridge" where
  "tx_irq d on s = s\<lparr>br_tx_irq := (br_tx_irq s)(d := on)\<rparr>"

text \<open>The result says that the ring was empty: the handler then disables the interrupt.\<close>

definition bridge_tx :: "bridge_ep \<Rightarrow> isr_in \<Rightarrow> bridge \<Rightarrow> bool \<times> bridge" where
  "bridge_tx e i s =
     (if \<not> ii_tx_ready i then (False, s)
      else if ii_avail i = 0 then (True, s)
      else (let n = nat (ii_wrote i); r = br_ring s (be_tx_ring e)
            in (False, s\<lparr>br_sent := (br_sent s)(be_self e := br_sent s (be_self e) @ take n r),
                   br_ring := (br_ring s)(be_tx_ring e := drop n r)\<rparr>)))"

definition bridge_isr :: "bridge_ep \<Rightarrow> isr_in \<Rightarrow> bridge \<Rightarrow> bridge" where
  "bridge_isr e i s =
     (case bridge_rx e i s of
        (Continue, s1) \<Rightarrow> s1
      | (r, s1) \<Rightarrow>
          (case bridge_tx e i (if r = Received then tx_irq (be_peer e) True s1 else s1) of
             (dry, s2) \<Rightarrow> if dry then tx_irq (be_self e) False s2 else s2))"

subsection \<open>Its atomic actions\<close>

datatype bridge_pc = AtTop | AtEnable | AtTx | AtDisable

type_synonym bridge_sys = "bridge \<times> (bdev \<Rightarrow> bridge_pc)"

definition bridge_sys_boot :: bridge_sys where
  "bridge_sys_boot = (bridge_boot, \<lambda>_. AtTop)"

definition bridge_act :: "bdev \<Rightarrow> isr_in \<Rightarrow> bridge_sys \<Rightarrow> bridge_sys" where
  "bridge_act d i S =
     (let e = console_bridge_init d; s = fst S; goto = (\<lambda>p. (snd S)(d := p)) in
      case snd S d of
        AtTop \<Rightarrow>
          (case bridge_rx e i s of
             (Continue, s1) \<Rightarrow> (s1, goto AtTop)
           | (Idle, s1) \<Rightarrow> (s1, goto AtTx)
           | (Received, s1) \<Rightarrow> (s1, goto AtEnable))
      | AtEnable \<Rightarrow> (tx_irq (be_peer e) True s, goto AtTx)
      | AtTx \<Rightarrow> (case bridge_tx e i s of (dry, s1) \<Rightarrow> (s1, goto (if dry then AtDisable else AtTop)))
      | AtDisable \<Rightarrow> (tx_irq (be_self e) False s, goto AtTop))"

fun bridge_acts :: "(bdev \<times> isr_in) list \<Rightarrow> bridge_sys \<Rightarrow> bridge_sys" where
  "bridge_acts [] S = S"
| "bridge_acts ((d, i) # as) S = bridge_acts as (bridge_act d i S)"

subsection \<open>What the devices and the ring library promise\<close>

text \<open>
  A claim is at most what was asked for and what the ring has, and is empty only if the ring has
  nothing; a device takes at most what it is offered, and reports that it takes bytes only with its
  interrupt enabled.
\<close>

definition isr_in_ok :: "bridge_ep \<Rightarrow> isr_in \<Rightarrow> bridge \<Rightarrow> bool" where
  "isr_in_ok e i s \<longleftrightarrow>
     ii_space i \<le> 64 \<and> ii_space i \<le> CONS_RING_SIZE - length (br_ring s (be_rx_ring e)) \<and>
     (ii_space i = 0 \<longrightarrow> CONS_RING_SIZE \<le> length (br_ring s (be_rx_ring e))) \<and>
     ii_avail i \<le> 64 \<and> ii_avail i \<le> length (br_ring s (be_tx_ring e)) \<and>
     (ii_avail i = 0 \<longrightarrow> br_ring s (be_tx_ring e) = []) \<and>
     ii_wrote i \<le> int (ii_avail i) \<and> (ii_tx_ready i \<longrightarrow> br_tx_irq s (be_self e))"

fun acts_ok :: "(bdev \<times> isr_in) list \<Rightarrow> bridge_sys \<Rightarrow> bool" where
  "acts_ok [] S = True"
| "acts_ok ((d, i) # as) S = (isr_in_ok (console_bridge_init d) i (fst S) \<and> acts_ok as (bridge_act d i S))"

text \<open>Whole passes, by either handler.\<close>

fun passes :: "(bdev \<times> isr_in) list \<Rightarrow> bridge \<Rightarrow> bridge" where
  "passes [] s = s"
| "passes ((d, i) # ps) s = passes ps (bridge_isr (console_bridge_init d) i s)"

fun passes_ok :: "(bdev \<times> isr_in) list \<Rightarrow> bridge \<Rightarrow> bool" where
  "passes_ok [] s = True"
| "passes_ok ((d, i) # ps) s =
     (isr_in_ok (console_bridge_init d) i s \<and> passes_ok ps (bridge_isr (console_bridge_init d) i s))"

end
