(* ===== verification/BridgeProps.thy ===== *)
theory BridgeProps
  imports Bridge
begin

text \<open>
  Properties of the console bridge: bytes keep their order and are lost only by being dropped, in
  any interleaving of the handlers; a whole pass never leaves bytes behind with the interrupt off,
  but two interleaved passes can.
\<close>

text \<open>The ring out of a device, and the device it leads to.\<close>

abbreviation out_ring :: "bdev \<Rightarrow> bring" where "out_ring d \<equiv> be_rx_ring (console_bridge_init d)"
abbreviation other :: "bdev \<Rightarrow> bdev" where "other d \<equiv> be_peer (console_bridge_init d)"

lemma other_other [simp]: "other (other d) = d"
  by (cases d) simp_all

lemma ep_simps [simp]:
  "be_self (console_bridge_init d) = d" "be_tx_ring (console_bridge_init d) = out_ring (other d)"
  "out_ring d = out_ring d' \<longleftrightarrow> d = d'" "other d \<noteq> d" "d \<noteq> other d" "other d = other d' \<longleftrightarrow> d = d'"
  by (cases d; cases d'; simp)+

subsection \<open>Order and loss\<close>

text \<open>The bytes on their way from a device are a part of the bytes read there, all of them if none was dropped.\<close>

definition in_order :: "bridge \<Rightarrow> bool" where
  "in_order s \<longleftrightarrow> (\<forall>d.
     subseq (br_sent s (other d) @ br_ring s (out_ring d)) (br_read s d) \<and>
     (\<not> br_dropped s d \<longrightarrow> br_sent s (other d) @ br_ring s (out_ring d) = br_read s d) \<and>
     length (br_ring s (out_ring d)) \<le> CONS_RING_SIZE)"

lemma in_order_put:
  assumes "in_order s" and "length (br_ring s (out_ring d)) + length b \<le> 1024"
  shows "in_order (bridge_put (console_bridge_init d) b s)"
  using assms by (auto simp: in_order_def bridge_put_def list_emb_append_mono simp flip: append_assoc)

lemma in_order_drop: "in_order s \<Longrightarrow> in_order (bridge_drop d i s)"
  by (auto simp: in_order_def bridge_drop_def intro: list_emb_append2)

lemma in_order_tx_irq: "in_order (tx_irq d on s) = in_order s"
  by (simp add: in_order_def tx_irq_def)

lemma in_order_rx:
  assumes "in_order s" and "isr_in_ok (console_bridge_init d) i s" and "bridge_rx (console_bridge_init d) i s = (r, s')"
  shows "in_order s'"
proof -
  have "length (uart_fifo_read (ii_space i) i) \<le> ii_space i" by (simp add: uart_fifo_read_def)
  moreover have "length (br_ring s (out_ring d)) \<le> 1024" using assms(1) by (simp add: in_order_def)
  ultimately have "length (br_ring s (out_ring d)) + length (uart_fifo_read (ii_space i) i) \<le> 1024"
    using assms(2) by (auto simp: isr_in_ok_def)
  then show ?thesis
    using assms(1,3) in_order_put in_order_drop by (auto simp: bridge_rx_def Let_def split: if_splits)
qed

lemma in_order_tx:
  "in_order s \<Longrightarrow> bridge_tx (console_bridge_init d) i s = (e, s') \<Longrightarrow> in_order s'"
  by (auto simp: in_order_def bridge_tx_def Let_def split: if_splits) (meson diff_le_self le_trans)

lemma in_order_act:
  "in_order (fst S) \<Longrightarrow> isr_in_ok (console_bridge_init d) i (fst S) \<Longrightarrow> in_order (fst (bridge_act d i S))"
proof -
  assume o: "in_order (fst S)" and i: "isr_in_ok (console_bridge_init d) i (fst S)"
  obtain r s1 where rx: "bridge_rx (console_bridge_init d) i (fst S) = (r, s1)" by fastforce
  obtain e s2 where tx: "bridge_tx (console_bridge_init d) i (fst S) = (e, s2)" by fastforce
  have "in_order s1" "in_order s2" by (rule in_order_rx [OF o i rx], rule in_order_tx [OF o tx])
  then show ?thesis
    using o rx tx by (cases "snd S d"; cases r) (simp_all add: bridge_act_def Let_def in_order_tx_irq)
qed

lemma in_order_acts: "in_order (fst S) \<Longrightarrow> acts_ok as S \<Longrightarrow> in_order (fst (bridge_acts as S))"
proof (induction as arbitrary: S)
  case (Cons a as)
  obtain d i where a: "a = (d, i)" by (cases a)
  with Cons.prems have "in_order (fst (bridge_act d i S))" by (intro in_order_act) simp_all
  then show ?case using Cons a by simp
qed simp

text \<open>
  C32. However the two handlers are interleaved, the bridge keeps the bytes of each direction in
  order: what was written to a device and what waits for it are a subsequence of what was read from
  the other one, and all of it as long as nothing was dropped there for a full ring or for a host
  that is not attached; the rings never hold more than their size.
\<close>

theorem bridge_in_order:
  assumes "acts_ok as bridge_sys_boot" and "s = fst (bridge_acts as bridge_sys_boot)"
  shows "subseq (br_sent s Usb @ br_ring s ConsToHost) (br_read s Console) \<and>
    subseq (br_sent s Console @ br_ring s HostToCons) (br_read s Usb) \<and>
    (\<not> br_dropped s Console \<longrightarrow> br_sent s Usb @ br_ring s ConsToHost = br_read s Console) \<and>
    (\<not> br_dropped s Usb \<longrightarrow> br_sent s Console @ br_ring s HostToCons = br_read s Usb) \<and>
    length (br_ring s ConsToHost) \<le> 1024 \<and> length (br_ring s HostToCons) \<le> 1024"
proof -
  have "in_order (fst bridge_sys_boot)" by (simp add: in_order_def bridge_sys_boot_def bridge_boot_def)
  from in_order_acts [OF this assms(1)] have a: "in_order s" using assms(2) by simp
  show ?thesis
    using a [unfolded in_order_def, rule_format, of Console] a [unfolded in_order_def, rule_format, of Usb] by simp
qed

text \<open>A pass is its actions with nothing in between.\<close>

lemma bridge_isr_acts:
  assumes top: "snd S d = AtTop"
  shows "\<exists>n \<le> 4. bridge_acts (replicate n (d, i)) S = (bridge_isr (console_bridge_init d) i (fst S), snd S)"
proof -
  let ?e = "console_bridge_init d"
  obtain r s1 where rx: "bridge_rx ?e i (fst S) = (r, s1)" by fastforce
  obtain e s3 where tx: "bridge_tx ?e i (if r = Received then tx_irq (be_peer ?e) True s1 else s1) = (e, s3)" by fastforce
  have same: "(snd S)(d := AtTop) = snd S" using top by auto
  have "bridge_acts (replicate (if r = Continue then 1 else (if r = Received then 3 else 2) + (if e then 1 else 0)) (d, i)) S =
      (bridge_isr ?e i (fst S), snd S)"
    using rx tx top same
    by (cases r; cases e) (simp_all add: bridge_isr_def bridge_act_def Let_def numeral_eq_Suc)
  then show ?thesis by (intro exI conjI) (auto split: if_splits)
qed

subsection \<open>Bytes are not left behind by whole passes\<close>

definition awake :: "bridge \<Rightarrow> bool" where
  "awake s \<longleftrightarrow> (\<forall>d. br_ring s (out_ring d) \<noteq> [] \<longrightarrow> br_tx_irq s (other d))"

lemma awake_isr:
  assumes a: "awake s" and i: "isr_in_ok (console_bridge_init d) i s"
  shows "awake (bridge_isr (console_bridge_init d) i s)"
proof -
  let ?e = "console_bridge_init d"
  obtain r s1 where rx: "bridge_rx ?e i s = (r, s1)" by fastforce
  define s2 where "s2 = (if r = Received then tx_irq (other d) True s1 else s1)"
  have awake2: "awake s2"
    using a rx by (auto simp: s2_def awake_def bridge_rx_def bridge_put_def bridge_drop_def tx_irq_def Let_def split: if_splits)
  have ring: "br_ring s2 (out_ring (other d)) = br_ring s (out_ring (other d))"
    using rx by (auto simp: s2_def bridge_rx_def bridge_put_def bridge_drop_def tx_irq_def Let_def split: if_splits)
  obtain e s3 where tx: "bridge_tx ?e i s2 = (e, s3)" by fastforce
  have empty: "e \<Longrightarrow> br_ring s2 (out_ring (other d)) = []"
    using tx i ring by (auto simp: bridge_tx_def isr_in_ok_def Let_def split: if_splits)
  have awake3: "awake s3"
    using awake2 tx by (auto simp: awake_def bridge_tx_def Let_def split: if_splits) (metis other_other list.size(3) le0)
  have ring3: "e \<Longrightarrow> br_ring s3 = br_ring s2" using tx by (auto simp: bridge_tx_def Let_def split: if_splits)
  have off: "awake (tx_irq d False s3)" if e
  proof -
    have "d' \<noteq> other d \<Longrightarrow> other d' \<noteq> d" for d' by (metis other_other)
    then show ?thesis using awake3 empty [OF that] ring3 [OF that] by (auto simp: awake_def tx_irq_def)
  qed
  have awake1: "r = Continue \<Longrightarrow> awake s1" using awake2 by (simp add: s2_def)
  have "bridge_isr ?e i s = (if r = Continue then s1 else if e then tx_irq d False s3 else s3)"
    using rx tx by (cases r) (simp_all add: bridge_isr_def s2_def)
  then show ?thesis using awake1 awake3 off by simp
qed

text \<open>
  If the passes of the two handlers do not overlap, no byte is left behind: whenever a ring
  holds bytes, the transmit interrupt of the device they are for is enabled.
\<close>

theorem bridge_awake:
  "passes_ok ps bridge_boot \<Longrightarrow>
     (br_ring (passes ps bridge_boot) ConsToHost \<noteq> [] \<longrightarrow> br_tx_irq (passes ps bridge_boot) Usb) \<and>
     (br_ring (passes ps bridge_boot) HostToCons \<noteq> [] \<longrightarrow> br_tx_irq (passes ps bridge_boot) Console)"
proof -
  assume ok: "passes_ok ps bridge_boot"
  have run: "awake s \<Longrightarrow> passes_ok ps s \<Longrightarrow> awake (passes ps s)" for s
  proof (induction ps arbitrary: s)
    case (Cons p ps)
    then show ?case by (cases p) (auto intro: awake_isr)
  qed simp
  have "awake (passes ps bridge_boot)" using run [OF _ ok] by (simp add: awake_def bridge_boot_def)
  then show ?thesis
    unfolding awake_def using console_bridge_init.simps by (metis bridge_ep.select_convs(2,3))
qed

subsection \<open>The race\<close>

definition nothing_in :: isr_in where
  "nothing_in = \<lparr>ii_rx_ready = False, ii_dtr = True, ii_space = 64, ii_fifo = [], ii_fail = False,
     ii_tx_ready = False, ii_avail = 0, ii_wrote = 0\<rparr>"

definition byte_in :: "byte \<Rightarrow> isr_in" where
  "byte_in b = nothing_in\<lparr>ii_rx_ready := True, ii_fifo := [b]\<rparr>"

text \<open>
  The console delivers a byte, the USB handler sends it and finds the ring empty; before it disables
  its interrupt the console's handler makes a whole pass with a second byte.
\<close>

definition race :: "(bdev \<times> isr_in) list" where
  "race = [(Console, byte_in 65), (Console, nothing_in), (Console, nothing_in),
     (Usb, nothing_in\<lparr>ii_avail := 1\<rparr>), (Usb, nothing_in\<lparr>ii_tx_ready := True, ii_avail := 1, ii_wrote := 1\<rparr>),
     (Usb, nothing_in), (Usb, nothing_in\<lparr>ii_tx_ready := True\<rparr>),
     (Console, byte_in 66), (Console, nothing_in), (Console, nothing_in),
     (Usb, nothing_in\<lparr>ii_avail := 1\<rparr>)]"

lemma race_ok: "acts_ok race bridge_sys_boot"
  by (simp add: race_def byte_in_def nothing_in_def bridge_sys_boot_def bridge_boot_def bridge_act_def Let_def
      isr_in_ok_def bridge_rx_def bridge_put_def uart_fifo_read_def tx_irq_def bridge_tx_def)

definition left_behind :: "byte list \<Rightarrow> byte list \<Rightarrow> bridge_sys \<Rightarrow> bool" where
  "left_behind b sent S \<longleftrightarrow> br_ring (fst S) ConsToHost = b \<and> br_sent (fst S) Usb = sent \<and>
     \<not> br_tx_irq (fst S) Usb \<and> snd S Console \<noteq> AtEnable"

lemma race_end: "left_behind [66] [65] (bridge_acts race bridge_sys_boot)"
  by (simp add: left_behind_def race_def byte_in_def nothing_in_def bridge_sys_boot_def bridge_boot_def bridge_act_def Let_def
      bridge_rx_def bridge_put_def uart_fifo_read_def tx_irq_def bridge_tx_def)

lemma left_behind_act:
  assumes "left_behind b sent S" and "isr_in_ok (console_bridge_init d) i (fst S)" and "d = Console \<Longrightarrow> \<not> ii_rx_ready i"
  shows "left_behind b sent (bridge_act d i S)"
proof (cases d)
  case Console
  then show ?thesis
    using assms by (cases "snd S Console")
      (auto simp: left_behind_def bridge_act_def Let_def bridge_rx_def bridge_tx_def tx_irq_def)
next
  case Usb
  then have "\<not> ii_tx_ready i" using assms(1,2) by (auto simp: left_behind_def isr_in_ok_def)
  then show ?thesis
    using assms(1) Usb by (cases "snd S Usb")
      (auto simp: left_behind_def bridge_act_def Let_def bridge_rx_def bridge_tx_def tx_irq_def bridge_put_def
        bridge_drop_def)
qed

text \<open>
  C31. The handlers do overlap, and then a byte can be left behind: after a certain run of eleven
  actions a byte of the console waits for the host, and in every continuation in which the console
  delivers nothing more it is never written to the USB port. The handler disables its interrupt
  after it found the ring empty, without looking again.
\<close>

theorem bridge_leaves_byte:
  "\<exists>as. acts_ok as bridge_sys_boot \<and> br_ring (fst (bridge_acts as bridge_sys_boot)) ConsToHost = [66] \<and>
     (\<forall>as'. acts_ok as' (bridge_acts as bridge_sys_boot) \<longrightarrow> (\<forall>(d, i) \<in> set as'. d = Console \<longrightarrow> \<not> ii_rx_ready i) \<longrightarrow>
        br_ring (fst (bridge_acts as' (bridge_acts as bridge_sys_boot))) ConsToHost = [66] \<and>
        br_sent (fst (bridge_acts as' (bridge_acts as bridge_sys_boot))) Usb = [65])"
proof -
  have stays: "left_behind [66] [65] S \<Longrightarrow> acts_ok as' S \<Longrightarrow> \<forall>(d, i) \<in> set as'. d = Console \<longrightarrow> \<not> ii_rx_ready i \<Longrightarrow>
      left_behind [66] [65] (bridge_acts as' S)" for as' S
  proof (induction as' arbitrary: S)
    case (Cons a as')
    obtain d i where a: "a = (d, i)" by (cases a)
    then have "left_behind [66] [65] (bridge_act d i S)" using Cons.prems by (intro left_behind_act) auto
    then show ?case using Cons.IH Cons.prems a by auto
  qed simp
  show ?thesis
    using race_ok race_end stays [OF race_end] by (intro exI [of _ race]) (auto simp: left_behind_def)
qed

end
