(* ===== verification/BootWitness.thy ===== *)
theory BootWitness
  imports RelayBootProps BridgeProps NodeWitness
begin

text \<open>
  The properties of the bridge and of the rest of the relay at concrete inputs: a run of the race
  and one of whole passes, two device ids, libraries that accept every call, a stack that refuses
  twice.
\<close>

theorem bridge_in_order_witness:
  "subseq [65, 66] (br_read (fst (bridge_acts race bridge_sys_boot)) Console)"
  using bridge_in_order [OF race_ok refl] race_end by (simp add: left_behind_def)

theorem bridge_awake_witness:
  "br_tx_irq (passes [(Console, byte_in 65)] bridge_boot) Usb \<and>
   br_ring (passes [(Console, byte_in 65)] bridge_boot) ConsToHost = [65]"
proof -
  have "passes_ok [(Console, byte_in 65)] bridge_boot"
    by (simp add: byte_in_def nothing_in_def bridge_boot_def isr_in_ok_def)
  moreover have "br_ring (passes [(Console, byte_in 65)] bridge_boot) ConsToHost = [65]"
    by (simp add: byte_in_def nothing_in_def bridge_boot_def bridge_isr_def bridge_rx_def bridge_put_def uart_fifo_read_def
        tx_irq_def bridge_tx_def Let_def)
  ultimately show ?thesis using bridge_awake [of "[(Console, byte_in 65)]"] by simp
qed

theorem bridge_leaves_byte_witness:
  "\<exists>as. acts_ok as bridge_sys_boot \<and> br_ring (fst (bridge_acts as bridge_sys_boot)) ConsToHost = [66] \<and>
     br_sent (fst (bridge_acts as bridge_sys_boot)) Usb = [65]"
proof -
  obtain as where as: "acts_ok as bridge_sys_boot" "br_ring (fst (bridge_acts as bridge_sys_boot)) ConsToHost = [66]"
    "\<And>as'. acts_ok as' (bridge_acts as bridge_sys_boot) \<Longrightarrow> \<forall>(d, i) \<in> set as'. d = Console \<longrightarrow> \<not> ii_rx_ready i \<Longrightarrow>
       br_sent (fst (bridge_acts as' (bridge_acts as bridge_sys_boot))) Usb = [65]"
    using bridge_leaves_byte by blast
  then show ?thesis using as(3) [of "[]"] by auto
qed

definition demo_devid :: "byte list" where
  "demo_devid = [1, 2, 3, 4, 5, 6, 7, 8]"

definition demo_boot :: "byte list \<Rightarrow> boot_env" where
  "demo_boot d = \<lparr>bo_cdc_ready = True, bo_devid = Some d, bo_memfault = True, bo_devid_runtime = True, bo_result = (\<lambda>_ _. None)\<rparr>"

lemma boot_run_ok: "boot_run (demo_boot d) cs log = (None, log @ map snd cs)"
proof (induction cs arbitrary: log)
  case (Cons x cs)
  then show ?case by (cases x) (simp add: demo_boot_def)
qed simp

lemma demo_init: "fw_9p_init (demo_boot d) = (None, map snd (boot_steps (demo_boot d)))"
  by (simp add: fw_9p_init_def boot_run_ok) (simp add: demo_boot_def)

theorem relay_telemetry_witness:
  "\<exists>n out p'. mflt5340_read demo_pk (relay_serial (Some demo_devid)) 4096 0 [[1, 2, 3]] = (n, out, p') \<and>
    n = length out \<and> n \<le> 4096 \<and> (\<exists>cs. taken demo_pk cs [[1, 2, 3]] p')"
proof -
  obtain n out p' where r: "mflt5340_read demo_pk (relay_serial (Some demo_devid)) 4096 0 [[1, 2, 3]] = (n, out, p')"
    by (metis prod_cases3)
  have "4 \<le> length demo_devid" "pk_available demo_pk [[1, 2, 3]]" "(25 :: nat) < 4096"
    by (simp_all add: demo_devid_def demo_pk_def)
  from relay_telemetry [OF demo_pk_fit this(1) this(3) this(2) r, of demo_collector demo_fwd] r show ?thesis by blast
qed

theorem relay_salts_differ_witness:
  "qid_salt (Some demo_devid) \<noteq> qid_salt (Some (rev demo_devid)) \<and>
   Remote_fs_set_qid_salt [] (qid_salt (Some demo_devid)) \<notin> set (snd (fw_9p_init (demo_boot demo_devid)))"
proof -
  have d: "bo_devid (demo_boot d) = Some d" for d by (simp add: demo_boot_def)
  have s: "qid_salt (Some demo_devid) \<noteq> 0" "qid_salt (Some (rev demo_devid)) \<noteq> 0"
    by (simp_all add: qid_salt_def demo_devid_def)
  have m: "Sysfs_set_qid_salt (qid_salt (Some x)) \<in> set (snd (fw_9p_init (demo_boot x)))" if "qid_salt (Some x) \<noteq> 0" for x
    using that by (simp add: demo_init boot_steps_def boot_identity_def d Let_def)
  have "demo_devid \<noteq> rev demo_devid" "length demo_devid = 8" by (simp_all add: demo_devid_def)
  then show ?thesis
    using relay_salts_differ [OF d d, of demo_devid "rev demo_devid"] m s by (metis length_rev)
qed

theorem tree_served_complete_witness:
  "snd (fw_9p_init (demo_boot demo_devid)) = map snd (boot_steps (demo_boot demo_devid)) \<and>
   distinct (registered (snd (fw_9p_init (demo_boot demo_devid))))"
proof -
  have "Pool_uart_start \<in> set (snd (fw_9p_init (demo_boot demo_devid)))"
    by (simp add: demo_init boot_steps_def boot_pool_def)
  from tree_served_complete [OF this] show ?thesis by blast
qed

theorem relay_discoverable_witness:
  "av_work (adv_tries 120 [-12, -11] \<lparr>av_on = False, av_conns = 0, av_work = True\<rparr>) \<and>
   av_on (adv_tries 120 ([-12, -11] @ [0]) \<lparr>av_on = False, av_conns = 0, av_work = True\<rparr>)"
proof -
  let ?s = "adv_start 0 \<lparr>av_on = False, av_conns = 0, av_work = False\<rparr>"
  have "adv_reach 120 (connected 0 (?s\<lparr>av_on := False, av_conns := av_conns ?s + 1\<rparr>))"
    by (rule adv_reach.step [OF adv_reach.start adv_step.connect]) (simp add: adv_start_def)
  then have one: "adv_reach 120 \<lparr>av_on = False, av_conns = 1, av_work = False\<rparr>"
    by (simp add: adv_start_def connected_def)
  have "adv_reach 120 (disconnected 19 (\<lparr>av_on = False, av_conns = 1, av_work = False\<rparr>\<lparr>av_conns := 1 - 1\<rparr>))"
    using adv_reach.step [OF one adv_step.hang_up [of _ 120 19]] by simp
  then have r: "adv_reach 120 \<lparr>av_on = False, av_conns = 0, av_work = True\<rparr>" by (simp add: disconnected_def)
  have "\<forall>r \<in> set [-12, -11 :: int]. r \<noteq> 0 \<and> r \<noteq> - 120" "av_work \<lparr>av_on = False, av_conns = 0, av_work = True\<rparr>" by simp_all
  with relay_discoverable [OF r, of "[-12, -11]"] show ?thesis by blast
qed

end
