(* ===== verification/HostClient.thy ===== *)
theory HostClient
  imports ForwardLink
begin

text \<open>
  The 9P client of the host programs \<open>aether_conv.c\<close> and \<open>p9do.c\<close>, and the commands that write files
  through it: \<open>put\<close>, the push of an image over the mesh, \<open>rd\<close>, \<open>ws\<close> and \<open>wf\<close>. Unlike the forwarder
  these programs wait without a deadline, and take an interrupted read for a lost connection. The
  loops over a file take the write operation as an argument, so that what they write can be observed.
\<close>

subsection \<open>Requests\<close>

text \<open>
  A read that waits; silence ends only with the next event, and is an error if there is none. The
  bytes read so far are in the buffer in any case.
\<close>

fun conv_readn :: "nat \<Rightarrow> byte list \<Rightarrow> io_event list \<Rightarrow> bool \<times> byte list \<times> io_event list" where
  "conv_readn n got [] = (n \<le> length got, got, [])"
| "conv_readn n got (ev # evs) =
     (if n \<le> length got then (True, got, ev # evs)
      else case ev of
        Bytes d \<Rightarrow>
          if d = [] then (False, got, evs)
          else if length d \<le> n - length got then conv_readn n (got @ d) evs
          else (True, got @ take (n - length got) d, Bytes (drop (n - length got) d) # evs)
      | Quiet \<Rightarrow> conv_readn n got evs
      | Again \<Rightarrow> (False, got, evs)
      | Hangup \<Rightarrow> (False, got, evs))"

text \<open>The type of the reply, \<open>None\<close> for -1; the body of the reply is what \<open>mbuf\<close> begins with.\<close>

definition conv_rpc :: "port \<Rightarrow> byte list \<Rightarrow> flink \<Rightarrow> byte option \<times> flink" where
  "conv_rpc E body L =
     (let frame = np32 (of_nat (4 + length body)) @ body;
          sent = lk_sent L @ [frame];
          L1 = L\<lparr>lk_mbuf := overlay frame (lk_mbuf L), lk_sent := sent\<rparr>
      in if \<not> po_writes E sent then (None, L1)
         else case conv_readn 4 [] (lk_in L1 @ po_reply E sent) of
           (False, _, evs) \<Rightarrow> (None, L1\<lparr>lk_in := evs\<rparr>)
         | (True, hdr, evs) \<Rightarrow>
             (let sz = unat (ng32 hdr) in
              if sz < 7 \<or> MSIZE < sz then (None, L1\<lparr>lk_in := evs\<rparr>)
              else case conv_readn (sz - 4) [] evs of
                (ok, b, evs2) \<Rightarrow>
                  (let L2 = L1\<lparr>lk_in := evs2, lk_mbuf := overlay b (lk_mbuf L1)\<rparr>
                   in (if ok then Some (lk_mbuf L2 ! 0) else None, L2))))"

definition b_walk :: "u16 \<Rightarrow> u32 \<Rightarrow> u32 \<Rightarrow> byte list \<Rightarrow> byte list" where
  "b_walk tag fid nf path =
     (let parts = take 16 (slash_parts [] (take 127 path)) in
      [110] @ np16 tag @ np32 fid @ np32 nf @ np16 (of_nat (length parts))
        @ concat (map (\<lambda>p. np16 (of_nat (length p)) @ p) parts))"

definition b_open :: "u16 \<Rightarrow> u32 \<Rightarrow> byte \<Rightarrow> byte list" where
  "b_open tag fid mode = [112] @ np16 tag @ np32 fid @ [mode]"

definition b_clunk :: "u16 \<Rightarrow> u32 \<Rightarrow> byte list" where
  "b_clunk tag fid = [120] @ np16 tag @ np32 fid"

definition conv_do_version :: "port \<Rightarrow> flink \<Rightarrow> bool \<times> flink" where
  "conv_do_version E L =
     (case conv_rpc E ([100] @ np16 0xffff @ np32 8192 @ np16 6 @ ascii ''9P2000'') L of (r, L1) \<Rightarrow> (r = Some 101, L1))"

definition conv_do_attach :: "port \<Rightarrow> u32 \<Rightarrow> flink \<Rightarrow> bool \<times> flink" where
  "conv_do_attach E fid L =
     (case conv_rpc E ([104] @ np16 1 @ np32 fid @ np32 0xffffffff @ np16 1 @ ascii ''t'' @ np16 0) L of
        (r, L1) \<Rightarrow> (r = Some 105, L1))"

definition conv_do_walk :: "port \<Rightarrow> u32 \<Rightarrow> u32 \<Rightarrow> byte list \<Rightarrow> flink \<Rightarrow> bool \<times> flink" where
  "conv_do_walk E fid nf path L = (case conv_rpc E (b_walk 1 fid nf path) L of (r, L1) \<Rightarrow> (r = Some 111, L1))"

definition conv_do_open :: "port \<Rightarrow> u32 \<Rightarrow> byte \<Rightarrow> flink \<Rightarrow> bool \<times> flink" where
  "conv_do_open E fid mode L = (case conv_rpc E (b_open 1 fid mode) L of (r, L1) \<Rightarrow> (r = Some 113, L1))"

definition conv_do_clunk :: "port \<Rightarrow> u32 \<Rightarrow> flink \<Rightarrow> flink" where
  "conv_do_clunk E fid L = snd (conv_rpc E (b_clunk 1 fid) L)"

text \<open>The result of a read: \<open>None\<close> for a copy out of bounds, else -1 or the bytes.\<close>

definition conv_do_read :: "port \<Rightarrow> u32 \<Rightarrow> u64 \<Rightarrow> nat \<Rightarrow> flink \<Rightarrow> byte list option option \<times> flink" where
  "conv_do_read E fid off cap L =
     (case conv_rpc E ([116] @ np16 1 @ np32 fid @ np32 (ucast off) @ np32 (ucast (drop_bit 32 off)) @ np32 (of_nat cap)) L of
        (r, L1) \<Rightarrow>
          (if r \<noteq> Some 117 then (Some None, L1)
           else let n = read_count cap (ng32 (drop 3 (lk_mbuf L1)))
                in (if cap < n \<or> MSIZE < 7 + n then None else Some (Some (segment 7 n (lk_mbuf L1))), L1)))"

definition conv_do_pwrite :: "port \<Rightarrow> u32 \<Rightarrow> nat \<Rightarrow> byte list \<Rightarrow> flink \<Rightarrow> int \<times> flink" where
  "conv_do_pwrite E fid off d L =
     (case conv_rpc E ([118] @ np16 1 @ np32 fid @ np32 (of_nat off) @ np32 (of_nat (off div 2 ^ 32))
              @ np32 (of_nat (length d)) @ d) L of
        (r, L1) \<Rightarrow> (if r \<noteq> Some 119 then -1 else sint (ng32 (drop 3 (lk_mbuf L1))), L1))"

subsection \<open>Writing files\<close>

type_synonym 's writer = "nat \<Rightarrow> byte list \<Rightarrow> 's \<Rightarrow> int \<times> 's"

text \<open>
  The loop of \<open>do_put\<close>: \<open>pos\<close> is the position in the file, \<open>off\<close> the offset written to. The result is
  the number of bytes streamed, or \<open>None\<close> for a failed write.
\<close>

function put_loop :: "'s writer \<Rightarrow> nat \<Rightarrow> byte list \<Rightarrow> nat \<Rightarrow> nat \<Rightarrow> 's \<Rightarrow> nat option \<times> 's" where
  "put_loop W chunk file pos off s =
     (let blk = take chunk (drop pos file) in
      if blk = [] then (Some off, s)
      else case W off blk s of
        (w, s1) \<Rightarrow> if w < 0 then (None, s1) else put_loop W chunk file (pos + length blk) (off + nat w) s1)"
  by pat_completeness auto
termination
  by (relation "measure (\<lambda>(W, chunk, file, pos, off, s). length file - pos)") auto

declare put_loop.simps [simp del]

definition put_chunk :: "int \<Rightarrow> nat" where
  "put_chunk chunk = (if chunk \<le> 0 \<or> 8192 - 64 < chunk then 1024 else nat chunk)"

definition do_put :: "port \<Rightarrow> byte list \<Rightarrow> byte list \<Rightarrow> int \<Rightarrow> flink \<Rightarrow> nat option \<times> flink" where
  "do_put E path file chunk L =
     (case conv_do_version E L of
        (False, L1) \<Rightarrow> (None, L1)
      | (True, L1) \<Rightarrow>
     (case conv_do_attach E 0 L1 of
        (False, L2) \<Rightarrow> (None, L2)
      | (True, L2) \<Rightarrow>
     (case conv_do_walk E 0 1 path L2 of
        (False, L3) \<Rightarrow> (None, L3)
      | (True, L3) \<Rightarrow>
     (case conv_do_open E 1 1 L3 of
        (False, L4) \<Rightarrow> (None, L4)
      | (True, L4) \<Rightarrow>
     (case put_loop (conv_do_pwrite E 1) (put_chunk chunk) file 0 0 L4 of
        (None, L5) \<Rightarrow> (None, L5)
      | (Some n, L5) \<Rightarrow> (Some n, conv_do_clunk E 0 (conv_do_clunk E 1 L5)))))))"

definition ctl_write :: "port \<Rightarrow> byte list \<Rightarrow> byte list \<Rightarrow> flink \<Rightarrow> bool \<times> flink" where
  "ctl_write E path str L =
     (case conv_do_walk E 0 1 path L of
        (False, L1) \<Rightarrow> (False, L1)
      | (True, L1) \<Rightarrow>
     (case conv_do_open E 1 1 L1 of
        (False, L2) \<Rightarrow> (False, conv_do_clunk E 1 L2)
      | (True, L2) \<Rightarrow>
     (case conv_do_pwrite E 1 0 str L2 of
        (w, L3) \<Rightarrow> (0 \<le> w, conv_do_clunk E 1 L3))))"

text \<open>The loop of \<open>wf\<close> in \<open>p9do.c\<close>: a short write ends it.\<close>

function wf_loop :: "'s writer \<Rightarrow> byte list \<Rightarrow> nat \<Rightarrow> 's \<Rightarrow> bool \<times> 's" where
  "wf_loop W file off s =
     (let blk = take 4096 (drop off file) in
      if blk = [] then (True, s)
      else case W off blk s of
        (w, s1) \<Rightarrow> if w \<noteq> int (length blk) then (False, s1) else wf_loop W file (off + length blk) s1)"
  by pat_completeness auto
termination
  by (relation "measure (\<lambda>(W, file, off, s). length file - off)") auto

declare wf_loop.simps [simp del]

subsection \<open>Pushing an image over the mesh\<close>

record 's ota_ops =
  oo_target :: "'s \<Rightarrow> bool \<times> 's" \<comment> \<open>the command \<open>target\<close>\<close>
  oo_open :: "'s \<Rightarrow> bool \<times> 's" \<comment> \<open>walk to and open \<open>dev/push\<close>\<close>
  oo_write :: "'s writer"
  oo_clunk :: "'s \<Rightarrow> 's"

text \<open>A block is tried up to fifteen times; the result is negative if none succeeded.\<close>

fun ota_attempts :: "'s writer \<Rightarrow> nat \<Rightarrow> nat \<Rightarrow> byte list \<Rightarrow> 's \<Rightarrow> int \<times> 's" where
  "ota_attempts W 0 off blk s = (-1, s)"
| "ota_attempts W (Suc n) off blk s =
     (case W off blk s of (w, s1) \<Rightarrow> if w < 0 then ota_attempts W n off blk s1 else (w, s1))"

text \<open>One pass over the file: whether it stalled, and the offset reached.\<close>

function ota_loop :: "'s writer \<Rightarrow> nat \<Rightarrow> byte list \<Rightarrow> nat \<Rightarrow> nat \<Rightarrow> 's \<Rightarrow> bool \<times> nat \<times> 's" where
  "ota_loop W chunk file pos off s =
     (let blk = take chunk (drop pos file) in
      if blk = [] then (False, off, s)
      else case ota_attempts W 15 off blk s of
        (w, s1) \<Rightarrow>
          if w < 0 then (True, off, s1) else ota_loop W chunk file (pos + length blk) (off + nat w) s1)"
  by pat_completeness auto
termination
  by (relation "measure (\<lambda>(W, chunk, file, pos, off, s). length file - pos)") auto

declare ota_loop.simps [simp del]

text \<open>The passes left, and the offset to resume from.\<close>

fun ota_passes :: "'s ota_ops \<Rightarrow> nat \<Rightarrow> byte list \<Rightarrow> nat \<Rightarrow> nat \<Rightarrow> 's \<Rightarrow> bool \<times> 's" where
  "ota_passes D chunk file 0 resume s = (False, s)"
| "ota_passes D chunk file (Suc k) resume s =
     (case oo_target D s of
        (False, s1) \<Rightarrow> ota_passes D chunk file k resume s1
      | (True, s1) \<Rightarrow>
     (case oo_open D s1 of
        (False, s2) \<Rightarrow> ota_passes D chunk file k resume (oo_clunk D s2)
      | (True, s2) \<Rightarrow>
     (case ota_loop (oo_write D) chunk file resume resume s2 of
        (stalled, off, s3) \<Rightarrow>
          (let s4 = oo_clunk D s3 in
           if \<not> stalled \<and> length file \<le> off then (True, s4)
           else ota_passes D chunk file k (if 16384 < off then off - 16384 else 0) s4))))"

definition ota_port :: "port \<Rightarrow> byte list \<Rightarrow> flink ota_ops" where
  "ota_port E eui =
     \<lparr>oo_target = ctl_write E (ascii ''dev/push_ctl'') (snprintf_out 64 (ascii ''target '' @ eui)),
      oo_open = (\<lambda>L. case conv_do_walk E 0 1 (ascii ''dev/push'') L of
         (False, L1) \<Rightarrow> (False, L1) | (True, L1) \<Rightarrow> conv_do_open E 1 1 L1),
      oo_write = conv_do_pwrite E 1,
      oo_clunk = conv_do_clunk E 1\<rparr>"

definition ota_chunk :: "int \<Rightarrow> nat" where
  "ota_chunk chunk = (if chunk \<le> 0 \<or> 1024 < chunk then 1024 else nat chunk)"

text \<open>Whether the image was pushed, committed, and the peer told to restart.\<close>

definition do_mesh_ota :: "port \<Rightarrow> byte list \<Rightarrow> byte list \<Rightarrow> int \<Rightarrow> nat \<Rightarrow> flink \<Rightarrow> bool \<times> flink" where
  "do_mesh_ota E eui file chunk max_passes L =
     (case conv_do_version E L of
        (False, L1) \<Rightarrow> (False, L1)
      | (True, L1) \<Rightarrow>
     (case conv_do_attach E 0 L1 of
        (False, L2) \<Rightarrow> (False, L2)
      | (True, L2) \<Rightarrow>
     (case ota_passes (ota_port E eui) (ota_chunk chunk) file max_passes 0 L2 of
        (False, L3) \<Rightarrow> (False, L3)
      | (True, L3) \<Rightarrow>
     (case ctl_write E (ascii ''dev/push_ctl'') (ascii ''commit'') L3 of
        (False, L4) \<Rightarrow> (False, L4)
      | (True, L4) \<Rightarrow>
          (let L5 = snd (ctl_write E (ascii ''dev/push_ctl'') (snprintf_out 64 (ascii ''reboot '' @ eui)) L4)
           in (True, conv_do_clunk E 0 L5))))))"

end
