(* ===== verification/HostClientProps.thy ===== *)
theory HostClientProps
  imports HostClient
begin

text \<open>
  What the host programs write. A server that takes a block as a whole or refuses it gets the file,
  whatever is refused and retried in between; one that takes a part of a block gets a file with a
  gap from \<open>put\<close> and from the push, while \<open>wf\<close> stops.
\<close>

subsection \<open>Observed writes\<close>

text \<open>A writer that keeps the offset, the data and the result of each call.\<close>

type_synonym write_log = "(nat \<times> byte list \<times> int) list"

definition logged :: "'s writer \<Rightarrow> ('s \<times> write_log) writer" where
  "logged W off d sl = (case W off d (fst sl) of (r, s) \<Rightarrow> (r, s, snd sl @ [(off, d, r)]))"

lemma logged_call: "W off d s = (r, s1) \<Longrightarrow> logged W off d (s, log) = (r, s1, log @ [(off, d, r)])"
  by (simp add: logged_def)

definition logged_ops :: "'s ota_ops \<Rightarrow> ('s \<times> write_log) ota_ops" where
  "logged_ops D = \<lparr>oo_target = (\<lambda>sl. case oo_target D (fst sl) of (b, s) \<Rightarrow> (b, s, snd sl)),
     oo_open = (\<lambda>sl. case oo_open D (fst sl) of (b, s) \<Rightarrow> (b, s, snd sl)),
     oo_write = logged (oo_write D), oo_clunk = (\<lambda>sl. (oo_clunk D (fst sl), snd sl))\<rparr>"

text \<open>Keeping the log changes nothing.\<close>

lemma attempts_unlogged:
  "ota_attempts (logged W) n off blk sl = (w, sl') \<Longrightarrow> ota_attempts W n off blk (fst sl) = (w, fst sl')"
proof (induction n arbitrary: sl)
  case (Suc n)
  obtain r s1 where r: "W off blk (fst sl) = (r, s1)" by fastforce
  have "logged W off blk sl = (r, s1, snd sl @ [(off, blk, r)])" using logged_call [where W = W, OF r, of "snd sl"] by simp
  then show ?case using Suc.prems Suc.IH [of "(s1, snd sl @ [(off, blk, r)])"] r by (auto split: if_splits)
qed simp

lemma loop_unlogged:
  "ota_loop (logged W) chunk file pos off sl = (st, off', sl') \<Longrightarrow> ota_loop W chunk file pos off (fst sl) = (st, off', fst sl')"
proof (induction "length file - pos" arbitrary: pos off sl rule: less_induct)
  case less
  let ?blk = "take chunk (drop pos file)"
  obtain w sl1 where at: "ota_attempts (logged W) 15 off ?blk sl = (w, sl1)" by (meson surj_pair)
  note at' = attempts_unlogged [OF at]
  show ?case
  proof (cases "?blk = [] \<or> w < 0")
    case True
    then show ?thesis
      using less.prems at at' by (subst (asm) ota_loop.simps, subst ota_loop.simps) (auto simp: Let_def split: if_splits)
  next
    case False
    then have dec: "length file - (pos + length ?blk) < length file - pos" by auto
    have "ota_loop (logged W) chunk file (pos + length ?blk) (off + nat w) sl1 = (st, off', sl')"
      using less.prems at False by (subst (asm) ota_loop.simps) (simp add: Let_def)
    from less.hyps [OF dec this] show ?thesis using at' False by (subst ota_loop.simps) (simp add: Let_def)
  qed
qed

lemma passes_unlogged:
  "ota_passes (logged_ops D) chunk file k resume sl = (b, sl') \<Longrightarrow> ota_passes D chunk file k resume (fst sl) = (b, fst sl')"
proof (induction k arbitrary: resume sl)
  case (Suc k)
  obtain b1 s1 where t: "oo_target D (fst sl) = (b1, s1)" by fastforce
  obtain b2 s2 where o: "oo_open D s1 = (b2, s2)" by fastforce
  obtain st off sl3 where l: "ota_loop (logged (oo_write D)) chunk file resume resume (s2, snd sl) = (st, off, sl3)" by (metis prod_cases3)
  note l' = loop_unlogged [OF l]
  have ops: "oo_target (logged_ops D) sl = (b1, s1, snd sl)" "oo_open (logged_ops D) (s1, snd sl) = (b2, s2, snd sl)"
    "oo_write (logged_ops D) = logged (oo_write D)" "oo_clunk (logged_ops D) x = (oo_clunk D (fst x), snd x)" for x
    using t o by (simp_all add: logged_ops_def)
  consider "\<not> b1" | "b1" "\<not> b2" | "b1" "b2" "\<not> st \<and> length file \<le> off" | "b1" "b2" "st \<or> \<not> length file \<le> off" by blast
  then show ?case
  proof cases
    case 1
    then show ?thesis using Suc.prems Suc.IH [of resume "(s1, snd sl)"] ops t by simp
  next
    case 2
    then show ?thesis using Suc.prems Suc.IH [of resume "(oo_clunk D s2, snd sl)"] ops t o by simp
  next
    case 3
    then show ?thesis using Suc.prems ops t o l l' by (auto simp: Let_def)
  next
    case 4
    let ?r = "if 16384 < off then off - 16384 else 0"
    have "ota_passes (logged_ops D) chunk file k ?r (oo_clunk D (fst sl3), snd sl3) = (b, sl')"
      using Suc.prems 4 ops t o l by (auto simp: Let_def)
    from Suc.IH [OF this] show ?thesis using 4 t o l' by (auto simp: Let_def)
  qed
qed auto

definition whole_writes :: "'s writer \<Rightarrow> bool" where
  "whole_writes W \<longleftrightarrow> (\<forall>off d s. fst (W off d s) < 0 \<or> fst (W off d s) = int (length d))"

text \<open>A write of the file's own bytes; a place of the file that a successful write covers.\<close>

definition file_write :: "byte list \<Rightarrow> nat \<times> byte list \<times> int \<Rightarrow> bool" where
  "file_write file w \<longleftrightarrow> (case w of (off, d, r) \<Rightarrow>
     d \<noteq> [] \<and> off + length d \<le> length file \<and> d = take (length d) (drop off file) \<and> (r < 0 \<or> r = int (length d)))"

definition covered :: "write_log \<Rightarrow> nat \<Rightarrow> bool" where
  "covered log i \<longleftrightarrow> (\<exists>(off, d, r) \<in> set log. 0 \<le> r \<and> off \<le> i \<and> i < off + length d)"

lemma covered_mono: "set l \<subseteq> set l' \<Longrightarrow> covered l i \<Longrightarrow> covered l' i"
  by (auto simp: covered_def)

lemma block_write:
  assumes "take chunk (drop pos file) \<noteq> []" and "r < 0 \<or> r = int (length (take chunk (drop pos file)))"
  shows "file_write file (pos, take chunk (drop pos file), r)"
  using assms by (auto simp: file_write_def min_def)

subsection \<open>The push\<close>

lemma attempts_log:
  assumes W: "whole_writes W" and blk: "blk = take chunk (drop pos file)" "blk \<noteq> []"
  shows "ota_attempts (logged W) n pos blk (s, log) = (w, s', log') \<Longrightarrow>
    set log \<subseteq> set log' \<and> ((\<forall>x \<in> set log. file_write file x) \<longrightarrow> (\<forall>x \<in> set log'. file_write file x)) \<and>
    length log' \<le> length log + n \<and>
    (0 \<le> w \<longrightarrow> w = int (length blk) \<and> (pos, blk, w) \<in> set log')"
proof (induction n arbitrary: s log)
  case (Suc n)
  obtain r s1 where r: "W pos blk s = (r, s1)" by fastforce
  have whole: "r < 0 \<or> r = int (length blk)" using W r unfolding whole_writes_def by (metis fst_conv)
  have fw: "file_write file (pos, blk, r)" using block_write whole blk by simp
  show ?case
  proof (cases "r < 0")
    case True
    then have "ota_attempts (logged W) n pos blk (s1, log @ [(pos, blk, r)]) = (w, s', log')"
      using Suc.prems by (simp add: logged_call [where W = W, OF r])
    from Suc.IH [OF this] fw show ?thesis by auto
  next
    case False
    then have "w = r" "log' = log @ [(pos, blk, r)]" using Suc.prems by (auto simp: logged_call [where W = W, OF r])
    then show ?thesis using fw whole False by auto
  qed
qed simp

lemma loop_log:
  assumes W: "whole_writes W" and c: "0 < chunk"
  shows "ota_loop (logged W) chunk file pos pos (s, log) = (stalled, off, s', log') \<Longrightarrow>
    set log \<subseteq> set log' \<and> ((\<forall>x \<in> set log. file_write file x) \<longrightarrow> (\<forall>x \<in> set log'. file_write file x)) \<and>
    length log' \<le> length log + 15 * (length file - pos) \<and>
    pos \<le> off \<and> (\<forall>i. pos \<le> i \<longrightarrow> i < off \<longrightarrow> covered log' i) \<and> (\<not> stalled \<longrightarrow> length file \<le> off)"
proof (induction "length file - pos" arbitrary: pos s log rule: less_induct)
  case less
  let ?blk = "take chunk (drop pos file)"
  show ?case
  proof (cases "?blk = []")
    case True
    then show ?thesis using less.prems c by (subst (asm) ota_loop.simps) (auto simp: Let_def)
  next
    case False
    obtain w s1 log1 where at: "ota_attempts (logged W) 15 pos ?blk (s, log) = (w, s1, log1)" by (metis prod_cases3)
    note a = attempts_log [OF W refl False at]
    show ?thesis
    proof (cases "w < 0")
      case True
      then have "stalled" "off = pos" "log' = log1"
        using less.prems at False by (subst (asm) ota_loop.simps, simp add: Let_def)+
      then show ?thesis using a False by (auto simp: Suc_le_eq)
    next
      case False2: False
      then have w: "w = int (length ?blk)" "(pos, ?blk, w) \<in> set log1" using a by auto
      have step: "ota_loop (logged W) chunk file (pos + length ?blk) (pos + length ?blk) (s1, log1) = (stalled, off, s', log')"
        using less.prems at False False2 w(1) by (subst (asm) ota_loop.simps) (simp add: Let_def)
      have dec: "length file - (pos + length ?blk) < length file - pos" and l: "0 < length ?blk"
        using False by auto
      note b = less.hyps [OF dec step]
      have "15 + 15 * (length file - (pos + length ?blk)) \<le> 15 * (length file - pos)" using dec by simp
      then have len: "length log' \<le> length log + 15 * (length file - pos)" using a b by linarith
      have "covered log1 i" if "pos \<le> i" "i < pos + length ?blk" for i
        using that w by (auto simp: covered_def intro!: bexI [of _ "(pos, ?blk, w)"])
      then have cov: "covered log' i" if "pos \<le> i" "i < off" for i
        using that b covered_mono [of log1 log' i] by (cases "i < pos + length ?blk") auto
      have "pos \<le> off" using b by linarith
      then show ?thesis using a b len cov by blast
    qed
  qed
qed

lemma covered_prefix:
  assumes "\<forall>i < resume. covered log i" and "set log \<subseteq> set log'" and "\<forall>i. resume \<le> i \<longrightarrow> i < off \<longrightarrow> covered log' i"
  shows "\<forall>i < off. covered log' i"
  using assms covered_mono [OF assms(2)] by (metis not_le)

lemma passes_log:
  assumes W: "whole_writes (oo_write D)" and c: "0 < chunk"
  shows "ota_passes (logged_ops D) chunk file k resume (s, log) = (done', s', log') \<Longrightarrow>
    \<forall>x \<in> set log. file_write file x \<Longrightarrow> \<forall>i < resume. covered log i \<Longrightarrow>
    (\<forall>x \<in> set log'. file_write file x) \<and> length log' \<le> length log + k * (15 * length file) \<and>
    (done' \<longrightarrow> (\<forall>i < length file. covered log' i))"
proof (induction k arbitrary: resume s log)
  case (Suc k)
  obtain b1 s1 where t: "oo_target D s = (b1, s1)" by fastforce
  obtain b2 s2 where o: "oo_open D s1 = (b2, s2)" by fastforce
  consider "\<not> b1" | "b1" "\<not> b2" | "b1" "b2" by blast
  then show ?case
  proof cases
    case 1
    then have "ota_passes (logged_ops D) chunk file k resume (s1, log) = (done', s', log')"
      using Suc.prems(1) t by (simp add: logged_ops_def)
    from Suc.IH [OF this Suc.prems(2,3)] show ?thesis by auto
  next
    case 2
    then have "ota_passes (logged_ops D) chunk file k resume (oo_clunk D s2, log) = (done', s', log')"
      using Suc.prems(1) t o by (simp add: logged_ops_def)
    from Suc.IH [OF this Suc.prems(2,3)] show ?thesis by auto
  next
    case 3
    obtain st off s3 log3 where l: "ota_loop (logged (oo_write D)) chunk file resume resume (s2, log) = (st, off, s3, log3)"
      by (metis prod_cases4)
    note a = loop_log [OF W c l]
    have fw: "\<forall>x \<in> set log3. file_write file x" using a Suc.prems(2) by blast
    have cov: "\<forall>i < off. covered log3 i" using a Suc.prems(3) covered_prefix by blast
    have len: "length log3 \<le> length log + 15 * length file" using a by (meson diff_le_self le_trans mult_le_mono2 nat_add_left_cancel_le)
    show ?thesis
    proof (cases "\<not> st \<and> length file \<le> off")
      case True
      then have "log' = log3" using Suc.prems(1) t o l 3 by (simp add: logged_ops_def Let_def)
      then show ?thesis using fw cov len True by auto
    next
      case False
      let ?r = "if 16384 < off then off - 16384 else 0"
      have run: "ota_passes (logged_ops D) chunk file k ?r (oo_clunk D s3, log3) = (done', s', log')"
        using Suc.prems(1) t o l 3 False by (auto simp: logged_ops_def Let_def)
      have "\<forall>i < ?r. covered log3 i" using cov by auto
      from Suc.IH [OF run fw this] len show ?thesis by auto
    qed
  qed
qed simp


subsection \<open>Short writes\<close>

lemma wf_loop_log:
  "wf_loop (logged W) file off (s, log) = (ok, s', log') \<Longrightarrow> \<exists>new. log' = log @ new \<and>
     (ok \<longrightarrow> concat (map (\<lambda>(_, d, _). d) new) = drop off file \<and> (\<forall>(_, d, r) \<in> set new. r = int (length d)))"
proof (induction "length file - off" arbitrary: off s log rule: less_induct)
  case less
  let ?blk = "take 4096 (drop off file)"
  show ?case
  proof (cases "?blk = []")
    case True
    then show ?thesis using less.prems by (subst (asm) wf_loop.simps) (auto simp: Let_def)
  next
    case False
    obtain r s1 where r: "W off ?blk s = (r, s1)" by fastforce
    show ?thesis
    proof (cases "r = int (length ?blk)")
      case True
      then have step: "wf_loop (logged W) file (off + length ?blk) (s1, log @ [(off, ?blk, r)]) = (ok, s', log')"
        using less.prems False by (subst (asm) wf_loop.simps) (simp add: Let_def logged_call [where W = W, OF r])
      have "length file - (off + length ?blk) < length file - off" using False by auto
      from less.hyps [OF this step] obtain new where new: "log' = (log @ [(off, ?blk, r)]) @ new"
        "ok \<longrightarrow> concat (map (\<lambda>(_, d, _). d) new) = drop (off + length ?blk) file \<and> (\<forall>(_, d, r) \<in> set new. r = int (length d))"
        by blast
      have "?blk @ drop (off + length ?blk) file = drop off file"
      proof -
        have "drop (off + length ?blk) file = drop (length ?blk) (drop off file)" by (simp add: add.commute)
        also have "\<dots> = drop 4096 (drop off file)" by (cases "4096 \<le> length (drop off file)") simp_all
        finally show ?thesis by (simp only: append_take_drop_id)
      qed
      then show ?thesis using new True by (intro exI [of _ "(off, ?blk, r) # new"]) auto
    next
      case False2: False
      then have "\<not> ok" "log' = log @ [(off, ?blk, r)]"
        using less.prems False by (subst (asm) wf_loop.simps, simp add: Let_def logged_call [where W = W, OF r])+
      then show ?thesis by simp
    qed
  qed
qed

text \<open>
  A short write corrupts what \<open>put\<close> streams: if the server takes only \<open>k\<close> bytes of the first
  block, the next block of the file is written at offset \<open>k\<close>, so that the rest of the first block is
  missing; nothing reports it.
\<close>

theorem put_short_write:
  assumes "0 < chunk" "chunk < length file" and "W 0 (take chunk file) s = (int k, s1)" "k < chunk"
    and "W k (take chunk (drop chunk file)) s1 = (int m, s2)"
  shows "\<exists>new. snd (snd (put_loop (logged W) chunk file 0 0 (s, []))) =
      [(0, take chunk file, int k), (k, take chunk (drop chunk file), int m)] @ new"
proof -
  have ext: "\<exists>new. snd (snd (put_loop (logged W) chunk file pos off (s, log))) = log @ new" for pos off s log
  proof (induction "length file - pos" arbitrary: pos off s log rule: less_induct)
    case less
    let ?blk = "take chunk (drop pos file)"
    obtain r s1 where r: "W off ?blk s = (r, s1)" by fastforce
    show ?case
    proof (cases "?blk = [] \<or> r < 0")
      case True
      then show ?thesis by (subst put_loop.simps) (auto simp: Let_def logged_call [where W = W, OF r])
    next
      case False
      then have "length file - (pos + length ?blk) < length file - pos" by auto
      from less [OF this] obtain new where
        "snd (snd (put_loop (logged W) chunk file (pos + length ?blk) (off + nat r) (s1, log @ [(off, ?blk, r)]))) =
          (log @ [(off, ?blk, r)]) @ new" by blast
      then show ?thesis using False by (subst put_loop.simps) (auto simp: Let_def logged_call [where W = W, OF r])
    qed
  qed
  have b: "take chunk file \<noteq> []" "take chunk (drop chunk file) \<noteq> []" "length (take chunk file) = chunk"
    using assms(1,2) by auto
  have "put_loop (logged W) chunk file 0 0 (s, []) = put_loop (logged W) chunk file chunk k (s1, [(0, take chunk file, int k)])"
    using b by (subst put_loop.simps) (simp add: Let_def logged_call [where W = W, OF assms(3)])
  also have "\<dots> = put_loop (logged W) chunk file (chunk + length (take chunk (drop chunk file))) (k + m)
      (s2, [(0, take chunk file, int k), (k, take chunk (drop chunk file), int m)])"
    using b by (subst put_loop.simps) (simp add: Let_def logged_call [where W = W, OF assms(5)])
  finally show ?thesis using ext by metis
qed

end
