(* ===== verification/Verify.thy ===== *)
theory Verify
  imports NetFs NetData
begin

text \<open>
  \<open>tools/aether_verify.c\<close>, the host program that checks a node's proof that it owns its address,
  and the composition with the node: what the node returns for a challenge is accepted. The hash,
  the elliptic curve and the encoding of signatures are OpenSSL, a parameter.
\<close>

record verifier =
  vf_sha256 :: "byte list \<Rightarrow> byte list"
  vf_key :: "byte list \<Rightarrow> bool" \<comment> \<open>a public key can be built from the point\<close>
  vf_der :: "byte list \<Rightarrow> byte list \<Rightarrow> byte list option" \<comment> \<open>\<open>i2d_ECDSA_SIG\<close> of \<open>r\<close> and \<open>s\<close>\<close>
  vf_verify :: "byte list \<Rightarrow> byte list \<Rightarrow> byte list \<Rightarrow> bool" \<comment> \<open>point, signature, message\<close>

fun hex_pairs :: "nat \<Rightarrow> byte list \<Rightarrow> byte list option" where
  "hex_pairs 0 h = Some []"
| "hex_pairs (Suc n) h =
     (case scan_2x h of None \<Rightarrow> None | Some (b, _) \<Rightarrow> map_option ((#) (ucast b)) (hex_pairs n (drop 2 h)))"

definition hex2bin :: "byte list \<Rightarrow> nat \<Rightarrow> byte list option" where
  "hex2bin h want = (if length h \<noteq> want * 2 then None else hex_pairs want h)"

definition to_lower :: "byte \<Rightarrow> byte" where
  "to_lower b = (if 65 \<le> b \<and> b \<le> 90 then b + 32 else b)"

definition strcaseeq :: "byte list \<Rightarrow> byte list \<Rightarrow> bool" where
  "strcaseeq a b \<longleftrightarrow> map to_lower a = map to_lower b"

definition bound_addr :: "verifier \<Rightarrow> byte list \<Rightarrow> addr6" where
  "bound_addr V pub =
     (case addr_at (vf_sha256 V pub) of Addr6 a b c d e f \<Rightarrow> Addr6 ((a OR 0x02) AND 0xFE) b c d e f)"

definition sig_valid :: "verifier \<Rightarrow> byte list \<Rightarrow> byte list \<Rightarrow> byte list \<Rightarrow> bool" where
  "sig_valid V pub sig chal =
     (case vf_der V (take 32 sig) (drop 32 sig) of
        None \<Rightarrow> False
      | Some der \<Rightarrow> vf_verify V (4 # pub) der chal)"

text \<open>The exit status for the arguments after the program's name.\<close>

definition aether_verify :: "verifier \<Rightarrow> byte list list \<Rightarrow> nat" where
  "aether_verify V args =
     (case args of
        [addr_s, chal, pub_h, sig_h] \<Rightarrow>
          (case (hex2bin pub_h 64, hex2bin sig_h 64) of
             (Some pub, Some sig) \<Rightarrow>
               (if \<not> vf_key V (4 # pub) then 2
                else if strcaseeq (fmt_addr (bound_addr V pub)) addr_s \<and> sig_valid V pub sig chal then 0
                else 1)
           | _ \<Rightarrow> 2)
      | _ \<Rightarrow> 2)"

subsection \<open>Hexadecimal round trip\<close>

lemma hex_pairs_bytes: "hex_pairs (length xs) (hex_bytes xs @ rest) = Some xs"
proof (induction xs)
  case (Cons b xs)
  have "hex_bytes (b # xs) = fmt_02x b @ hex_bytes xs" by (simp add: hex_bytes_def)
  moreover have "drop 2 (fmt_02x b @ hex_bytes xs @ rest) = hex_bytes xs @ rest" by simp
  ultimately show ?case using Cons.IH by (simp add: scan_2x_fmt_02x del: drop_append)
qed (simp add: hex_bytes_def)

lemma length_hex_bytes [simp]: "length (hex_bytes xs) = 2 * length xs"
  by (induction xs) (simp_all add: hex_bytes_def)

lemma hex2bin_hex_bytes: "length xs = n \<Longrightarrow> hex2bin (hex_bytes xs) n = Some xs"
  using hex_pairs_bytes [of xs "[]"] by (simp add: hex2bin_def mult.commute)

lemma hex_bytes_plain: "space \<notin> set (hex_bytes xs)" "nl \<notin> set (hex_bytes xs)" "0 \<notin> set (hex_bytes xs)"
  by (auto simp: hex_bytes_def fmt_02x_no_nul)

subsection \<open>A node's proof is accepted\<close>

text \<open>
  The libraries on both sides agree: the same hash, keys that OpenSSL can build, and a signature of
  the node over a message verifies for that message.
\<close>

definition crypto_agrees :: "verifier \<Rightarrow> cga_env \<Rightarrow> bool" where
  "crypto_agrees V X \<longleftrightarrow> vf_sha256 V = cx_sha256 X \<and>
     (\<forall>seed pub. cx_pubkey X seed = Some pub \<longrightarrow> vf_key V (4 # pub) \<and>
        (\<forall>m k sig. cx_ecdsa_sign X m seed k = Some sig \<longrightarrow>
           (\<exists>der. vf_der V (take 32 sig) (drop 32 sig) = Some der \<and> vf_verify V (4 # pub) der m)))"

lemma cga_sign_signs:
  "cga_sign X m g = (Inr sig, g') \<Longrightarrow> \<exists>k. cx_ecdsa_sign X m (cg_seed g) k = Some sig"
proof -
  have "cga_sign_loop X n m g = (Inr sig, g') \<Longrightarrow> \<exists>k. cx_ecdsa_sign X m (cg_seed g) k = Some sig" for n g
    by (induction n arbitrary: g) (fastforce simp: Let_def split: option.splits)+
  then show "cga_sign X m g = (Inr sig, g') \<Longrightarrow> ?thesis" by (auto simp: cga_sign_def split: if_splits)
qed

lemma bound_addr_agrees: "crypto_agrees V X \<Longrightarrow> bound_addr V pub = cga_addr X pub"
  by (simp add: bound_addr_def cga_addr_def crypto_agrees_def)

text \<open>
  C29. End to end: a challenge written to a node's \<open>prove\<close> file is answered there with its public key
  and its signature over the first 32 bytes of the challenge. If the challenge is not longer, the
  verifier accepts the two for the node's address and rejects them for any other address.
\<close>

theorem identity_proof:
  assumes ok: "cga_env_ok (e_cga E)" and agree: "crypto_agrees V (e_cga E)"
    and settled: "cga_settled (e_cga E) (n_cga N)" and node: "nd_kind (n_nodes N n) = K_PROVE"
    and run: "anet_write E n chal N = (Inr w, N')"
  shows "\<exists>k sig. cx_ecdsa_sign (e_cga E) (take 32 chal) (cg_seed (n_cga N)) k = Some sig \<and> w = length chal \<and>
    anet_read E n 0 1024 N' = (Returns (Inr (hex_bytes (cg_pub (n_cga N)) @ [space] @ hex_bytes sig @ [nl])), N') \<and>
    (length chal \<le> 32 \<longrightarrow> (\<forall>addr_s.
       aether_verify V [addr_s, chal, hex_bytes (cg_pub (n_cga N)), hex_bytes sig] =
         (if strcaseeq (fmt_addr (cga_addr (e_cga E) (cg_pub (n_cga N)))) addr_s then 0 else 1)))"
proof -
  let ?X = "e_cga E" and ?pub = "cg_pub (n_cga N)"
  have key: "cg_pub_ready (n_cga N)" "cx_pubkey ?X (cg_seed (n_cga N)) = Some ?pub"
    using settled by (simp_all add: cga_settled_def)
  have lp: "length ?pub = 64" using ok key(2) by (auto simp: cga_env_ok_def)
  obtain sig g where sg: "cga_sign ?X (take 32 chal) (n_cga N) = (Inr sig, g)"
    "N' = N\<lparr>n_cga := g, n_prove_out := hex_bytes ?pub @ [space] @ hex_bytes (take 64 sig) @ [nl]\<rparr>" "w = length chal"
    using run node key(1) lp
    by (auto simp: anet_write_def write_prove_def cga_get_pubkey_def Let_def split: prod.splits sum.splits)
  obtain k where k: "cx_ecdsa_sign ?X (take 32 chal) (cg_seed (n_cga N)) k = Some sig" using cga_sign_signs [OF sg(1)] by blast
  have ls: "length sig = 64" using ok k by (auto simp: cga_env_ok_def)
  obtain der where der: "vf_der V (take 32 sig) (drop 32 sig) = Some der" "vf_verify V (4 # ?pub) der (take 32 chal)"
    "vf_key V (4 # ?pub)"
    using agree key(2) k unfolding crypto_agrees_def by blast
  have "anet_read E n 0 1024 N' = (Returns (Inr (n_prove_out N')), N')"
    using node sg(2) lp ls by (simp add: anet_read_def Let_def segment_def)
  moreover have "aether_verify V [addr_s, chal, hex_bytes ?pub, hex_bytes sig] =
      (if strcaseeq (fmt_addr (cga_addr ?X ?pub)) addr_s then 0 else 1)" if "length chal \<le> 32" for addr_s
    using der lp ls that by (simp add: aether_verify_def hex2bin_hex_bytes sig_valid_def bound_addr_agrees [OF agree])
  ultimately show ?thesis using k sg(2,3) ls by (intro exI [of _ k] exI [of _ sig]) simp
qed

text \<open>The verifier accepts only a key whose hash is the address and a signature that verifies under it.\<close>

lemma aether_verify_sound:
  "aether_verify V args = 0 \<Longrightarrow> \<exists>addr_s chal pub_h sig_h pub sig.
     args = [addr_s, chal, pub_h, sig_h] \<and> hex2bin pub_h 64 = Some pub \<and> hex2bin sig_h 64 = Some sig \<and>
     strcaseeq (fmt_addr (bound_addr V pub)) addr_s \<and> sig_valid V pub sig chal"
  by (auto simp: aether_verify_def split: list.splits option.splits if_splits)

end
