(* ===== verification/HostConv.thy ===== *)
theory HostConv
  imports HostClient Net
begin

text \<open>
  The commands of \<open>aether_conv.c\<close> that hold a conversation: they clone one, write its control file,
  open its data file and send or receive datagrams. The command that reads while another read is
  blocked keeps one reply that arrives out of order in a stash. The result of a command is
  \<open>None\<close> for a copy out of the bounds of an array, \<open>Some None\<close> for the exit status 1, else what it
  prints on the standard output. What \<open>g_stop\<close> shows, set by a signal, and the clock are parameters.
\<close>

type_synonym 'a outcome = "'a option option"

subsection \<open>Several requests at a time\<close>

definition b_read :: "u16 \<Rightarrow> u32 \<Rightarrow> u32 \<Rightarrow> byte list" where
  "b_read tag fid cnt = [116] @ np16 tag @ np32 fid @ np32 0 @ np32 0 @ np32 cnt"

definition send_only :: "port \<Rightarrow> byte list \<Rightarrow> flink \<Rightarrow> bool \<times> flink" where
  "send_only E body L =
     (let frame = np32 (of_nat (4 + length body)) @ body;
          sent = lk_sent L @ [frame];
          L1 = L\<lparr>lk_mbuf := overlay frame (lk_mbuf L), lk_sent := sent\<rparr>
      in if po_writes E sent then (True, L1\<lparr>lk_in := lk_in L @ po_reply E sent\<rparr>) else (False, L1))"

text \<open>
  A reply into the array \<open>dst\<close> of \<open>cap\<close> bytes, whose size is not compared with the message: its type
  and tag, and the array.
\<close>

definition recv_one :: "nat \<Rightarrow> byte list \<Rightarrow> flink \<Rightarrow> ((byte \<times> u16) option \<times> byte list) option \<times> flink" where
  "recv_one cap dst L =
     (case conv_readn 4 [] (lk_in L) of
        (False, _, evs) \<Rightarrow> (Some (None, dst), L\<lparr>lk_in := evs\<rparr>)
      | (True, hdr, evs) \<Rightarrow>
          (let sz = unat (ng32 hdr) in
           if sz < 7 \<or> MSIZE < sz then (Some (None, dst), L\<lparr>lk_in := evs\<rparr>)
           else case conv_readn (sz - 4) [] evs of
             (ok, b, evs2) \<Rightarrow>
               (let dst1 = overlay b dst; L1 = L\<lparr>lk_in := evs2\<rparr>
                in if cap < length b then (None, L1)
                   else (Some (if ok then Some (dst1 ! 0, ng16 (drop 1 dst1)) else None, dst1), L1))))"

text \<open>What is left on the line shrinks with every reply, so that the search for a tag ends.\<close>

fun weight :: "io_event list \<Rightarrow> nat" where
  "weight [] = 0"
| "weight (Bytes d # evs) = Suc (length d) + weight evs"
| "weight (_ # evs) = Suc (weight evs)"

lemma conv_readn_weight:
  "conv_readn n got evs = (ok, b, evs') \<Longrightarrow> weight evs' \<le> weight evs \<and> (ok \<longrightarrow> length got < n \<longrightarrow> weight evs' < weight evs)"
proof (induction n got evs rule: conv_readn.induct)
  case (2 n got ev evs)
  show ?case
  proof (cases ev)
    case (Bytes d)
    then show ?thesis using 2 by (auto split: if_splits)
  qed (use 2 in \<open>auto split: if_splits\<close>)
qed (auto split: if_splits)

lemma recv_one_weight:
  "recv_one cap dst L = (Some (Some x, dst1), L1) \<Longrightarrow> weight (lk_in L1) < weight (lk_in L)"
  unfolding recv_one_def Let_def
  by (auto split: prod.splits bool.splits if_splits dest!: conv_readn_weight)

type_synonym stash = "(u16 \<times> byte list) option"

text \<open>
  The reply that bears the tag \<open>want\<close>. The array is copied to the stash and back with \<open>MSIZE\<close> bytes,
  whatever its size. \<open>recv_tag_loop\<close> is the loop.
\<close>

function recv_tag_loop ::
    "nat \<Rightarrow> u16 \<Rightarrow> byte list \<Rightarrow> stash \<times> flink \<Rightarrow> (byte option \<times> byte list) option \<times> stash \<times> flink" where
  "recv_tag_loop cap want dst (st, L) =
     (case recv_one cap dst L of
        (None, L1) \<Rightarrow> (None, st, L1)
      | (Some (None, dst1), L1) \<Rightarrow> (Some (None, dst1), st, L1)
      | (Some (Some (ty, t), dst1), L1) \<Rightarrow>
          if t = want then (Some (Some ty, dst1), st, L1)
          else if cap < MSIZE then (None, st, L1)
          else recv_tag_loop cap want dst1 (Some (t, dst1), L1))"
  by pat_completeness auto
termination
  by (relation "measure (\<lambda>(cap, want, dst, st, L). weight (lk_in L))") (auto dest: recv_one_weight [OF sym])

declare recv_tag_loop.simps [simp del]

definition recv_tag ::
    "nat \<Rightarrow> u16 \<Rightarrow> byte list \<Rightarrow> stash \<times> flink \<Rightarrow> (byte option \<times> byte list) option \<times> stash \<times> flink" where
  "recv_tag cap want dst SL =
     (case fst SL of
        Some (t, b) \<Rightarrow>
          if t = want then (if cap < MSIZE then (None, SL) else (Some (Some (b ! 0), b), None, snd SL))
          else recv_tag_loop cap want dst SL
      | None \<Rightarrow> recv_tag_loop cap want dst SL)"

subsection \<open>Common steps\<close>

text \<open>The message is copied behind its header into \<open>mbuf\<close>.\<close>

definition conv_do_write :: "port \<Rightarrow> u32 \<Rightarrow> byte list \<Rightarrow> flink \<Rightarrow> int option \<times> flink" where
  "conv_do_write E fid d L =
     (if MSIZE < 23 + length d then (None, L)
      else case conv_do_pwrite E fid 0 d L of (w, L1) \<Rightarrow> (Some w, L1))"

definition conv_setup :: "port \<Rightarrow> flink \<Rightarrow> bool \<times> flink" where
  "conv_setup E L =
     (case conv_do_version E L of (False, L1) \<Rightarrow> (False, L1) | (True, L1) \<Rightarrow> conv_do_attach E 0 L1)"

definition walk_open :: "port \<Rightarrow> u32 \<Rightarrow> byte list \<Rightarrow> byte \<Rightarrow> flink \<Rightarrow> bool \<times> flink" where
  "walk_open E fid path mode L =
     (case conv_do_walk E 0 fid path L of (False, L1) \<Rightarrow> (False, L1) | (True, L1) \<Rightarrow> conv_do_open E fid mode L1)"

definition clone_path :: "byte list" where
  "clone_path = ascii ''net/aether/clone''"

definition conv_file :: "int \<Rightarrow> string \<Rightarrow> byte list" where
  "conv_file n file = snprintf_out 64 (ascii ''net/aether/'' @ dec_int n @ [47] @ ascii file)"

text \<open>
  A new conversation: its control file opened as \<open>fid\<close>, and its number read from there into an array
  of \<open>cap + 1\<close> bytes. A failed read counts as 0, except where the caller is \<open>strict\<close>.
\<close>

definition clone_number :: "port \<Rightarrow> bool \<Rightarrow> u32 \<Rightarrow> nat \<Rightarrow> flink \<Rightarrow> int outcome \<times> flink" where
  "clone_number E strict fid cap L =
     (case walk_open E fid clone_path 2 L of
        (False, L1) \<Rightarrow> (Some None, L1)
      | (True, L1) \<Rightarrow>
          (case conv_do_read E fid 0 cap L1 of
             (None, L2) \<Rightarrow> (None, L2)
           | (Some None, L2) \<Rightarrow> (Some (if strict then None else Some (atoi [])), L2)
           | (Some (Some d), L2) \<Rightarrow> (Some (Some (atoi (cstr d))), L2)))"

text \<open>The set-up that most commands begin with: a conversation, its control command, one of its files.\<close>

definition conv_join ::
    "port \<Rightarrow> nat \<Rightarrow> byte list option \<Rightarrow> string \<Rightarrow> byte \<Rightarrow> flink \<Rightarrow> int outcome \<times> flink" where
  "conv_join E cap cmd file mode L =
     (case conv_setup E L of
        (False, L1) \<Rightarrow> (Some None, L1)
      | (True, L1) \<Rightarrow>
     (case clone_number E False 1 cap L1 of
        (None, L2) \<Rightarrow> (None, L2)
      | (Some None, L2) \<Rightarrow> (Some None, L2)
      | (Some (Some n), L2) \<Rightarrow>
     (case cmd of
        None \<Rightarrow> (None, L2)
      | Some c \<Rightarrow>
     (case conv_do_write E 1 c L2 of
        (None, L3) \<Rightarrow> (None, L3)
      | (Some w, L3) \<Rightarrow>
          (if w < 0 then (Some None, conv_do_clunk E 0 (conv_do_clunk E 1 L3))
           else case walk_open E 2 (conv_file n file) mode L3 of
             (False, L4) \<Rightarrow> (Some None, conv_do_clunk E 0 (conv_do_clunk E 1 L4))
           | (True, L4) \<Rightarrow> (Some (Some n), L4))))))"

definition conv_leave :: "port \<Rightarrow> flink \<Rightarrow> flink" where
  "conv_leave E L = conv_do_clunk E 0 (conv_do_clunk E 1 (conv_do_clunk E 2 L))"

definition connect_bcast :: "byte list option" where
  "connect_bcast = Some (ascii ''connect ff:ff:ff:ff:ff:ff'')"

definition announce_cmd :: "byte list option" where
  "announce_cmd = Some (ascii ''announce'')"

definition connect_to :: "byte list \<Rightarrow> byte list option" where
  "connect_to peer = snprintf_send 64 (ascii ''connect '' @ peer)"

subsection \<open>A blocked read beside others\<close>

text \<open>A conversation without a control command, and its data file.\<close>

definition conv_data_only :: "port \<Rightarrow> nat \<Rightarrow> flink \<Rightarrow> int outcome \<times> flink" where
  "conv_data_only E cap L =
     (case conv_setup E L of
        (False, L1) \<Rightarrow> (Some None, L1)
      | (True, L1) \<Rightarrow>
     (case clone_number E False 1 cap L1 of
        (None, L2) \<Rightarrow> (None, L2)
      | (Some None, L2) \<Rightarrow> (Some None, L2)
      | (Some (Some n), L2) \<Rightarrow>
     (case walk_open E 2 (conv_file n ''data'') 2 L2 of
        (False, L3) \<Rightarrow> (Some None, L3)
      | (True, L3) \<Rightarrow> (Some (Some n), L3))))"

text \<open>A request sent and its reply awaited; what \<open>send_only\<close> returns is ignored.\<close>

definition ask ::
    "port \<Rightarrow> nat \<Rightarrow> u16 \<Rightarrow> byte list \<Rightarrow> byte list \<Rightarrow> stash \<times> flink \<Rightarrow> (byte option \<times> byte list) option \<times> stash \<times> flink" where
  "ask E cap tag body dst SL = recv_tag cap tag dst (fst SL, snd (send_only E body (snd SL)))"

record demo_out =
  do_status :: "byte list option" \<comment> \<open>the text of the status file\<close>
  do_pass :: bool
  do_woke :: "u32 option" \<comment> \<open>the count of the read that was blocked\<close>

definition demo_concurrent :: "port \<Rightarrow> byte list \<Rightarrow> int \<Rightarrow> flink \<Rightarrow> demo_out outcome \<times> flink" where
  "demo_concurrent E rb dt L =
     (case conv_data_only E 255 L of
        (None, L1) \<Rightarrow> (None, L1)
      | (Some None, L1) \<Rightarrow> (Some None, L1)
      | (Some (Some n), L1) \<Rightarrow>
     (case ask E 256 1 (b_walk 1 0 3 (ascii ''net/aether/status'')) rb (None, snd (send_only E (b_read 10 2 256) L1)) of
        (None, _, L2) \<Rightarrow> (None, L2)
      | (Some (_, rb2), SL2) \<Rightarrow>
     (case ask E 256 1 (b_open 1 3 0) rb2 SL2 of
        (None, _, L3) \<Rightarrow> (None, L3)
      | (Some (_, rb3), SL3) \<Rightarrow>
     (case ask E 256 1 (b_read 1 3 255) rb3 SL3 of
        (None, _, L4) \<Rightarrow> (None, L4)
      | (Some (ty, rb4), SL4) \<Rightarrow>
     (let c = unat (ng32 (drop 3 rb4));
          status = (if ty = Some 117 then Some (cstr (segment 7 (min c 200) rb4)) else None);
          rb4' = (if ty = Some 117 then rb4[7 + min c 200 := 0] else rb4) in
     (case ask E 256 1 (b_clunk 1 3) rb4' SL4 of
        (None, _, L5) \<Rightarrow> (None, L5)
      | (Some (_, rb5), SL5) \<Rightarrow>
     (case ask E 256 1 (b_clunk 1 1) rb5 SL5 of
        (None, _, L6) \<Rightarrow> (None, L6)
      | (Some (_, rb6), SL6) \<Rightarrow>
     (case recv_tag 256 10 rb6 SL6 of
        (None, _, L7) \<Rightarrow> (None, L7)
      | (Some (dty, rb7), SL7) \<Rightarrow>
     (let woke = (if dty = Some 117 then Some (ng32 (drop 3 rb7)) else None) in
     (case ask E 256 1 (b_clunk 1 2) rb7 SL7 of
        (None, _, L8) \<Rightarrow> (None, L8)
      | (Some _, SL8) \<Rightarrow>
          (Some (Some \<lparr>do_status = status, do_pass = (dt < 2000), do_woke = woke\<rparr>), conv_do_clunk E 0 (snd SL8))))))))))))"

text \<open>The command that waits to be killed: it ends in \<open>pause\<close>, so the state is the one it waits in.\<close>

definition do_hold :: "port \<Rightarrow> flink \<Rightarrow> int outcome \<times> flink" where
  "do_hold E L =
     (case conv_data_only E 255 L of
        (None, L1) \<Rightarrow> (None, L1)
      | (Some None, L1) \<Rightarrow> (Some None, L1)
      | (Some (Some n), L1) \<Rightarrow> (Some (Some n), snd (send_only E (b_read 10 2 256) L1)))"

end
