(* ===== verification/HostCmds.thy ===== *)
theory HostCmds
  imports HostConv
begin

text \<open>
  The commands of \<open>aether_conv.c\<close> that send and receive datagrams through one conversation: broadcast
  (\<open>bstatus\<close>, \<open>bsend\<close>, \<open>bsendn\<close>, \<open>brecv\<close>), announced (\<open>recv\<close>, \<open>asend\<close>), connected (\<open>sendn\<close>,
  \<open>sendbig\<close>, \<open>crecv\<close>), and the test with three conversations at a time.
\<close>

subsection \<open>Broadcast\<close>

definition do_bstatus :: "port \<Rightarrow> flink \<Rightarrow> (int \<times> byte list) outcome \<times> flink" where
  "do_bstatus E L =
     (case conv_join E 255 connect_bcast ''status'' 0 L of
        (None, L1) \<Rightarrow> (None, L1)
      | (Some None, L1) \<Rightarrow> (Some None, L1)
      | (Some (Some n), L1) \<Rightarrow>
     (case conv_do_read E 2 0 255 L1 of
        (None, L2) \<Rightarrow> (None, L2)
      | (Some r, L2) \<Rightarrow>
          (Some (Some (n, cstr (strip_end (\<lambda>c. c = nl \<or> c = cr) (case r of None \<Rightarrow> [] | Some d \<Rightarrow> d)))), conv_leave E L2)))"

text \<open>Whether the node took the datagram.\<close>

definition do_bsend :: "port \<Rightarrow> byte list \<Rightarrow> flink \<Rightarrow> bool outcome \<times> flink" where
  "do_bsend E msg L =
     (case conv_join E 255 connect_bcast ''data'' 2 L of
        (None, L1) \<Rightarrow> (None, L1)
      | (Some None, L1) \<Rightarrow> (Some None, L1)
      | (Some (Some n), L1) \<Rightarrow>
     (case conv_do_write E 2 msg L1 of
        (None, L2) \<Rightarrow> (None, L2)
      | (Some w, L2) \<Rightarrow> (Some (Some (0 \<le> w)), conv_leave E L2)))"

text \<open>
  Datagrams one after the other: the text of each, by its number, and whether it was taken. \<open>stop\<close>
  is what \<open>g_stop\<close> shows before each.
\<close>

fun send_loop ::
    "port \<Rightarrow> (nat \<Rightarrow> bool) \<Rightarrow> (nat \<Rightarrow> byte list option) \<Rightarrow> nat \<Rightarrow> nat \<Rightarrow> flink \<Rightarrow> bool list option \<times> flink" where
  "send_loop E stop msg 0 k L = (Some [], L)"
| "send_loop E stop msg (Suc r) k L =
     (if stop k then (Some [], L)
      else case msg k of
        None \<Rightarrow> (None, L)
      | Some m \<Rightarrow>
     (case conv_do_write E 2 m L of
        (None, L1) \<Rightarrow> (None, L1)
      | (Some w, L1) \<Rightarrow>
     (case send_loop E stop msg r (Suc k) L1 of
        (None, L2) \<Rightarrow> (None, L2)
      | (Some oks, L2) \<Rightarrow> (Some ((0 \<le> w) # oks), L2))))"

text \<open>A command that joins, sends datagrams and leaves.\<close>

definition send_session ::
    "port \<Rightarrow> (nat \<Rightarrow> bool) \<Rightarrow> nat \<Rightarrow> byte list option \<Rightarrow> (nat \<Rightarrow> byte list option) \<Rightarrow> int \<Rightarrow> flink \<Rightarrow>
       bool list outcome \<times> flink" where
  "send_session E stop cap cmd msg cnt L =
     (case conv_join E cap cmd ''data'' 2 L of
        (None, L1) \<Rightarrow> (None, L1)
      | (Some None, L1) \<Rightarrow> (Some None, L1)
      | (Some (Some n), L1) \<Rightarrow>
     (case send_loop E stop msg (nat cnt) 0 L1 of
        (None, L2) \<Rightarrow> (None, L2)
      | (Some oks, L2) \<Rightarrow> (Some (Some oks), conv_leave E L2)))"

text \<open>How many of the burst were taken, and how many were not. This loop does not look at \<open>g_stop\<close>.\<close>

definition do_bsendn :: "port \<Rightarrow> int \<Rightarrow> byte list \<Rightarrow> flink \<Rightarrow> (nat \<times> nat) outcome \<times> flink" where
  "do_bsendn E cnt msg L =
     (case send_session E (\<lambda>_. False) 255 connect_bcast
             (\<lambda>i. snprintf_send 300 (msg @ [space, 35] @ dec_nat i)) cnt L of
        (None, L1) \<Rightarrow> (None, L1)
      | (Some None, L1) \<Rightarrow> (Some None, L1)
      | (Some (Some oks), L1) \<Rightarrow> (Some (Some (length (filter id oks), length (filter Not oks))), L1))"

subsection \<open>Receiving\<close>

text \<open>What is printed of a datagram: its length without the source, the source, the text up to a NUL.\<close>

datatype rline = From nat addr6 "byte list" | Short nat "byte list" | Eof

definition rline_of :: "byte list \<Rightarrow> rline" where
  "rline_of d =
     (if 6 \<le> length d then From (length d - 6) (addr_at d) (cstr (drop 6 d)) else Short (length d) (cstr d))"

fun recv_loop :: "port \<Rightarrow> (nat \<Rightarrow> bool) \<Rightarrow> nat \<Rightarrow> nat \<Rightarrow> flink \<Rightarrow> rline list option \<times> flink" where
  "recv_loop E stop 0 k L = (Some [], L)"
| "recv_loop E stop (Suc r) k L =
     (if stop k then (Some [], L)
      else case conv_do_read E 2 0 599 L of
        (None, L1) \<Rightarrow> (None, L1)
      | (Some None, L1) \<Rightarrow> (Some [], L1)
      | (Some (Some d), L1) \<Rightarrow>
     (if d = [] then (Some [Eof], L1)
      else case recv_loop E stop r (Suc k) L1 of
        (None, L2) \<Rightarrow> (None, L2)
      | (Some ls, L2) \<Rightarrow> (Some (rline_of d # ls), L2)))"

definition recv_session ::
    "port \<Rightarrow> (nat \<Rightarrow> bool) \<Rightarrow> byte list option \<Rightarrow> int \<Rightarrow> flink \<Rightarrow> rline list outcome \<times> flink" where
  "recv_session E stop cmd cnt L =
     (case conv_join E 599 cmd ''data'' 2 L of
        (None, L1) \<Rightarrow> (None, L1)
      | (Some None, L1) \<Rightarrow> (Some None, L1)
      | (Some (Some n), L1) \<Rightarrow>
     (case recv_loop E stop (nat cnt) 0 L1 of
        (None, L2) \<Rightarrow> (None, L2)
      | (Some ls, L2) \<Rightarrow> (Some (Some ls), conv_leave E L2)))"

definition do_brecv :: "port \<Rightarrow> (nat \<Rightarrow> bool) \<Rightarrow> int \<Rightarrow> flink \<Rightarrow> rline list outcome \<times> flink" where
  "do_brecv E stop cnt L = recv_session E stop connect_bcast cnt L"

definition do_recv :: "port \<Rightarrow> (nat \<Rightarrow> bool) \<Rightarrow> int \<Rightarrow> flink \<Rightarrow> rline list outcome \<times> flink" where
  "do_recv E stop cnt L = recv_session E stop announce_cmd cnt L"

subsection \<open>Connected and announced senders\<close>

definition do_sendn :: "port \<Rightarrow> (nat \<Rightarrow> bool) \<Rightarrow> byte list \<Rightarrow> int \<Rightarrow> flink \<Rightarrow> bool list outcome \<times> flink" where
  "do_sendn E stop peer cnt L =
     send_session E stop 63 (connect_to peer) (\<lambda>k. snprintf_send 32 (ascii ''sn-'' @ dec_nat k)) cnt L"

text \<open>\<open>%03d\<close> of a number that is not negative.\<close>

definition dec_03 :: "nat \<Rightarrow> byte list" where
  "dec_03 k = replicate (3 - length (dec_nat k)) 48 @ dec_nat k"

definition big_tag :: "nat \<Rightarrow> byte list" where
  "big_tag k = [98] @ dec_03 k @ [45]"

text \<open>The letters in turn, then the tag printed over them with its NUL, and the NUL replaced.\<close>

definition big_payload :: "nat \<Rightarrow> nat \<Rightarrow> byte list" where
  "big_payload nbytes k =
     (let p = overlay (snprintf_out nbytes (big_tag k) @ [0]) (map (\<lambda>i. of_nat (65 + i mod 26)) [0..<nbytes])
      in if length (big_tag k) < nbytes then p[length (big_tag k) := 65] else p)"

definition big_size :: "int \<Rightarrow> nat" where
  "big_size nbytes = (if nbytes < 1 then 1 else if 600 < nbytes then 600 else nat nbytes)"

definition do_sendbig ::
    "port \<Rightarrow> (nat \<Rightarrow> bool) \<Rightarrow> byte list \<Rightarrow> int \<Rightarrow> int \<Rightarrow> flink \<Rightarrow> bool list outcome \<times> flink" where
  "do_sendbig E stop peer nbytes cnt L =
     send_session E stop 63 (connect_to peer) (\<lambda>k. Some (big_payload (big_size nbytes) k)) cnt L"

definition parse6 :: "byte list \<Rightarrow> byte list option" where
  "parse6 s = (let b = scan_colon_x 6 s in if length b \<noteq> 6 then None else Some (map ucast b))"

definition do_asend :: "port \<Rightarrow> byte list \<Rightarrow> byte list \<Rightarrow> flink \<Rightarrow> bool outcome \<times> flink" where
  "do_asend E dstaddr msg L =
     (case parse6 dstaddr of
        None \<Rightarrow> (Some None, L)
      | Some dst \<Rightarrow>
     (case conv_join E 63 announce_cmd ''data'' 2 L of
        (None, L1) \<Rightarrow> (None, L1)
      | (Some None, L1) \<Rightarrow> (Some None, L1)
      | (Some (Some n), L1) \<Rightarrow>
     (case conv_do_write E 2 (dst @ take 512 msg) L1 of
        (None, L2) \<Rightarrow> (None, L2)
      | (Some w, L2) \<Rightarrow> (Some (Some (0 \<le> w)), conv_leave E L2))))"

text \<open>The bytes of one datagram, which come without a source.\<close>

definition do_crecv :: "port \<Rightarrow> byte list \<Rightarrow> flink \<Rightarrow> byte list outcome \<times> flink" where
  "do_crecv E peer L =
     (case conv_join E 599 (connect_to peer) ''data'' 2 L of
        (None, L1) \<Rightarrow> (None, L1)
      | (Some None, L1) \<Rightarrow> (Some None, L1)
      | (Some (Some n), L1) \<Rightarrow>
     (case conv_do_read E 2 0 599 L1 of
        (None, L2) \<Rightarrow> (None, L2)
      | (Some r, L2) \<Rightarrow> (Some r, conv_leave E L2)))"

subsection \<open>Three conversations at a time\<close>

text \<open>The set-up of one: its control fid, its data fid and its command. No fid is given back if it fails.\<close>

fun iso_arm :: "port \<Rightarrow> (u32 \<times> u32 \<times> byte list option) list \<Rightarrow> flink \<Rightarrow> unit outcome \<times> flink" where
  "iso_arm E [] L = (Some (Some ()), L)"
| "iso_arm E ((ctl, data, cmd) # cs) L =
     (case clone_number E False ctl 699 L of
        (None, L1) \<Rightarrow> (None, L1)
      | (Some None, L1) \<Rightarrow> (Some None, L1)
      | (Some (Some n), L1) \<Rightarrow>
     (case cmd of
        None \<Rightarrow> (None, L1)
      | Some c \<Rightarrow>
     (case conv_do_write E ctl c L1 of
        (None, L2) \<Rightarrow> (None, L2)
      | (Some w, L2) \<Rightarrow>
          (if w < 0 then (Some None, L2)
           else case walk_open E data (conv_file n ''data'') 2 L2 of
             (False, L3) \<Rightarrow> (Some None, L3)
           | (True, L3) \<Rightarrow> iso_arm E cs L3))))"

definition iso_convs :: "byte list \<Rightarrow> byte list \<Rightarrow> (u32 \<times> u32 \<times> byte list option) list" where
  "iso_convs real fake = [(1, 11, connect_to real), (2, 12, connect_to fake), (3, 13, announce_cmd)]"

definition iso_conv :: "u16 \<Rightarrow> nat" where
  "iso_conv tag = (if tag = 11 then 1 else if tag = 12 then 2 else if tag = 13 then 3 else 0)"

text \<open>
  The loop ends with the line; a reply longer than the array of 700 bytes is a copy out of bounds,
  and so is a text without end. A line of the output: the conversation, the count the reply claims,
  and the text.
\<close>

function iso_loop :: "byte list \<Rightarrow> flink \<Rightarrow> (nat \<times> u32 \<times> byte list) list option \<times> flink" where
  "iso_loop rb L =
     (case recv_one 700 rb L of
        (None, L1) \<Rightarrow> (None, L1)
      | (Some (None, _), L1) \<Rightarrow> (Some [], L1)
      | (Some (Some (ty, tag), rb1), L1) \<Rightarrow>
          (if ty \<noteq> 117 then iso_loop rb1 L1
           else let n = ng32 (drop 3 rb1) in
             if 693 < unat n \<and> 0 \<notin> set (segment 7 693 rb1) then (None, L1)
             else case iso_loop rb1 L1 of
               (None, L2) \<Rightarrow> (None, L2)
             | (Some ls, L2) \<Rightarrow> (Some ((iso_conv tag, n, cstr (segment 7 (unat n) rb1)) # ls), L2)))"
  by pat_completeness auto
termination
  by (relation "measure (\<lambda>(rb, L). weight (lk_in L))") (auto dest: recv_one_weight [OF sym])

declare iso_loop.simps [simp del]

text \<open>It always ends with the exit status 1; the lines printed are kept beside it.\<close>

definition do_iso_recv ::
    "port \<Rightarrow> byte list \<Rightarrow> byte list \<Rightarrow> byte list \<Rightarrow> flink \<Rightarrow> (nat \<times> u32 \<times> byte list) list option \<times> flink" where
  "do_iso_recv E rb real fake L =
     (case conv_setup E L of
        (False, L1) \<Rightarrow> (Some [], L1)
      | (True, L1) \<Rightarrow>
     (case iso_arm E (iso_convs real fake) L1 of
        (None, L2) \<Rightarrow> (None, L2)
      | (Some None, L2) \<Rightarrow> (Some [], L2)
      | (Some (Some _), L2) \<Rightarrow>
          iso_loop rb (snd (send_only E (b_read 13 13 512) (snd (send_only E (b_read 12 12 512)
            (snd (send_only E (b_read 11 11 512) L2))))))))"

end
