(* ===== verification/HostBridge.thy ===== *)
theory HostBridge
  imports HostCmds
begin

text \<open>
  The 9P bridge and the probe of \<open>aether_conv.c\<close>, and its \<open>main\<close>. Both carry 9P messages of their
  own as datagrams of one conversation with a peer: the bridge for the clients of a socket, with
  retries and a comparison of tags, the probe without either. What they do with the
  conversation is given by two operations, so that it can be observed; \<open>conv_mesh\<close> has those of
  the program. Log lines are left out.
\<close>

subsection \<open>Messages through a conversation\<close>

record 's mesh_ops =
  mo_write :: "byte list \<Rightarrow> 's \<Rightarrow> int option \<times> 's"
  mo_read :: "nat \<Rightarrow> 's \<Rightarrow> byte list outcome \<times> 's"

definition conv_mesh :: "port \<Rightarrow> flink mesh_ops" where
  "conv_mesh E = \<lparr>mo_write = conv_do_write E 2, mo_read = conv_do_read E 2 0\<rparr>"

text \<open>At most six reads for the reply with the tag \<open>want\<close>; an empty or failed one ends the attempt.\<close>

fun bridge_reads :: "'s mesh_ops \<Rightarrow> u16 \<Rightarrow> nat \<Rightarrow> 's \<Rightarrow> byte list outcome \<times> 's" where
  "bridge_reads M want 0 s = (Some None, s)"
| "bridge_reads M want (Suc k) s =
     (case mo_read M 600 s of
        (None, s1) \<Rightarrow> (None, s1)
      | (Some None, s1) \<Rightarrow> (Some None, s1)
      | (Some (Some r), s1) \<Rightarrow>
          if r = [] then (Some None, s1)
          else if 7 \<le> length r \<and> ng16 (drop 5 r) = want then (Some (Some r), s1)
          else bridge_reads M want k s1)"

fun bridge_attempts :: "'s mesh_ops \<Rightarrow> byte list \<Rightarrow> nat \<Rightarrow> 's \<Rightarrow> byte list outcome \<times> 's" where
  "bridge_attempts M msg 0 s = (Some None, s)"
| "bridge_attempts M msg (Suc n) s =
     (case mo_write M msg s of
        (None, s1) \<Rightarrow> (None, s1)
      | (Some w, s1) \<Rightarrow>
          if w < 0 then bridge_attempts M msg n s1
          else case bridge_reads M (ng16 (drop 5 msg)) 6 s1 of
            (None, s2) \<Rightarrow> (None, s2)
          | (Some None, s2) \<Rightarrow> bridge_attempts M msg n s2
          | (Some (Some r), s2) \<Rightarrow> (Some (Some r), s2))"

subsection \<open>The bridge\<close>

text \<open>
  A client of the socket: what it sends first, whether it takes a reply, and what it sends after
  it, given all replies so far.
\<close>

record bclient =
  bc_first :: "io_event list"
  bc_takes :: "byte list list \<Rightarrow> bool"
  bc_next :: "byte list list \<Rightarrow> io_event list"

definition readn_fd :: "nat \<Rightarrow> io_event list \<Rightarrow> bool \<times> byte list \<times> io_event list" where
  "readn_fd n evs = conv_readn n [] evs"

text \<open>A whole message of the client, if it has an acceptable length.\<close>

definition bridge_get :: "io_event list \<Rightarrow> (byte list \<times> io_event list) option" where
  "bridge_get evs =
     (case readn_fd 4 evs of
        (False, _, _) \<Rightarrow> None
      | (True, hdr, evs1) \<Rightarrow>
          (let sz = unat (ng32 hdr) in
           if sz < 7 \<or> 600 < sz then None
           else case readn_fd (sz - 4) evs1 of
             (False, _, _) \<Rightarrow> None
           | (True, b, evs2) \<Rightarrow> Some (hdr @ b, evs2)))"

text \<open>
  One client, for at most \<open>fuel\<close> messages: the replies written to it, \<open>None\<close> for a copy out of bounds.
  It ends with the connection, a bad length, a request without reply, or a reply not taken.
\<close>

fun bridge_client ::
    "nat \<Rightarrow> 's mesh_ops \<Rightarrow> bclient \<Rightarrow> io_event list \<Rightarrow> byte list list \<Rightarrow> 's \<Rightarrow> byte list list option \<times> 's" where
  "bridge_client 0 M C evs out s = (Some out, s)"
| "bridge_client (Suc fuel) M C evs out s =
     (case bridge_get evs of
        None \<Rightarrow> (Some out, s)
      | Some (msg, evs1) \<Rightarrow>
     (case bridge_attempts M msg 4 s of
        (None, s1) \<Rightarrow> (None, s1)
      | (Some None, s1) \<Rightarrow> (Some out, s1)
      | (Some (Some r), s1) \<Rightarrow>
          (let out1 = out @ [r] in
           if \<not> bc_takes C out1 then (Some out1, s1)
           else bridge_client fuel M C (evs1 @ bc_next C out1) out1 s1)))"

text \<open>The clients one after the other, until \<open>accept\<close> fails; each with the fuel it needs.\<close>

fun bridge_clients ::
    "'s mesh_ops \<Rightarrow> (nat \<times> bclient) list \<Rightarrow> 's \<Rightarrow> byte list list list option \<times> 's" where
  "bridge_clients M [] s = (Some [], s)"
| "bridge_clients M ((fuel, C) # Cs) s =
     (case bridge_client fuel M C (bc_first C) [] s of
        (None, s1) \<Rightarrow> (None, s1)
      | (Some out, s1) \<Rightarrow>
     (case bridge_clients M Cs s1 of
        (None, s2) \<Rightarrow> (None, s2)
      | (Some outs, s2) \<Rightarrow> (Some (out # outs), s2)))"

text \<open>
  The conversation of the bridge and of the probe: the data file is opened before the command is
  written, and no fid is given back when a step fails.
\<close>

definition conv_tunnel :: "port \<Rightarrow> byte list \<Rightarrow> flink \<Rightarrow> int outcome \<times> flink" where
  "conv_tunnel E peer L =
     (case conv_setup E L of
        (False, L1) \<Rightarrow> (Some None, L1)
      | (True, L1) \<Rightarrow>
     (case clone_number E True 1 599 L1 of
        (None, L2) \<Rightarrow> (None, L2)
      | (Some None, L2) \<Rightarrow> (Some None, L2)
      | (Some (Some n), L2) \<Rightarrow>
     (case walk_open E 2 (conv_file n ''data'') 2 L2 of
        (False, L3) \<Rightarrow> (Some None, L3)
      | (True, L3) \<Rightarrow>
     (case connect_to peer of
        None \<Rightarrow> (None, L3)
      | Some c \<Rightarrow>
     (case conv_do_write E 1 c L3 of
        (None, L4) \<Rightarrow> (None, L4)
      | (Some w, L4) \<Rightarrow> (Some (if w < 0 then None else Some n), L4))))))"

definition do_bridge ::
    "port \<Rightarrow> bool \<Rightarrow> byte list \<Rightarrow> (nat \<times> bclient) list \<Rightarrow> flink \<Rightarrow> byte list list list outcome \<times> flink" where
  "do_bridge E listens peer Cs L =
     (case conv_tunnel E peer L of
        (None, L1) \<Rightarrow> (None, L1)
      | (Some None, L1) \<Rightarrow> (Some None, L1)
      | (Some (Some n), L1) \<Rightarrow>
     (if \<not> listens then (Some None, L1)
      else case bridge_clients (conv_mesh E) Cs L1 of
        (None, L2) \<Rightarrow> (None, L2)
      | (Some outs, L2) \<Rightarrow> (Some (Some outs), conv_leave E L2)))"

subsection \<open>The probe\<close>

text \<open>The first datagram within \<open>n\<close> reads.\<close>

fun probe_polls :: "'s mesh_ops \<Rightarrow> nat \<Rightarrow> 's \<Rightarrow> byte list outcome \<times> 's" where
  "probe_polls M 0 s = (Some None, s)"
| "probe_polls M (Suc n) s =
     (case mo_read M 600 s of
        (None, s1) \<Rightarrow> (None, s1)
      | (Some None, s1) \<Rightarrow> probe_polls M n s1
      | (Some (Some d), s1) \<Rightarrow> if d = [] then probe_polls M n s1 else (Some (Some d), s1))"

definition inner_send_recv :: "'s mesh_ops \<Rightarrow> byte list \<Rightarrow> nat \<Rightarrow> 's \<Rightarrow> byte list outcome \<times> 's" where
  "inner_send_recv M t polls s =
     (case mo_write M t s of
        (None, s1) \<Rightarrow> (None, s1)
      | (Some w, s1) \<Rightarrow> if w < 0 then (Some None, s1) else probe_polls M polls s1)"

definition t_frame :: "byte list \<Rightarrow> byte list" where
  "t_frame body = np32 (of_nat (4 + length body)) @ body"

text \<open>The messages that open the peer's address file, with the types of the replies wanted.\<close>

definition probe_opening :: "(byte list \<times> byte) list" where
  "probe_opening =
     [(t_frame ([100] @ np16 0xffff @ np32 480 @ np16 6 @ ascii ''9P2000''), 101),
      (t_frame ([104] @ np16 1 @ np32 0 @ np32 0xffffffff @ np16 1 @ ascii ''p'' @ np16 0), 105),
      (t_frame ([110] @ np16 2 @ np32 0 @ np32 1 @ np16 3 @ np16 3 @ ascii ''dev'' @ np16 6 @ ascii ''aether''
         @ np16 4 @ ascii ''addr''), 111),
      (t_frame ([112] @ np16 3 @ np32 1 @ [0]), 113)]"

text \<open>
  The array \<open>rb\<close> keeps the bytes of earlier datagrams behind a shorter one, and the type and the
  tag are read from it.
\<close>

fun probe_open :: "'s mesh_ops \<Rightarrow> (byte list \<times> byte) list \<Rightarrow> byte list \<Rightarrow> 's \<Rightarrow> byte list outcome \<times> 's" where
  "probe_open M [] rb s = (Some (Some rb), s)"
| "probe_open M ((t, want) # ts) rb s =
     (case inner_send_recv M t 40 s of
        (None, s1) \<Rightarrow> (None, s1)
      | (Some None, s1) \<Rightarrow> (Some None, s1)
      | (Some (Some d), s1) \<Rightarrow>
          (let rb1 = overlay d rb in
           if rb1 ! 4 \<noteq> want then (Some None, s1) else probe_open M ts rb1 s1))"

record tally =
  ta_clean :: nat
  ta_loss :: nat
  ta_mism :: nat

definition probe_read :: "nat \<Rightarrow> byte list" where
  "probe_read i = t_frame ([116] @ np16 (of_nat (1000 + i)) @ np32 1 @ np32 0 @ np32 0 @ np32 200)"

fun probe_loop :: "'s mesh_ops \<Rightarrow> nat \<Rightarrow> nat \<Rightarrow> tally \<times> byte list \<Rightarrow> 's \<Rightarrow> (tally \<times> byte list) option \<times> 's" where
  "probe_loop M 0 i TB s = (Some TB, s)"
| "probe_loop M (Suc n) i TB s =
     (case inner_send_recv M (probe_read i) 60 s of
        (None, s1) \<Rightarrow> (None, s1)
      | (Some None, s1) \<Rightarrow> probe_loop M n (Suc i) ((fst TB)\<lparr>ta_loss := ta_loss (fst TB) + 1\<rparr>, snd TB) s1
      | (Some (Some d), s1) \<Rightarrow>
          (let rb1 = overlay d (snd TB);
               t = (if rb1 ! 4 = 117 \<and> ng16 (drop 5 rb1) = of_nat (1000 + i)
                    then (fst TB)\<lparr>ta_clean := ta_clean (fst TB) + 1\<rparr>
                    else (fst TB)\<lparr>ta_mism := ta_mism (fst TB) + 1\<rparr>)
           in probe_loop M n (Suc i) (t, rb1) s1))"

text \<open>The stale datagrams read away before, at most eight; they are left in the array.\<close>

fun probe_drain :: "'s mesh_ops \<Rightarrow> nat \<Rightarrow> byte list \<Rightarrow> 's \<Rightarrow> byte list option \<times> 's" where
  "probe_drain M 0 rb s = (Some rb, s)"
| "probe_drain M (Suc n) rb s =
     (case mo_read M 600 s of
        (None, s1) \<Rightarrow> (None, s1)
      | (Some None, s1) \<Rightarrow> (Some rb, s1)
      | (Some (Some d), s1) \<Rightarrow> if d = [] then (Some rb, s1) else probe_drain M n (overlay d rb) s1)"

definition do_probe :: "port \<Rightarrow> byte list \<Rightarrow> byte list \<Rightarrow> int \<Rightarrow> flink \<Rightarrow> tally outcome \<times> flink" where
  "do_probe E rb peer cnt L =
     (case conv_tunnel E peer L of
        (None, L1) \<Rightarrow> (None, L1)
      | (Some None, L1) \<Rightarrow> (Some None, L1)
      | (Some (Some n), L1) \<Rightarrow>
     (case probe_drain (conv_mesh E) 8 rb L1 of
        (None, L2) \<Rightarrow> (None, L2)
      | (Some rb2, L2) \<Rightarrow>
     (case probe_open (conv_mesh E) probe_opening rb2 L2 of
        (None, L3) \<Rightarrow> (None, L3)
      | (Some None, L3) \<Rightarrow> (Some None, L3)
      | (Some (Some rb3), L3) \<Rightarrow>
     (case probe_loop (conv_mesh E) (nat cnt) 0 (\<lparr>ta_clean = 0, ta_loss = 0, ta_mism = 0\<rparr>, rb3) L3 of
        (None, L4) \<Rightarrow> (None, L4)
      | (Some (t, _), L4) \<Rightarrow> (Some (Some t), conv_leave E L4)))))"

text \<open>The verdict: fit to be used without retries and without a comparison of tags.\<close>

definition raw_clean :: "tally \<Rightarrow> bool" where
  "raw_clean t \<longleftrightarrow> ta_loss t = 0 \<and> ta_mism t = 0"

end
