(* ===== verification/HostMain.thy ===== *)
theory HostMain
  imports HostBridge
begin

text \<open>
  The arguments of \<open>aether_conv\<close> and what \<open>main\<close> does with them, with the command that is run when no
  option is given. The words after the program's name are a list of C strings, the first the socket.
\<close>

datatype conv_cmd =
    CMeshOta "byte list" "byte list" int
  | CPut "byte list" "byte list" int
  | CBridge "byte list" "byte list"
  | CProbe "byte list" int
  | CHold
  | CRecv int
  | CBrecv int
  | CBstatus
  | CBsend "byte list"
  | CBsendn int "byte list"
  | CCrecv "byte list"
  | CIso "byte list" "byte list"
  | CSendn "byte list" int int
  | CSendbig "byte list" int int int
  | CAsend "byte list" "byte list"
  | CConcurrent
  | CDefault "byte list option" "byte list"

text \<open>The command asked for; \<open>None\<close> when words are missing.\<close>

definition conv_args :: "byte list list \<Rightarrow> conv_cmd option" where
  "conv_args args =
     (let n = length args;
          num = (\<lambda>k d. if k < n then atoi (args ! k) else d);
          opt = (\<lambda>o'. 1 < n \<and> args ! 1 = ascii o') in
      if n < 1 then None
      else if opt ''--mesh-ota'' then (if n < 4 then None else Some (CMeshOta (args ! 2) (args ! 3) (num 4 1024)))
      else if opt ''--put'' then (if n < 4 then None else Some (CPut (args ! 2) (args ! 3) (num 4 1024)))
      else if opt ''--bridge'' then (if n < 4 then None else Some (CBridge (args ! 2) (args ! 3)))
      else if opt ''--probe'' then (if n < 3 then None else Some (CProbe (args ! 2) (num 3 100)))
      else if opt ''--hold'' then Some CHold
      else if opt ''--recv'' then Some (CRecv (num 2 1))
      else if opt ''--brecv'' then Some (CBrecv (num 2 1))
      else if opt ''--bstatus'' then Some CBstatus
      else if opt ''--bsend'' then (if n < 3 then None else Some (CBsend (args ! 2)))
      else if opt ''--bsendn'' then (if n < 4 then None else Some (CBsendn (atoi (args ! 2)) (args ! 3)))
      else if opt ''--crecv'' then (if n < 3 then None else Some (CCrecv (args ! 2)))
      else if opt ''--iso'' then (if n < 4 then None else Some (CIso (args ! 2) (args ! 3)))
      else if opt ''--sendn'' then
        (if n < 4 then None else Some (CSendn (args ! 2) (atoi (args ! 3)) (num 4 1500)))
      else if opt ''--sendbig'' then
        (if n < 4 then None else Some (CSendbig (args ! 2) (atoi (args ! 3)) (num 4 1) (num 5 1500)))
      else if opt ''--asend'' then (if n < 4 then None else Some (CAsend (args ! 2) (args ! 3)))
      else if opt ''--concurrent'' then Some CConcurrent
      else Some (CDefault (if 1 < n then Some (args ! 1) else None)
             (if 2 < n then args ! 2 else ascii ''hello from aether_conv'')))"

subsection \<open>The command without option\<close>

text \<open>The status file on a fid of its own; nothing is printed when it cannot be read.\<close>

definition status_on :: "port \<Rightarrow> u32 \<Rightarrow> flink \<Rightarrow> byte list outcome \<times> flink" where
  "status_on E fid L =
     (case walk_open E fid (ascii ''net/aether/status'') 0 L of
        (False, L1) \<Rightarrow> (Some None, L1)
      | (True, L1) \<Rightarrow>
     (case conv_do_read E fid 0 255 L1 of
        (None, L2) \<Rightarrow> (None, L2)
      | (Some r, L2) \<Rightarrow>
          (Some (case r of None \<Rightarrow> None | Some d \<Rightarrow> if d = [] then None else Some (cstr d)), conv_do_clunk E fid L2)))"

record default_out =
  df_conv :: int
  df_held :: "byte list option" \<comment> \<open>the status while the conversation is held\<close>
  df_ctl :: "int option" \<comment> \<open>what the control write returned, if there is a peer\<close>
  df_sent :: "int option"
  df_after :: "byte list option"

definition default_send :: "port \<Rightarrow> byte list option \<Rightarrow> byte list \<Rightarrow> flink \<Rightarrow> (int option \<times> int option) option \<times> flink" where
  "default_send E peer msg L =
     (case peer of
        None \<Rightarrow> (Some (None, None), L)
      | Some p \<Rightarrow>
     (case connect_to p of
        None \<Rightarrow> (None, L)
      | Some c \<Rightarrow>
     (case conv_do_write E 1 c L of
        (None, L1) \<Rightarrow> (None, L1)
      | (Some w1, L1) \<Rightarrow>
     (case conv_do_write E 2 msg L1 of
        (None, L2) \<Rightarrow> (None, L2)
      | (Some w2, L2) \<Rightarrow> (Some (Some w1, Some w2), L2)))))"

definition do_default :: "port \<Rightarrow> byte list option \<Rightarrow> byte list \<Rightarrow> flink \<Rightarrow> default_out outcome \<times> flink" where
  "do_default E peer msg L =
     (case conv_setup E L of
        (False, L1) \<Rightarrow> (Some None, L1)
      | (True, L1) \<Rightarrow>
     (case clone_number E True 1 255 L1 of
        (None, L2) \<Rightarrow> (None, L2)
      | (Some None, L2) \<Rightarrow> (Some None, L2)
      | (Some (Some n), L2) \<Rightarrow>
     (case walk_open E 2 (conv_file n ''data'') 2 L2 of
        (False, L3) \<Rightarrow> (Some None, L3)
      | (True, L3) \<Rightarrow>
     (case status_on E 3 L3 of
        (None, L4) \<Rightarrow> (None, L4)
      | (Some held, L4) \<Rightarrow>
     (case default_send E peer msg L4 of
        (None, L5) \<Rightarrow> (None, L5)
      | (Some (c, w), L5) \<Rightarrow>
     (case status_on E 4 (conv_do_clunk E 1 (conv_do_clunk E 2 L5)) of
        (None, L6) \<Rightarrow> (None, L6)
      | (Some after, L6) \<Rightarrow>
          (Some (Some \<lparr>df_conv = n, df_held = held, df_ctl = c, df_sent = w, df_after = after\<rparr>),
           conv_do_clunk E 0 L6)))))))"

subsection \<open>The program\<close>

text \<open>What the program finds around it.\<close>

record host_env =
  hv_connects :: bool \<comment> \<open>the socket can be connected\<close>
  hv_stop :: "nat \<Rightarrow> bool" \<comment> \<open>\<open>g_stop\<close>\<close>
  hv_file :: "byte list \<Rightarrow> byte list option"
  hv_passes :: nat \<comment> \<open>\<open>MESH_OTA_PASSES\<close>, 12 if unset\<close>
  hv_listens :: bool
  hv_clients :: "(nat \<times> bclient) list"
  hv_array :: "byte list" \<comment> \<open>what is in an array before anything is copied there\<close>
  hv_elapsed :: int

definition exit_of :: "'a outcome \<times> flink \<Rightarrow> nat option \<times> flink" where
  "exit_of r = (case fst r of None \<Rightarrow> None | Some None \<Rightarrow> Some 1 | Some (Some _) \<Rightarrow> Some 0, snd r)"

text \<open>The exit status, \<open>None\<close> for a copy out of bounds.\<close>

definition conv_run :: "port \<Rightarrow> host_env \<Rightarrow> conv_cmd \<Rightarrow> flink \<Rightarrow> nat option \<times> flink" where
  "conv_run E V c L =
     (case c of
        CMeshOta eui file chunk \<Rightarrow>
          (case hv_file V file of
             None \<Rightarrow> (Some 1, L)
           | Some f \<Rightarrow> (case do_mesh_ota E eui f chunk (hv_passes V) L of (ok, L1) \<Rightarrow> (Some (if ok then 0 else 1), L1)))
      | CPut path file chunk \<Rightarrow>
          (case hv_file V file of
             None \<Rightarrow> (Some 1, L)
           | Some f \<Rightarrow> (case do_put E path f chunk L of (r, L1) \<Rightarrow> (Some (if r = None then 1 else 0), L1)))
      | CBridge peer lpath \<Rightarrow> exit_of (do_bridge E (hv_listens V) peer (hv_clients V) L)
      | CProbe peer cnt \<Rightarrow> exit_of (do_probe E (hv_array V) peer cnt L)
      | CHold \<Rightarrow> exit_of (do_hold E L)
      | CRecv cnt \<Rightarrow> exit_of (do_recv E (hv_stop V) cnt L)
      | CBrecv cnt \<Rightarrow> exit_of (do_brecv E (hv_stop V) cnt L)
      | CBstatus \<Rightarrow> exit_of (do_bstatus E L)
      | CBsend msg \<Rightarrow> exit_of (do_bsend E msg L)
      | CBsendn cnt msg \<Rightarrow> exit_of (do_bsendn E cnt msg L)
      | CCrecv peer \<Rightarrow> exit_of (do_crecv E peer L)
      | CIso real fake \<Rightarrow>
          (case do_iso_recv E (hv_array V) real fake L of (r, L1) \<Rightarrow> (map_option (\<lambda>_. 1) r, L1))
      | CSendn peer cnt gap \<Rightarrow> exit_of (do_sendn E (hv_stop V) peer cnt L)
      | CSendbig peer nbytes cnt gap \<Rightarrow> exit_of (do_sendbig E (hv_stop V) peer nbytes cnt L)
      | CAsend dst msg \<Rightarrow> exit_of (do_asend E dst msg L)
      | CConcurrent \<Rightarrow> exit_of (demo_concurrent E (hv_array V) (hv_elapsed V) L)
      | CDefault peer msg \<Rightarrow> exit_of (do_default E peer msg L))"

definition conv_main :: "port \<Rightarrow> host_env \<Rightarrow> byte list list \<Rightarrow> flink \<Rightarrow> nat option \<times> flink" where
  "conv_main E V args L =
     (if args = [] then (Some 2, L)
      else if \<not> hv_connects V then (Some 1, L)
      else case conv_args args of None \<Rightarrow> (Some 2, L) | Some c \<Rightarrow> conv_run E V c L)"

end
