(* ===== verification/HostTest.thy ===== *)
theory HostTest
  imports HostMain "HOL-Library.State_Monad"
begin

text \<open>
  The conformance test \<open>aether_test.c\<close>: a client that drives the conversations of one node and checks
  what it sees. The script is written over the operations it uses, in the state monad, so that it
  can be run against the line, which is what the program does, and against the model of the node. A
  check is its outcome; the texts printed beside it are left out. The requests are those of
  \<open>aether_conv.c\<close>, byte for byte.
\<close>

subsection \<open>Operations\<close>

text \<open>A read gives the bytes or fails; \<open>to_wake\<close> is the blocked read that a hang-up must wake.\<close>

record 's test_ops =
  to_walk :: "u32 \<Rightarrow> byte list \<Rightarrow> ('s, bool) state"
  to_open :: "u32 \<Rightarrow> byte \<Rightarrow> ('s, bool) state"
  to_read :: "u32 \<Rightarrow> nat \<Rightarrow> ('s, byte list option) state"
  to_write :: "u32 \<Rightarrow> byte list \<Rightarrow> ('s, int) state"
  to_clunk :: "u32 \<Rightarrow> ('s, unit) state"
  to_wake :: "('s, bool \<times> bool) state"

definition read_path :: "'s test_ops \<Rightarrow> u32 \<Rightarrow> byte list \<Rightarrow> nat \<Rightarrow> ('s, byte list option) state" where
  "read_path T fid path cap = do {
     w \<leftarrow> to_walk T fid path;
     if \<not> w then State_Monad.return None
     else do {
       opened \<leftarrow> to_open T fid 0;
       if \<not> opened then do { _ \<leftarrow> to_clunk T fid; State_Monad.return None }
       else do {
         r \<leftarrow> to_read T fid (cap - 1);
         _ \<leftarrow> to_clunk T fid;
         State_Monad.return r
       }
     }
   }"

text \<open>A new conversation, its control file held as \<open>ctl\<close>: its number, or -1.\<close>

definition sclone :: "'s test_ops \<Rightarrow> u32 \<Rightarrow> ('s, int) state" where
  "sclone T ctl = do {
     w \<leftarrow> to_walk T ctl clone_path;
     if \<not> w then State_Monad.return (-1)
     else do {
       opened \<leftarrow> to_open T ctl 2;
       if \<not> opened then State_Monad.return (-1)
       else do {
         r \<leftarrow> to_read T ctl 31;
         State_Monad.return (case r of None \<Rightarrow> -1 | Some b \<Rightarrow> atoi (cstr b))
       }
     }
   }"

text \<open>A text that is there and passes a test.\<close>

definition text_ok :: "byte list option \<Rightarrow> (byte list \<Rightarrow> bool) \<Rightarrow> bool" where
  "text_ok r p = (case r of None \<Rightarrow> False | Some d \<Rightarrow> d \<noteq> [] \<and> p (cstr d))"

definition contains :: "string \<Rightarrow> byte list \<Rightarrow> bool" where
  "contains s t = (strstr t (ascii s) \<noteq> None)"

definition oneline :: "byte list \<Rightarrow> byte list" where
  "oneline t = takeWhile (\<lambda>c. c \<noteq> nl) t"

subsection \<open>The script\<close>

text \<open>The top-level files; the largest number of conversations is taken from the status.\<close>

definition test_top :: "'s test_ops \<Rightarrow> ('s, bool list \<times> int) state" where
  "test_top T = do {
     a \<leftarrow> read_path T 30 (ascii ''net/aether/addr'') 256;
     s \<leftarrow> read_path T 30 (ascii ''net/aether/status'') 256;
     State_Monad.return ([text_ok a (\<lambda>t. colon \<in> set t), text_ok s (\<lambda>t. 47 \<in> set t)],
       case s of None \<Rightarrow> 0
       | Some d \<Rightarrow> if d = [] then 0
           else case split_at 47 (oneline (cstr d)) of None \<Rightarrow> 0 | Some (_, r) \<Rightarrow> atoi r)
   }"

text \<open>A fresh conversation and its files.\<close>

definition test_fresh :: "'s test_ops \<Rightarrow> ('s, bool list \<times> int) state" where
  "test_fresh T = do {
     A \<leftarrow> sclone T 10;
     s \<leftarrow> read_path T 30 (ascii ''net/aether/status'') 256;
     cs \<leftarrow> read_path T 31 (conv_file A ''status'') 256;
     l \<leftarrow> read_path T 31 (conv_file A ''local'') 256;
     r \<leftarrow> read_path T 31 (conv_file A ''remote'') 256;
     State_Monad.return ([0 \<le> A, text_ok s (\<lambda>t. t \<noteq> [] \<and> hd t \<noteq> 48), text_ok cs (contains ''unconnected''),
       text_ok l (\<lambda>t. colon \<in> set t), r = Some []], A)
   }"

text \<open>Commands refused; then one accepted, what the files show after it, and a second one refused.\<close>

definition test_connect :: "'s test_ops \<Rightarrow> int \<Rightarrow> ('s, bool list) state" where
  "test_connect T A = do {
     w1 \<leftarrow> to_write T 10 (ascii ''connect zz:zz:zz'');
     w2 \<leftarrow> to_write T 10 (ascii ''frobnicate'');
     w3 \<leftarrow> to_write T 10 (ascii ''connect 00:00:00:00:00:99'');
     cs \<leftarrow> read_path T 31 (conv_file A ''status'') 256;
     r \<leftarrow> read_path T 31 (conv_file A ''remote'') 256;
     w4 \<leftarrow> to_write T 10 (ascii ''connect 00:00:00:00:00:98'');
     State_Monad.return [w1 < 0, w2 < 0, 0 \<le> w3, text_ok cs (contains ''connected''),
       text_ok r (contains ''00:00:00:00:00:99''), w4 < 0]
   }"

definition open_data :: "'s test_ops \<Rightarrow> u32 \<Rightarrow> int \<Rightarrow> ('s, bool) state" where
  "open_data T fid n = do {
     w \<leftarrow> to_walk T fid (conv_file n ''data'');
     if \<not> w then State_Monad.return False else to_open T fid 2
   }"

text \<open>Writes of data that must be refused, and the announced mode of a second conversation.\<close>

definition test_data :: "'s test_ops \<Rightarrow> int \<Rightarrow> ('s, bool list \<times> int) state" where
  "test_data T A = do {
     _ \<leftarrow> open_data T 20 A;
     w1 \<leftarrow> to_write T 20 (replicate 600 120);
     B \<leftarrow> sclone T 11;
     _ \<leftarrow> open_data T 21 B;
     w2 \<leftarrow> to_write T 21 (ascii ''hi'');
     w3 \<leftarrow> to_write T 11 (ascii ''announce'');
     s \<leftarrow> read_path T 31 (conv_file B ''status'') 256;
     w4 \<leftarrow> to_write T 11 (ascii ''connect 00:00:00:00:00:97'');
     State_Monad.return ([w1 < 0, 0 \<le> B, w2 < 0, 0 \<le> w3, text_ok s (contains ''announced''), w4 < 0], B)
   }"

text \<open>Conversations until none is left, on fids from \<open>cf\<close> on, at most eight of them.\<close>

fun test_fill :: "'s test_ops \<Rightarrow> int \<Rightarrow> nat \<Rightarrow> int \<Rightarrow> u32 \<Rightarrow> ('s, int \<times> u32) state" where
  "test_fill T max_conns 0 held cf = State_Monad.return (held, cf)"
| "test_fill T max_conns (Suc k) held cf =
     (if held < max_conns
      then do {
        n \<leftarrow> sclone T cf;
        if n < 0 then State_Monad.return (held, cf) else test_fill T max_conns k (held + 1) (cf + 1)
      }
      else State_Monad.return (held, cf))"

fun clunk_all :: "'s test_ops \<Rightarrow> u32 list \<Rightarrow> ('s, unit) state" where
  "clunk_all T [] = State_Monad.return ()"
| "clunk_all T (f # fs) = do { _ \<leftarrow> to_clunk T f; clunk_all T fs }"

definition test_full :: "'s test_ops \<Rightarrow> int \<Rightarrow> ('s, bool list) state" where
  "test_full T max_conns = do {
     (held, cf) \<leftarrow> test_fill T max_conns 8 2 12;
     _ \<leftarrow> read_path T 31 (ascii ''net/aether/status'') 256;
     over \<leftarrow> sclone T cf;
     _ \<leftarrow> to_clunk T 20;
     _ \<leftarrow> to_clunk T 21;
     _ \<leftarrow> clunk_all T (map of_nat [10..<unat cf]);
     s \<leftarrow> read_path T 31 (ascii ''net/aether/status'') 256;
     _ \<leftarrow> to_clunk T 0;
     State_Monad.return [held = max_conns, over < 0, text_ok s (\<lambda>t. t \<noteq> [] \<and> hd t = 48)]
   }"

text \<open>All checks, in the order of the program.\<close>

definition test_script :: "'s test_ops \<Rightarrow> ('s, bool list) state" where
  "test_script T = do {
     (c1, max_conns) \<leftarrow> test_top T;
     (c2, A) \<leftarrow> test_fresh T;
     c3 \<leftarrow> test_connect T A;
     (c4, B) \<leftarrow> test_data T A;
     (ack, eof) \<leftarrow> to_wake T;
     c6 \<leftarrow> test_full T max_conns;
     State_Monad.return (c1 @ c2 @ c3 @ c4 @ [ack \<and> eof] @ c6)
   }"

text \<open>The isolation probe: it only reports, so the outcomes are a list.\<close>

definition iso_probe :: "'s test_ops \<Rightarrow> ('s, int \<times> bool list \<times> int) state" where
  "iso_probe T = do {
     A \<leftarrow> sclone T 10;
     t1 \<leftarrow> open_data T 20 A;
     t2 \<leftarrow> read_path T 31 (conv_file A ''status'') 256;
     t3 \<leftarrow> to_walk T 22 (conv_file A ''data'');
     _ \<leftarrow> read_path T 32 (conv_file A ''local'') 256;
     _ \<leftarrow> read_path T 33 (conv_file A ''remote'') 256;
     t4 \<leftarrow> to_walk T 23 (conv_file A ''data'');
     B \<leftarrow> sclone T 11;
     _ \<leftarrow> to_clunk T 0;
     State_Monad.return (A, [t1, t2 \<noteq> None, t3, t4], B)
   }"

subsection \<open>On the line\<close>

text \<open>A request as an operation; the state is \<open>None\<close> after a copy out of bounds.\<close>

definition on_line :: "'a \<Rightarrow> ('s \<Rightarrow> 'a option \<times> 's) \<Rightarrow> ('s option, 'a) state" where
  "on_line d f = State (\<lambda>s. case s of
     None \<Rightarrow> (d, None)
   | Some L \<Rightarrow> (case f L of (None, L1) \<Rightarrow> (d, None) | (Some x, L1) \<Rightarrow> (x, Some L1)))"

definition b_write :: "u16 \<Rightarrow> u32 \<Rightarrow> byte list \<Rightarrow> byte list" where
  "b_write tag fid d = [118] @ np16 tag @ np32 fid @ np32 0 @ np32 0 @ np32 (of_nat (length d)) @ d"

text \<open>Two replies in either order, each into a fresh array of 128 bytes: the hang-up's, and an empty read.\<close>

fun wake_replies :: "nat \<Rightarrow> byte list \<Rightarrow> bool \<times> bool \<Rightarrow> flink \<Rightarrow> (bool \<times> bool) option \<times> flink" where
  "wake_replies 0 rb g L = (Some g, L)"
| "wake_replies (Suc k) rb g L =
     (case recv_one 128 rb L of
        (None, L1) \<Rightarrow> (None, L1)
      | (Some (None, _), L1) \<Rightarrow> wake_replies k rb g L1
      | (Some (Some (ty, tag), b), L1) \<Rightarrow>
          wake_replies k rb (fst g \<or> tag = 1 \<and> ty = 119, snd g \<or> tag = 40 \<and> ty = 117 \<and> ng32 (drop 3 b) = 0) L1)"

definition line_ops :: "port \<Rightarrow> byte list \<Rightarrow> flink option test_ops" where
  "line_ops E rb =
     \<lparr>to_walk = (\<lambda>fid path. on_line False (\<lambda>L. case conv_do_walk E 0 fid path L of (w, L1) \<Rightarrow> (Some w, L1))),
      to_open = (\<lambda>fid mode. on_line False (\<lambda>L. case conv_do_open E fid mode L of (r, L1) \<Rightarrow> (Some r, L1))),
      to_read = (\<lambda>fid cap. on_line None (conv_do_read E fid 0 cap)),
      to_write = (\<lambda>fid d. on_line 0 (conv_do_write E fid d)),
      to_clunk = (\<lambda>fid. on_line () (\<lambda>L. (Some (), conv_do_clunk E fid L))),
      to_wake = on_line (False, False) (\<lambda>L.
        wake_replies 2 rb (False, False) (snd (send_only E (b_write 1 11 (ascii ''hangup'')) (snd (send_only E (b_read 40 21 64) L)))))\<rparr>"

text \<open>The exit status and the checks, given the words after the program's name.\<close>

definition test_main :: "port \<Rightarrow> byte list \<Rightarrow> bool \<Rightarrow> byte list list \<Rightarrow> flink \<Rightarrow> (nat \<times> bool list) option" where
  "test_main E rb connects args L =
     (if args = [] then Some (2, [])
      else if \<not> connects then Some (1, [])
      else case conv_setup E L of
        (False, L1) \<Rightarrow> Some (1, [])
      | (True, L1) \<Rightarrow>
          if 1 < length args \<and> args ! 1 = ascii ''--iso''
          then map_option (\<lambda>_. (0, [])) (snd (run_state (iso_probe (line_ops E rb)) (Some L1)))
          else (case run_state (test_script (line_ops E rb)) (Some L1) of
              (cs, None) \<Rightarrow> None
            | (cs, Some _) \<Rightarrow> Some (if list_all id cs then 0 else 1, cs)))"

end
