(* ===== verification/TestRun.thy ===== *)
theory TestRun
  imports HostTest NetSpec
begin

text \<open>
  The servers the test script is run against here. One is the node: the conversation layer behind an
  ideal 9P server, for which a fid names a node of the tree. The other is a table of what the script
  may expect. A contract between two servers (a locale) carries every run of the script from the
  table to the node.
\<close>

subsection \<open>The node behind a server\<close>

type_synonym fids = "u32 \<Rightarrow> nid option"

fun walk_names :: "'q env \<Rightarrow> nid option \<Rightarrow> byte list list \<Rightarrow> 'q net \<Rightarrow> nid option \<times> 'q net" where
  "walk_names E p [] N = (p, N)"
| "walk_names E p (n # ns) N = (case anet_walk E p n N of (q, N1) \<Rightarrow> walk_names E q ns N1)"

text \<open>The names below \<open>/net/aether\<close>.\<close>

definition aether_names :: "byte list \<Rightarrow> byte list list option" where
  "aether_names path =
     (case slash_parts [] path of
        a # b # ns \<Rightarrow> if a = ascii ''net'' \<and> b = ascii ''aether'' then Some ns else None
      | _ \<Rightarrow> None)"

definition node_walk :: "'q env \<Rightarrow> u32 \<Rightarrow> byte list \<Rightarrow> 'q net \<times> fids \<Rightarrow> bool \<times> 'q net \<times> fids" where
  "node_walk E fid path s =
     (case aether_names path of
        None \<Rightarrow> (False, s)
      | Some ns \<Rightarrow>
          (case walk_names E (Some NRoot) ns (fst s) of
             (None, N1) \<Rightarrow> (False, N1, snd s)
           | (Some n, N1) \<Rightarrow> (True, N1, (snd s)(fid \<mapsto> n))))"

definition node_read :: "'q env \<Rightarrow> u32 \<Rightarrow> nat \<Rightarrow> 'q net \<times> fids \<Rightarrow> byte list option \<times> 'q net \<times> fids" where
  "node_read E fid cap s =
     (case snd s fid of
        None \<Rightarrow> (None, s)
      | Some n \<Rightarrow>
          (case anet_read E n 0 cap (fst s) of
             (Returns (Inr d), N1) \<Rightarrow> (Some d, N1, snd s)
           | (_, N1) \<Rightarrow> (None, N1, snd s)))"

definition node_write :: "'q env \<Rightarrow> u32 \<Rightarrow> byte list \<Rightarrow> 'q net \<times> fids \<Rightarrow> int \<times> 'q net \<times> fids" where
  "node_write E fid d s =
     (case snd s fid of
        None \<Rightarrow> (-1, s)
      | Some n \<Rightarrow>
          (case anet_write E n d (fst s) of
             (Inl e, N1) \<Rightarrow> (-1, N1, snd s)
           | (Inr k, N1) \<Rightarrow> (int k, N1, snd s)))"

definition node_clunk :: "'q env \<Rightarrow> u32 \<Rightarrow> 'q net \<times> fids \<Rightarrow> unit \<times> 'q net \<times> fids" where
  "node_clunk E fid s =
     ((), (case snd s fid of None \<Rightarrow> fst s | Some n \<Rightarrow> anet_clunk E n (fst s)), (snd s)(fid := None))"

text \<open>The read of fid 21 must block, and return nothing once fid 11 has taken the hang-up.\<close>

definition node_wake :: "'q env \<Rightarrow> 'q net \<times> fids \<Rightarrow> (bool \<times> bool) \<times> 'q net \<times> fids" where
  "node_wake E s =
     (case snd s 21 of
        None \<Rightarrow> ((False, False), s)
      | Some n \<Rightarrow>
          (case anet_read E n 0 64 (fst s) of
             (Returns r, N1) \<Rightarrow> ((False, False), N1, snd s)
           | (Blocks, N1) \<Rightarrow>
               (case node_write E 11 (ascii ''hangup'') (N1, snd s) of
                  (w, N2, F) \<Rightarrow>
                    (case anet_read E n 0 64 N2 of (r, N3) \<Rightarrow> ((0 \<le> w, r = Returns (Inr [])), N3, F)))))"

definition node_ops :: "'q env \<Rightarrow> ('q net \<times> fids) test_ops" where
  "node_ops E =
     \<lparr>to_walk = (\<lambda>fid path. State (node_walk E fid path)),
      to_open = (\<lambda>fid mode. State (\<lambda>s. (snd s fid \<noteq> None, s))),
      to_read = (\<lambda>fid cap. State (node_read E fid cap)),
      to_write = (\<lambda>fid d. State (node_write E fid d)),
      to_clunk = (\<lambda>fid. State (node_clunk E fid)),
      to_wake = State (node_wake E)\<rparr>"

subsection \<open>The table\<close>

text \<open>
  Four slots, each free or with its binding, the calls made to the mesh, and the fids. It has no tree
  and no queues. \<open>None\<close> stands for a request of which it promises nothing.
\<close>

record table =
  tb_slots :: "binding option list"
  tb_calls :: "mesh_call list"
  tb_fids :: fids

text \<open>What the node is told: its address, after the calls made so far, and its largest message.\<close>

record table_env =
  te_me :: "mesh_call list \<Rightarrow> addr6"
  te_max :: nat

definition tb_free :: "table \<Rightarrow> nat option" where
  "tb_free T = List.find (\<lambda>i. tb_slots T ! i = None) [0..<AETHER_MAX_CONNS]"

definition tb_slot :: "byte list \<Rightarrow> table \<Rightarrow> nat option" where
  "tb_slot name T = List.find (\<lambda>i. name = dec_nat i \<and> tb_slots T ! i \<noteq> None) [0..<AETHER_MAX_CONNS]"

definition slot_nid :: "byte list \<Rightarrow> nat \<Rightarrow> nid option" where
  "slot_nid name i =
     (if name = ascii ''status'' then Some (NStatus i)
      else if name = ascii ''local'' then Some (NLocal i)
      else if name = ascii ''remote'' then Some (NRemote i)
      else if name = ascii ''data'' then Some (NData i)
      else None)"

definition tb_bind :: "u32 \<Rightarrow> nid \<Rightarrow> table \<Rightarrow> table" where
  "tb_bind fid n T = T\<lparr>tb_fids := (tb_fids T)(fid \<mapsto> n)\<rparr>"

definition tb_set :: "nat \<Rightarrow> binding option \<Rightarrow> table \<Rightarrow> table" where
  "tb_set i b T = T\<lparr>tb_slots := (tb_slots T)[i := b]\<rparr>"

definition tb_walk :: "u32 \<Rightarrow> byte list \<Rightarrow> table \<Rightarrow> bool option \<times> table" where
  "tb_walk fid path T =
     (case aether_names path of
        Some [f] \<Rightarrow>
          (if f = ascii ''clone'' then
             (case tb_free T of
                None \<Rightarrow> (Some False, T)
              | Some i \<Rightarrow> (Some True, tb_bind fid (NCtl i) (tb_set i (Some Idle) T)))
           else if f = ascii ''status'' then (Some True, tb_bind fid NTopstatus T)
           else if f = ascii ''addr'' then (Some True, tb_bind fid NAddr T)
           else (None, T))
      | Some [d, f] \<Rightarrow>
          (case tb_slot d T of
             None \<Rightarrow> (None, T)
           | Some i \<Rightarrow>
               (case slot_nid f i of None \<Rightarrow> (None, T) | Some n \<Rightarrow> (Some True, tb_bind fid n T)))
      | _ \<Rightarrow> (None, T))"

definition tb_binding :: "table \<Rightarrow> nat \<Rightarrow> binding option" where
  "tb_binding T i = (if i < AETHER_MAX_CONNS then tb_slots T ! i else None)"

definition binding_text :: "binding \<Rightarrow> byte list" where
  "binding_text b =
     (case b of
        Idle \<Rightarrow> ascii ''unconnected'' @ [nl]
      | Bound a \<Rightarrow> ascii ''connected aether!'' @ fmt_addr a @ ascii '' reliable'' @ [nl]
      | Listening \<Rightarrow> ascii ''announced'' @ [nl]
      | Party \<Rightarrow> ascii ''broadcast best-effort'' @ [nl])"

definition tb_text :: "table_env \<Rightarrow> nid \<Rightarrow> table \<Rightarrow> byte list option" where
  "tb_text P n T =
     (let me = fmt_addr (te_me P (tb_calls T)) @ [nl] in
      case n of
        NTopstatus \<Rightarrow> Some (dec_nat (length (filter (\<lambda>b. b \<noteq> None) (tb_slots T))) @ [47] @ dec_nat AETHER_MAX_CONNS @ [nl])
      | NAddr \<Rightarrow> Some me
      | NCtl i \<Rightarrow> map_option (\<lambda>_. dec_nat i @ [nl]) (tb_binding T i)
      | NLocal i \<Rightarrow> map_option (\<lambda>_. me) (tb_binding T i)
      | NRemote i \<Rightarrow> map_option (\<lambda>b. case b of Bound a \<Rightarrow> fmt_addr a @ [nl] | _ \<Rightarrow> []) (tb_binding T i)
      | NStatus i \<Rightarrow> map_option binding_text (tb_binding T i)
      | _ \<Rightarrow> None)"

definition tb_read :: "table_env \<Rightarrow> u32 \<Rightarrow> nat \<Rightarrow> table \<Rightarrow> byte list option option \<times> table" where
  "tb_read P fid cap T =
     (case tb_fids T fid of
        None \<Rightarrow> (None, T)
      | Some n \<Rightarrow> (map_option (\<lambda>s. Some (take cap s)) (tb_text P n T), T))"

text \<open>The commands of a control file, the hang-up apart, and writes of data that must fail.\<close>

definition tb_ctl :: "nat \<Rightarrow> binding \<Rightarrow> byte list \<Rightarrow> table \<Rightarrow> int option \<times> table" where
  "tb_ctl i b d T =
     (let cmd = ctl_command d in
      if is_prefix (ascii ''connect '') cmd
      then (case parse_addr (drop 8 cmd) of
          Inl _ \<Rightarrow> (Some (-1), T)
        | Inr a \<Rightarrow>
            if b \<noteq> Idle then (Some (-1), T)
            else (Some (int (length d)), tb_set i (Some (if a = addr_bcast then Party else Bound a)) T))
      else if cmd = ascii ''announce''
      then (if b \<noteq> Idle then (Some (-1), T) else (Some (int (length d)), tb_set i (Some Listening) T))
      else if cmd = ascii ''hangup'' then (None, T)
      else (Some (-1), T))"

definition tb_write :: "table_env \<Rightarrow> u32 \<Rightarrow> byte list \<Rightarrow> table \<Rightarrow> int option \<times> table" where
  "tb_write P fid d T =
     (case tb_fids T fid of
        Some (NCtl i) \<Rightarrow> (case tb_binding T i of None \<Rightarrow> (None, T) | Some b \<Rightarrow> tb_ctl i b d T)
      | Some (NData i) \<Rightarrow>
          (case tb_binding T i of
             Some Idle \<Rightarrow> (Some (-1), T)
           | Some (Bound a) \<Rightarrow>
               if te_max P < length d then (Some (-1), T\<lparr>tb_calls := tb_calls T @ [CResolve a]\<rparr>) else (None, T)
           | _ \<Rightarrow> (None, T))
      | _ \<Rightarrow> (None, T))"

definition tb_clunk :: "u32 \<Rightarrow> table \<Rightarrow> unit option \<times> table" where
  "tb_clunk fid T =
     (let T1 = T\<lparr>tb_fids := (tb_fids T)(fid := None)\<rparr> in
      case tb_fids T fid of
        Some (NCtl i) \<Rightarrow> (map_option (\<lambda>_. ()) (tb_binding T i), tb_set i None T1)
      | Some (NStatus i) \<Rightarrow> (map_option (\<lambda>_. ()) (tb_binding T i), T1)
      | Some (NLocal i) \<Rightarrow> (map_option (\<lambda>_. ()) (tb_binding T i), T1)
      | Some (NRemote i) \<Rightarrow> (map_option (\<lambda>_. ()) (tb_binding T i), T1)
      | Some (NData i) \<Rightarrow> (map_option (\<lambda>_. ()) (tb_binding T i), T1)
      | Some NTopstatus \<Rightarrow> (Some (), T1)
      | Some NAddr \<Rightarrow> (Some (), T1)
      | Some NRoot \<Rightarrow> (Some (), T1)
      | _ \<Rightarrow> (None, T))"

definition tb_wake :: "table \<Rightarrow> (bool \<times> bool) option \<times> table" where
  "tb_wake T =
     (case (tb_fids T 21, tb_fids T 11) of
        (Some (NData i), Some (NCtl j)) \<Rightarrow>
          (if i = j then map_option (\<lambda>_. (True, True)) (tb_binding T i) else None, tb_set i (Some Idle) T)
      | _ \<Rightarrow> (None, T))"

definition table_ops :: "table_env \<Rightarrow> table option test_ops" where
  "table_ops P =
     \<lparr>to_walk = (\<lambda>fid path. on_line False (tb_walk fid path)),
      to_open = (\<lambda>fid mode. on_line False (\<lambda>T. (if tb_fids T fid = None then None else Some True, T))),
      to_read = (\<lambda>fid cap. on_line None (tb_read P fid cap)),
      to_write = (\<lambda>fid d. on_line 0 (tb_write P fid d)),
      to_clunk = (\<lambda>fid. on_line () (tb_clunk fid)),
      to_wake = on_line (False, False) tb_wake\<rparr>"

subsection \<open>Carrying a run over\<close>

text \<open>
  \<open>follows R m1 m2\<close>: when \<open>m2\<close> ends in a state, \<open>m1\<close> gives the same answer in a related one.
\<close>

definition follows :: "('s \<Rightarrow> 't \<Rightarrow> bool) \<Rightarrow> ('s, 'a) state \<Rightarrow> ('t option, 'a) state \<Rightarrow> bool" where
  "follows R m1 m2 \<longleftrightarrow> snd (run_state m2 None) = None \<and>
     (\<forall>s t a t1. R s t \<and> run_state m2 (Some t) = (a, Some t1) \<longrightarrow> (\<exists>s1. run_state m1 s = (a, s1) \<and> R s1 t1))"

named_theorems run_follows

lemma follows_return [run_follows]: "follows R (State_Monad.return a) (State_Monad.return a)"
  by (simp add: follows_def)

lemma follows_bind [run_follows]:
  assumes m: "follows R m1 m2" and k: "\<And>a. follows R (k1 a) (k2 a)"
  shows "follows R (State_Monad.bind m1 k1) (State_Monad.bind m2 k2)"
  unfolding follows_def
proof (intro conjI allI impI)
  have "snd (run_state m2 None) = None" using m by (simp add: follows_def)
  then show "snd (run_state (State_Monad.bind m2 k2) None) = None"
    using k by (cases "run_state m2 None") (simp add: follows_def)
next
  fix s t b t2
  assume a: "R s t \<and> run_state (State_Monad.bind m2 k2) (Some t) = (b, Some t2)"
  obtain x t1 where x: "run_state m2 (Some t) = (x, t1)" by fastforce
  then have kx: "run_state (k2 x) t1 = (b, Some t2)" using a by simp
  moreover have "snd (run_state (k2 x) None) = None" using k [of x] by (simp add: follows_def)
  ultimately obtain t' where t': "t1 = Some t'" by (cases t1) auto
  then obtain s1 where s1: "run_state m1 s = (x, s1)" "R s1 t'" using m x a unfolding follows_def by blast
  then show "\<exists>s2. run_state (State_Monad.bind m1 k1) s = (b, s2) \<and> R s2 t2"
    using k [of x] kx t' unfolding follows_def by fastforce
qed

lemma follows_if [run_follows]:
  "follows R m1 m2 \<Longrightarrow> follows R n1 n2 \<Longrightarrow> follows R (if c then m1 else n1) (if c then m2 else n2)"
  by simp

lemma follows_pair [run_follows]:
  "(\<And>a b. follows R (k1 a b) (k2 a b)) \<Longrightarrow> follows R (case p of (a, b) \<Rightarrow> k1 a b) (case p of (a, b) \<Rightarrow> k2 a b)"
  by (cases p) simp

lemma follows_on_line:
  assumes "\<And>s t a t1. R s t \<Longrightarrow> f t = (Some a, t1) \<Longrightarrow> fst (g s) = a \<and> R (snd (g s)) t1"
  shows "follows R (State g) (on_line d f)"
  unfolding follows_def
proof (intro conjI allI impI)
  show "snd (run_state (on_line d f) None) = None" by (simp add: on_line_def)
next
  fix s t a t1
  assume r: "R s t \<and> run_state (on_line d f) (Some t) = (a, Some t1)"
  then have "f t = (Some a, t1)" by (auto simp: on_line_def split: prod.splits option.splits)
  from assms [OF conjunct1 [OF r] this] show "\<exists>s1. run_state (State g) s = (a, s1) \<and> R s1 t1"
    by (cases "g s") auto
qed

text \<open>A server that follows another on every request follows it on the whole script.\<close>

locale same_runs =
  fixes R :: "'s \<Rightarrow> 't \<Rightarrow> bool" and T1 :: "'s test_ops" and T2 :: "'t option test_ops"
  assumes walk [run_follows]: "follows R (to_walk T1 fid path) (to_walk T2 fid path)"
    and opens [run_follows]: "follows R (to_open T1 fid mode) (to_open T2 fid mode)"
    and read [run_follows]: "follows R (to_read T1 fid cap) (to_read T2 fid cap)"
    and writes [run_follows]: "follows R (to_write T1 fid d) (to_write T2 fid d)"
    and clunk [run_follows]: "follows R (to_clunk T1 fid) (to_clunk T2 fid)"
    and wake [run_follows]: "follows R (to_wake T1) (to_wake T2)"
begin

lemma path_runs [run_follows]: "follows R (read_path T1 fid path cap) (read_path T2 fid path cap)"
  unfolding read_path_def by (intro run_follows)

lemma clone_runs [run_follows]: "follows R (sclone T1 ctl) (sclone T2 ctl)"
  unfolding sclone_def by (intro run_follows)

lemma open_runs [run_follows]: "follows R (open_data T1 fid n) (open_data T2 fid n)"
  unfolding open_data_def by (intro run_follows)

lemma fill_runs [run_follows]: "follows R (test_fill T1 mx k held cf) (test_fill T2 mx k held cf)"
proof (induction k arbitrary: held cf)
  case (Suc k)
  show ?case unfolding test_fill.simps by (intro run_follows Suc.IH)
qed (simp add: run_follows)

lemma clunks_run [run_follows]: "follows R (clunk_all T1 fs) (clunk_all T2 fs)"
  by (induction fs) (simp_all add: run_follows)

lemma script_runs: "follows R (test_script T1) (test_script T2)"
  unfolding test_script_def test_top_def test_fresh_def test_connect_def test_data_def test_full_def
  by (intro run_follows)

lemma probe_runs: "follows R (iso_probe T1) (iso_probe T2)"
  unfolding iso_probe_def by (intro run_follows)

end

end
