(* ===== verification/NodeTest.thy ===== *)
theory NodeTest
  imports TestRun
begin

text \<open>
  The node passes the conformance test: the table passes it, by evaluation, and the node behind a
  server follows the table on every request.
\<close>

subsection \<open>What the table shows of the node\<close>

definition slot_view :: "'q conv \<Rightarrow> binding option" where
  "slot_view c = (if cv_in_use c then Some (binding_of c) else None)"

definition identity_of :: "'q env \<Rightarrow> addr6 \<Rightarrow> mesh_call list \<Rightarrow> addr6" where
  "identity_of E my tr = (case e_node_eui E tr of Some a \<Rightarrow> a | None \<Rightarrow> my)"

text \<open>Nothing arrives from the mesh while the test runs, so no conversation has anything queued.\<close>

definition node_shows ::
    "'q env \<Rightarrow> ('q \<Rightarrow> dgram list) \<Rightarrow> ('q \<Rightarrow> nat) \<Rightarrow> table_env \<Rightarrow> 'q net \<times> fids \<Rightarrow> table \<Rightarrow> bool" where
  "node_shows E cts cap P s T \<longleftrightarrow>
     msgq_ok E cts cap \<and> 8 \<le> e_name_cap E \<and> te_max P = e_max_msg E \<and>
     net_wf E cts cap (fst s) \<and> tb_slots T = map slot_view (n_convs (fst s)) \<and>
     tb_calls T = n_trace (fst s) \<and> tb_fids T = snd s \<and>
     (\<forall>i < AETHER_MAX_CONNS. cv_in_use (conv_of (fst s) i) \<longrightarrow> cts (cv_rxq (conv_of (fst s) i)) = []) \<and>
     te_me P = identity_of E (n_myaddr (fst s))"

lemma showsD:
  assumes "node_shows E cts cap P s T"
  shows "msgq_ok E cts cap" "8 \<le> e_name_cap E" "te_max P = e_max_msg E" "net_wf E cts cap (fst s)"
    "tb_slots T = map slot_view (n_convs (fst s))" "tb_calls T = n_trace (fst s)" "tb_fids T = snd s"
    "length (n_convs (fst s)) = AETHER_MAX_CONNS" "my_identity E (fst s) = te_me P (tb_calls T)"
  using assms net_wf_length [of E cts cap "fst s"] by (auto simp: node_shows_def my_identity_def identity_of_def)

lemma shows_slot:
  assumes "node_shows E cts cap P s T" and "tb_binding T i = Some b"
  shows "i < AETHER_MAX_CONNS" "cv_in_use (conv_of (fst s) i)" "binding_of (conv_of (fst s) i) = b"
    "cts (cv_rxq (conv_of (fst s) i)) = []" "slot_built E (n_nodes (fst s)) i" "i < length (n_convs (fst s))"
    "cv_slot (conv_of (fst s) i) = i"
proof -
  note d = showsD [OF assms(1)]
  show i: "i < AETHER_MAX_CONNS" using assms(2) by (simp add: tb_binding_def split: if_splits)
  then have "slot_view (conv_of (fst s) i) = Some b" using assms(2) d(5,8) by (simp add: tb_binding_def)
  then show u: "cv_in_use (conv_of (fst s) i)" and "binding_of (conv_of (fst s) i) = b"
    by (simp_all add: slot_view_def split: if_splits)
  then show "cts (cv_rxq (conv_of (fst s) i)) = []" using assms(1) i by (simp add: node_shows_def)
  show "slot_built E (n_nodes (fst s)) i" "i < length (n_convs (fst s))" "cv_slot (conv_of (fst s) i) = i"
    using slot_in_use [OF d(4) i u] by simp_all
qed

text \<open>Operations that leave the conversations as they are, and those that change one of them.\<close>

lemma shows_same:
  assumes "node_shows E cts cap P s T" and "net_wf E cts cap N" and "n_convs N = n_convs (fst s)"
    and "n_myaddr N = n_myaddr (fst s)"
  shows "node_shows E cts cap P (N, F) (T\<lparr>tb_calls := n_trace N, tb_fids := F\<rparr>)"
  using assms by (simp add: node_shows_def)

lemma shows_upd:
  assumes "node_shows E cts cap P s T" and "net_wf E cts cap N" and "i < AETHER_MAX_CONNS"
    and "n_convs N = (n_convs (fst s))[i := c]" and "cv_in_use c \<Longrightarrow> cts (cv_rxq c) = []"
    and "n_trace N = n_trace (fst s)" and "n_myaddr N = n_myaddr (fst s)" and "b = slot_view c"
  shows "node_shows E cts cap P (N, F) (tb_set i b T\<lparr>tb_fids := F\<rparr>)"
  using assms showsD(8) [OF assms(1)]
  by (auto simp: node_shows_def tb_set_def map_update nth_list_update)

subsection \<open>Walks\<close>

lemma find_child_append: "find_child nodes (a @ b) name =
    (case find_child nodes a name of None \<Rightarrow> find_child nodes b name | Some n \<Rightarrow> Some n)"
  by (induction a) auto

lemma digit_name: "i < 10 \<Longrightarrow> 2 \<le> k \<Longrightarrow> take k (snprintf_out 8 (dec_nat i)) = dec_nat i"
  by (simp add: dec_nat_digit snprintf_out_def)

lemma less_4: "i < (4 :: nat) \<longleftrightarrow> i = 0 \<or> i = 1 \<or> i = 2 \<or> i = 3"
  by linarith

lemma dec_nat_eq: "i < AETHER_MAX_CONNS \<Longrightarrow> j < AETHER_MAX_CONNS \<Longrightarrow> dec_nat i = dec_nat j \<longleftrightarrow> i = j"
  by (auto simp: less_4 dec_nat_digit)

lemma short_name: "8 \<le> cap \<Longrightarrow> length s \<le> 7 \<Longrightarrow> take (cap - 1) s = s"
  by simp

lemma find_dir:
  assumes "\<forall>j \<in> set ds. j < AETHER_MAX_CONNS \<and> nd_name (nodes (NDir j)) = dec_nat j"
  shows "i \<in> set ds \<Longrightarrow> find_child nodes (map NDir ds @ ns) (dec_nat i) = Some (NDir i)"
    "\<forall>j < AETHER_MAX_CONNS. name \<noteq> dec_nat j \<Longrightarrow> find_child nodes (map NDir ds @ ns) name = find_child nodes ns name"
  using assms by (induction ds) (auto simp: dec_nat_eq)

lemma root_children:
  assumes "node_shows E cts cap P s T"
  shows "\<exists>ds. n_nodes (fst s) NRoot = root_dir E (map NDir ds @ static_nodes) \<and> set ds = slots_in_use (fst s) \<and>
    (\<forall>j \<in> set ds. j < AETHER_MAX_CONNS \<and> nd_name (n_nodes (fst s) (NDir j)) = dec_nat j)"
proof -
  note d = showsD [OF assms]
  obtain ds where ds: "n_nodes (fst s) NRoot = root_dir E (map NDir ds @ static_nodes)" "set ds = slots_in_use (fst s)"
    using d(4) by (auto simp: net_wf_def tree_wf_def)
  have "nd_name (n_nodes (fst s) (NDir j)) = dec_nat j" if j: "j < AETHER_MAX_CONNS" "cv_in_use (conv_of (fst s) j)" for j
    using slot_in_use(1) [OF d(4) j] d(2) j(1) by (auto simp: slot_built_def slot_dir_def digit_name)
  then show ?thesis using ds by (auto simp: slots_in_use_def)
qed

lemma static_names:
  assumes "statics_built E nodes" and "8 \<le> e_name_cap E"
  shows "find_child nodes static_nodes (ascii ''status'') = Some NTopstatus"
    "find_child nodes static_nodes (ascii ''addr'') = Some NAddr"
  using assms by (simp_all add: statics_built_def static_nodes_def static_file_def short_name ascii_def)

lemma slot_names:
  assumes "slot_built E nodes i" and "8 \<le> e_name_cap E" and "slot_nid f i = Some n"
  shows "find_child nodes [NStatus i, NRemote i, NLocal i, NData i, NCtl i] f = Some n"
  using assms by (auto simp: slot_built_def slot_nid_def slot_file_def short_name ascii_def split: if_splits)

lemma not_digit:
  "length f \<noteq> 1 \<Longrightarrow> \<forall>j < AETHER_MAX_CONNS. f \<noteq> dec_nat j"
  by (auto simp: dec_nat_digit)

lemma walk_root:
  assumes "node_shows E cts cap P s T" and "f \<noteq> ascii ''clone''"
  shows "anet_walk E (Some NRoot) f (fst s) = (find_child (n_nodes (fst s)) (nd_children (n_nodes (fst s) NRoot)) f, fst s)"
  using root_children [OF assms(1)] assms(2) by (auto simp: anet_walk_def root_dir_def node_zero_def)

lemma walk_static:
  assumes "node_shows E cts cap P s T"
  shows "anet_walk E (Some NRoot) (ascii ''status'') (fst s) = (Some NTopstatus, fst s)"
    "anet_walk E (Some NRoot) (ascii ''addr'') (fst s) = (Some NAddr, fst s)"
proof -
  note d = showsD [OF assms]
  obtain ds where ds: "n_nodes (fst s) NRoot = root_dir E (map NDir ds @ static_nodes)"
    "\<forall>j \<in> set ds. j < AETHER_MAX_CONNS \<and> nd_name (n_nodes (fst s) (NDir j)) = dec_nat j"
    using root_children [OF assms] by blast
  have st: "statics_built E (n_nodes (fst s))" using d(4) by (simp add: net_wf_def tree_wf_def)
  have "find_child (n_nodes (fst s)) (nd_children (n_nodes (fst s) NRoot)) f = find_child (n_nodes (fst s)) static_nodes f"
    if "length f \<noteq> 1" for f
    using find_dir(2) [OF ds(2) not_digit [OF that]] by (simp add: ds(1) root_dir_def)
  then show "anet_walk E (Some NRoot) (ascii ''status'') (fst s) = (Some NTopstatus, fst s)"
    "anet_walk E (Some NRoot) (ascii ''addr'') (fst s) = (Some NAddr, fst s)"
    using static_names [OF st d(2)] by (simp_all add: walk_root [OF assms] ascii_def)
qed

lemma walk_slot:
  assumes sh: "node_shows E cts cap P s T" and i: "tb_slot d T = Some i" and n: "slot_nid f i = Some n"
  shows "walk_names E (Some NRoot) [d, f] (fst s) = (Some n, fst s)"
proof -
  note d = showsD [OF sh]
  have i: "i < AETHER_MAX_CONNS" "d = dec_nat i" "tb_slots T ! i \<noteq> None"
    using i by (auto simp: tb_slot_def find_upt simp del: upt_rec_numeral)
  then obtain b where "tb_binding T i = Some b" by (auto simp: tb_binding_def)
  note sl = shows_slot [OF sh this]
  obtain ds where ds: "n_nodes (fst s) NRoot = root_dir E (map NDir ds @ static_nodes)" "set ds = slots_in_use (fst s)"
    "\<forall>j \<in> set ds. j < AETHER_MAX_CONNS \<and> nd_name (n_nodes (fst s) (NDir j)) = dec_nat j"
    using root_children [OF sh] by blast
  have "i \<in> set ds" using ds(2) sl by (simp add: slots_in_use_def)
  then have "find_child (n_nodes (fst s)) (nd_children (n_nodes (fst s) NRoot)) d = Some (NDir i)"
    using find_dir(1) [OF ds(3)] by (simp add: ds(1) root_dir_def i(2))
  then have "anet_walk E (Some NRoot) d (fst s) = (Some (NDir i), fst s)"
    using i(1) by (subst walk_root [OF sh]) (simp_all add: i(2) dec_nat_digit ascii_def)
  moreover have "anet_walk E (Some (NDir i)) f (fst s) = (Some n, fst s)"
    using slot_names [OF sl(5) d(2) n] sl(5)
    by (auto simp: anet_walk_def slot_built_def slot_dir_def node_zero_def)
  ultimately show ?thesis by simp
qed

subsection \<open>The requests\<close>

lemma take_slot_frame: "n_trace (conv_take_slot E i N) = n_trace N" "n_myaddr (conv_take_slot E i N) = n_myaddr N"
  by (simp_all add: conv_take_slot_def conv_build_nodes_eq Let_def upd_conv_def)

lemma conv_free_frame: "n_trace (conv_free E i N) = n_trace N" "n_myaddr (conv_free E i N) = n_myaddr N"
  by (simp_all add: conv_free_def unlink_child_def upd_conv_def upd_node_def)

lemma upd_conv_frame: "n_trace (upd_conv i f N) = n_trace N" "n_myaddr (upd_conv i f N) = n_myaddr N"
    "n_convs (upd_conv i f N) = (n_convs N)[i := f (conv_of N i)]"
  by (simp_all add: upd_conv_def)

lemma shows_bind:
  "node_shows E cts cap P s T \<Longrightarrow> node_shows E cts cap P (fst s, (snd s)(fid := n)) (T\<lparr>tb_fids := (tb_fids T)(fid := n)\<rparr>)"
  by (simp add: node_shows_def)

lemma tb_free_least: "node_shows E cts cap P s T \<Longrightarrow> tb_free T = least_free (fst s)"
  unfolding tb_free_def least_free_def
  by (rule find_cong) (auto simp: showsD slot_view_def simp del: upt_rec_numeral)

lemma shows_clone:
  assumes sh: "node_shows E cts cap P s T" and i: "least_free (fst s) = Some i"
  shows "node_shows E cts cap P (conv_take_slot E i (fst s), (snd s)(fid \<mapsto> NCtl i)) (tb_bind fid (NCtl i) (tb_set i (Some Idle) T))"
proof -
  note d = showsD [OF sh]
  have i: "i < AETHER_MAX_CONNS" "\<not> cv_in_use (conv_of (fst s) i)" using i by (simp_all add: least_free_Some)
  have "node_shows E cts cap P (conv_take_slot E i (fst s), (snd s)(fid \<mapsto> NCtl i))
      (tb_set i (Some Idle) T\<lparr>tb_fids := (snd s)(fid \<mapsto> NCtl i)\<rparr>)"
    using msgq_init [OF d(1)]
    by (intro shows_upd [OF sh net_wf_take_slot [OF d(1,4) i] i(1) conv_take_slot_convs])
      (simp_all add: take_slot_frame slot_view_def binding_of_def)
  then show ?thesis by (simp add: tb_bind_def tb_set_def d(7))
qed

lemma walk_follows: "follows (node_shows E cts cap P) (State (node_walk E fid path)) (on_line False (tb_walk fid path))"
proof (rule follows_on_line)
  fix s T a T'
  assume sh: "node_shows E cts cap P s T" and t: "tb_walk fid path T = (Some a, T')"
  note d = showsD [OF sh]
  obtain ns where ns: "aether_names path = Some ns" using t by (auto simp: tb_walk_def split: option.splits)
  have top: "fst (node_walk E fid path s) = True \<and> node_shows E cts cap P (snd (node_walk E fid path s)) (tb_bind fid n T)"
    if "walk_names E (Some NRoot) ns (fst s) = (Some n, fst s)" for n
    using shows_bind [OF sh, of fid "Some n"] that by (simp add: node_walk_def ns tb_bind_def)
  consider f where "ns = [f]" | x f where "ns = [x, f]"
    using t ns by (auto simp: tb_walk_def split: list.splits)
  then show "fst (node_walk E fid path s) = a \<and> node_shows E cts cap P (snd (node_walk E fid path s)) T'"
  proof cases
    case (1 f)
    show ?thesis
    proof (cases "f = ascii ''clone''")
      case True
      show ?thesis
        using t sh shows_clone [OF sh] walk_clone [OF d(4)] tb_free_least [OF sh]
        by (auto simp: tb_walk_def ns 1 True node_walk_def split: option.splits)
    next
      case False
      then show ?thesis
        using t walk_static [OF sh] top by (auto simp: tb_walk_def ns 1 split: if_splits)
    qed
  next
    case (2 x f)
    then obtain i n where "tb_slot x T = Some i" "slot_nid f i = Some n" "a = True" "T' = tb_bind fid n T"
      using t by (auto simp: tb_walk_def ns split: option.splits)
    then show ?thesis using walk_slot [OF sh] top 2 by simp
  qed
qed

lemma open_follows: "follows (node_shows E cts cap P) (State (\<lambda>s. (snd s fid \<noteq> None, s)))
    (on_line False (\<lambda>T. (if tb_fids T fid = None then None else Some True, T)))"
  by (rule follows_on_line) (auto simp: showsD split: if_splits)

lemma active_slots: "active_convs N = length (filter (\<lambda>b. b \<noteq> None) (map slot_view (n_convs N)))"
  by (simp add: active_convs_def filter_map comp_def slot_view_def)

lemma tb_text_read:
  assumes sh: "node_shows E cts cap P s T" and t: "tb_text P n T = Some tx"
  shows "anet_read E n 0 k (fst s) = (Returns (Inr (take k tx)), fst s)"
proof -
  note d = showsD [OF sh]
  have st: "statics_built E (n_nodes (fst s))" using d(4) by (simp add: net_wf_def tree_wf_def)
  have "node_text E n (fst s) = Some tx"
  proof (cases "\<exists>i. n \<in> {NCtl i, NLocal i, NRemote i, NStatus i}")
    case True
    then obtain i where i: "n \<in> {NCtl i, NLocal i, NRemote i, NStatus i}" by blast
    then obtain b where b: "tb_binding T i = Some b" using t by (auto simp: tb_text_def Let_def)
    note sl = shows_slot [OF sh b]
    show ?thesis
      using t i b sl(3,7) d(9)
      by (auto simp: tb_text_def node_text_def slot_nodes [OF sl(5)] file_text_def binding_of_def binding_text_def Let_def
          split: conv_state.splits)
  next
    case False
    then show ?thesis
      using t st d(9) d(5)
      by (cases n) (auto simp: tb_text_def node_text_def statics_built_def static_file_def node_zero_def file_text_def
          active_slots ascii_def Let_def)
  qed
  from read_node_text [OF this, of 0 k] show ?thesis by (simp add: segment_def)
qed

lemma read_follows: "follows (node_shows E cts cap P) (State (node_read E fid k)) (on_line None (tb_read P fid k))"
proof (rule follows_on_line)
  fix s T a T'
  assume sh: "node_shows E cts cap P s T" and t: "tb_read P fid k T = (Some a, T')"
  obtain n where n: "tb_fids T fid = Some n" using t by (cases "tb_fids T fid") (simp_all add: tb_read_def)
  obtain tx where tx: "tb_text P n T = Some tx" using t n by (cases "tb_text P n T") (simp_all add: tb_read_def)
  have a: "a = Some (take k tx)" "T' = T" using t n tx by (simp_all add: tb_read_def)
  show "fst (node_read E fid k s) = a \<and> node_shows E cts cap P (snd (node_read E fid k s)) T'"
    using sh tb_text_read [OF sh tx] showsD(7) [OF sh] n a by (simp add: node_read_def)
qed

lemma shows_set:
  assumes sh: "node_shows E cts cap P s T" and b: "tb_binding T i = Some b" and w: "net_wf E cts cap (upd_conv i f (fst s))"
    and q: "cts (cv_rxq (f (conv_of (fst s) i))) = []" and b': "b' = slot_view (f (conv_of (fst s) i))"
  shows "node_shows E cts cap P (upd_conv i f (fst s), snd s) (tb_set i b' T)"
proof -
  have "node_shows E cts cap P (upd_conv i f (fst s), snd s) (tb_set i b' T\<lparr>tb_fids := snd s\<rparr>)"
    using shows_slot [OF sh b] q b' by (intro shows_upd [OF sh w]) (simp_all add: upd_conv_frame)
  then show ?thesis by (simp add: tb_set_def flip: showsD(7) [OF sh])
qed

lemma ctl_follows:
  assumes sh: "node_shows E cts cap P s T" and fid: "snd s fid = Some (NCtl i)" and b: "tb_binding T i = Some b"
    and t: "tb_ctl i b d T = (Some a, T')"
  shows "fst (node_write E fid d s) = a \<and> node_shows E cts cap P (snd (node_write E fid d s)) T'"
proof -
  note sl = shows_slot [OF sh b]
  have wf: "net_wf E cts cap (snd (anet_write E (NCtl i) d (fst s)))"
    by (rule net_wf_write [OF showsD(1,4) [OF sh]])
  have idle: "b = Idle \<longleftrightarrow> cv_state (conv_of (fst s) i) = CONV_UNCONNECTED"
    by (simp add: binding_of_def split: conv_state.splits flip: sl(3))
  have set: "node_shows E cts cap P (upd_conv i f (fst s), snd s) (tb_set i b' T)"
    if "anet_write E (NCtl i) d (fst s) = (r, upd_conv i f (fst s))" "cv_rxq (f (conv_of (fst s) i)) = cv_rxq (conv_of (fst s) i)"
      "b' = slot_view (f (conv_of (fst s) i))" for f b' r
    using that sl(4) wf by (intro shows_set [OF sh b]) simp_all
  show ?thesis
    using t idle sl(2) sh
    by (auto simp: tb_ctl_def node_write_def fid write_NCtl [OF sl(5)] ctl_exec_def Let_def slot_view_def binding_of_def
        split: if_splits sum.splits intro!: set)
qed

lemma data_follows:
  assumes sh: "node_shows E cts cap P s T" and fid: "tb_fids T fid = Some (NData i)"
    and t: "tb_write P fid d T = (Some a, T')"
  shows "fst (node_write E fid d s) = a \<and> node_shows E cts cap P (snd (node_write E fid d s)) T'"
proof -
  note d = showsD [OF sh]
  obtain b where b: "tb_binding T i = Some b"
    using t fid by (cases "tb_binding T i") (simp_all add: tb_write_def)
  note sl = shows_slot [OF sh b]
  have n: "anet_write E (NData i) d (fst s) = write_data E (Some i) d (fst s)" by (rule write_NData [OF sl(5)])
  consider "b = Idle" "a = -1" "T' = T" |
    p where "b = Bound p" "e_max_msg E < length d" "a = -1" "T' = T\<lparr>tb_calls := tb_calls T @ [CResolve p]\<rparr>"
    using t fid b d(3) by (cases b) (auto simp: tb_write_def split: if_splits)
  then show ?thesis
  proof cases
    case 1
    then have "cv_state (conv_of (fst s) i) = CONV_UNCONNECTED"
      using sl(3) by (auto simp: binding_of_def split: conv_state.splits)
    then show ?thesis using 1 sh fid d(7) by (simp add: node_write_def n write_data_def)
  next
    case (2 p)
    then have c: "cv_state (conv_of (fst s) i) = CONV_CONNECTED" "cv_peer (conv_of (fst s) i) = p"
      using sl(3) by (auto simp: binding_of_def split: conv_state.splits)
    have w: "anet_write E (NData i) d (fst s) = (Inl EMSGSIZE, log_call (CResolve p) (fst s))"
      using 2(2) c by (simp add: n write_data_def send_unicast_def resolve_dst_def eui_to_addr_def split: option.splits)
    have "net_wf E cts cap (log_call (CResolve p) (fst s))"
      using net_wf_write [OF d(1,4), of "NData i" d] w by simp
    from shows_same [OF sh this, of "snd s"] have
      "node_shows E cts cap P (log_call (CResolve p) (fst s), snd s) (T\<lparr>tb_calls := n_trace (fst s) @ [CResolve p], tb_fids := snd s\<rparr>)"
      by (simp add: log_call_def)
    moreover have "T\<lparr>tb_calls := n_trace (fst s) @ [CResolve p], tb_fids := snd s\<rparr> = T'"
      using 2(4) d(6,7) by (cases T) simp
    ultimately have "node_shows E cts cap P (log_call (CResolve p) (fst s), snd s) T'" by simp
    then show ?thesis using w fid d(7) 2(3) by (simp add: node_write_def)
  qed
qed

lemma write_follows: "follows (node_shows E cts cap P) (State (node_write E fid d)) (on_line 0 (tb_write P fid d))"
proof (rule follows_on_line)
  fix s T a T'
  assume sh: "node_shows E cts cap P s T" and t: "tb_write P fid d T = (Some a, T')"
  consider i b where "tb_fids T fid = Some (NCtl i)" "tb_binding T i = Some b" "tb_ctl i b d T = (Some a, T')"
    | i where "tb_fids T fid = Some (NData i)"
    using t by (auto simp: tb_write_def split: option.splits nid.splits)
  then show "fst (node_write E fid d s) = a \<and> node_shows E cts cap P (snd (node_write E fid d s)) T'"
    using ctl_follows [OF sh] data_follows [OF sh _ t] showsD(7) [OF sh] by cases simp_all
qed

lemma clunk_ctl_follows:
  assumes sh: "node_shows E cts cap P s T" and b: "tb_binding T i = Some b"
  shows "node_shows E cts cap P (anet_clunk E (NCtl i) (fst s), (snd s)(fid := None)) (tb_set i None (T\<lparr>tb_fids := (tb_fids T)(fid := None)\<rparr>))"
proof -
  note d = showsD [OF sh] and sl = shows_slot [OF sh b]
  have "node_shows E cts cap P (conv_free E i (fst s), (snd s)(fid := None)) (tb_set i None T\<lparr>tb_fids := (snd s)(fid := None)\<rparr>)"
    by (rule shows_upd [OF sh net_wf_free [OF d(1,4) sl(1)] sl(1) conv_free_convs [OF sl(2)]])
      (simp_all add: conv_free_frame slot_view_def)
  moreover have "tb_set i None T\<lparr>tb_fids := (snd s)(fid := None)\<rparr> = tb_set i None (T\<lparr>tb_fids := (tb_fids T)(fid := None)\<rparr>)"
    using d(7) by (cases T) (simp add: tb_set_def)
  ultimately show ?thesis by (simp add: clunk_NCtl [OF sl(5)])
qed

lemma clunk_other:
  assumes sh: "node_shows E cts cap P s T"
    and n: "n \<in> {NTopstatus, NAddr, NRoot} \<or> (\<exists>i b. tb_binding T i = Some b \<and> n \<in> {NStatus i, NLocal i, NRemote i, NData i})"
  shows "anet_clunk E n (fst s) = fst s"
proof -
  have t: "tree_wf E (fst s)" using showsD(4) [OF sh] by (simp add: net_wf_def)
  from n show ?thesis
  proof (elim disjE exE conjE)
    assume "n \<in> {NTopstatus, NAddr, NRoot}"
    then show ?thesis
      using t by (auto simp: anet_clunk_def tree_wf_def statics_built_def static_file_def root_dir_def node_zero_def)
  next
    fix i b
    assume b: "tb_binding T i = Some b" and n: "n \<in> {NStatus i, NLocal i, NRemote i, NData i}"
    show ?thesis using n by (auto simp: anet_clunk_def slot_nodes [OF shows_slot(5) [OF sh b]])
  qed
qed

lemma clunk_follows: "follows (node_shows E cts cap P) (State (node_clunk E fid)) (on_line () (tb_clunk fid))"
proof (rule follows_on_line)
  fix s T T' and a :: unit
  assume sh: "node_shows E cts cap P s T" and t: "tb_clunk fid T = (Some a, T')"
  obtain n where n: "tb_fids T fid = Some n" using t by (cases "tb_fids T fid") (simp_all add: tb_clunk_def Let_def)
  then have f: "snd s fid = Some n" using showsD(7) [OF sh] by simp
  have "node_shows E cts cap P (anet_clunk E n (fst s), (snd s)(fid := None)) T'"
  proof (cases "\<exists>i. n = NCtl i")
    case True
    then obtain i b where i: "n = NCtl i" "tb_binding T i = Some b"
      using t n by (auto simp: tb_clunk_def Let_def)
    then show ?thesis using clunk_ctl_follows [OF sh i(2), of fid] t n by (auto simp: tb_clunk_def Let_def)
  next
    case False
    then have "n \<in> {NTopstatus, NAddr, NRoot} \<or> (\<exists>i b. tb_binding T i = Some b \<and> n \<in> {NStatus i, NLocal i, NRemote i, NData i})"
      and "T' = T\<lparr>tb_fids := (tb_fids T)(fid := None)\<rparr>"
      using t n by (cases n; auto simp: tb_clunk_def Let_def)+
    then show ?thesis using clunk_other [OF sh] shows_bind [OF sh, of fid None] by simp
  qed
  then show "fst (node_clunk E fid s) = a \<and> node_shows E cts cap P (snd (node_clunk E fid s)) T'"
    by (simp add: node_clunk_def f)
qed

lemma wake_follows: "follows (node_shows E cts cap P) (State (node_wake E)) (on_line (False, False) tb_wake)"
proof (rule follows_on_line)
  fix s T a T'
  assume sh: "node_shows E cts cap P s T" and t: "tb_wake T = (Some a, T')"
  note d = showsD [OF sh]
  obtain i b where i: "tb_fids T 21 = Some (NData i)" "tb_fids T 11 = Some (NCtl i)" "tb_binding T i = Some b"
    and a: "a = (True, True)" "T' = tb_set i (Some Idle) T"
    using t by (auto simp: tb_wake_def split: option.splits nid.splits if_splits)
  note sl = shows_slot [OF sh i(3)]
  have blocked: "anet_read E (NData i) 0 64 (fst s) = (Blocks, fst s)"
    using msgq_get_None [OF d(1), THEN iffD2, OF sl(4)] by (simp add: read_NData [OF sl(5)] read_data_def)
  let ?f = "\<lambda>c. c\<lparr>cv_state := CONV_UNCONNECTED, cv_peer := addr_zero,
      cv_rxq := mq_put_or_drop E dgram_eof (e_mq_purge E (cv_rxq c))\<rparr>"
  let ?N = "upd_conv i ?f (fst s)"
  have w: "anet_write E (NCtl i) (ascii ''hangup'') (fst s) = (Inr 6, ?N)"
  proof -
    have "ctl_command (ascii ''hangup'') = ascii ''hangup''" by code_simp
    then show ?thesis by (simp add: write_NCtl [OF sl(5)] ctl_exec_def is_prefix_def ascii_def)
  qed
  have eof: "cts (cv_rxq (conv_of ?N i)) = [dgram_eof]"
    using msgq_hangup [OF d(1)] slot_in_use(3) [OF d(4) sl(1,2)] sl(6) by (simp add: net_simps)
  then obtain q where q: "e_mq_get E (cv_rxq (conv_of ?N i)) = Some (dgram_eof, q)" "cts q = []"
    using msgq_get_None [OF d(1), of "cv_rxq (conv_of ?N i)"] msgq_get_Some [OF d(1), of "cv_rxq (conv_of ?N i)"]
    by (cases "e_mq_get E (cv_rxq (conv_of ?N i))") fastforce+
  have bl: "slot_built E (n_nodes ?N) i" using sl(5) by (simp add: upd_conv_def)
  have r: "anet_read E (NData i) 0 64 ?N = (Returns (Inr []), upd_conv i (\<lambda>c. c\<lparr>cv_rxq := q\<rparr>) ?N)"
  proof -
    have "dg_data dgram_eof = []" by (simp add: dgram_eof_def)
    then show ?thesis by (simp add: read_NData [OF bl] read_data_def q(1) Let_def)
  qed
  have two: "upd_conv i (\<lambda>c. c\<lparr>cv_rxq := q\<rparr>) ?N = upd_conv i (\<lambda>c. (?f c)\<lparr>cv_rxq := q\<rparr>) (fst s)"
    using sl(6) by (simp add: upd_conv_def)
  have "net_wf E cts cap (upd_conv i (\<lambda>c. (?f c)\<lparr>cv_rxq := q\<rparr>) (fst s))"
    using net_wf_read [OF d(1) net_wf_write [OF d(1,4), of "NCtl i" "ascii ''hangup''"], of "NData i" 0 64] w r two by simp
  then have "node_shows E cts cap P (upd_conv i (\<lambda>c. (?f c)\<lparr>cv_rxq := q\<rparr>) (fst s), snd s) T'"
    unfolding a(2) using q(2) sl(2) by (intro shows_set [OF sh i(3)]) (simp_all add: slot_view_def binding_of_def)
  then show "fst (node_wake E s) = a \<and> node_shows E cts cap P (snd (node_wake E s)) T'"
    using i(1,2) d(7) blocked w r two a(1) by (simp add: node_wake_def node_write_def)
qed

interpretation node: same_runs "node_shows E cts cap P" "node_ops E" "table_ops P" for E cts cap P
  by unfold_locales
    (simp_all add: node_ops_def table_ops_def walk_follows open_follows read_follows write_follows clunk_follows wake_follows del: not_None_eq)

subsection \<open>The table passes\<close>

definition table_start :: "mesh_call list \<Rightarrow> table" where
  "table_start tr = \<lparr>tb_slots = [None, None, None, None], tb_calls = tr, tb_fids = [0 \<mapsto> NRoot]\<rparr>"

lemma run_on_line: "run_state (on_line d f) (Some s) = (case f s of (None, s1) \<Rightarrow> (d, None) | (Some x, s1) \<Rightarrow> (x, Some s1))"
  by (simp add: on_line_def)

text \<open>The paths and commands of the script.\<close>

lemma paths:
  "aether_names (ascii ''net/aether/addr'') = Some [ascii ''addr'']"
  "aether_names (ascii ''net/aether/status'') = Some [ascii ''status'']"
  "aether_names clone_path = Some [ascii ''clone'']"
  "aether_names (conv_file 0 ''status'') = Some [[48], ascii ''status'']"
  "aether_names (conv_file 0 ''local'') = Some [[48], ascii ''local'']"
  "aether_names (conv_file 0 ''remote'') = Some [[48], ascii ''remote'']"
  "aether_names (conv_file 0 ''data'') = Some [[48], ascii ''data'']"
  "aether_names (conv_file 1 ''data'') = Some [[49], ascii ''data'']"
  "aether_names (conv_file 1 ''status'') = Some [[49], ascii ''status'']"
  by code_simp+

lemma names:
  "(ascii ''addr'' = ascii ''clone'') = False" "(ascii ''status'' = ascii ''clone'') = False" "(ascii ''addr'' = ascii ''status'') = False"
  "(ascii ''local'' = ascii ''status'') = False" "(ascii ''remote'' = ascii ''status'') = False" "(ascii ''data'' = ascii ''status'') = False"
  "(ascii ''remote'' = ascii ''local'') = False" "(ascii ''data'' = ascii ''local'') = False" "(ascii ''data'' = ascii ''remote'') = False"
  by code_simp+

text \<open>Reading a file and cloning, as one step each.\<close>

lemma tb_binding_fids [simp]: "tb_binding (T\<lparr>tb_fids := F\<rparr>) i = tb_binding T i"
  by (simp add: tb_binding_def)

lemma tb_text_fids [simp]: "tb_text P n (T\<lparr>tb_fids := F\<rparr>) = tb_text P n T"
  by (cases n) (simp_all add: tb_text_def tb_binding_def Let_def)

lemma run_path:
  assumes "tb_walk fid path T = (Some True, tb_bind fid n T)" and tx: "tb_text P n T = Some tx" and n: "\<forall>i. n \<noteq> NCtl i"
  shows "run_state (read_path (table_ops P) fid path cap) (Some T) =
    (Some (take (cap - 1) tx), Some (T\<lparr>tb_fids := (tb_fids T)(fid := None)\<rparr>))"
proof -
  have t: "tb_text P n (tb_bind fid n T) = Some tx" using tx by (simp add: tb_bind_def)
  have c: "tb_clunk fid (tb_bind fid n T) = (Some (), T\<lparr>tb_fids := (tb_fids T)(fid := None)\<rparr>)"
    using tx n by (cases n) (auto simp: tb_clunk_def tb_text_def tb_bind_def Let_def)
  show ?thesis
    using assms(1) t c
    by (simp add: read_path_def table_ops_def run_on_line tb_read_def) (simp add: tb_bind_def run_on_line)
qed

lemma run_clone:
  assumes "length (tb_slots T) = AETHER_MAX_CONNS"
  shows "run_state (sclone (table_ops P) ctl) (Some T) =
    (case tb_free T of None \<Rightarrow> (-1, Some T) | Some i \<Rightarrow> (int i, Some (tb_bind ctl (NCtl i) (tb_set i (Some Idle) T))))"
proof (cases "tb_free T")
  case None
  then show ?thesis by (simp add: sclone_def table_ops_def run_on_line tb_walk_def paths)
next
  case (Some i)
  then have i: "i < AETHER_MAX_CONNS" by (auto simp: tb_free_def find_upt simp del: upt_rec_numeral)
  then have "atoi (cstr (take 31 (dec_nat i @ [nl]))) = int i"
    by (auto simp: less_4) code_simp+
  moreover have "tb_read P ctl 31 (tb_bind ctl (NCtl i) (tb_set i (Some Idle) T)) =
      (Some (Some (take 31 (dec_nat i @ [nl]))), tb_bind ctl (NCtl i) (tb_set i (Some Idle) T))"
    using i assms by (simp add: tb_read_def tb_bind_def tb_text_def tb_binding_def tb_set_def Let_def)
  ultimately show ?thesis using Some
    by (simp add: sclone_def table_ops_def run_on_line tb_walk_def paths) (simp add: tb_bind_def)
qed

abbreviation tb4 :: "binding option \<Rightarrow> binding option \<Rightarrow> binding option \<Rightarrow> binding option \<Rightarrow> mesh_call list \<Rightarrow> fids \<Rightarrow> table" where
  "tb4 a b c d tr F \<equiv> \<lparr>tb_slots = [a, b, c, d], tb_calls = tr, tb_fids = F\<rparr>"

lemma walk_top:
  "tb_walk fid (ascii ''net/aether/addr'') T = (Some True, tb_bind fid NAddr T)"
  "tb_walk fid (ascii ''net/aether/status'') T = (Some True, tb_bind fid NTopstatus T)"
  by (simp_all add: tb_walk_def paths names)

lemma digits: "dec_nat 0 = [48]" "dec_nat 1 = [49]" "dec_nat (Suc 0) = [49]" "dec_nat 2 = [50]" "dec_nat 3 = [51]" "dec_nat 4 = [52]"
    "dec_nat (Suc (Suc (Suc (Suc 0)))) = [52]"
  by (simp_all add: dec_nat_digit)

lemma walk_conv:
  "tb_walk fid (conv_file 0 ''status'') (tb4 (Some x) b c d tr F) = (Some True, tb_bind fid (NStatus 0) (tb4 (Some x) b c d tr F))"
  "tb_walk fid (conv_file 0 ''local'') (tb4 (Some x) b c d tr F) = (Some True, tb_bind fid (NLocal 0) (tb4 (Some x) b c d tr F))"
  "tb_walk fid (conv_file 0 ''remote'') (tb4 (Some x) b c d tr F) = (Some True, tb_bind fid (NRemote 0) (tb4 (Some x) b c d tr F))"
  "tb_walk fid (conv_file 0 ''data'') (tb4 (Some x) b c d tr F) = (Some True, tb_bind fid (NData 0) (tb4 (Some x) b c d tr F))"
  "tb_walk fid (conv_file 1 ''data'') (tb4 a (Some x) c d tr F) = (Some True, tb_bind fid (NData 1) (tb4 a (Some x) c d tr F))"
  "tb_walk fid (conv_file 1 ''status'') (tb4 a (Some x) c d tr F) = (Some True, tb_bind fid (NStatus 1) (tb4 a (Some x) c d tr F))"
  by (simp_all add: tb_walk_def paths tb_slot_def slot_nid_def names digits upt_rec)

text \<open>The texts the checks read.\<close>

lemma text_checks:
  "text_ok (Some (take 255 (fmt_addr a @ [nl]))) (\<lambda>t. colon \<in> set t)"
  "text_ok (Some (take 255 (binding_text Idle))) (contains ''unconnected'')"
  "text_ok (Some (take 255 (binding_text Listening))) (contains ''announced'')"
  "text_ok (Some (take 255 (binding_text (Bound (Addr6 0 0 0 0 0 0x99))))) (contains ''connected'')"
  "text_ok (Some (take 255 (fmt_addr (Addr6 0 0 0 0 0 0x99) @ [nl]))) (contains ''00:00:00:00:00:99'')"
proof -
  have "cstr (fmt_addr a @ [nl]) = fmt_addr a @ [nl]" using fmt_addr_chars(1) by (intro cstr_id) simp
  moreover have "colon \<in> set (fmt_addr a)" by (cases a) (simp add: fmt_addr_def)
  ultimately show "text_ok (Some (take 255 (fmt_addr a @ [nl]))) (\<lambda>t. colon \<in> set t)" by (simp add: text_ok_def)
qed code_simp+

lemma run_top:
  "run_state (test_top (table_ops P)) (Some (tb4 None None None None tr F)) =
     (([True, True], 4), Some (tb4 None None None None tr (F(30 := None))))"
proof -
  have t: "tb_text P NTopstatus (tb4 None None None None tr F') = Some [48, 47, 52, nl]" for F'
    by (simp add: tb_text_def digits)
  have a: "tb_text P NAddr (tb4 None None None None tr F') = Some (fmt_addr (te_me P tr) @ [nl])" for F'
    by (simp add: tb_text_def)
  have c: "cstr [48, 47, 52, nl] = [48, 47, 52, nl]" "split_at 47 [48, 47, 52] = Some ([48], [52])" "atoi [52] = 4" by code_simp+
  show ?thesis
    using text_checks(1) [of "te_me P tr"]
    by (simp add: test_top_def run_path [OF walk_top(1) a] run_path [OF walk_top(2) t] text_ok_def c oneline_def)
qed

lemma run_fresh:
  "run_state (test_fresh (table_ops P)) (Some (tb4 None None None None tr F)) =
     (([True, True, True, True, True], 0), Some (tb4 (Some Idle) None None None tr (F(10 \<mapsto> NCtl 0, 30 := None, 31 := None))))"
proof -
  let ?T = "\<lambda>F. tb4 (Some Idle) None None None tr F"
  have c: "run_state (sclone (table_ops P) 10) (Some (tb4 None None None None tr F)) = (0, Some (?T (F(10 \<mapsto> NCtl 0))))"
    by (subst run_clone) (simp_all add: tb_free_def upt_rec tb_bind_def tb_set_def)
  have t: "tb_text P NTopstatus (?T F') = Some [49, 47, 52, nl]"
    "tb_text P (NStatus 0) (?T F') = Some (binding_text Idle)" "tb_text P (NRemote 0) (?T F') = Some []"
    "tb_text P (NLocal 0) (?T F') = Some (fmt_addr (te_me P tr) @ [nl])" for F'
    by (simp_all add: tb_text_def digits tb_binding_def)
  have s: "cstr [49, 47, 52, nl] = [49, 47, 52, nl]" by code_simp
  show ?thesis
    using text_checks(1) [of "te_me P tr"] text_checks(2)
    by (simp add: test_fresh_def c run_path [OF walk_top(2) t(1)] run_path [OF walk_conv(1) t(2)]
        run_path [OF walk_conv(2) t(4)] run_path [OF walk_conv(3) t(3)] s text_ok_def [of "Some [49, 47, 52, nl]"])
qed

lemma run_ctl:
  "tb_fids T fid = Some (NCtl i) \<Longrightarrow> tb_binding T i = Some b \<Longrightarrow> tb_ctl i b d T = (Some a, T1) \<Longrightarrow>
     run_state (to_write (table_ops P) fid d) (Some T) = (a, Some T1)"
  by (simp add: table_ops_def run_on_line tb_write_def)

lemma ctl_texts:
  "tb_ctl i b (ascii ''connect zz:zz:zz'') T = (Some (-1), T)"
  "tb_ctl i b (ascii ''frobnicate'') T = (Some (-1), T)"
  "tb_ctl i Idle (ascii ''connect 00:00:00:00:00:99'') T = (Some 25, tb_set i (Some (Bound (Addr6 0 0 0 0 0 0x99))) T)"
  "b \<noteq> Idle \<Longrightarrow> tb_ctl i b (ascii ''connect 00:00:00:00:00:98'') T = (Some (-1), T)"
  "b \<noteq> Idle \<Longrightarrow> tb_ctl i b (ascii ''connect 00:00:00:00:00:97'') T = (Some (-1), T)"
  "tb_ctl i Idle (ascii ''announce'') T = (Some 8, tb_set i (Some Listening) T)"
proof -
  have p: "ctl_command (ascii ''connect zz:zz:zz'') = ascii ''connect zz:zz:zz''" "ctl_command (ascii ''frobnicate'') = ascii ''frobnicate''"
    "ctl_command (ascii ''connect 00:00:00:00:00:99'') = ascii ''connect 00:00:00:00:00:99''"
    "ctl_command (ascii ''connect 00:00:00:00:00:98'') = ascii ''connect 00:00:00:00:00:98''"
    "ctl_command (ascii ''connect 00:00:00:00:00:97'') = ascii ''connect 00:00:00:00:00:97''" "ctl_command (ascii ''announce'') = ascii ''announce''"
    "parse_addr (drop 8 (ascii ''connect zz:zz:zz'')) = Inl EINVAL"
    "parse_addr (drop 8 (ascii ''connect 00:00:00:00:00:99'')) = Inr (Addr6 0 0 0 0 0 0x99)"
    "parse_addr (drop 8 (ascii ''connect 00:00:00:00:00:98'')) = Inr (Addr6 0 0 0 0 0 0x98)"
    "parse_addr (drop 8 (ascii ''connect 00:00:00:00:00:97'')) = Inr (Addr6 0 0 0 0 0 0x97)"
    "Addr6 0 0 0 0 0 0x99 \<noteq> addr_bcast"
    by code_simp+
  have q: "is_prefix (ascii ''connect '') (ascii ''connect zz:zz:zz'')" "\<not> is_prefix (ascii ''connect '') (ascii ''frobnicate'')"
    "is_prefix (ascii ''connect '') (ascii ''connect 00:00:00:00:00:99'')" "is_prefix (ascii ''connect '') (ascii ''connect 00:00:00:00:00:98'')"
    "is_prefix (ascii ''connect '') (ascii ''connect 00:00:00:00:00:97'')" "\<not> is_prefix (ascii ''connect '') (ascii ''announce'')"
    "ascii ''frobnicate'' \<noteq> ascii ''announce''" "ascii ''frobnicate'' \<noteq> ascii ''hangup''"
    "length (ascii ''connect 00:00:00:00:00:99'') = 25" "length (ascii ''announce'') = 8"
    by code_simp+
  show "tb_ctl i b (ascii ''connect zz:zz:zz'') T = (Some (-1), T)" "tb_ctl i b (ascii ''frobnicate'') T = (Some (-1), T)"
    "tb_ctl i Idle (ascii ''connect 00:00:00:00:00:99'') T = (Some 25, tb_set i (Some (Bound (Addr6 0 0 0 0 0 0x99))) T)"
    "b \<noteq> Idle \<Longrightarrow> tb_ctl i b (ascii ''connect 00:00:00:00:00:98'') T = (Some (-1), T)"
    "b \<noteq> Idle \<Longrightarrow> tb_ctl i b (ascii ''connect 00:00:00:00:00:97'') T = (Some (-1), T)"
    "tb_ctl i Idle (ascii ''announce'') T = (Some 8, tb_set i (Some Listening) T)"
    by (simp_all only: tb_ctl_def p q Let_def if_True if_False sum.case simp_thms of_nat_numeral)
qed

lemma run_connect:
  assumes "F 10 = Some (NCtl 0)"
  shows "run_state (test_connect (table_ops P) 0) (Some (tb4 (Some Idle) None None None tr F)) =
     ([True, True, True, True, True, True], Some (tb4 (Some (Bound (Addr6 0 0 0 0 0 0x99))) None None None tr (F(31 := None))))"
proof -
  let ?a = "Addr6 0 0 0 0 0 0x99"
  let ?T = "\<lambda>F. tb4 (Some (Bound ?a)) None None None tr F"
  have t: "tb_text P (NStatus 0) (?T F') = Some (binding_text (Bound ?a))" "tb_text P (NRemote 0) (?T F') = Some (fmt_addr ?a @ [nl])" for F'
    by (simp_all add: tb_text_def tb_binding_def)
  have w: "run_state (to_write (table_ops P) 10 d) (Some (tb4 (Some b) None None None tr F')) = (a, Some T1)"
    if "F' 10 = Some (NCtl 0)" "tb_ctl 0 b d (tb4 (Some b) None None None tr F') = (Some a, T1)" for d b F' a T1
    using that by (intro run_ctl [of _ _ 0 b]) (simp_all add: tb_binding_def)
  show ?thesis
    using text_checks(4,5) assms
    by (simp add: test_connect_def w [OF _ ctl_texts(1)] w [OF _ ctl_texts(2)] w [OF _ ctl_texts(3)] w [OF _ ctl_texts(4)] tb_set_def
        run_path [OF walk_conv(1) t(1)] run_path [OF walk_conv(3) t(2)])
qed

lemma run_open:
  "tb_walk fid (conv_file n ''data'') T = (Some True, tb_bind fid d T) \<Longrightarrow>
     run_state (open_data (table_ops P) fid n) (Some T) = (True, Some (tb_bind fid d T))"
  by (simp add: open_data_def table_ops_def run_on_line tb_bind_def)

lemma run_data:
  assumes "F 10 = Some (NCtl 0)" and max: "te_max P < 600"
  shows "run_state (test_data (table_ops P) 0) (Some (tb4 (Some (Bound p)) None None None tr F)) =
     (([True, True, True, True, True, True], 1), Some (tb4 (Some (Bound p)) (Some Listening) None None (tr @ [CResolve p])
        (F(20 \<mapsto> NData 0, 11 \<mapsto> NCtl 1, 21 \<mapsto> NData 1, 31 := None))))"
proof -
  let ?T = "\<lambda>b. tb4 (Some (Bound p)) b None None (tr @ [CResolve p])"
  have big: "run_state (to_write (table_ops P) 20 (replicate 600 120)) (Some (tb4 (Some (Bound p)) None None None tr (F(20 \<mapsto> NData 0)))) =
      (-1, Some (?T None (F(20 \<mapsto> NData 0))))"
    using max by (simp add: table_ops_def run_on_line tb_write_def tb_binding_def)
  have c: "run_state (sclone (table_ops P) 11) (Some (?T None F')) = (1, Some (?T (Some Idle) (F'(11 \<mapsto> NCtl 1))))" for F'
    by (subst run_clone) (simp_all add: tb_free_def upt_rec tb_bind_def tb_set_def)
  have hi: "run_state (to_write (table_ops P) 21 d) (Some (?T (Some Idle) F')) = (-1, Some (?T (Some Idle) F'))"
    if "F' 21 = Some (NData 1)" for d F'
    using that by (simp add: table_ops_def run_on_line tb_write_def tb_binding_def)
  have w: "run_state (to_write (table_ops P) 11 d) (Some (?T (Some b) F')) = (a, Some T1)"
    if "F' 11 = Some (NCtl 1)" "tb_ctl 1 b d (?T (Some b) F') = (Some a, T1)" for d b F' a T1
    using that by (intro run_ctl [of _ _ 1 b]) (simp_all add: tb_binding_def)
  have t: "tb_text P (NStatus 1) (?T (Some Listening) F') = Some (binding_text Listening)" for F'
    by (simp add: tb_text_def tb_binding_def)
  show ?thesis
    using text_checks(3)
    by (simp add: test_data_def run_open [OF walk_conv(4)] run_open [OF walk_conv(5)] tb_bind_def big c hi
        w [OF _ ctl_texts(6)] w [OF _ ctl_texts(5)] tb_set_def run_path [OF walk_conv(6) t])
qed

lemma run_wake:
  assumes "F 11 = Some (NCtl 1)" and "F 21 = Some (NData 1)"
  shows "run_state (to_wake (table_ops P)) (Some (tb4 a (Some b) c d tr F)) = ((True, True), Some (tb4 a (Some Idle) c d tr F))"
  using assms by (simp add: table_ops_def run_on_line tb_wake_def tb_binding_def tb_set_def)

lemma run_clunk:
  "tb_clunk fid T = (Some (), T1) \<Longrightarrow> run_state (to_clunk (table_ops P) fid) (Some T) = ((), Some T1)"
  by (simp add: table_ops_def run_on_line)

lemma clunk_data:
  "F fid = Some (NData 0) \<Longrightarrow> run_state (to_clunk (table_ops P) fid) (Some (tb4 (Some a) b c d tr F)) =
     ((), Some (tb4 (Some a) b c d tr (F(fid := None))))"
  "F fid = Some (NData 1) \<Longrightarrow> run_state (to_clunk (table_ops P) fid) (Some (tb4 a' (Some b') c d tr F)) =
     ((), Some (tb4 a' (Some b') c d tr (F(fid := None))))"
  by (auto intro!: run_clunk simp: tb_clunk_def tb_binding_def)

lemma clunk_ctls:
  "F fid = Some (NCtl 0) \<Longrightarrow> run_state (to_clunk (table_ops P) fid) (Some (tb4 (Some x) b c d tr F)) = ((), Some (tb4 None b c d tr (F(fid := None))))"
  "F fid = Some (NCtl 1) \<Longrightarrow> run_state (to_clunk (table_ops P) fid) (Some (tb4 a (Some x) c d tr F)) = ((), Some (tb4 a None c d tr (F(fid := None))))"
  "F fid = Some (NCtl 2) \<Longrightarrow> run_state (to_clunk (table_ops P) fid) (Some (tb4 a b (Some x) d tr F)) = ((), Some (tb4 a b None d tr (F(fid := None))))"
  "F fid = Some (NCtl 3) \<Longrightarrow> run_state (to_clunk (table_ops P) fid) (Some (tb4 a b c (Some x) tr F)) = ((), Some (tb4 a b c None tr (F(fid := None))))"
  by (auto intro!: run_clunk simp: tb_clunk_def tb_binding_def tb_set_def numeral_eq_Suc)

lemma run_fill:
  "run_state (test_fill (table_ops P) 4 8 2 12) (Some (tb4 (Some a) (Some b) None None tr F)) =
     ((4, 14), Some (tb4 (Some a) (Some b) (Some Idle) (Some Idle) tr (F(12 \<mapsto> NCtl 2, 13 \<mapsto> NCtl 3))))"
proof -
  have c2: "run_state (sclone (table_ops P) 12) (Some (tb4 (Some a) (Some b) None None tr F)) =
      (2, Some (tb4 (Some a) (Some b) (Some Idle) None tr (F(12 \<mapsto> NCtl 2))))"
    by (subst run_clone) (simp_all add: tb_free_def upt_rec tb_bind_def tb_set_def numeral_2_eq_2)
  have c3: "run_state (sclone (table_ops P) 13) (Some (tb4 (Some a) (Some b) (Some Idle) None tr F')) =
      (3, Some (tb4 (Some a) (Some b) (Some Idle) (Some Idle) tr (F'(13 \<mapsto> NCtl 3))))" for F'
    by (subst run_clone) (simp_all add: tb_free_def upt_rec tb_bind_def tb_set_def numeral_3_eq_3)
  have "(8 :: nat) = Suc (Suc (Suc 5))" by simp
  then show ?thesis by (simp only: test_fill.simps) (simp add: c2 c3)
qed

lemma run_full:
  assumes "F 0 = Some NRoot" and "F 10 = Some (NCtl 0)" and "F 11 = Some (NCtl 1)" and "F 20 = Some (NData 0)" and "F 21 = Some (NData 1)"
  shows "\<exists>F1. run_state (test_full (table_ops P) 4) (Some (tb4 (Some a) (Some b) None None tr F)) =
     ([True, True, True], Some (tb4 None None None None tr F1))"
proof -
  have over: "run_state (sclone (table_ops P) 14) (Some (tb4 (Some a) (Some b) (Some c) (Some d) tr F')) =
      (-1, Some (tb4 (Some a) (Some b) (Some c) (Some d) tr F'))" for c d F'
    by (subst run_clone) (simp_all add: tb_free_def upt_rec)
  have st: "tb_text P NTopstatus (tb4 (Some a) (Some b) (Some c) (Some d) tr F') = Some [52, 47, 52, nl]"
    "tb_text P NTopstatus (tb4 None None None None tr F') = Some [48, 47, 52, nl]" for c d F'
    by (simp_all add: tb_text_def digits)
  have fids: "map of_nat [10..<unat (14 :: u32)] = [10, 11, 12, 13 :: u32]" by (simp add: upt_rec)
  have z: "cstr [48, 47, 52, nl] = [48, 47, 52, nl]" by code_simp
  have r: "run_state (to_clunk (table_ops P) 0) (Some (tb4 a b c d tr F')) = ((), Some (tb4 a b c d tr (F'(0 := None))))"
    if "F' 0 = Some NRoot" for a b c d F'
    using that by (intro run_clunk) (simp add: tb_clunk_def)
  show ?thesis
    using assms
    by (simp add: test_full_def run_fill run_path [OF walk_top(2) st(1)] run_path [OF walk_top(2) st(2)] over clunk_data clunk_ctls fids r
        text_ok_def z)
qed

text \<open>The checks of the table, all of them.\<close>

lemma table_passes:
  assumes "te_max P < 600"
  shows "\<exists>cs T. run_state (test_script (table_ops P)) (Some (table_start tr)) = (cs, Some T) \<and> length cs = 23 \<and> list_all id cs"
proof -
  let ?F = "[0 \<mapsto> NRoot](30 := None, 10 \<mapsto> NCtl 0, 30 := None, 31 := None, 31 := None,
      20 \<mapsto> NData 0, 11 \<mapsto> NCtl 1, 21 \<mapsto> NData 1, 31 := None)"
  have "\<exists>F1. run_state (test_full (table_ops P) 4) (Some (tb4 (Some (Bound (Addr6 0 0 0 0 0 0x99))) (Some Idle) None None
      (tr @ [CResolve (Addr6 0 0 0 0 0 0x99)]) ?F)) = ([True, True, True], Some (tb4 None None None None (tr @ [CResolve (Addr6 0 0 0 0 0 0x99)]) F1))"
    by (rule run_full) simp_all
  then obtain F1 where f: "run_state (test_full (table_ops P) 4) (Some (tb4 (Some (Bound (Addr6 0 0 0 0 0 0x99))) (Some Idle) None None
      (tr @ [CResolve (Addr6 0 0 0 0 0 0x99)]) ?F)) = ([True, True, True], Some (tb4 None None None None (tr @ [CResolve (Addr6 0 0 0 0 0 0x99)]) F1))"
    by blast
  show ?thesis
    unfolding test_script_def table_start_def
    using f by (simp add: run_top run_fresh run_connect run_data [OF _ assms] run_wake)
qed

text \<open>The check of the status after \<open>connect\<close> holds of a conversation that is not connected, too.\<close>

lemma connected_check_blind: "text_ok (Some (binding_text Idle)) (contains ''connected'')"
  by code_simp

subsection \<open>The node passes\<close>

lemma node_starts:
  assumes "msgq_ok E cts cap" and "8 \<le> e_name_cap E"
  shows "node_shows E cts cap \<lparr>te_me = identity_of E my, te_max = e_max_msg E\<rparr>
    (snd (aether_net_init E my g tr), [0 \<mapsto> NRoot]) (table_start tr)"
proof -
  let ?N = "snd (aether_net_init E my g tr)"
  have c: "n_convs ?N = replicate AETHER_MAX_CONNS (conv_zero E)" "n_trace ?N = tr" "n_myaddr ?N = my"
    by (simp_all add: net_init_eq net_zero_def)
  have "slot_view (conv_zero E) = None" by (simp add: slot_view_def conv_zero_def)
  then have v: "map slot_view (n_convs ?N) = [None, None, None, None]" by (simp add: c numeral_eq_Suc)
  have "\<not> cv_in_use (conv_of ?N i)" if "i < AETHER_MAX_CONNS" for i
    using that conv_of_zero [OF that, of E] by (simp add: c conv_zero_def)
  then show ?thesis
    using assms net_wf_init [OF assms(1), of my g tr] v by (simp add: node_shows_def table_start_def c(2,3))
qed

text \<open>
  C28. A node passes its conformance test: from start-up, with a kernel queue as documented and while
  nothing arrives from the mesh, every one of the 23 checks of the test holds, whatever the
  node's identity, its configuration (messages below 600 bytes) and the mesh.
\<close>

theorem node_conforms:
  assumes "msgq_ok E cts cap" and "8 \<le> e_name_cap E" and "e_max_msg E < 600"
  shows "let cs = fst (run_state (test_script (node_ops E)) (snd (aether_net_init E my g tr), [0 \<mapsto> NRoot]))
    in length cs = 23 \<and> list_all id cs"
proof -
  let ?P = "\<lparr>te_me = identity_of E my, te_max = e_max_msg E\<rparr>"
  obtain cs T where cs: "run_state (test_script (table_ops ?P)) (Some (table_start tr)) = (cs, Some T)" "length cs = 23" "list_all id cs"
    using table_passes [of ?P tr] assms(3) by auto
  obtain s where "run_state (test_script (node_ops E)) (snd (aether_net_init E my g tr), [0 \<mapsto> NRoot]) = (cs, s)"
    using node.script_runs [of E cts cap ?P] node_starts [OF assms(1,2), of my g tr] cs(1) unfolding follows_def by blast
  then show ?thesis using cs(2,3) by simp
qed

end
