(* ===== verification/HostWitness.thy ===== *)
theory HostWitness
  imports HostClientProps MeshShellProps Demo Verify NodeTest
begin

text \<open>
  The properties of the host programs and of the console at concrete inputs: a server that refuses
  every other write, one that takes a byte at a time, and a node without other nodes around.
\<close>

definition flaky :: "nat writer" where
  "flaky off d n = (if even n then -1 else int (length d), n + 1)"

definition flaky_ops :: "nat ota_ops" where
  "flaky_ops = \<lparr>oo_target = Pair True, oo_open = Pair True, oo_write = flaky, oo_clunk = (\<lambda>n. n)\<rparr>"


definition bytewise :: "nat writer" where
  "bytewise off d n = (1, n + 1)"

theorem put_short_write_witness:
  "\<exists>new. snd (snd (put_loop (logged bytewise) 2 [1, 2, 3, 4] 0 0 (0, []))) = [(0, [1, 2], 1), (1, [3, 4], 1)] @ new"
proof -
  have "bytewise 0 (take 2 [1, 2, 3, 4]) 0 = (int 1, 1)" "bytewise 1 (take 2 (drop 2 [1, 2, 3, 4])) 1 = (int 1, 2)"
    by (simp_all add: bytewise_def)
  from put_short_write [where W = bytewise, OF _ _ this(1) _ this(2)] show ?thesis by simp
qed

theorem send_overruns_witness:
  "fst (snd (cmd_aether_send demo_env 448 True [fmt_addr demo_eui, [104, 105]] (replicate 12 0xAA) demo_start)) =
     addr_bytes demo_eui @ [0, 0, 0, 0xAA, 0xAA, 0xAA]"
proof -
  have "mesh_send demo_env demo_eui [104, 105] demo_start = (Inr 0, snd (mesh_send demo_env demo_eui [104, 105] demo_start))"
    by (simp add: mesh_send_def)
  from send_overruns [OF _ _ this, of "replicate 12 0xAA" 448] show ?thesis by (simp add: numeral_eq_Suc)
qed

text \<open>The proof of ownership at a concrete node, for an address that matches and one that does not.\<close>

definition demo_verifier :: verifier where
  "demo_verifier = \<lparr>vf_sha256 = (\<lambda>m. replicate 32 (hd m)), vf_key = (\<lambda>p. length p = 65),
     vf_der = (\<lambda>r s. Some (r @ s)), vf_verify = (\<lambda>pt der m. length der = 64)\<rparr>"

lemma demo_crypto: "crypto_agrees demo_verifier demo_cga"
  by (auto simp: crypto_agrees_def demo_verifier_def demo_cga_def)

theorem identity_proof_witness:
  "\<exists>N' sig. anet_write demo_env NProve (ascii ''cafe'') demo_start = (Inr 4, N') \<and>
    aether_verify demo_verifier [ascii ''03:01:01:01:01:01'', ascii ''cafe'', hex_bytes (replicate 64 1), hex_bytes sig] = 1 \<and>
    aether_verify demo_verifier [ascii ''02:01:01:01:01:01'', ascii ''cafe'', hex_bytes (replicate 64 1), hex_bytes sig] = 0"
proof -
  have c: "n_cga demo_start = demo_id" "e_cga demo_env = demo_cga" by code_simp (simp add: demo_env_def)
  have id: "cga_settled demo_cga demo_id" "cg_pub demo_id = replicate 64 1"
    by code_simp+
  have k: "nd_kind (n_nodes demo_start NProve) = K_PROVE" by code_simp
  have "\<exists>N'. anet_write demo_env NProve (ascii ''cafe'') demo_start = (Inr 4, N')"
  proof -
    have "fst (anet_write demo_env NProve (ascii ''cafe'') demo_start) = Inr 4" by code_simp
    then show ?thesis by (metis prod.collapse)
  qed
  then obtain N' where run: "anet_write demo_env NProve (ascii ''cafe'') demo_start = (Inr 4, N')" by blast
  have l: "length (ascii ''cafe'') \<le> 32" by (simp add: ascii_def)
  have ad: "fmt_addr (cga_addr demo_cga (replicate 64 1)) = ascii ''02:01:01:01:01:01''" by code_simp
  have eq: "strcaseeq (ascii ''02:01:01:01:01:01'') (ascii ''02:01:01:01:01:01'')"
    "\<not> strcaseeq (ascii ''02:01:01:01:01:01'') (ascii ''03:01:01:01:01:01'')" by code_simp+
  obtain sig where v: "\<And>a. aether_verify demo_verifier [a, ascii ''cafe'', hex_bytes (replicate 64 1), hex_bytes sig] =
      (if strcaseeq (ascii ''02:01:01:01:01:01'') a then 0 else 1)"
    using identity_proof [of demo_env demo_verifier demo_start NProve "ascii ''cafe''" 4 N'] demo_cga_ok demo_crypto
      c id k run l ad by auto
  show ?thesis using run v [of "ascii ''03:01:01:01:01:01''"] v [of "ascii ''02:01:01:01:01:01''"] eq by auto
qed

text \<open>The node of \<open>Demo\<close> under test.\<close>

theorem node_conforms_witness:
  "list_all id (fst (run_state (test_script (node_ops demo_env)) (snd (aether_net_init demo_env demo_self demo_id []), [0 \<mapsto> NRoot])))"
  using node_conforms [OF demo_msgq, of demo_self demo_id "[]"]
  by (simp add: demo_env_def Let_def)

end
