(* ===== verification/HostConvProps.thy ===== *)
theory HostConvProps
  imports HostMain ForwardLinkProps NetData "HOL-Library.Sublist"
begin

text \<open>
  Properties of the host's conversation commands: which fids they give back, what they print of the
  datagrams a node holds, what the node makes of what they write, and the reply that arrives out of
  order.
\<close>

subsection \<open>Reading bytes\<close>

text \<open>Events that only delay here: bytes, and silence. An interrupted call is a failure.\<close>

fun steady :: "io_event \<Rightarrow> bool" where
  "steady (Bytes d) = (d \<noteq> [])"
| "steady Quiet = True"
| "steady _ = False"

lemma conv_readn_steady:
  "list_all steady evs \<Longrightarrow> length got \<le> n \<Longrightarrow> n \<le> length (got @ bytes_of evs) \<Longrightarrow>
     \<exists>rest. conv_readn n got (evs @ later) = (True, take n (got @ bytes_of evs), rest @ later) \<and>
       list_all steady rest \<and> bytes_of rest = drop n (got @ bytes_of evs)"
proof (induction evs arbitrary: got)
  case Nil
  then show ?case by (cases later) auto
next
  case (Cons ev evs)
  show ?case
  proof (cases "n \<le> length got")
    case True
    then show ?thesis using Cons.prems by (intro exI [of _ "ev # evs"]) auto
  next
    case False
    show ?thesis
    proof (cases ev)
      case (Bytes d)
      show ?thesis
      proof (cases "length d \<le> n - length got")
        case True
        then show ?thesis using Cons.IH [of "got @ d"] Cons.prems Bytes False by auto
      next
        case long: False
        then have "drop (n - length got) d \<noteq> []" by simp
        then show ?thesis
          using long Cons.prems Bytes False
          by (intro exI [of _ "Bytes (drop (n - length got) d) # evs"]) auto
      qed
    next
      case Quiet
      then show ?thesis using Cons.IH [of got] Cons.prems False by simp
    qed (use Cons.prems in simp_all)
  qed
qed

lemma steady_whole:
  assumes "list_all steady evs" and "bytes_of evs = a @ b" and "n = length a"
  shows "\<exists>rest. conv_readn n [] (evs @ later) = (True, a, rest @ later) \<and> list_all steady rest \<and> bytes_of rest = b"
  using conv_readn_steady [OF assms(1), of "[]" n later] assms(2,3) by auto

text \<open>The head of a message gives its length.\<close>

lemma message_head:
  assumes "reply_ok m" shows "unat (ng32 (take 4 m)) = length m" "4 \<le> length m" "7 \<le> length m" "length m \<le> 8192"
proof -
  have l: "7 \<le> length m" "length m \<le> 8192" using assms by (auto simp: reply_ok_def)
  have "ng32 (take 4 m) = ng32 m"
  proof -
    have "m = take 4 m @ drop 4 m" by simp
    then show ?thesis using l by (simp add: ng32_def)
  qed
  then show "unat (ng32 (take 4 m)) = length m"
    using assms l by (simp add: reply_ok_def unsigned_of_nat take_bit_nat_eq_self)
qed (use assms in \<open>auto simp: reply_ok_def\<close>)

lemma message_lines:
  assumes m: "reply_ok m" and p: "list_all steady evs" and b: "bytes_of evs = m @ rest"
  obtains e1 e2 where "conv_readn 4 [] (evs @ later) = (True, take 4 m, e1 @ later)"
    "conv_readn (length m - 4) [] (e1 @ later) = (True, drop 4 m, e2 @ later)"
    "list_all steady e2" "bytes_of e2 = rest"
proof -
  note h = message_head [OF m]
  obtain e1 where e1: "conv_readn 4 [] (evs @ later) = (True, take 4 m, e1 @ later)" "list_all steady e1"
    "bytes_of e1 = drop 4 m @ rest"
    using steady_whole [OF p, of "take 4 m" "drop 4 m @ rest" 4 later] b h(2)
    by (metis append.assoc append_take_drop_id length_take min.absorb2)
  obtain e2 where "conv_readn (length m - 4) [] (e1 @ later) = (True, drop 4 m, e2 @ later)" "list_all steady e2" "bytes_of e2 = rest"
    using steady_whole [OF e1(2,3), of "length m - 4" later] by auto
  then show thesis using that e1(1) by blast
qed

subsection \<open>Replies out of order\<close>

text \<open>One reply into an array: it must fit.\<close>

lemma recv_one_answer:
  assumes m: "reply_ok m" and p: "list_all steady evs" and b: "bytes_of evs = m @ rest" and i: "lk_in L = evs @ later"
  shows "\<exists>evs'. recv_one cap dst L =
      (if cap < length m - 4 then None
       else Some (Some (m ! 4, ng16 (drop 5 m)), overlay (drop 4 m) dst), L\<lparr>lk_in := evs' @ later\<rparr>) \<and>
    list_all steady evs' \<and> bytes_of evs' = rest"
proof -
  note h = message_head [OF m]
  obtain e1 e2 where e: "conv_readn 4 [] (evs @ later) = (True, take 4 m, e1 @ later)"
    "conv_readn (length m - 4) [] (e1 @ later) = (True, drop 4 m, e2 @ later)" "list_all steady e2" "bytes_of e2 = rest"
    by (rule message_lines [OF m p b])
  have "overlay (drop 4 m) dst ! 0 = m ! 4" using h by (simp add: overlay_nth0)
  moreover have "ng16 (drop 1 (overlay (drop 4 m) dst)) = ng16 (drop 5 m)"
    using h by (simp add: overlay_def ng16_def nth_append)
  ultimately show ?thesis
    using e i h by (intro exI [of _ e2]) (simp add: recv_one_def Let_def)
qed

definition tag_of :: "byte list \<Rightarrow> u16" where
  "tag_of m = ng16 (drop 5 m)"

text \<open>
  C36. The stash of one reply works only between arrays of 8192 bytes: the copy to it and back does not
  look at the size of the array, which in the program has 256 bytes. A reply that arrives before
  the one waited for is then a copy out of bounds, while it is kept, and found later without
  another byte from the line, when the array is large enough.
\<close>

theorem stash_overruns:
  assumes m: "reply_ok m1" "reply_ok m2" "length m1 - 4 \<le> cap" "length m2 - 4 \<le> cap"
    and p: "list_all steady evs" "bytes_of evs = m1 @ m2 @ rest" and L: "lk_in L = evs"
    and t: "tag_of m1 \<noteq> want" "tag_of m2 = want"
  shows "if cap < 8192 then fst (recv_tag cap want dst (None, L)) = None
    else \<exists>dst1 dst2 st L1. recv_tag cap want dst (None, L) = (Some (Some (m2 ! 4), dst1), st, L1) \<and>
      bytes_of (lk_in L1) = rest \<and>
      recv_tag cap (tag_of m1) dst1 (st, L1) = (Some (Some (m1 ! 4), dst2), None, L1) \<and>
      take (length m1 - 4) dst2 = drop 4 m1"
proof -
  obtain e1 where e1: "recv_one cap dst L = (Some (Some (m1 ! 4, tag_of m1), overlay (drop 4 m1) dst), L\<lparr>lk_in := e1\<rparr>)"
    "list_all steady e1" "bytes_of e1 = m2 @ rest"
    using recv_one_answer [OF m(1) p, of L "[]" cap dst] L m(3) by (auto simp: tag_of_def)
  let ?d1 = "overlay (drop 4 m1) dst"
  obtain e2 where e2: "recv_one cap ?d1 (L\<lparr>lk_in := e1\<rparr>) =
      (Some (Some (m2 ! 4, want), overlay (drop 4 m2) ?d1), L\<lparr>lk_in := e2\<rparr>)" "bytes_of e2 = rest"
    using recv_one_answer [OF m(2) e1(2,3), of "L\<lparr>lk_in := e1\<rparr>" "[]" cap ?d1] t m(4) by (auto simp: tag_of_def)
  show ?thesis
  proof (cases "cap < 8192")
    case True
    then show ?thesis using e1 t by (simp add: recv_tag_def recv_tag_loop.simps [of cap want dst None L])
  next
    case False
    let ?s = "(Some (tag_of m1, ?d1), L\<lparr>lk_in := e2\<rparr>)"
    have r: "recv_tag cap want dst (None, L) = (Some (Some (m2 ! 4), overlay (drop 4 m2) ?d1), ?s)"
      using e1 e2 t False
      by (simp add: recv_tag_def recv_tag_loop.simps [of cap want dst None L]
          recv_tag_loop.simps [of cap want ?d1 "Some (tag_of m1, ?d1)" "L\<lparr>lk_in := e1\<rparr>"])
    have "?d1 ! 0 = m1 ! 4" using message_head [OF m(1)] by (simp add: overlay_nth0)
    then have "recv_tag cap (tag_of m1) dst1 ?s = (Some (Some (m1 ! 4), ?d1), None, L\<lparr>lk_in := e2\<rparr>)" for dst1
      using False by (simp add: recv_tag_def)
    then show ?thesis using r e2 False by (auto simp: overlay_def)
  qed
qed

subsection \<open>What is sent\<close>

text \<open>Each request is one frame, whatever becomes of its answer.\<close>

lemma rpc_sent: "conv_rpc E body L = (r, L1) \<Longrightarrow> lk_sent L1 = lk_sent L @ [frame body]"
  by (auto simp: conv_rpc_def Let_def frame_def split: prod.splits bool.splits if_splits)

definition version_frame :: "byte list" where
  "version_frame = frame ([100] @ np16 0xffff @ np32 8192 @ np16 6 @ ascii ''9P2000'')"

definition attach_frame :: "byte list" where
  "attach_frame = frame ([104] @ np16 1 @ np32 0 @ np32 0xffffffff @ np16 1 @ ascii ''t'' @ np16 0)"

definition clunk_of :: "u32 \<Rightarrow> byte list" where
  "clunk_of fid = frame (b_clunk 1 fid)"

lemma version_sent: "conv_do_version E L = (r, L1) \<Longrightarrow> lk_sent L1 = lk_sent L @ [version_frame]"
  unfolding conv_do_version_def version_frame_def by (auto split: prod.splits dest: rpc_sent)

lemma attach_sent: "conv_do_attach E 0 L = (r, L1) \<Longrightarrow> lk_sent L1 = lk_sent L @ [attach_frame]"
  unfolding conv_do_attach_def attach_frame_def by (auto split: prod.splits dest: rpc_sent)

lemma walk_sent: "conv_do_walk E fid nf path L = (r, L1) \<Longrightarrow> lk_sent L1 = lk_sent L @ [frame (b_walk 1 fid nf path)]"
  unfolding conv_do_walk_def by (auto split: prod.splits dest: rpc_sent)

lemma open_sent: "conv_do_open E fid mode L = (r, L1) \<Longrightarrow> lk_sent L1 = lk_sent L @ [frame (b_open 1 fid mode)]"
  unfolding conv_do_open_def by (auto split: prod.splits dest: rpc_sent)

lemma clunk_sent [simp]: "lk_sent (conv_do_clunk E fid L) = lk_sent L @ [clunk_of fid]"
  using rpc_sent [of E "b_clunk 1 fid" L] by (cases "conv_rpc E (b_clunk 1 fid) L") (simp add: conv_do_clunk_def clunk_of_def)

lemma leave_sent: "lk_sent (conv_leave E L) = lk_sent L @ [clunk_of 2, clunk_of 1, clunk_of 0]"
  by (simp add: conv_leave_def)

text \<open>Frames are only added, and those of an operation are of a given kind.\<close>

definition sends :: "(byte list \<Rightarrow> bool) \<Rightarrow> flink \<Rightarrow> flink \<Rightarrow> bool" where
  "sends P L L' \<longleftrightarrow> (\<exists>fs. lk_sent L' = lk_sent L @ fs \<and> list_all P fs)"

lemma sends_refl [simp]: "sends P L L"
  by (simp add: sends_def)

lemma sends_trans [trans]: "sends P L1 L2 \<Longrightarrow> sends P L2 L3 \<Longrightarrow> sends P L1 L3"
  unfolding sends_def by (metis append.assoc list_all_append)

lemma sends_one: "lk_sent L' = lk_sent L @ [f] \<Longrightarrow> P f \<Longrightarrow> sends P L L'"
  by (auto simp: sends_def)

text \<open>Requests other than clunks: they give nothing back.\<close>

definition opens :: "byte list \<Rightarrow> bool" where
  "opens f \<longleftrightarrow> f ! 4 \<noteq> 120"

lemma frame_type: "frame (t # b) ! 4 = t"
  by (simp add: frame_def np32_def)

lemma opens_frame: "t \<noteq> 120 \<Longrightarrow> opens (frame (t # b))"
  by (simp add: opens_def frame_type)

lemma clunk_not_kept: "\<not> opens (clunk_of fid)"
  by (simp add: opens_def clunk_of_def b_clunk_def frame_type)

lemma rpc_opens: "conv_rpc E (t # b) L = (r, L1) \<Longrightarrow> t \<noteq> 120 \<Longrightarrow> sends opens L L1"
  using rpc_sent opens_frame by (intro sends_one [where P = opens]) auto

lemma setup_keeps: "conv_setup E L = (r, L1) \<Longrightarrow> sends opens L L1"
  unfolding conv_setup_def conv_do_version_def conv_do_attach_def
  by (auto split: prod.splits bool.splits dest!: rpc_opens intro: sends_trans)

lemma walk_open_keeps: "walk_open E fid path mode L = (r, L1) \<Longrightarrow> sends opens L L1"
  unfolding walk_open_def conv_do_walk_def conv_do_open_def b_walk_def b_open_def Let_def
  by (auto split: prod.splits bool.splits dest!: rpc_opens intro: sends_trans)

lemma read_keeps: "conv_do_read E fid off cap L = (r, L1) \<Longrightarrow> sends opens L L1"
  unfolding conv_do_read_def by (auto simp: Let_def split: prod.splits if_splits dest!: rpc_opens)

lemma write_keeps: "conv_do_write E fid d L = (r, L1) \<Longrightarrow> sends opens L L1"
  unfolding conv_do_write_def conv_do_pwrite_def by (auto split: prod.splits if_splits dest!: rpc_opens)

lemma clone_keeps: "clone_number E strict fid cap L = (r, L1) \<Longrightarrow> sends opens L L1"
  unfolding clone_number_def
  by (auto split: prod.splits bool.splits option.splits dest!: walk_open_keeps read_keeps intro: sends_trans)

text \<open>
  What holds between the states before and after each of the two operations holds between those of
  everything that is built from them.
\<close>

locale mesh_steps =
  fixes M :: "'s mesh_ops" and R :: "'s \<Rightarrow> 's \<Rightarrow> bool"
  assumes refl: "R s s"
    and trans: "R a b \<Longrightarrow> R b c \<Longrightarrow> R a c"
    and wr: "mo_write M m s = (w, s1) \<Longrightarrow> R s s1"
    and rd: "mo_read M n s = (r, s2) \<Longrightarrow> R s s2"
begin

lemma reads: "bridge_reads M want k s = (r, s') \<Longrightarrow> R s s'"
proof (induction k arbitrary: s)
  case (Suc k)
  then show ?case
    by (auto simp: refl split: prod.splits option.splits if_splits dest!: rd intro: trans)
qed (auto simp: refl)

lemma attempts: "bridge_attempts M msg n s = (r, s') \<Longrightarrow> R s s'"
proof (induction n arbitrary: s)
  case (Suc n)
  then show ?case
    by (auto simp: refl split: prod.splits option.splits if_splits dest!: wr reads intro: trans)
qed (auto simp: refl)

lemma client: "bridge_client fuel M C evs out s = (r, s') \<Longrightarrow> R s s'"
proof (induction fuel arbitrary: evs out s)
  case (Suc fuel)
  then show ?case
    by (auto simp: refl Let_def split: prod.splits option.splits if_splits dest!: attempts intro: trans)
qed (auto simp: refl)

lemma clients: "bridge_clients M Cs s = (r, s') \<Longrightarrow> R s s'"
proof (induction Cs arbitrary: r s)
  case (Cons x Cs)
  then show ?case
    by (cases x) (auto simp: refl split: prod.splits option.splits dest!: client intro: trans)
qed (auto simp: refl)

lemma polls: "probe_polls M n s = (r, s') \<Longrightarrow> R s s'"
proof (induction n arbitrary: s)
  case (Suc n)
  then show ?case
    by (auto simp: refl split: prod.splits option.splits if_splits dest!: rd intro: trans)
qed (auto simp: refl)

lemma inner: "inner_send_recv M t n s = (r, s') \<Longrightarrow> R s s'"
  by (auto simp: inner_send_recv_def split: prod.splits option.splits if_splits dest!: wr polls intro: trans)

lemma open_msgs: "probe_open M ts rb s = (r, s') \<Longrightarrow> R s s'"
proof (induction ts arbitrary: rb s)
  case (Cons x ts)
  then show ?case
    by (cases x) (auto simp: refl Let_def split: prod.splits option.splits if_splits dest!: inner intro: trans)
qed (auto simp: refl)

lemma drain: "probe_drain M n rb s = (r, s') \<Longrightarrow> R s s'"
proof (induction n arbitrary: rb s)
  case (Suc n)
  then show ?case
    by (auto simp: refl split: prod.splits option.splits if_splits dest!: rd intro: trans)
qed (auto simp: refl)

end

interpretation opened: mesh_steps "conv_mesh E" "sends opens" for E
  by unfold_locales (auto simp: conv_mesh_def intro: sends_trans dest: write_keeps read_keeps)

subsection \<open>Fids given back\<close>

definition opening_frames :: "byte list list" where
  "opening_frames = [version_frame, attach_frame, frame (b_walk 1 0 1 clone_path), frame (b_open 1 1 2)]"

lemma setup_sent:
  "conv_setup E L = (r, L1) \<Longrightarrow>
     lk_sent L1 = lk_sent L @ take 2 opening_frames \<or> \<not> r \<and> lk_sent L1 = lk_sent L @ take 1 opening_frames"
  unfolding conv_setup_def opening_frames_def
  by (auto split: prod.splits bool.splits dest!: version_sent attach_sent)

lemma clone_refused:
  "clone_number E False 1 cap L = (Some None, L1) \<Longrightarrow> lk_sent L = s @ take 2 opening_frames \<Longrightarrow>
     lk_sent L1 = s @ take 3 opening_frames \<or> lk_sent L1 = s @ take 4 opening_frames"
  unfolding clone_number_def walk_open_def opening_frames_def
  by (auto split: prod.splits bool.splits option.splits dest!: walk_sent open_sent simp: numeral_eq_Suc)

text \<open>How a command leaves the session: nothing was opened, or what was is given back at the end.\<close>

definition untouched :: "flink \<Rightarrow> flink \<Rightarrow> bool" where
  "untouched L L' \<longleftrightarrow> (\<exists>k \<le> 4. lk_sent L' = lk_sent L @ take k opening_frames)"

definition gives_back :: "u32 list \<Rightarrow> flink \<Rightarrow> flink \<Rightarrow> bool" where
  "gives_back fids L L' \<longleftrightarrow> (\<exists>fs. lk_sent L' = lk_sent L @ fs @ map clunk_of fids \<and> list_all opens fs)"

lemma untouchedI: "lk_sent L' = lk_sent L @ take k opening_frames \<Longrightarrow> k \<le> 4 \<Longrightarrow> untouched L L'"
  by (auto simp: untouched_def)

lemma gives_backI: "sends opens L L0 \<Longrightarrow> lk_sent L' = lk_sent L0 @ map clunk_of fids \<Longrightarrow> gives_back fids L L'"
  by (auto simp: sends_def gives_back_def)

lemma leave_gives_back: "sends opens L L1 \<Longrightarrow> gives_back [2, 1, 0] L (conv_leave E L1)"
  by (rule gives_backI) (simp_all add: leave_sent)

lemma join_fails:
  assumes "conv_join E cap cmd file mode L = (Some None, L')"
  shows "untouched L L' \<or> gives_back [1, 0] L L'"
proof -
  obtain b L1 where st: "conv_setup E L = (b, L1)" by fastforce
  note k1 = setup_keeps [OF st] and s1 = setup_sent [OF st]
  show ?thesis
  proof (cases b)
    case False
    then have "L' = L1" using assms st by (simp add: conv_join_def)
    then have "untouched L L'" using s1 untouchedI [of L' L 1] untouchedI [of L' L 2] by auto
    then show ?thesis by simp
  next
    case True
    then have s2: "lk_sent L1 = lk_sent L @ take 2 opening_frames" using s1 by simp
    obtain r L2 where cl: "clone_number E False 1 cap L1 = (r, L2)" by fastforce
    note k2 = sends_trans [OF k1 clone_keeps [OF cl]]
    show ?thesis
    proof (cases "r = Some None")
      case None: True
      then have "L' = L2" using assms st cl True by (simp add: conv_join_def)
      then have "untouched L L'" using clone_refused [OF cl [unfolded None] s2] untouchedI [of L' L 3] untouchedI [of L' L 4] by auto
      then show ?thesis by simp
    next
      case False
      then obtain L3 where "sends opens L2 L3" "L' = conv_do_clunk E 0 (conv_do_clunk E 1 L3)"
        using assms st cl True
        by (auto simp: conv_join_def split: option.splits prod.splits bool.splits if_splits
            dest: write_keeps walk_open_keeps intro: sends_trans)
      then show ?thesis using gives_backI [OF sends_trans [OF k2], of L3 L' "[1, 0]"] by simp
    qed
  qed
qed

lemma join_keeps: "conv_join E cap cmd file mode L = (Some (Some n), L') \<Longrightarrow> sends opens L L'"
  unfolding conv_join_def
  by (auto split: option.splits prod.splits bool.splits if_splits
      dest!: setup_keeps clone_keeps write_keeps walk_open_keeps intro: sends_trans)

lemma send_loop_keeps: "send_loop E stop msg r k L = (oks, L') \<Longrightarrow> sends opens L L'"
proof (induction r arbitrary: k L oks)
  case (Suc r)
  then show ?case
    by (auto split: prod.splits option.splits if_splits dest!: write_keeps intro: sends_trans)
qed simp

lemma recv_loop_keeps: "recv_loop E stop r k L = (ls, L') \<Longrightarrow> sends opens L L'"
proof (induction r arbitrary: k L ls)
  case (Suc r)
  then show ?case
    by (auto split: prod.splits option.splits if_splits dest!: read_keeps intro: sends_trans)
qed simp

text \<open>The commands that hold one conversation for a while.\<close>

fun tidy :: "conv_cmd \<Rightarrow> bool" where
  "tidy (CRecv _) = True" | "tidy (CBrecv _) = True" | "tidy CBstatus = True" | "tidy (CBsend _) = True"
| "tidy (CBsendn _ _) = True" | "tidy (CCrecv _) = True" | "tidy (CSendn _ _ _) = True"
| "tidy (CSendbig _ _ _ _) = True" | "tidy (CAsend _ _) = True" | "tidy _ = False"

definition leaves :: "'a option \<Rightarrow> flink \<Rightarrow> flink \<Rightarrow> bool" where
  "leaves r L L' \<longleftrightarrow>
     (if r = None then untouched L L' \<or> gives_back [1, 0] L L' else gives_back [2, 1, 0] L L')"

lemma send_session_leaves:
  "send_session E stop cap cmd msg cnt L = (Some r, L') \<Longrightarrow>
     leaves r L L'"
  unfolding leaves_def send_session_def
  by (auto split: option.splits prod.splits if_splits dest: join_fails dest!: join_keeps send_loop_keeps
      intro!: leave_gives_back intro: sends_trans)

lemma recv_session_leaves:
  "recv_session E stop cmd cnt L = (Some r, L') \<Longrightarrow>
     leaves r L L'"
  unfolding leaves_def recv_session_def
  by (auto split: option.splits prod.splits if_splits dest: join_fails dest!: join_keeps recv_loop_keeps
      intro!: leave_gives_back intro: sends_trans)

lemma bstatus_leaves:
  "do_bstatus E L = (Some r, L') \<Longrightarrow>
     leaves r L L'"
  unfolding leaves_def do_bstatus_def
  by (auto split: option.splits prod.splits if_splits dest: join_fails dest!: join_keeps read_keeps
      intro!: leave_gives_back intro: sends_trans)

lemma bsend_leaves:
  "do_bsend E msg L = (Some r, L') \<Longrightarrow>
     leaves r L L'"
  unfolding leaves_def do_bsend_def
  by (auto split: option.splits prod.splits if_splits dest: join_fails dest!: join_keeps write_keeps
      intro!: leave_gives_back intro: sends_trans)

lemma untouched_refl: "untouched L L"
  by (auto simp: untouched_def intro: exI [of _ 0])

lemma asend_leaves:
  "do_asend E dst msg L = (Some r, L') \<Longrightarrow>
     leaves r L L'"
  unfolding leaves_def do_asend_def
  by (auto split: option.splits prod.splits if_splits dest: join_fails dest!: join_keeps write_keeps
      intro!: leave_gives_back intro: sends_trans untouched_refl)

lemma crecv_leaves:
  "do_crecv E peer L = (Some r, L') \<Longrightarrow> untouched L L' \<or> gives_back [1, 0] L L' \<or> gives_back [2, 1, 0] L L'"
  "do_crecv E peer L = (Some (Some d), L') \<Longrightarrow> gives_back [2, 1, 0] L L'"
  unfolding do_crecv_def
  by (auto split: option.splits prod.splits if_splits dest: join_fails dest!: join_keeps read_keeps
      intro: leave_gives_back sends_trans)

lemma bsendn_leaves: "do_bsendn E cnt msg L = (Some x, L1) \<Longrightarrow> leaves x L L1"
  unfolding do_bsendn_def leaves_def
  by (auto split: option.splits prod.splits dest!: send_session_leaves simp: leaves_def)

lemma exit_leaves:
  assumes "exit_of res = (Some status, L')" and "\<And>x L1. res = (Some x, L1) \<Longrightarrow> leaves x L L1"
  shows "status \<in> {0, 1} \<and> (status = 0 \<longrightarrow> gives_back [2, 1, 0] L L') \<and>
    (status = 1 \<longrightarrow> untouched L L' \<or> gives_back [1, 0] L L')"
  using assms(1) assms(2) [of "the (fst res)" "snd res"]
  by (cases res) (auto simp: exit_of_def leaves_def split: option.splits)


subsection \<open>Large datagrams\<close>

text \<open>
  The large datagrams have the length asked for and begin with their number. The letters follow
  their place from there on, except for the first, which is always an A.
\<close>

theorem big_payload_pattern:
  assumes "length (big_tag k) < n"
  shows "length (big_payload n k) = n \<and> take (length (big_tag k)) (big_payload n k) = big_tag k \<and>
    big_payload n k ! length (big_tag k) = 65 \<and>
    (\<forall>i < n. length (big_tag k) < i \<longrightarrow> big_payload n k ! i = of_nat (65 + i mod 26))"
proof -
  let ?pat = "map (\<lambda>i. of_nat (65 + i mod 26)) [0..<n] :: byte list"
  let ?p = "overlay (big_tag k @ [0]) ?pat"
  have b: "big_payload n k = ?p[length (big_tag k) := 65]"
    using assms by (simp add: big_payload_def snprintf_out_def Let_def)
  have l: "length ?p = n" using assms by (simp add: overlay_def)
  have "?p ! i = ?pat ! i" if "length (big_tag k) < i" "i < n" for i
    using that assms by (simp add: overlay_def nth_append)
  then show ?thesis using l assms by (auto simp: b) (simp add: overlay_def)
qed

end
