(* ===== verification/HostNode.thy ===== *)
theory HostNode
  imports HostConvProps NetReach
begin

text \<open>
  The host's commands against a node: a server that answers the reads of a data file with what the
  node's conversation layer gives, and the node's view of what the host writes.
\<close>

subsection \<open>Answered requests\<close>

definition idle :: "flink \<Rightarrow> bool" where
  "idle L \<longleftrightarrow> list_all steady (lk_in L) \<and> bytes_of (lk_in L) = []"

text \<open>A port that answers a frame, the last of those sent, with one message.\<close>

definition answered :: "port \<Rightarrow> byte list list \<Rightarrow> byte list \<Rightarrow> bool" where
  "answered P fs m \<longleftrightarrow> reply_ok m \<and> po_writes P fs \<and>
     list_all steady (po_reply P fs) \<and> bytes_of (po_reply P fs) = m"

lemma conv_rpc_answered:
  assumes "idle L" and a: "answered P (lk_sent L @ [frame body]) m"
  shows "\<exists>L'. conv_rpc P body L = (Some (m ! 4), L') \<and> take (length m - 4) (lk_mbuf L') = drop 4 m \<and>
    idle L' \<and> lk_sent L' = lk_sent L @ [frame body]"
proof -
  have m: "reply_ok m" and w: "po_writes P (lk_sent L @ [frame body])" using a by (simp_all add: answered_def)
  have p: "list_all steady (lk_in L @ po_reply P (lk_sent L @ [frame body]))"
    "bytes_of (lk_in L @ po_reply P (lk_sent L @ [frame body])) = m @ []"
    using assms by (auto simp: idle_def answered_def)
  note h = message_head [OF m]
  obtain e1 e2 where e: "conv_readn 4 [] (lk_in L @ po_reply P (lk_sent L @ [frame body])) = (True, take 4 m, e1)"
    "conv_readn (length m - 4) [] e1 = (True, drop 4 m, e2)" "list_all steady e2" "bytes_of e2 = []"
    using message_lines [OF m p, of "[]"] by auto
  have "overlay (drop 4 m) x ! 0 = m ! 4" for x using h by (simp add: overlay_nth0)
  then show ?thesis
    using e w h unfolding frame_def
    by (intro exI [of _ "snd (conv_rpc P body L)"]) (simp add: conv_rpc_def Let_def idle_def, simp add: overlay_def)
qed

definition data_frame :: "u32 \<Rightarrow> nat \<Rightarrow> byte list" where
  "data_frame fid cap = frame ([116] @ np16 1 @ np32 fid @ np32 0 @ np32 0 @ np32 (of_nat cap))"

lemma conv_read_answered:
  assumes "idle L" and "answered P (lk_sent L @ [data_frame fid cap]) (rread tag d)" and "length d \<le> cap" "length d \<le> 8181"
  shows "\<exists>L'. conv_do_read P fid 0 cap L = (Some (Some d), L') \<and> idle L' \<and> lk_sent L' = lk_sent L @ [data_frame fid cap]"
proof -
  obtain L' where L': "conv_rpc P ([116] @ np16 1 @ np32 fid @ np32 0 @ np32 0 @ np32 (of_nat cap)) L = (Some (rread tag d ! 4), L')"
    "take (length (rread tag d) - 4) (lk_mbuf L') = drop 4 (rread tag d)" "idle L'" "lk_sent L' = lk_sent L @ [data_frame fid cap]"
    using conv_rpc_answered [OF assms(1) assms(2) [unfolded data_frame_def]] by (auto simp: data_frame_def)
  note r = rread_reply [OF L'(2) assms(3,4)]
  show ?thesis using L' r assms(3,4) by (simp add: conv_do_read_def)
qed

subsection \<open>Datagrams from the node to the output\<close>

text \<open>
  The server answers the next \<open>k\<close> reads of the data file of slot \<open>i\<close> with what the node gives, the
  node's state after each read being that of the next.
\<close>

fun node_serves :: "port \<Rightarrow> 'q env \<Rightarrow> nat \<Rightarrow> nat \<Rightarrow> byte list list \<Rightarrow> 'q net \<Rightarrow> bool" where
  "node_serves P E i 0 fs N = True"
| "node_serves P E i (Suc k) fs N =
     (case anet_read E (NData i) 0 599 N of
        (Returns (Inr d), N1) \<Rightarrow>
          (\<exists>tag. answered P (fs @ [data_frame 2 599]) (rread tag d)) \<and>
          node_serves P E i k (fs @ [data_frame 2 599]) N1
      | _ \<Rightarrow> False)"

lemma in_use_after_read:
  assumes "net_wf E cts cap N" "i < AETHER_MAX_CONNS" "cv_in_use (conv_of N i)" "anet_read E (NData i) off cnt N = (r, N1)"
  shows "cv_in_use (conv_of N1 i)"
  using assms slot_in_use [OF assms(1-3)]
  by (auto simp: read_NData read_data_def Let_def net_simps split: option.splits if_splits)

lemma node_serves_queue:
  assumes k: "msgq_ok E cts cap" and i: "i < AETHER_MAX_CONNS"
  shows "net_wf E cts cap N \<Longrightarrow> cv_in_use (conv_of N i) \<Longrightarrow> src_prefixed (cv_state (conv_of N i)) \<Longrightarrow>
    cts (cv_rxq (conv_of N i)) = ds @ more' \<Longrightarrow> \<forall>d \<in> set ds. dg_data d \<noteq> [] \<and> length (dg_data d) \<le> 593 \<Longrightarrow>
    node_serves P E i (length ds) (lk_sent L) N \<Longrightarrow> idle L \<Longrightarrow>
    fst (recv_loop P (\<lambda>_. False) (length ds) j L) =
      Some (map (\<lambda>d. From (length (dg_data d)) (dg_src d) (cstr (dg_data d))) ds)"
proof (induction ds arbitrary: N L j)
  case (Cons d ds)
  note d = Cons.prems(5) [THEN bspec, of d, simplified]
  let ?msg = "addr_bytes (dg_src d) @ dg_data d"
  have q: "cts (cv_rxq (conv_of N i)) = d # (ds @ more')" using Cons.prems(4) by simp
  obtain N1 where N1: "anet_read E (NData i) 0 599 N = (Returns (Inr ?msg), N1)"
    "cts (cv_rxq (conv_of N1 i)) = ds @ more'" "cv_state (conv_of N1 i) = cv_state (conv_of N i)"
    using read_oldest [OF k Cons.prems(1) i Cons.prems(2) q, of 0 599] Cons.prems(3) d by auto
  have w1: "net_wf E cts cap N1" using net_wf_read [OF k Cons.prems(1), of "NData i" 0 599] N1(1) by simp
  have u1: "cv_in_use (conv_of N1 i)" by (rule in_use_after_read [OF Cons.prems(1) i Cons.prems(2) N1(1)])
  obtain tag where a: "answered P (lk_sent L @ [data_frame 2 599]) (rread tag ?msg)"
    and rest: "node_serves P E i (length ds) (lk_sent L @ [data_frame 2 599]) N1"
    using Cons.prems(6) N1(1) by auto
  obtain L1 where L1: "conv_do_read P 2 0 599 L = (Some (Some ?msg), L1)" "idle L1" "lk_sent L1 = lk_sent L @ [data_frame 2 599]"
    using conv_read_answered [OF Cons.prems(7) a] d by auto
  have "fst (recv_loop P (\<lambda>_. False) (length ds) (Suc j) L1) =
      Some (map (\<lambda>d. From (length (dg_data d)) (dg_src d) (cstr (dg_data d))) ds)"
    using Cons.IH [OF w1 u1 _ N1(2) _ _ L1(2)] Cons.prems(3,5) N1(3) rest L1(3) by simp
  then show ?case
    using L1(1) d by (auto simp: rline_of_def split: option.splits prod.splits)
qed simp

text \<open>
  C15. What the receiving commands print is what the node's conversation holds: from an announced or
  broadcast conversation of a well-formed node, with no other reader, a command that reads as
  many datagrams as are queued prints each of them, oldest first, with its length, its sender and
  its text. (A datagram has at most 593 bytes here, and the server may split its answers.)
\<close>

theorem queue_is_printed:
  assumes "msgq_ok E cts cap" and "net_wf E cts cap N" and "i < AETHER_MAX_CONNS"
    and "cv_in_use (conv_of N i)" and "src_prefixed (cv_state (conv_of N i))"
    and "cts (cv_rxq (conv_of N i)) = ds" and "\<forall>d \<in> set ds. dg_data d \<noteq> [] \<and> length (dg_data d) \<le> 593"
    and "idle L" and "node_serves P E i (length ds) (lk_sent L) N"
  shows "fst (recv_loop P (\<lambda>_. False) (length ds) 0 L) =
    Some (map (\<lambda>d. From (length (dg_data d)) (dg_src d) (cstr (dg_data d))) ds)"
  using node_serves_queue [OF assms(1,3,2,4,5), of ds "[]" P L 0] assms(6-9) by simp

subsection \<open>What the node makes of the commands\<close>

lemma snprintf_send_fits: "length s < cap \<Longrightarrow> snprintf_send cap s = Some s"
  by (simp add: snprintf_send_def snprintf_out_def)

lemma fmt_bcast: "fmt_addr addr_bcast = ascii ''ff:ff:ff:ff:ff:ff''"
  by code_simp

lemma connect_to_fmt: "connect_to (fmt_addr a) = Some (connect_cmd a)"
  by (simp add: connect_to_def connect_cmd_def snprintf_send_fits ascii_def)

lemma connect_bcast_cmd: "connect_bcast = Some (connect_cmd addr_bcast)"
proof -
  have "ascii ''connect '' @ ascii ''ff:ff:ff:ff:ff:ff'' = ascii ''connect ff:ff:ff:ff:ff:ff''" by (simp add: ascii_def)
  then show ?thesis by (simp add: connect_bcast_def connect_cmd_def fmt_bcast)
qed

lemma connect_command: "ctl_command (connect_cmd a) = connect_cmd a"
proof -
  have l: "length (connect_cmd a) = 25" by (simp add: connect_cmd_def ascii_def)
  have "fmt_addr a \<noteq> []" using length_fmt_addr [of a] by fastforce
  then have "last (connect_cmd a) \<in> set (fmt_addr a)" by (simp add: connect_cmd_def)
  then have "last (connect_cmd a) \<notin> {nl, cr, space}" using fmt_addr_chars by fastforce
  moreover have "0 \<notin> set (connect_cmd a)" using fmt_addr_chars by (simp add: connect_cmd_def ascii_def)
  ultimately show ?thesis using l by (intro ctl_command_plain(2)) auto
qed

lemma announce_command: "ctl_command (ascii ''announce'') = ascii ''announce''"
  by code_simp

lemma announce_exec: "cv_state (conv_of N i) = CONV_UNCONNECTED \<Longrightarrow>
    ctl_exec E i (ascii ''announce'') N = (Inr (), upd_conv i (\<lambda>c. c\<lparr>cv_state := CONV_ANNOUNCED\<rparr>) N)"
  by (simp add: ctl_exec_def is_prefix_def ascii_def)

lemma parse6_fmt: "parse6 (fmt_addr a) = Some (addr_bytes a)"
proof -
  obtain a0 a1 a2 a3 a4 a5 where a: "a = Addr6 a0 a1 a2 a3 a4 a5" by (cases a)
  have "scan_colon_x 6 (fmt_addr a) = map ucast [a0, a1, a2, a3, a4, a5]"
    using scan_colon_last [of "[]" a5]
    by (simp add: a fmt_addr_def numeral_eq_Suc scan_colon_step del: scan_colon_x.simps)
  then show ?thesis by (simp add: parse6_def a)
qed

text \<open>
  The host's control commands mean to the node what the host intends: on a conversation not yet
  bound, \<open>connect\<close> with a printed address binds it to that peer, with the broadcast address it
  joins the party line, \<open>announce\<close> announces it; each is accepted whole. The datagram of the
  announced sender, addressed with a printed address, is sent by the node to that peer's route,
  once and without the six bytes of the address.
\<close>

theorem host_and_node_agree:
  assumes w: "net_wf E cts cap N" and i: "i < AETHER_MAX_CONNS" and u: "cv_in_use (conv_of N i)"
    and st: "cv_state (conv_of N i) = CONV_UNCONNECTED" and room: "length msg \<le> e_max_msg E" "length msg \<le> 512"
  defines "bound f \<equiv> upd_conv i f N"
  shows "(a \<noteq> addr_bcast \<longrightarrow> (\<exists>c. connect_to (fmt_addr a) = Some c \<and>
      anet_write E (NCtl i) c N = (Inr (length c), bound (\<lambda>v. v\<lparr>cv_peer := a, cv_state := CONV_CONNECTED\<rparr>)))) \<and>
    (\<exists>c. connect_bcast = Some c \<and>
      anet_write E (NCtl i) c N = (Inr (length c), bound (\<lambda>v. v\<lparr>cv_state := CONV_BCAST\<rparr>))) \<and>
    (\<exists>c N1 dst. announce_cmd = Some c \<and> anet_write E (NCtl i) c N = (Inr (length c), N1) \<and>
      cv_state (conv_of N1 i) = CONV_ANNOUNCED \<and> parse6 (fmt_addr a) = Some dst \<and>
      n_trace (snd (anet_write E (NData i) (dst @ take 512 msg) N1)) = n_trace N1 @
        [CResolve a, CReliable (case e_eui_to_addr E (n_trace N1) a of Some r \<Rightarrow> r | None \<Rightarrow> a) msg AETHER_NET_RETRIES])"
proof -
  note s = slot_in_use [OF w i u]
  note wr = write_NCtl [OF s(1)]
  have con: "anet_write E (NCtl i) (connect_cmd a) N = (Inr (length (connect_cmd a)),
      bound (\<lambda>v. v\<lparr>cv_peer := a, cv_state := CONV_CONNECTED\<rparr>))" if "a \<noteq> addr_bcast"
    using that by (simp add: wr connect_command ctl_exec_connect [OF st] bound_def)
  have bc: "anet_write E (NCtl i) (connect_cmd addr_bcast) N = (Inr (length (connect_cmd addr_bcast)),
      bound (\<lambda>v. v\<lparr>cv_state := CONV_BCAST\<rparr>))"
    by (simp add: wr connect_command ctl_exec_connect [OF st] bound_def)
  let ?N1 = "upd_conv i (\<lambda>v. v\<lparr>cv_state := CONV_ANNOUNCED\<rparr>) N"
  have ann: "anet_write E (NCtl i) (ascii ''announce'') N = (Inr 8, ?N1)"
    by (simp add: wr announce_command announce_exec [OF st])
  have c1: "cv_state (conv_of ?N1 i) = CONV_ANNOUNCED" using s by (simp add: net_simps)
  have b1: "slot_built E (n_nodes ?N1) i" using s by (simp add: upd_conv_def)
  have "n_trace (snd (anet_write E (NData i) (addr_bytes a @ msg) ?N1)) = n_trace ?N1 @
      [CResolve a, CReliable (case e_eui_to_addr E (n_trace ?N1) a of Some r \<Rightarrow> r | None \<Rightarrow> a) msg AETHER_NET_RETRIES]"
    using room c1
    by (auto simp: write_NData [OF b1] write_data_def send_unicast_def resolve_dst_def eui_to_addr_def
        mesh_send_reliable_def count_tx_def log_call_def split: option.splits sum.splits prod.splits)
  then show ?thesis
    using ann c1 con bc room(2) by (auto simp: parse6_fmt announce_cmd_def connect_to_fmt connect_bcast_cmd)
qed

end
