(* ===== verification/HostBridgeProps.thy ===== *)
theory HostBridgeProps
  imports HostConvProps
begin

text \<open>
  Properties of the bridge and of the probe: what the bridge forwards and in which order, what a
  reused tag makes of it, what the probe counts, and the fids neither gives back on an error.
\<close>

subsection \<open>Errors\<close>

text \<open>
  A bridge or probe that ends with the exit status 1 has given back no fid at all: if it failed
  after the conversation was bound, the node still holds it bound.
\<close>

theorem failed_bridge_keeps:
  assumes "do_bridge E listens peer Cs L = (Some None, L') \<or> do_probe E rb peer cnt L = (Some None, L')"
  shows "\<exists>fs. lk_sent L' = lk_sent L @ fs \<and> (\<forall>fid. clunk_of fid \<notin> set fs)"
proof -
  have tunnel: "conv_tunnel E peer L = (r, L1) \<Longrightarrow> sends opens L L1" for r L1
    unfolding conv_tunnel_def
    by (auto split: option.splits prod.splits bool.splits if_splits
        dest!: setup_keeps clone_keeps write_keeps walk_open_keeps intro: sends_trans)
  have "do_bridge E listens peer Cs L = (Some None, L') \<Longrightarrow> sends opens L L'"
    unfolding do_bridge_def
    by (auto split: option.splits prod.splits if_splits dest!: tunnel opened.clients intro: sends_trans)
  moreover have "do_probe E rb peer cnt L = (Some None, L') \<Longrightarrow> sends opens L L'"
    unfolding do_probe_def
    by (auto split: option.splits prod.splits if_splits dest!: tunnel opened.drain opened.open_msgs intro: sends_trans)
  ultimately have "sends opens L L'" using assms by blast
  then show ?thesis unfolding sends_def using clunk_not_kept by (auto simp: list_all_iff)
qed

subsection \<open>What the bridge forwards\<close>

text \<open>The operations of the bridge with a log of what they did.\<close>

datatype mesh_ev = MW "byte list" "int option" | MR "byte list outcome"

definition logged_mesh :: "'s mesh_ops \<Rightarrow> ('s \<times> mesh_ev list) mesh_ops" where
  "logged_mesh M =
     \<lparr>mo_write = (\<lambda>m sl. case mo_write M m (fst sl) of (w, s) \<Rightarrow> (w, s, snd sl @ [MW m w])),
      mo_read = (\<lambda>n sl. case mo_read M n (fst sl) of (r, s) \<Rightarrow> (r, s, snd sl @ [MR r]))\<rparr>"

fun writes_only :: "byte list \<Rightarrow> mesh_ev \<Rightarrow> bool" where
  "writes_only m (MW d w) = (d = m)"
| "writes_only m (MR r) = True"

fun matches :: "u16 \<Rightarrow> mesh_ev \<Rightarrow> bool" where
  "matches want (MR (Some (Some r))) = (7 \<le> length r \<and> tag_of r = want)"
| "matches want _ = False"

fun is_MR :: "mesh_ev \<Rightarrow> bool" where
  "is_MR (MR r) = True" | "is_MR (MW m w) = False"

lemma bridge_reads_log:
  "bridge_reads (logged_mesh M) want k (s, log) = (x, s', log') \<Longrightarrow>
     \<exists>l. log' = log @ l \<and> list_all is_MR l \<and> length l \<le> k \<and>
       (case x of Some (Some r) \<Rightarrow> l \<noteq> [] \<and> last l = MR (Some (Some r)) \<and> matches want (last l) \<and>
            (\<forall>e \<in> set (butlast l). \<not> matches want e)
        | _ \<Rightarrow> \<forall>e \<in> set l. \<not> matches want e)"
proof (induction k arbitrary: s log)
  case (Suc k)
  obtain r s1 where r: "mo_read M 600 s = (r, s1)" by fastforce
  have lr: "mo_read (logged_mesh M) 600 (s, log) = (r, s1, log @ [MR r])" by (simp add: logged_mesh_def r)
  show ?case
  proof (cases "\<exists>d. r = Some (Some d) \<and> d \<noteq> [] \<and> \<not> (7 \<le> length d \<and> tag_of d = want)")
    case True
    then obtain d where d: "r = Some (Some d)" "d \<noteq> []" "\<not> (7 \<le> length d \<and> tag_of d = want)" by blast
    then have "bridge_reads (logged_mesh M) want k (s1, log @ [MR r]) = (x, s', log')"
      using Suc.prems lr by (auto simp: tag_of_def)
    from Suc.IH [OF this] obtain l where l: "log' = (log @ [MR r]) @ l" "list_all is_MR l" "length l \<le> k"
      "case x of Some (Some r) \<Rightarrow> l \<noteq> [] \<and> last l = MR (Some (Some r)) \<and> matches want (last l) \<and>
            (\<forall>e \<in> set (butlast l). \<not> matches want e)
        | _ \<Rightarrow> \<forall>e \<in> set l. \<not> matches want e" by blast
    have "\<not> matches want (MR r)" using d by auto
    then show ?thesis using l by (intro exI [of _ "MR r # l"]) (auto split: option.splits)
  next
    case False
    then show ?thesis using Suc.prems lr
      by (intro exI [of _ "[MR r]"]) (auto simp: tag_of_def split: option.splits if_splits)
  qed
qed auto

text \<open>What one request leaves in the log, with its reply.\<close>

definition exchange :: "byte list \<Rightarrow> byte list \<Rightarrow> mesh_ev list \<Rightarrow> bool" where
  "exchange m r l \<longleftrightarrow> 7 \<le> length r \<and> tag_of r = tag_of m \<and> l \<noteq> [] \<and> last l = MR (Some (Some r)) \<and>
     list_all (writes_only m) l \<and> (\<forall>e \<in> set (butlast l). \<not> matches (tag_of m) e)"

lemma is_MR_writes: "list_all is_MR l \<Longrightarrow> list_all (writes_only m) l \<and> filter (\<lambda>e. \<not> is_MR e) l = []"
proof (induction l)
  case (Cons e l)
  then show ?case by (cases e) auto
qed simp

lemma bridge_attempts_log:
  "bridge_attempts (logged_mesh M) m n (s, log) = (x, s', log') \<Longrightarrow>
     \<exists>l. log' = log @ l \<and> list_all (writes_only m) l \<and> length (filter (\<lambda>e. \<not> is_MR e) l) \<le> n \<and> length l \<le> 7 * n \<and>
       (case x of Some (Some r) \<Rightarrow> exchange m r l | _ \<Rightarrow> \<forall>e \<in> set l. \<not> matches (tag_of m) e)"
proof (induction n arbitrary: s log)
  case (Suc n)
  obtain w s1 where w: "mo_write M m s = (w, s1)" by fastforce
  have lw: "mo_write (logged_mesh M) m (s, log) = (w, s1, log @ [MW m w])" by (simp add: logged_mesh_def w)
  obtain y s2 log2 where y: "bridge_reads (logged_mesh M) (tag_of m) 6 (s1, log @ [MW m w]) = (y, s2, log2)" by (metis prod_cases3)
  obtain l2 where l2: "log2 = (log @ [MW m w]) @ l2" "list_all is_MR l2" "length l2 \<le> 6"
    "case y of Some (Some r) \<Rightarrow> l2 \<noteq> [] \<and> last l2 = MR (Some (Some r)) \<and> matches (tag_of m) (last l2) \<and>
            (\<forall>e \<in> set (butlast l2). \<not> matches (tag_of m) e)
        | _ \<Rightarrow> \<forall>e \<in> set l2. \<not> matches (tag_of m) e"
    using bridge_reads_log [OF y] by blast
  note wl = is_MR_writes [OF l2(2), of m]
  consider "w = None" | v where "w = Some v" "v < 0" | v where "w = Some v" "\<not> v < 0" "y = Some None"
    | v where "w = Some v" "\<not> v < 0" "y \<noteq> Some None" by (cases w) (force+)
  then show ?case
  proof cases
    case 1
    then show ?thesis using Suc.prems lw by (intro exI [of _ "[MW m w]"]) auto
  next
    case 2
    then have "bridge_attempts (logged_mesh M) m n (s1, log @ [MW m w]) = (x, s', log')" using Suc.prems lw by simp
    from Suc.IH [OF this] obtain l where l: "log' = (log @ [MW m w]) @ l" "list_all (writes_only m) l"
      "length (filter (\<lambda>e. \<not> is_MR e) l) \<le> n" "length l \<le> 7 * n"
      "case x of Some (Some r) \<Rightarrow> exchange m r l | _ \<Rightarrow> \<forall>e \<in> set l. \<not> matches (tag_of m) e" by blast
    then show ?thesis by (intro exI [of _ "MW m w # l"]) (auto simp: exchange_def split: option.splits)
  next
    case 3
    then have "bridge_attempts (logged_mesh M) m n (s2, log2) = (x, s', log')"
      using Suc.prems lw y by (simp add: tag_of_def)
    from Suc.IH [OF this] obtain l where l: "log' = log2 @ l" "list_all (writes_only m) l"
      "length (filter (\<lambda>e. \<not> is_MR e) l) \<le> n" "length l \<le> 7 * n"
      "case x of Some (Some r) \<Rightarrow> exchange m r l | _ \<Rightarrow> \<forall>e \<in> set l. \<not> matches (tag_of m) e" by blast
    then show ?thesis using l2 wl 3
      by (intro exI [of _ "MW m w # l2 @ l"]) (auto simp: exchange_def butlast_append split: option.splits)
  next
    case 4
    then have "x = y" "log' = log2" using Suc.prems lw y by (auto simp: tag_of_def split: option.splits)
    then show ?thesis using l2 wl 4
      by (intro exI [of _ "MW m w # l2"]) (auto simp: exchange_def split: option.splits)
  qed
qed (auto simp: exchange_def)

text \<open>A message taken from the client's bytes.\<close>

lemma conv_readn_bytes:
  "conv_readn n got evs = (True, b, evs') \<Longrightarrow> got @ bytes_of evs = b @ bytes_of evs'"
proof (induction n got evs rule: conv_readn.induct)
  case (2 n got ev evs)
  show ?case
  proof (cases ev)
    case (Bytes d)
    then show ?thesis using 2 by (auto split: if_splits)
  qed (use 2 in \<open>auto split: if_splits\<close>)
qed auto

lemma bridge_get_bytes: "bridge_get evs = Some (m, evs') \<Longrightarrow> bytes_of evs = m @ bytes_of evs'"
  unfolding bridge_get_def readn_fd_def Let_def
  by (auto split: prod.splits bool.splits if_splits dest!: conv_readn_bytes)

text \<open>What the client sends after each of the replies \<open>rs\<close>, those before being \<open>out\<close>.\<close>

fun client_bytes :: "bclient \<Rightarrow> byte list list \<Rightarrow> byte list list \<Rightarrow> byte list" where
  "client_bytes C out [] = []"
| "client_bytes C out (r # rs) = bytes_of (bc_next C (out @ [r])) @ client_bytes C (out @ [r]) rs"

text \<open>
  C14. The bridge keeps its client in step with the peer: the replies written to a client answer the
  messages read from it one for one and in order, each with the tag of its message; a message is
  written to the conversation unchanged, at most four times, and no other message meanwhile; its
  reply is the first datagram read since that bears its tag. Only the last message may stay
  without a reply, and then the connection has ended.
\<close>

theorem bridge_lockstep:
  assumes "bridge_client fuel (logged_mesh M) C evs out (s, log) = (Some out', s', log')"
  shows "\<exists>xs l. out' = out @ map (fst \<circ> snd) xs \<and> log' = log @ concat (map (snd \<circ> snd) xs) @ l \<and>
    (\<forall>(m, r, e) \<in> set xs. exchange m r e \<and> length (filter (\<lambda>v. \<not> is_MR v) e) \<le> 4) \<and>
    (\<exists>m. list_all (writes_only m) l \<and> (\<forall>v \<in> set l. \<not> matches (tag_of m) v)) \<and>
    prefix (concat (map fst xs)) (bytes_of evs @ client_bytes C out (map (fst \<circ> snd) xs))"
  using assms
proof (induction fuel arbitrary: evs out s log)
  case 0
  then show ?case by (intro exI [of _ "[]"]) auto
next
  case (Suc fuel)
  show ?case
  proof (cases "bridge_get evs")
    case None
    then show ?thesis using Suc.prems by (intro exI [of _ "[]"]) auto
  next
    case (Some me)
    obtain m evs1 where me: "bridge_get evs = Some (m, evs1)" using Some by (cases me) simp
    obtain x s1 log1 where at: "bridge_attempts (logged_mesh M) m 4 (s, log) = (x, s1, log1)" by (metis prod_cases3)
    obtain e where e: "log1 = log @ e" "list_all (writes_only m) e" "length (filter (\<lambda>v. \<not> is_MR v) e) \<le> 4"
      "case x of Some (Some r) \<Rightarrow> exchange m r e | _ \<Rightarrow> \<forall>v \<in> set e. \<not> matches (tag_of m) v"
      using bridge_attempts_log [OF at] by blast
    have b: "bytes_of evs = m @ bytes_of evs1" by (rule bridge_get_bytes [OF me])
    show ?thesis
    proof (cases x)
      case None
      then show ?thesis using Suc.prems me at by simp
    next
      case (Some y)
      show ?thesis
      proof (cases y)
        case None
        then have "out' = out" "log' = log1" using Suc.prems me at Some by auto
        then show ?thesis using e Some None by (intro exI [of _ "[]"] exI [of _ e]) auto
      next
        case r: (Some r)
        then have ex: "exchange m r e" using e(4) Some by simp
        show ?thesis
        proof (cases "bc_takes C (out @ [r])")
          case False
          then have "out' = out @ [r]" "log' = log1" using Suc.prems me at Some r by (auto simp: Let_def)
          then show ?thesis using e ex b
            by (intro exI [of _ "[(m, r, e)]"] exI [of _ "[]"]) (auto simp: prefix_def)
        next
          case True
          then have "bridge_client fuel (logged_mesh M) C (evs1 @ bc_next C (out @ [r])) (out @ [r]) (s1, log1) = (Some out', s', log')"
            using Suc.prems me at Some r by (simp add: Let_def)
          from Suc.IH [OF this] obtain xs l where xs: "out' = (out @ [r]) @ map (fst \<circ> snd) xs"
            "log' = log1 @ concat (map (snd \<circ> snd) xs) @ l"
            "\<forall>(m, r, e) \<in> set xs. exchange m r e \<and> length (filter (\<lambda>v. \<not> is_MR v) e) \<le> 4"
            "\<exists>m. list_all (writes_only m) l \<and> (\<forall>v \<in> set l. \<not> matches (tag_of m) v)"
            "prefix (concat (map fst xs)) (bytes_of (evs1 @ bc_next C (out @ [r])) @ client_bytes C (out @ [r]) (map (fst \<circ> snd) xs))"
            by blast
          then show ?thesis using e ex b by (intro exI [of _ "(m, r, e) # xs"] exI [of _ l]) (auto simp: comp_def)
        qed
      qed
    qed
  qed
qed

subsection \<open>Late replies\<close>

text \<open>
  A conversation with a peer that answers every message once: the state is what the next reads
  give, \<open>None\<close> for a read that gives nothing in time.
\<close>

definition mailbox :: "(byte list \<Rightarrow> byte list) \<Rightarrow> byte list option list mesh_ops" where
  "mailbox reply =
     \<lparr>mo_write = (\<lambda>m q. (Some (int (length m)), q @ [Some (reply m)])),
      mo_read = (\<lambda>n q. case q of [] \<Rightarrow> (Some None, []) | x # q1 \<Rightarrow> (Some x, q1))\<rparr>"

lemma mailbox_hit: "7 \<le> length r \<Longrightarrow> tag_of r = want \<Longrightarrow>
    bridge_reads (mailbox reply) want 6 (Some r # q) = (Some (Some r), q)"
  by (auto simp: mailbox_def tag_of_def numeral_eq_Suc)

lemma mailbox_miss: "bridge_reads (mailbox reply) want 6 (None # q) = (Some None, q)"
  by (simp add: mailbox_def numeral_eq_Suc)

lemma mailbox_wr: "mo_write (mailbox reply) m q = (Some (int (length m)), q @ [Some (reply m)])"
  by (simp add: mailbox_def)

lemma mailbox_stale:
  assumes "7 \<le> length old" "tag_of old = tag_of m"
  shows "bridge_attempts (mailbox reply) m (Suc n) [Some old] = (Some (Some old), [Some (reply m)])"
  by (simp add: mailbox_wr tag_of_def [symmetric] mailbox_hit assms)

lemma mailbox_twice:
  assumes "7 \<le> length (reply m)" "tag_of (reply m) = tag_of m"
  shows "bridge_attempts (mailbox reply) m (Suc (Suc n)) [None] = (Some (Some (reply m)), [Some (reply m)])"
  by (simp add: mailbox_wr tag_of_def [symmetric] mailbox_hit mailbox_miss assms)

text \<open>A client that sends the next of its messages after each reply.\<close>

definition asks :: "byte list list \<Rightarrow> bclient" where
  "asks ms = \<lparr>bc_first = (if ms = [] then [] else [Bytes (hd ms)]), bc_takes = (\<lambda>_. True),
     bc_next = (\<lambda>out. if length out < length ms then [Bytes (ms ! length out)] else [])\<rparr>"

lemma bridge_get_message:
  assumes "reply_ok m" "length m \<le> 600"
  shows "bridge_get [Bytes m] = Some (m, [])"
proof -
  note h = message_head [OF assms(1)]
  have "drop 4 m \<noteq> []" using h(3) by simp
  then have "conv_readn 4 [] [Bytes m] = (True, take 4 m, [Bytes (drop 4 m)])"
    "conv_readn (length m - 4) [] [Bytes (drop 4 m)] = (True, drop 4 m, [])"
    using h by auto
  then show ?thesis using h assms(2) by (simp add: bridge_get_def readn_fd_def Let_def)
qed

lemma bridge_behind:
  assumes ok: "\<forall>m \<in> set ms. reply_ok m \<and> length m \<le> 600 \<and> tag_of m = t"
    and r: "\<forall>m. 7 \<le> length (reply m) \<and> (tag_of m = t \<longrightarrow> tag_of (reply m) = t)"
  shows "length out \<le> length ms \<Longrightarrow> tag_of old = t \<Longrightarrow> 7 \<le> length old \<Longrightarrow> fuel = Suc (length ms - length out) \<Longrightarrow>
    fst (bridge_client fuel (mailbox reply) (asks ms) (if length out < length ms then [Bytes (ms ! length out)] else []) out [Some old])
      = Some (out @ take (length ms - length out) (old # map reply (drop (length out) ms)))"
proof (induction "length ms - length out" arbitrary: out old fuel)
  case 0
  then show ?case by (simp add: bridge_get_def readn_fd_def)
next
  case (Suc k)
  then have l: "length out < length ms" by simp
  let ?m = "ms ! length out"
  have m: "reply_ok ?m" "length ?m \<le> 600" "tag_of ?m = t" using ok l by auto
  have at: "bridge_attempts (mailbox reply) ?m 4 [Some old] = (Some (Some old), [Some (reply ?m)])"
    using Suc.prems m(3) mailbox_stale [of old ?m reply 3] by simp
  have d: "drop (length out) ms = ?m # drop (Suc (length out)) ms" using l by (simp add: Cons_nth_drop_Suc)
  have "k = length ms - length (out @ [old])" "length (out @ [old]) \<le> length ms" using Suc.hyps(2) l by auto
  moreover have "tag_of (reply ?m) = t" "7 \<le> length (reply ?m)" using r m(3) by auto
  ultimately have "fst (bridge_client (Suc k) (mailbox reply) (asks ms)
      (if length (out @ [old]) < length ms then [Bytes (ms ! length (out @ [old]))] else []) (out @ [old]) [Some (reply ?m)])
      = Some ((out @ [old]) @ take k (reply ?m # map reply (drop (Suc (length out)) ms)))"
    using Suc.hyps(1) [of "out @ [old]" "reply ?m" "Suc k"] by simp
  moreover have "bc_next (asks ms) (out @ [old]) =
      (if length (out @ [old]) < length ms then [Bytes (ms ! length (out @ [old]))] else [])" "bc_takes (asks ms) (out @ [old])"
    by (simp_all add: asks_def)
  ultimately show ?case
    using l bridge_get_message [OF m(1,2)] at Suc.prems(4) d by (simp add: Let_def Suc.hyps(2) [symmetric])
qed

text \<open>
  C35. The comparison of tags does not protect a client that uses one tag for all its messages, as
  9P allows when each is answered before the next, and as this program does itself. If one read
  gives nothing in time, the message is written again and answered twice, and from then on every
  message is answered with the reply to the message before it.
\<close>

theorem reused_tag_shifts:
  assumes "ms \<noteq> []" and "\<forall>m \<in> set ms. reply_ok m \<and> length m \<le> 600 \<and> tag_of m = t"
    and "\<forall>m. 7 \<le> length (reply m) \<and> (tag_of m = t \<longrightarrow> tag_of (reply m) = t)"
  shows "fst (bridge_client (Suc (length ms)) (mailbox reply) (asks ms) (bc_first (asks ms)) [] [None])
    = Some (reply (hd ms) # map reply (butlast ms))"
proof -
  let ?m = "hd ms"
  have m: "reply_ok ?m" "length ?m \<le> 600" "tag_of ?m = t" "7 \<le> length (reply ?m)" "tag_of (reply ?m) = t"
    using assms by auto
  have at: "bridge_attempts (mailbox reply) ?m 4 [None] = (Some (Some (reply ?m)), [Some (reply ?m)])"
    using m mailbox_twice [of reply ?m 2] by simp
  have "fst (bridge_client (length ms) (mailbox reply) (asks ms)
      (if length [reply ?m] < length ms then [Bytes (ms ! length [reply ?m])] else []) [reply ?m] [Some (reply ?m)])
    = Some ([reply ?m] @ take (length ms - 1) (reply ?m # map reply (drop 1 ms)))"
    using bridge_behind [OF assms(2,3), of "[reply ?m]" "reply ?m" "length ms"] m assms(1) by (auto simp: Suc_le_eq)
  moreover have "take (length ms - 1) (reply ?m # map reply (drop 1 ms)) = map reply (butlast ms)"
    using assms(1) by (cases ms) (simp_all add: butlast_conv_take take_map take_Cons')
  ultimately show ?thesis
    using assms(1) bridge_get_message [OF m(1,2)] at by (auto simp: asks_def Let_def)
qed

lemma polls_late: "probe_polls (mailbox reply) n (replicate n None @ q) = (Some None, q)"
  by (induction n) (simp_all add: mailbox_def)

lemma polls_first: "r \<noteq> [] \<Longrightarrow> probe_polls (mailbox reply) (Suc n) (Some r # q) = (Some (Some r), q)"
  by (simp add: mailbox_def)

lemma tag_probe_read: "tag_of (probe_read i) = of_nat (1000 + i)"
  by (simp add: tag_of_def probe_read_def t_frame_def np32_def del: of_nat_add of_nat_numeral)

lemma tag_overlay: "7 \<le> length d \<Longrightarrow> ng16 (drop 5 (overlay d rb)) = tag_of d"
  by (simp add: overlay_def tag_of_def ng16_def nth_append)

lemma probe_behind:
  assumes r: "\<forall>m. 7 \<le> length (reply m) \<and> tag_of (reply m) = tag_of m"
  shows "7 \<le> length old \<Longrightarrow> tag_of old = of_nat (1000 + i) \<Longrightarrow>
    \<exists>rb'. fst (probe_loop (mailbox reply) n (Suc i) (T, rb) [Some old]) = Some (T\<lparr>ta_mism := ta_mism T + n\<rparr>, rb')"
proof (induction n arbitrary: i old T rb)
  case (Suc n)
  let ?m = "probe_read (Suc i)"
  have ne: "old \<noteq> []" using Suc.prems(1) by auto
  have step: "inner_send_recv (mailbox reply) ?m 60 [Some old] = (Some (Some old), [Some (reply ?m)])"
    using polls_first [OF ne, of reply 59 "[Some (reply ?m)]"] by (simp add: inner_send_recv_def mailbox_wr)
  have "(of_nat (1000 + i) :: u16) \<noteq> of_nat (1000 + Suc i)" by simp
  then have mis: "ng16 (drop 5 (overlay old rb)) \<noteq> of_nat (1000 + Suc i)"
    using tag_overlay [OF Suc.prems(1), of rb] Suc.prems(2) by (simp only: simp_thms)
  obtain rb' where "fst (probe_loop (mailbox reply) n (Suc (Suc i)) (T\<lparr>ta_mism := ta_mism T + 1\<rparr>, overlay old rb) [Some (reply ?m)])
      = Some (T\<lparr>ta_mism := ta_mism T + 1 + n\<rparr>, rb')"
    using Suc.IH [of "reply ?m" "Suc i" "T\<lparr>ta_mism := ta_mism T + 1\<rparr>" "overlay old rb"] r tag_probe_read by auto
  then show ?case using step mis by (auto simp: Let_def simp del: of_nat_Suc of_nat_add)
qed simp

text \<open>
  The probe takes the first datagram for the answer: one reply that comes after its 60 reads is
  counted as one loss, and makes every later read a mismatch although nothing else went wrong.
\<close>

theorem probe_late_reply:
  assumes "\<forall>m. 7 \<le> length (reply m) \<and> tag_of (reply m) = tag_of m"
  shows "\<exists>rb'. fst (probe_loop (mailbox reply) (Suc n) 0 (\<lparr>ta_clean = 0, ta_loss = 0, ta_mism = 0\<rparr>, rb) (replicate 60 None))
    = Some (\<lparr>ta_clean = 0, ta_loss = 1, ta_mism = n\<rparr>, rb')"
proof -
  let ?r = "reply (probe_read 0)"
  have "inner_send_recv (mailbox reply) (probe_read 0) 60 (replicate 60 None) = (Some None, [Some ?r])"
    using polls_late [of reply 60 "[Some ?r]"] by (simp add: inner_send_recv_def mailbox_wr)
  moreover obtain rb' where "fst (probe_loop (mailbox reply) n (Suc 0) (\<lparr>ta_clean = 0, ta_loss = 1, ta_mism = 0\<rparr>, rb) [Some ?r])
      = Some (\<lparr>ta_clean = 0, ta_loss = 1, ta_mism = n\<rparr>, rb')"
    using probe_behind [OF assms, of ?r 0 n "\<lparr>ta_clean = 0, ta_loss = 1, ta_mism = 0\<rparr>" rb] assms tag_probe_read [of 0] by auto
  ultimately show ?thesis by auto
qed

end
