(* ===== verification/Chat.thy ===== *)
theory Chat
  imports NetFs
begin

text \<open>
  The chat program \<open>achat_core.c\<close>: one process reads the standard input, a reader process shows what
  arrives. Both share the conversation's fids and, under a lock, where the chat is directed. The
  9P library of Plan 9 is not part of the repository; its calls on the two held files are those of
  the node's conversation layer, on slot \<open>i\<close>, and other files are a parameter. A step is what one
  process does between two points at which the other can act: a call that waits, or a turn of the
  lock. The delays and error texts are left out.
\<close>

record chat =
  ac_bcast :: bool \<comment> \<open>\<open>g_bcast\<close>\<close>
  ac_dst :: "byte list" \<comment> \<open>\<open>g_dst\<close>\<close>
  ac_switching :: bool
  ac_out :: "byte list list" \<comment> \<open>the lines printed\<close>

definition say :: "byte list \<Rightarrow> chat \<Rightarrow> chat" where
  "say l S = S\<lparr>ac_out := ac_out S @ [l]\<rparr>"

definition bcast_text :: "byte list" where
  "bcast_text = ascii ''ff:ff:ff:ff:ff:ff''"

text \<open>\<open>show\<close>: the first six bytes are taken for the sender in the mode that is set when it is called.\<close>

definition show_datagram :: "byte list \<Rightarrow> chat \<Rightarrow> chat" where
  "show_datagram d S =
     say (if ac_bcast S \<and> 6 \<le> length d
          then [91] @ fmt_addr (addr_at d) @ [93, space] @ cstr (drop 6 d) else cstr d) S"

text \<open>The own address, from the file \<open>net/aether/addr\<close> if that can be read.\<close>

definition myaddr :: "byte list res \<Rightarrow> nat \<Rightarrow> byte list" where
  "myaddr file outsz =
     (case file of
        Inl e \<Rightarrow> ascii ''?''
      | Inr d \<Rightarrow> if d = [] then ascii ''?''
          else cstr (strip_end (\<lambda>b. b = nl \<or> b = cr \<or> b = space) (take (outsz - 1) d)))"

definition connect_line :: "byte list \<Rightarrow> byte list" where
  "connect_line dst = snprintf_out 64 (ascii ''connect '' @ dst)"

subsection \<open>The reader\<close>

text \<open>An empty datagram, with the lock held: the hang-up of a change of target, or a stray one.\<close>

definition reader_eof :: "'q env \<Rightarrow> nat \<Rightarrow> chat \<times> 'q net \<Rightarrow> chat \<times> 'q net" where
  "reader_eof E i SN =
     (case SN of (S, N) \<Rightarrow>
        if \<not> ac_switching S then (S, N)
        else case anet_write E (NCtl i) (connect_line (ac_dst S)) N of
          (w, N1) \<Rightarrow>
            (let S1 = S\<lparr>ac_switching := False\<rparr> in
             (say (case w of
                Inl e \<Rightarrow> ascii ''[connect failed -- try /connect again]''
              | Inr _ \<Rightarrow> if ac_bcast S then ascii ''[on the party line (broadcast, best-effort)]''
                  else ascii ''[connected (reliable) to '' @ ac_dst S @ ascii '' -- peer must /connect you too]'') S1, N1)))"

subsection \<open>Commands\<close>

text \<open>The target of \<open>/connect\<close>: the party line, the end of an address, or a whole one.\<close>

definition new_target :: "byte list \<Rightarrow> byte list" where
  "new_target p =
     (if p = ascii ''bcast'' \<or> p = ascii ''broadcast'' then bcast_text
      else if length p \<le> 5 then snprintf_out 24 (ascii ''00:00:00:00:'' @ p)
      else snprintf_out 24 p)"

definition chat_connect :: "'q env \<Rightarrow> nat \<Rightarrow> byte list \<Rightarrow> chat \<times> 'q net \<Rightarrow> chat \<times> 'q net" where
  "chat_connect E i newdst SN =
     (case SN of (S, N) \<Rightarrow>
        let S1 = S\<lparr>ac_dst := take 23 newdst, ac_bcast := (newdst = bcast_text), ac_switching := True\<rparr> in
        case anet_write E (NCtl i) (ascii ''hangup'') N of
          (Inl e, N1) \<Rightarrow> (say (ascii ''[achat] /connect: hangup failed -- try again'') (S1\<lparr>ac_switching := False\<rparr>), N1)
        | (Inr _, N1) \<Rightarrow> (say (ascii ''[achat] switching to '' @ newdst @ ascii '' ...'') S1, N1))"

text \<open>
  A command line; the result says whether the program goes on. The files are \<open>dev/aether/neighbors\<close>
  as it can be read now, and the own address found at the start.
\<close>

definition docmd ::
    "'q env \<Rightarrow> nat \<Rightarrow> byte list res \<Rightarrow> byte list \<Rightarrow> byte list \<Rightarrow> chat \<times> 'q net \<Rightarrow> bool \<times> chat \<times> 'q net" where
  "docmd E i neighbors me s SN =
     (case SN of (S, N) \<Rightarrow>
        if s = ascii ''/quit'' then (False, say (ascii ''[achat] hangup'') S, anet_clunk E (NCtl i) N)
        else if s = ascii ''/addr'' then
          (True, say (ascii ''[achat] my address: '' @ me @ ascii ''   (peer: /connect '' @ me @ ascii '')'') S, N)
        else if s = ascii ''/who'' then
          (True, say (case neighbors of
             Inl e \<Rightarrow> ascii ''[who] unavailable''
           | Inr d \<Rightarrow> if d = [] then ascii ''[who] no neighbours''
               else ascii ''[who] neighbours:'' @ [nl] @ cstr (take 2047 d)) S, N)
        else if take 8 s = ascii ''/connect'' \<and> (length s = 8 \<or> s ! 8 = space) then
          (let p = dropWhile (\<lambda>b. b = space) (drop 8 s) in
           if p = [] then
             (True, say (ascii ''[achat] usage: /connect <addr>   (or /connect bcast for the party line)'') S, N)
           else (True, chat_connect E i (new_target p) (S, N)))
        else if s = ascii ''/help'' then
          (True, say (ascii ''[achat] /addr | /who | /connect <addr>|bcast | /quit  (or ^D)'') S, N)
        else (True, say (ascii ''[achat] unknown command: '' @ s @ ascii '' (try /help)'') S, N))"

text \<open>A line of the standard input: a command, or a message.\<close>

definition typed_line ::
    "'q env \<Rightarrow> nat \<Rightarrow> byte list res \<Rightarrow> byte list \<Rightarrow> byte list \<Rightarrow> chat \<times> 'q net \<Rightarrow> bool \<times> chat \<times> 'q net" where
  "typed_line E i neighbors me input SN =
     (let line = strip_end (\<lambda>b. b = nl \<or> b = cr) (take 1023 input) in
      if line = [] then (True, SN)
      else if hd line = 47 then docmd E i neighbors me (cstr line) SN
      else case SN of (S, N) \<Rightarrow>
        (case anet_write E (NData i) line N of
           (Inl e, N1) \<Rightarrow> (True, S, N1)
         | (Inr _, N1) \<Rightarrow> (True, say (ascii ''[me] '' @ cstr line) S, N1)))"

subsection \<open>The start, and both processes\<close>

text \<open>
  The start on a conversation that \<open>clone\<close> gave: the chat, or \<open>None\<close> when the control file refuses the
  target.
\<close>

definition chat_start :: "'q env \<Rightarrow> nat \<Rightarrow> byte list \<Rightarrow> 'q net \<Rightarrow> chat option \<times> 'q net" where
  "chat_start E i dst N =
     (case anet_write E (NCtl i) (connect_line dst) N of
        (Inl e, N1) \<Rightarrow> (None, N1)
      | (Inr _, N1) \<Rightarrow>
          (Some \<lparr>ac_bcast = (dst = bcast_text), ac_dst = take 23 dst, ac_switching = False, ac_out = []\<rparr>, N1))"

text \<open>The receive-only mode, given what its reads return: it ends with an error or an empty datagram.\<close>

fun rx_only :: "byte list res list \<Rightarrow> chat \<Rightarrow> chat" where
  "rx_only [] S = S"
| "rx_only (Inl e # rs) S = S"
| "rx_only (Inr d # rs) S = (if d = [] then S else rx_only rs (show_datagram d S))"

text \<open>The reader waits in a read, has a datagram or an empty one in hand, or the program has ended.\<close>

datatype reader_pc = RWait | RHave "byte list" | REof | RGone

text \<open>
  \<open>read_slow\<close> and \<open>read_fast\<close> are failed reads, after more or less than eight seconds; \<open>hang_up\<close> is the
  end of the standard input.
\<close>

inductive chat_step ::
    "'q env \<Rightarrow> nat \<Rightarrow> reader_pc \<times> chat \<times> 'q net \<Rightarrow> reader_pc \<times> chat \<times> 'q net \<Rightarrow> bool" for E i where
  read_datagram: "anet_read E (NData i) off 1024 N = (Returns (Inr d), N1) \<Longrightarrow> d \<noteq> [] \<Longrightarrow>
     chat_step E i (RWait, S, N) (RHave d, S, N1)"
| read_end: "anet_read E (NData i) off 1024 N = (Returns (Inr []), N1) \<Longrightarrow>
     chat_step E i (RWait, S, N) (REof, S, N1)"
| read_slow: "chat_step E i (RWait, S, N) (RWait, S, N)"
| read_fast: "chat_step E i (RWait, S, N) (RGone, S, N)"
| shown: "chat_step E i (RHave d, S, N) (RWait, show_datagram d S, N)"
| at_end: "reader_eof E i (S, N) = (S1, N1) \<Longrightarrow> chat_step E i (REof, S, N) (RWait, S1, N1)"
| typed: "pc \<noteq> RGone \<Longrightarrow> typed_line E i neighbors me input (S, N) = (goes_on, S1, N1) \<Longrightarrow>
     chat_step E i (pc, S, N) (if goes_on then pc else RGone, S1, N1)"
| hang_up: "pc \<noteq> RGone \<Longrightarrow> chat_step E i (pc, S, N) (RGone, S, anet_clunk E (NCtl i) N)"
| arrives: "chat_step E i (pc, S, N) (pc, S, aether_recv_cb E f N)"

end
