(* ===== verification/ChatProps.thy ===== *)
theory ChatProps
  imports Chat NetReach NetData
begin

text \<open>
  Properties of the chat: whatever the order of typing, reading and arriving datagrams, the
  conversation ends up directed where the last \<open>/connect\<close> said, and a change of target in progress
  can always be completed.
\<close>

subsection \<open>Arriving datagrams\<close>

text \<open>They leave the binding of a conversation alone, and all of it while it is not connected.\<close>

definition same_binding :: "'q conv \<Rightarrow> 'q conv \<Rightarrow> bool" where
  "same_binding c c' \<longleftrightarrow> cv_in_use c' = cv_in_use c \<and> cv_state c' = cv_state c \<and> cv_peer c' = cv_peer c \<and>
     (cv_state c = CONV_UNCONNECTED \<longrightarrow> cv_rxq c' = cv_rxq c)"

lemma takes_convs: "conv_takes E src ident b c N = (tk, N1) \<Longrightarrow> n_convs N1 = n_convs N \<and> (tk \<longrightarrow> cv_state c \<noteq> CONV_UNCONNECTED)"
  by (auto simp: conv_takes_def eui_to_addr_def log_call_def split: if_splits conv_state.splits)

lemma recv_conv_binding:
  assumes "i < length (n_convs N)"
  shows "same_binding (conv_of N i) (conv_of (recv_conv E src ident b p j N) i) \<and>
    length (n_convs (recv_conv E src ident b p j N)) = length (n_convs N)"
proof -
  obtain tk N1 where t: "conv_takes E src ident b (conv_of N j) N = (tk, N1)" by fastforce
  note t' = takes_convs [OF t]
  show ?thesis
    using t' assms by (cases "i = j")
      (auto simp: recv_conv_def t same_binding_def upd_conv_def split: option.splits)
qed

lemma fold_recv_binding:
  "i < length (n_convs N) \<Longrightarrow> same_binding (conv_of N i) (conv_of (fold (recv_conv E src ident b p) js N) i)"
proof (induction js arbitrary: N)
  case (Cons j js)
  note a = recv_conv_binding [OF Cons.prems, of E src ident b p j]
  then show ?case using Cons.IH [of "recv_conv E src ident b p j N"] Cons.prems by (auto simp: same_binding_def)
qed (simp add: same_binding_def)

lemma recv_cb_binding:
  assumes "i < length (n_convs N)"
  shows "same_binding (conv_of N i) (conv_of (aether_recv_cb E f N) i)"
proof -
  obtain ident N1 where r: "recv_ident E f N = (ident, N1)" by fastforce
  then have c: "n_convs N1 = n_convs N"
    by (auto simp: recv_ident_def addr_to_eui_def log_call_def split: if_splits option.splits prod.splits)
  show ?thesis
    using fold_recv_binding [of i "N1\<lparr>n_rx := n_rx N1 + 1, n_rx_bytes := n_rx_bytes N1 + of_nat (length (take (e_max_msg E) (fr_payload f)))\<rparr>"
        E "fr_src f" ident "fr_bcast f" "take (e_max_msg E) (fr_payload f)" "[0..<AETHER_MAX_CONNS]"] assms c
    by (simp add: aether_recv_cb_def r Let_def)
qed

subsection \<open>The control file\<close>

text \<open>What the node makes of \<open>connect\<close> with this target.\<close>

definition bound_as :: "byte list \<Rightarrow> 'q conv \<Rightarrow> bool" where
  "bound_as dst c =
     (let cmd = ctl_command (connect_line dst) in
      case (if is_prefix (ascii ''connect '') cmd then parse_addr (drop 8 cmd) else Inl EINVAL) of
        Inl e \<Rightarrow> cv_state c = CONV_UNCONNECTED
      | Inr a \<Rightarrow> if a = addr_bcast then cv_state c = CONV_BCAST else cv_state c = CONV_CONNECTED \<and> cv_peer c = a)"

lemma bound_as_cong: "cv_state c' = cv_state c \<Longrightarrow> cv_peer c' = cv_peer c \<Longrightarrow> bound_as dst c' = bound_as dst c"
  by (simp add: bound_as_def Let_def split: sum.splits)

lemma strip_end_split: "xs \<noteq> [] \<Longrightarrow> \<not> p (last xs) \<Longrightarrow> strip_end p (xs @ ys) = xs @ strip_end p ys"
  unfolding strip_end_def by (cases xs rule: rev_cases) (simp_all add: dropWhile_append)

lemma connect_command_word: "\<exists>rest. ctl_command (connect_line dst) = ascii ''connect'' @ rest"
proof -
  let ?p = "\<lambda>b. b = nl \<or> b = cr \<or> b = space"
  have w: "ascii ''connect'' \<noteq> []" "\<not> ?p (last (ascii ''connect''))" "0 \<notin> set (ascii ''connect'')" "length (ascii ''connect'') = 7"
    by (simp_all add: ascii_def)
  have "take 63 (connect_line dst) = ascii ''connect'' @ take 56 ([space] @ dst)"
    by (simp add: connect_line_def snprintf_out_def ascii_def)
  then have "ctl_command (connect_line dst) = cstr (ascii ''connect'' @ strip_end ?p (take 56 ([space] @ dst)))"
    using w(1,2) by (simp only: ctl_command_def strip_end_split [where p = ?p and xs = "ascii ''connect''"] simp_thms)
  also have "\<dots> = ascii ''connect'' @ cstr (strip_end ?p (take 56 ([space] @ dst)))"
    using w(3) by (simp add: cstr_def takeWhile_append)
  finally show ?thesis by blast
qed

lemma connect_write:
  assumes "slot_built E (n_nodes N) i" and l: "i < length (n_convs N)" and u: "cv_state (conv_of N i) = CONV_UNCONNECTED"
    and w: "anet_write E (NCtl i) (connect_line dst) N = (r, N1)"
  shows "bound_as dst (conv_of N1 i) \<and> cv_in_use (conv_of N1 i) = cv_in_use (conv_of N i) \<and>
    (isl r \<longrightarrow> cv_state (conv_of N1 i) = CONV_UNCONNECTED)"
proof -
  let ?c = "ctl_command (connect_line dst)"
  obtain rest where "?c = ascii ''connect'' @ rest" using connect_command_word by blast
  then have ne: "?c \<noteq> ascii ''announce''" "?c \<noteq> ascii ''hangup''" by (auto simp: ascii_def)
  show ?thesis
    using w u l ne unfolding write_NCtl [OF assms(1)]
    by (auto simp: ctl_exec_def bound_as_def Let_def upd_conv_def split: sum.splits if_splits)
qed

lemma hangup_write:
  assumes k: "msgq_ok E cts cap" and w: "net_wf E cts cap N" and i: "i < AETHER_MAX_CONNS" and u: "cv_in_use (conv_of N i)"
  shows "\<exists>N1. anet_write E (NCtl i) (ascii ''hangup'') N = (Inr 6, N1) \<and> cv_in_use (conv_of N1 i) \<and>
    cv_state (conv_of N1 i) = CONV_UNCONNECTED \<and> cts (cv_rxq (conv_of N1 i)) = [dgram_eof]"
proof -
  note s = slot_in_use [OF w i u]
  have "ctl_command (ascii ''hangup'') = ascii ''hangup''" by code_simp
  moreover have "length (ascii ''hangup'') = 6" by (simp add: ascii_def)
  moreover have "ctl_exec E i (ascii ''hangup'') N = (Inr (), upd_conv i (\<lambda>c. c\<lparr>cv_state := CONV_UNCONNECTED, cv_peer := addr_zero,
      cv_rxq := mq_put_or_drop E dgram_eof (e_mq_purge E (cv_rxq c))\<rparr>) N)"
    by (simp add: ctl_exec_def is_prefix_def ascii_def)
  ultimately show ?thesis using s u msgq_hangup [OF k] by (simp add: write_NCtl net_simps)
qed

subsection \<open>The invariant\<close>

fun chat_ok ::
    "'q env \<Rightarrow> ('q \<Rightarrow> dgram list) \<Rightarrow> ('q \<Rightarrow> nat) \<Rightarrow> nat \<Rightarrow> reader_pc \<times> chat \<times> 'q net \<Rightarrow> bool" where
  "chat_ok E cts cap i (pc, S, N) \<longleftrightarrow> pc = RGone \<or>
     net_wf E cts cap N \<and> cv_in_use (conv_of N i) \<and>
     (if ac_switching S
      then cv_state (conv_of N i) = CONV_UNCONNECTED \<and> (pc = REof \<or> cts (cv_rxq (conv_of N i)) = [dgram_eof])
      else bound_as (ac_dst S) (conv_of N i))"

lemma say_fields [simp]: "ac_switching (say l S) = ac_switching S" "ac_dst (say l S) = ac_dst S" "ac_bcast (say l S) = ac_bcast S"
  by (simp_all add: say_def)

lemma show_fields [simp]: "ac_switching (show_datagram d S) = ac_switching S" "ac_dst (show_datagram d S) = ac_dst S"
  by (simp_all add: show_datagram_def)

lemma eof_turn:
  assumes k: "msgq_ok E cts cap" and i: "i < AETHER_MAX_CONNS" and ok: "chat_ok E cts cap i (REof, S, N)"
    and t: "reader_eof E i (S, N) = (S1, N1)"
  shows "chat_ok E cts cap i (RWait, S1, N1) \<and> \<not> ac_switching S1 \<and> ac_dst S1 = ac_dst S"
proof (cases "ac_switching S")
  case False
  then show ?thesis using ok t by (simp add: reader_eof_def)
next
  case True
  have w: "net_wf E cts cap N" and u: "cv_in_use (conv_of N i)" and un: "cv_state (conv_of N i) = CONV_UNCONNECTED"
    using ok True by simp_all
  note s = slot_in_use [OF w i u]
  obtain r N2 where wr: "anet_write E (NCtl i) (connect_line (ac_dst S)) N = (r, N2)" by fastforce
  have "net_wf E cts cap N2" using net_wf_write [OF k w, of "NCtl i" "connect_line (ac_dst S)"] wr by simp
  then show ?thesis
    using t True wr connect_write [OF s(1,5) un wr] u by (auto simp: reader_eof_def Let_def)
qed

lemma connect_turn:
  assumes k: "msgq_ok E cts cap" and i: "i < AETHER_MAX_CONNS" and ok: "chat_ok E cts cap i (pc, S, N)" and pc: "pc \<noteq> RGone"
    and t: "chat_connect E i dst (S, N) = (S1, N1)"
  shows "chat_ok E cts cap i (pc, S1, N1) \<and> ac_switching S1 \<and> ac_dst S1 = take 23 dst"
proof -
  have w: "net_wf E cts cap N" and u: "cv_in_use (conv_of N i)" using ok pc by simp_all
  obtain N2 where N2: "anet_write E (NCtl i) (ascii ''hangup'') N = (Inr 6, N2)" "cv_in_use (conv_of N2 i)"
    "cv_state (conv_of N2 i) = CONV_UNCONNECTED" "cts (cv_rxq (conv_of N2 i)) = [dgram_eof]"
    using hangup_write [OF k w i u] by blast
  have "net_wf E cts cap N2" using net_wf_write [OF k w, of "NCtl i" "ascii ''hangup''"] N2(1) by simp
  then show ?thesis using t N2 by (auto simp: chat_connect_def Let_def)
qed

lemma line_turn:
  assumes k: "msgq_ok E cts cap" and i: "i < AETHER_MAX_CONNS" and ok: "chat_ok E cts cap i (pc, S, N)" and pc: "pc \<noteq> RGone"
    and t: "typed_line E i nb me input (S, N) = (goes_on, S1, N1)"
  shows "chat_ok E cts cap i (if goes_on then pc else RGone, S1, N1)"
proof -
  have w: "net_wf E cts cap N" and u: "cv_in_use (conv_of N i)" using ok pc by simp_all
  note s = slot_in_use [OF w i u]
  have send: "chat_ok E cts cap i (pc, S2, N2)"
    if "anet_write E (NData i) l N = (r, N2)" "ac_switching S2 = ac_switching S" "ac_dst S2 = ac_dst S" for l r N2 S2
  proof -
    have "n_convs N2 = n_convs N" using that(1) write_data_frame(2) [of E "Some i" l N] by (simp add: write_NData [OF s(1)])
    moreover have "net_wf E cts cap N2" using net_wf_write [OF k w, of "NData i" l] that(1) by simp
    ultimately show ?thesis using ok that(2,3) pc by auto
  qed
  have same: "chat_ok E cts cap i (p, say l S, N)" if "p = pc \<or> p = RGone" for l p using ok that by auto
  have conn: "chat_ok E cts cap i (pc, S2, N2)" if "chat_connect E i d (S, N) = (S2, N2)" for d S2 N2
    using connect_turn [OF k i ok pc that] by blast
  have cmd: "chat_ok E cts cap i (if goes_on then pc else RGone, S2, N2)" if "docmd E i nb me l (S, N) = (goes_on, S2, N2)" for l S2 N2
    using that same conn unfolding docmd_def Let_def
    by (auto split: if_splits prod.splits simp del: chat_ok.simps) (simp_all)
  show ?thesis
    using t ok cmd send unfolding typed_line_def Let_def
    by (auto split: if_splits prod.splits sum.splits simp del: chat_ok.simps)
qed

lemma chat_step_ok:
  assumes k: "msgq_ok E cts cap" and i: "i < AETHER_MAX_CONNS"
  shows "chat_step E i x y \<Longrightarrow> chat_ok E cts cap i x \<Longrightarrow> chat_ok E cts cap i y"
proof (induction rule: chat_step.induct)
  case (read_datagram off N d N1 S)
  have w: "net_wf E cts cap N" and u: "cv_in_use (conv_of N i)" using read_datagram.prems by simp_all
  note s = slot_in_use [OF w i u]
  have "\<not> ac_switching S"
  proof
    assume "ac_switching S"
    then have "cts (cv_rxq (conv_of N i)) = [dgram_eof]" using read_datagram.prems by simp
    from read_oldest [OF k w i u this, of off 1024] read_datagram.hyps show False by (auto simp: dgram_eof_def)
  qed
  moreover have "cv_in_use (conv_of N1 i) \<and> cv_state (conv_of N1 i) = cv_state (conv_of N i) \<and> cv_peer (conv_of N1 i) = cv_peer (conv_of N i)"
    using read_datagram.hyps(1) s u by (auto simp: read_NData read_data_def Let_def net_simps split: option.splits if_splits)
  moreover have "net_wf E cts cap N1" using net_wf_read [OF k w, of "NData i" off 1024] read_datagram.hyps(1) by simp
  ultimately show ?case using read_datagram.prems bound_as_cong [of "conv_of N1 i" "conv_of N i" "ac_dst S"] by auto
next
  case (read_end off N N1 S)
  have w: "net_wf E cts cap N" and u: "cv_in_use (conv_of N i)" using read_end.prems by simp_all
  note s = slot_in_use [OF w i u]
  have "cv_in_use (conv_of N1 i) \<and> cv_state (conv_of N1 i) = cv_state (conv_of N i) \<and> cv_peer (conv_of N1 i) = cv_peer (conv_of N i)"
    using read_end.hyps(1) s u by (auto simp: read_NData read_data_def Let_def net_simps split: option.splits if_splits)
  moreover have "net_wf E cts cap N1" using net_wf_read [OF k w, of "NData i" off 1024] read_end.hyps(1) by simp
  ultimately show ?case using read_end.prems bound_as_cong [of "conv_of N1 i" "conv_of N i" "ac_dst S"] by auto
next
  case (at_end S N S1 N1)
  show ?case using eof_turn [OF k i at_end.prems at_end.hyps] by blast
next
  case (typed pc nb me input S N goes_on S1 N1)
  show ?case by (rule line_turn [OF k i typed.prems typed.hyps])
next
  case (arrives pc S N f)
  show ?case
  proof (cases "pc = RGone")
    case False
    then have w: "net_wf E cts cap N" and u: "cv_in_use (conv_of N i)" using arrives by simp_all
    have "same_binding (conv_of N i) (conv_of (aether_recv_cb E f N) i)"
      using recv_cb_binding [of i N E f] net_wf_length [OF w] i by simp
    then show ?thesis
      using arrives False net_wf_recv_cb [OF k w, of f] bound_as_cong [of "conv_of (aether_recv_cb E f N) i" "conv_of N i" "ac_dst S"]
      by (auto simp: same_binding_def)
  qed simp
qed auto

text \<open>
  C21. Whatever the two processes do and whatever arrives, in any order, the conversation of the chat
  is as the node makes it of the last target asked for, unless a change of target is in progress;
  then it is unbound, and the reader is about to see the hang-up, or has it waiting as the only
  entry of its queue. So no change of target is ever lost, however fast they follow each other.
\<close>

theorem chat_invariant:
  assumes k: "msgq_ok E cts cap" and w: "net_wf E cts cap N0" and i: "i < AETHER_MAX_CONNS"
    and u: "cv_in_use (conv_of N0 i)" and un: "cv_state (conv_of N0 i) = CONV_UNCONNECTED" and d: "length dst \<le> 23"
    and st: "chat_start E i dst N0 = (Some S0, N1)" and run: "(chat_step E i)\<^sup>*\<^sup>* (RWait, S0, N1) (pc, S, N)"
    and pc: "pc \<noteq> RGone"
  shows "net_wf E cts cap N \<and> cv_in_use (conv_of N i) \<and>
    (if ac_switching S
     then cv_state (conv_of N i) = CONV_UNCONNECTED \<and> (pc = REof \<or> cts (cv_rxq (conv_of N i)) = [dgram_eof])
     else bound_as (ac_dst S) (conv_of N i))"
proof -
  note s = slot_in_use [OF w i u]
  obtain r where wr: "anet_write E (NCtl i) (connect_line dst) N0 = (r, N1)"
    and S0: "ac_dst S0 = dst" "\<not> ac_switching S0"
    using st d by (auto simp: chat_start_def split: prod.splits sum.splits)
  have "net_wf E cts cap N1" using net_wf_write [OF k w, of "NCtl i" "connect_line dst"] wr by simp
  then have "chat_ok E cts cap i (RWait, S0, N1)" using connect_write [OF s(1,5) un wr] u S0 by simp
  with run have "chat_ok E cts cap i (pc, S, N)"
    by (induction rule: rtranclp_induct) (auto intro: chat_step_ok [OF k i] simp del: chat_ok.simps)
  then show ?thesis using pc by simp
qed

text \<open>
  C22. A change of target in progress can always be completed by the reader alone, in at most three
  steps, without another datagram from the mesh: the conversation is then as the node makes it of
  the last target.
\<close>

theorem switch_completes:
  assumes k: "msgq_ok E cts cap" and i: "i < AETHER_MAX_CONNS" and ok: "chat_ok E cts cap i (pc, S, N)"
    and sw: "ac_switching S" and pc: "pc \<noteq> RGone"
  shows "\<exists>S' N'. (chat_step E i)\<^sup>*\<^sup>* (pc, S, N) (RWait, S', N') \<and> \<not> ac_switching S' \<and> ac_dst S' = ac_dst S \<and>
    bound_as (ac_dst S) (conv_of N' i)"
proof -
  have fin: "\<exists>S' N'. chat_step E i (REof, S2, N2) (RWait, S', N') \<and> \<not> ac_switching S' \<and> ac_dst S' = ac_dst S2 \<and>
    bound_as (ac_dst S2) (conv_of N' i)" if "chat_ok E cts cap i (REof, S2, N2)" for S2 N2
  proof -
    obtain S1 N1 where t: "reader_eof E i (S2, N2) = (S1, N1)" by fastforce
    from eof_turn [OF k i that t] chat_step.at_end [OF t] show ?thesis
      by (intro exI [of _ S1] exI [of _ N1]) (clarsimp simp del: chat_ok.simps, simp)
  qed
  have wait: "\<exists>S' N'. (chat_step E i)\<^sup>*\<^sup>* (RWait, S2, N2) (RWait, S', N') \<and> \<not> ac_switching S' \<and> ac_dst S' = ac_dst S2 \<and>
    bound_as (ac_dst S2) (conv_of N' i)" if ok2: "chat_ok E cts cap i (RWait, S2, N2)" and sw2: "ac_switching S2" for S2 N2
  proof -
    have "net_wf E cts cap N2" "cv_in_use (conv_of N2 i)" "cts (cv_rxq (conv_of N2 i)) = [dgram_eof]"
      using ok2 sw2 by simp_all
    from read_oldest [OF k this(1) i this(2,3), of 0 1024]
    obtain N3 where r: "anet_read E (NData i) 0 1024 N2 = (Returns (Inr []), N3)" by (auto simp: dgram_eof_def)
    note step = chat_step.read_end [OF r, of S2]
    from fin [OF chat_step_ok [OF k i step ok2]] obtain S' N' where
      "chat_step E i (REof, S2, N3) (RWait, S', N')" "\<not> ac_switching S'" "ac_dst S' = ac_dst S2" "bound_as (ac_dst S2) (conv_of N' i)"
      by blast
    then show ?thesis using step by (meson rtranclp.rtrancl_into_rtrancl r_into_rtranclp)
  qed
  show ?thesis
  proof (cases pc)
    case RWait
    then show ?thesis using wait ok sw by blast
  next
    case (RHave d)
    note step = chat_step.shown [of E i d S N]
    have "chat_ok E cts cap i (RWait, show_datagram d S, N)" using chat_step_ok [OF k i step] ok RHave by blast
    from wait [OF this] sw obtain S' N' where "(chat_step E i)\<^sup>*\<^sup>* (RWait, show_datagram d S, N) (RWait, S', N')"
      "\<not> ac_switching S'" "ac_dst S' = ac_dst S" "bound_as (ac_dst S) (conv_of N' i)" by auto
    then show ?thesis using step RHave by (meson converse_rtranclp_into_rtranclp)
  next
    case REof
    then show ?thesis using fin ok by blast
  qed (use pc in simp)
qed

subsection \<open>The mode\<close>

text \<open>
  The chat and the node disagree on what is broadcast: the chat compares the text of the target,
  the node the address in it. With a target that is the broadcast address in another spelling the
  conversation joins the party line, but the chat announces a reliable connection and shows the six
  bytes of the sender as text.
\<close>

theorem mode_by_spelling:
  assumes k: "msgq_ok E cts cap" and w: "net_wf E cts cap N" and i: "i < AETHER_MAX_CONNS" and u: "cv_in_use (conv_of N i)"
    and p: "parse_addr (drop 8 (ctl_command (connect_line (take 23 dst)))) = Inr addr_bcast"
      "is_prefix (ascii ''connect '') (ctl_command (connect_line (take 23 dst)))" and sp: "dst \<noteq> bcast_text"
    and t: "chat_connect E i dst (S, N) = (S1, N1)" "reader_eof E i (S1, N1) = (S2, N2)"
  shows "cv_state (conv_of N2 i) = CONV_BCAST \<and> ac_out S2 =
      ac_out S1 @ [ascii ''[connected (reliable) to '' @ take 23 dst @ ascii '' -- peer must /connect you too]''] \<and>
    ac_out (show_datagram (addr_bytes a @ payload) S2) = ac_out S2 @ [cstr (addr_bytes a @ payload)]"
proof -
  obtain Na where Na: "anet_write E (NCtl i) (ascii ''hangup'') N = (Inr 6, Na)" "cv_in_use (conv_of Na i)"
    "cv_state (conv_of Na i) = CONV_UNCONNECTED" using hangup_write [OF k w i u] by blast
  have wa: "net_wf E cts cap Na" using net_wf_write [OF k w, of "NCtl i" "ascii ''hangup''"] Na(1) by simp
  note s = slot_in_use [OF wa i Na(2)]
  have S1: "N1 = Na" "ac_dst S1 = take 23 dst" "\<not> ac_bcast S1" "ac_switching S1"
    using t(1) Na(1) sp by (auto simp: chat_connect_def Let_def)
  let ?c = "ctl_command (connect_line (take 23 dst))"
  have x: "ctl_exec E i ?c Na = (Inr (), upd_conv i (\<lambda>c. c\<lparr>cv_state := CONV_BCAST\<rparr>) Na)"
    using p Na(3) by (simp add: ctl_exec_def)
  have "anet_write E (NCtl i) (connect_line (take 23 dst)) Na =
      (Inr (length (connect_line (take 23 dst))), upd_conv i (\<lambda>c. c\<lparr>cv_state := CONV_BCAST\<rparr>) Na)"
    by (simp add: write_NCtl [OF s(1)] x)
  then show ?thesis
    using t(2) S1 s by (auto simp: reader_eof_def say_def show_datagram_def net_simps)
qed

end
