(* ===== verification/HostConvWitness.thy ===== *)
theory HostConvWitness
  imports ForwardWitness HostNode HostBridgeProps ChatProps
begin

text \<open>
  The properties of the host's conversation commands and of the chat at concrete inputs: a port that
  answers every request at once, a peer that answers every message once, and the node of \<open>Demo\<close>.
\<close>

subsection \<open>Commands\<close>

definition ok_answer :: "byte list \<Rightarrow> byte list" where
  "ok_answer f =
     (if f ! 4 = 116 then rread 1 [48, 10] else if f ! 4 = 118 then [11, 0, 0, 0, 119, 1, 0, 5, 0, 0, 0] else small_reply (f ! 4 + 1))"

definition ok_port :: port where
  "ok_port = \<lparr>po_writes = (\<lambda>_. True), po_reply = (\<lambda>fs. [Bytes (ok_answer (last fs))])\<rparr>"

definition demo_host :: host_env where
  "demo_host = \<lparr>hv_connects = True, hv_stop = (\<lambda>_. False), hv_file = (\<lambda>_. None), hv_passes = 12, hv_listens = True,
     hv_clients = [], hv_array = [], hv_elapsed = 0\<rparr>"

lemma ok_answers: "answered ok_port (fs @ [frame (t # b)]) (ok_answer (frame (t # b)))"
proof -
  have "reply_ok [11, 0, 0, 0, 119, 1, 0, 5, 0, 0, 0]" by (simp add: reply_ok_def ng32_def)
  then have r: "reply_ok (ok_answer f)" for f by (simp add: ok_answer_def rread_ok small_reply_ok)
  then have "ok_answer f \<noteq> []" for f using message_head(3) [OF r [of f]] by auto
  then show ?thesis using r by (simp add: answered_def ok_port_def)
qed

lemma ok_rpc:
  assumes "idle L"
  shows "\<exists>L'. conv_rpc ok_port (t # b) L = (Some (if t = 116 then 117 else if t = 118 then 119 else t + 1), L') \<and> idle L' \<and>
    (t = 118 \<longrightarrow> ng32 (drop 3 (lk_mbuf L')) = 5)"
proof -
  obtain L' where L': "conv_rpc ok_port (t # b) L = (Some (ok_answer (frame (t # b)) ! 4), L')" "idle L'"
    "take (length (ok_answer (frame (t # b))) - 4) (lk_mbuf L') = drop 4 (ok_answer (frame (t # b)))"
    using conv_rpc_answered [OF assms ok_answers] by blast
  have "ok_answer (frame (t # b)) ! 4 = (if t = 116 then 117 else if t = 118 then 119 else t + 1)"
    by (simp add: ok_answer_def frame_type small_reply_def rread_def np32_def)
  moreover have "ng32 (drop 3 (lk_mbuf L')) = 5" if "t = 118"
  proof -
    have a: "ok_answer (frame (t # b)) = [11, 0, 0, 0, 119, 1, 0, 5, 0, 0, 0]" using that by (simp add: ok_answer_def frame_type)
    have "take 7 (lk_mbuf L') = [119, 1, 0, 5, 0, 0, 0]" using L'(3) by (simp add: a numeral_eq_Suc)
    then have "lk_mbuf L' = [119, 1, 0, 5, 0, 0, 0] @ drop 7 (lk_mbuf L')" by (metis append_take_drop_id)
    then have "drop 3 (lk_mbuf L') = [5, 0, 0, 0] @ drop 7 (lk_mbuf L')" by (metis append_Cons append_Nil drop_Suc_Cons drop_0 numeral_3_eq_3)
    then show ?thesis by (simp add: ng32_def)
  qed
  ultimately show ?thesis using L' by auto
qed

lemma ok_steps:
  assumes "idle L"
  shows "\<exists>L'. conv_do_version ok_port L = (True, L') \<and> idle L'"
    "\<exists>L'. conv_do_attach ok_port 0 L = (True, L') \<and> idle L'"
    "\<exists>L'. walk_open ok_port fid path mode L = (True, L') \<and> idle L'"
    "length d \<le> 8000 \<Longrightarrow> \<exists>L'. conv_do_write ok_port fid d L = (Some 5, L') \<and> idle L'"
    "\<exists>L'. conv_do_read ok_port fid 0 255 L = (Some (Some [48, 10]), L') \<and> idle L'"
proof -
  note r = ok_rpc
  show "\<exists>L'. conv_do_version ok_port L = (True, L') \<and> idle L'"
    using r [OF assms, of 100 "np16 0xffff @ np32 8192 @ np16 6 @ ascii ''9P2000''"] by (auto simp: conv_do_version_def)
  show "\<exists>L'. conv_do_attach ok_port 0 L = (True, L') \<and> idle L'"
    using r [OF assms, of 104 "np16 1 @ np32 0 @ np32 0xffffffff @ np16 1 @ ascii ''t'' @ np16 0"] by (auto simp: conv_do_attach_def)
  have "hd (b_walk 1 0 fid path) = 110" "b_walk 1 0 fid path \<noteq> []" by (simp_all add: b_walk_def Let_def)
  then obtain b where b: "b_walk 1 0 fid path = 110 # b" by (metis list.collapse)
  obtain L1 where L1: "conv_do_walk ok_port 0 fid path L = (True, L1)" "idle L1"
    using r [OF assms, of 110 b] by (auto simp: conv_do_walk_def b)
  obtain L2 where "conv_do_open ok_port fid mode L1 = (True, L2)" "idle L2"
    using r [OF L1(2), of 112 "tl (b_open 1 fid mode)"] by (auto simp: conv_do_open_def b_open_def)
  then show "\<exists>L'. walk_open ok_port fid path mode L = (True, L') \<and> idle L'" using L1 by (simp add: walk_open_def)
  show "\<exists>L'. conv_do_write ok_port fid d L = (Some 5, L') \<and> idle L'" if "length d \<le> 8000"
    using that r [OF assms, of 118 "np16 1 @ np32 fid @ np32 0 @ np32 0 @ np32 (of_nat (length d)) @ d"]
    by (auto simp: conv_do_write_def conv_do_pwrite_def)
  have "answered ok_port (lk_sent L @ [data_frame fid 255]) (rread 1 [48, 10])"
    using ok_answers [of "lk_sent L" 116] by (simp add: data_frame_def ok_answer_def frame_type)
  then show "\<exists>L'. conv_do_read ok_port fid 0 255 L = (Some (Some [48, 10]), L') \<and> idle L'"
    using conv_read_answered [OF assms, of ok_port fid 255 1 "[48, 10]"] by auto
qed


theorem stash_overruns_witness:
  "fst (recv_tag 256 1 (replicate 256 0) (None, demo_link\<lparr>lk_in := [Bytes (rread 10 [] @ small_reply 121)]\<rparr>)) = None"
proof -
  have l: "length (rread 10 []) - 4 \<le> 256" "length (small_reply 121) - 4 \<le> 256" "rread 10 [] \<noteq> []"
    by (simp_all add: small_reply_def rread_def)
  have t: "tag_of (rread 10 []) \<noteq> 1" "tag_of (small_reply 121) = 1" by code_simp+
  have p: "list_all steady [Bytes (rread 10 [] @ small_reply 121)]"
    "bytes_of [Bytes (rread 10 [] @ small_reply 121)] = rread 10 [] @ small_reply 121 @ []" using l(3) by simp_all
  have r: "reply_ok (rread 10 [])" by (rule rread_ok) simp
  from stash_overruns [OF r small_reply_ok l(1,2) p _ t, of "demo_link\<lparr>lk_in := [Bytes (rread 10 [] @ small_reply 121)]\<rparr>" "replicate 256 0"]
  show ?thesis by simp
qed

subsection \<open>Datagrams\<close>

definition hello_port :: port where
  "hello_port = \<lparr>po_writes = (\<lambda>_. True), po_reply = (\<lambda>_. [Bytes (rread 1 (addr_bytes demo_eui @ ascii ''hello''))])\<rparr>"

theorem queue_is_printed_witness:
  "fst (recv_loop hello_port (\<lambda>_. False) 1 0 demo_link) = Some [From 5 demo_eui (ascii ''hello'')]"
proof -
  let ?d = "addr_bytes demo_eui @ ascii ''hello''"
  have rd: "fst (anet_read demo_env (NData 0) 0 599 demo_received) = Returns (Inr ?d)" by code_simp
  have "reply_ok (rread 1 ?d)" by (rule rread_ok) (simp add: ascii_def)
  then have a: "answered hello_port fs (rread 1 ?d)" for fs
    by (simp add: answered_def hello_port_def) (simp add: rread_def)
  have s: "node_serves hello_port demo_env 0 (length [Dgram demo_eui (ascii ''hello'')]) (lk_sent demo_link) demo_received"
    using rd a by (cases "anet_read demo_env (NData 0) 0 599 demo_received") (auto intro: exI [of _ 1])
  have i: "idle demo_link" by (simp add: idle_def demo_link_def)
  have c: "cstr (ascii ''hello'') = ascii ''hello''" "length (ascii ''hello'') = 5" by code_simp+
  from queue_is_printed [OF demo_msgq demo_bound_wf(4) _ _ _ _ _ i s] c show ?thesis
    by (simp add: demo_convs src_prefixed_def) (simp add: ascii_def)
qed

theorem host_and_node_agree_witness:
  "anet_write demo_env (NCtl 0) (connect_cmd demo_eui) demo_open =
     (Inr 25, upd_conv 0 (\<lambda>v. v\<lparr>cv_peer := demo_eui, cv_state := CONV_CONNECTED\<rparr>) demo_open)"
proof -
  have "demo_eui \<noteq> addr_bcast" "length (connect_cmd demo_eui) = 25" by code_simp+
  then show ?thesis
    using host_and_node_agree [OF demo_open_wf, of 0 "[104, 105]" demo_eui] by (simp add: demo_convs connect_to_fmt)
qed

subsection \<open>The bridge\<close>

theorem bridge_lockstep_witness:
  "\<exists>xs l. [small_reply 117] = map (fst \<circ> snd) xs \<and> (\<forall>(m, r, e) \<in> set xs. exchange m r e \<and> length (filter (\<lambda>v. \<not> is_MR v) e) \<le> 4) \<and>
     prefix (concat (map fst xs)) (small_reply 116) \<and> list_all (writes_only l) []"
proof -
  let ?M = "mailbox (\<lambda>m. small_reply (m ! 4 + 1))" and ?C = "asks [small_reply 116]"
  have f: "fst (bridge_client 2 (logged_mesh ?M) ?C [Bytes (small_reply 116)] [] ([], [])) = Some [small_reply 117]" by code_simp
  obtain s' log' where r: "bridge_client 2 (logged_mesh ?M) ?C [Bytes (small_reply 116)] [] ([], []) = (Some [small_reply 117], s', log')"
    using f by (metis prod.collapse)
  have b: "client_bytes ?C [] [small_reply 117] = []" by (simp add: asks_def)
  obtain xs l where xs: "[small_reply 117] = [] @ map (fst \<circ> snd) xs" "log' = [] @ concat (map (snd \<circ> snd) xs) @ l"
    "\<forall>(m, r, e) \<in> set xs. exchange m r e \<and> length (filter (\<lambda>v. \<not> is_MR v) e) \<le> 4"
    "prefix (concat (map fst xs)) (bytes_of [Bytes (small_reply 116)] @ client_bytes ?C [] (map (fst \<circ> snd) xs))"
    using bridge_lockstep [OF r] by (elim exE conjE) (rule that)
  have "prefix (concat (map fst xs)) (small_reply 116)" using xs(4) xs(1) [symmetric] b by simp
  then show ?thesis using xs(1,3) by (intro exI [of _ xs] exI [of _ "[]"]) simp
qed

theorem reused_tag_shifts_witness:
  "fst (bridge_client 3 (mailbox (\<lambda>m. small_reply (m ! 4 + 1))) (asks [small_reply 112, small_reply 116])
     (bc_first (asks [small_reply 112, small_reply 116])) [] [None]) = Some [small_reply 113, small_reply 113]"
proof -
  have t: "tag_of (small_reply x) = 1" "length (small_reply x) = 7" for x
    by (simp_all add: tag_of_def small_reply_def ng16_def)
  have n: "small_reply 112 ! 4 = 112" "small_reply 116 ! 4 = 116" by (simp_all add: small_reply_def)
  have "\<forall>m \<in> set [small_reply 112, small_reply 116]. reply_ok m \<and> length m \<le> 600 \<and> tag_of m = 1"
    using t small_reply_ok by simp
  from reused_tag_shifts [OF _ this, of "\<lambda>m. small_reply (m ! 4 + 1)"] t n show ?thesis by (simp add: numeral_eq_Suc)
qed

subsection \<open>The chat\<close>

definition demo_chat :: chat where
  "demo_chat = \<lparr>ac_bcast = False, ac_dst = fmt_addr demo_eui, ac_switching = False, ac_out = []\<rparr>"

theorem chat_invariant_witness:
  "\<exists>S N. (chat_step demo_env 0)\<^sup>*\<^sup>* (RWait, demo_chat, demo_connected) (RWait, S, N) \<and> ac_switching S \<and>
     cv_state (conv_of N 0) = CONV_UNCONNECTED \<and> cts_of (conv_of N 0) = [dgram_eof]"
proof -
  let ?l = "ascii ''/connect bcast'' @ [nl]"
  have st: "chat_start demo_env 0 (fmt_addr demo_eui) demo_open = (Some demo_chat, demo_connected)"
  proof -
    have "fst (anet_write demo_env (NCtl 0) (connect_cmd demo_eui) demo_open) = Inr 25"
      "fmt_addr demo_eui \<noteq> bcast_text" "connect_line (fmt_addr demo_eui) = connect_cmd demo_eui" by code_simp+
    then show ?thesis
      by (cases "anet_write demo_env (NCtl 0) (connect_cmd demo_eui) demo_open")
        (auto simp: chat_start_def demo_connected_def demo_chat_def)
  qed
  obtain g S N where t: "typed_line demo_env 0 (Inl EIO) [] ?l (demo_chat, demo_connected) = (g, S, N)" by (metis prod_cases3)
  have "g \<and> ac_switching S"
  proof -
    have "case typed_line demo_env 0 (Inl EIO) [] ?l (demo_chat, demo_connected) of (g, S, N) \<Rightarrow> g \<and> ac_switching S" by code_simp
    then show ?thesis by (simp add: t)
  qed
  then have step: "(chat_step demo_env 0)\<^sup>*\<^sup>* (RWait, demo_chat, demo_connected) (RWait, S, N)" and sw: "ac_switching S"
    using chat_step.typed [OF _ t, of RWait] by auto
  have "conv_of demo_open 0 = \<lparr>cv_in_use = True, cv_slot = 0, cv_state = CONV_UNCONNECTED, cv_peer = addr_zero, cv_rxq = (16, [])\<rparr>"
    by (simp add: demo_convs)
  then have "cv_state (conv_of N 0) = CONV_UNCONNECTED \<and> snd (cv_rxq (conv_of N 0)) = [dgram_eof]"
    using chat_invariant [OF demo_msgq demo_open_wf _ _ _ _ st step] sw by simp
  then show ?thesis using step sw by (intro exI [of _ S] exI [of _ N]) (simp add: cts_of_def)
qed

definition demo_switching :: chat where
  "demo_switching = demo_chat\<lparr>ac_dst := bcast_text, ac_bcast := True, ac_switching := True\<rparr>"

definition demo_hung :: "(nat \<times> dgram list) net" where
  "demo_hung = snd (anet_write demo_env (NCtl 0) (ascii ''hangup'') demo_connected)"

theorem switch_completes_witness:
  "\<exists>S' N'. (chat_step demo_env 0)\<^sup>*\<^sup>* (RWait, demo_switching, demo_hung) (RWait, S', N') \<and> \<not> ac_switching S' \<and>
     cv_state (conv_of N' 0) = CONV_BCAST"
proof -
  have w: "net_wf demo_env snd fst demo_hung"
    unfolding demo_hung_def by (intro net_wf_write demo_msgq demo_bound_wf)
  have c: "conv_of demo_hung 0 = \<lparr>cv_in_use = True, cv_slot = 0, cv_state = CONV_UNCONNECTED, cv_peer = addr_zero,
      cv_rxq = (16, [dgram_eof])\<rparr>" by code_simp
  have ok: "chat_ok demo_env snd fst 0 (RWait, demo_switching, demo_hung)"
    using w c by (simp add: demo_switching_def)
  have "parse_addr (drop 8 (ctl_command (connect_line bcast_text))) = Inr addr_bcast"
    "is_prefix (ascii ''connect '') (ctl_command (connect_line bcast_text))" by code_simp+
  then have "bound_as bcast_text v \<longleftrightarrow> cv_state v = CONV_BCAST" for v :: "(nat \<times> dgram list) conv"
    by (simp add: bound_as_def Let_def)
  then show ?thesis
    using switch_completes [OF demo_msgq _ ok] by (auto simp: demo_switching_def)
qed

end
