(* ===== verification/ForwardTunnel.thy ===== *)
theory ForwardTunnel
  imports ForwardLink
begin

text \<open>
  The tunnel of \<open>aether_forwarder.c\<close> to the telemetry of one peer: 9P messages for the peer's server as
  datagrams of a conversation, with retries and a comparison of tags. Nothing in the program calls
  \<open>read_peer_mflt\<close> any more; the node drains its peers itself. The state keeps the next tag and the
  buffer of replies, in which a shorter reply leaves the bytes of an earlier one. \<open>None\<close> is a copy
  out of bounds; the failure of the code's -1 is \<open>RC_ERR\<close>.
\<close>

abbreviation (input) FID_CTL :: u32 where "FID_CTL \<equiv> 1"
abbreviation (input) FID_DATA :: u32 where "FID_DATA \<equiv> 2"

record tunnel =
  tn_tag :: u16 \<comment> \<open>\<open>g_ptag\<close>\<close>
  tn_rbuf :: "byte list"
  tn_link :: flink

text \<open>
  A conversation connected to the peer: \<open>Inl\<close> the code returned. The command is written with the length
  \<open>snprintf\<close> gives, from an array of 64 bytes.
\<close>

definition mesh_connect :: "port \<Rightarrow> byte list \<Rightarrow> flink \<Rightarrow> (rc + unit) option \<times> flink" where
  "mesh_connect E cga L =
     (case do_walk E FID_ROOT FID_CTL (ascii ''net/aether/clone'') L of
        (Inl e, L1) \<Rightarrow> (Some (Inl RC_ERR), L1)
      | (Inr _, L1) \<Rightarrow>
     (case do_open E FID_CTL 2 L1 of
        (Inl e, L2) \<Rightarrow> (Some (Inl RC_ERR), do_clunk E FID_CTL L2)
      | (Inr _, L2) \<Rightarrow>
     (case do_read E FID_CTL 0 31 L2 of
        (None, L3) \<Rightarrow> (None, L3)
      | (Some (Inl e), L3) \<Rightarrow> (Some (Inl RC_ERR), do_clunk E FID_CTL L3)
      | (Some (Inr d), L3) \<Rightarrow>
     (if d = [] then (Some (Inl RC_ERR), do_clunk E FID_CTL L3)
      else
       (let path = snprintf_out 64 (ascii ''net/aether/'' @ dec_int (atoi (cstr d)) @ ascii ''/data'') in
     (case do_walk E FID_ROOT FID_DATA path L3 of
        (Inl e, L4) \<Rightarrow> (Some (Inl RC_ERR), do_clunk E FID_CTL L4)
      | (Inr _, L4) \<Rightarrow>
     (case do_open E FID_DATA 2 L4 of
        (Inl e, L5) \<Rightarrow> (Some (Inl RC_ERR), do_clunk E FID_CTL (do_clunk E FID_DATA L5))
      | (Inr _, L5) \<Rightarrow>
     (case snprintf_send 64 (ascii ''connect '' @ cga) of
        None \<Rightarrow> (None, L5)
      | Some cmd \<Rightarrow>
     (case do_write_fid E FID_CTL cmd L5 of
        (Inl e, L6) \<Rightarrow> (Some (Inl RC_BAD), do_clunk E FID_CTL (do_clunk E FID_DATA L6))
      | (Inr n, L6) \<Rightarrow>
          if sint n < 0 then (Some (Inl RC_BAD), do_clunk E FID_CTL (do_clunk E FID_DATA L6))
          else (Some (Inr ()), L6))))))))))"

definition mesh_close :: "port \<Rightarrow> flink \<Rightarrow> flink" where
  "mesh_close E L = do_clunk E FID_CTL (do_clunk E FID_DATA L)"

text \<open>
  The reads of one attempt: the length of the reply found, \<open>Inr None\<close> to send again, or the loss of the
  line.
\<close>

fun mesh_reads :: "port \<Rightarrow> u16 \<Rightarrow> nat \<Rightarrow> tunnel \<Rightarrow> (rc + nat option) option \<times> tunnel" where
  "mesh_reads E want 0 T = (Some (Inr None), T)"
| "mesh_reads E want (Suc k) T =
     (case do_read E FID_DATA 0 600 (tn_link T) of
        (None, L1) \<Rightarrow> (None, T\<lparr>tn_link := L1\<rparr>)
      | (Some (Inl e), L1) \<Rightarrow> (Some (if e = RC_ERR then Inl RC_ERR else Inr None), T\<lparr>tn_link := L1\<rparr>)
      | (Some (Inr d), L1) \<Rightarrow>
          (let T1 = T\<lparr>tn_link := L1, tn_rbuf := overlay d (tn_rbuf T)\<rparr> in
           if d = [] then (Some (Inr None), T1)
           else if 7 \<le> length d \<and> ng16 (drop 5 (tn_rbuf T1)) = want then (Some (Inr (Some (length d))), T1)
           else mesh_reads E want k T1))"

fun mesh_attempts :: "port \<Rightarrow> byte list \<Rightarrow> nat \<Rightarrow> tunnel \<Rightarrow> (rc + nat) option \<times> tunnel" where
  "mesh_attempts E msg 0 T = (Some (Inl RC_ERR), T)"
| "mesh_attempts E msg (Suc n) T =
     (case do_write_fid E FID_DATA msg (tn_link T) of
        (Inl e, L1) \<Rightarrow> (Some (Inl RC_ERR), T\<lparr>tn_link := L1\<rparr>)
      | (Inr w, L1) \<Rightarrow>
          if sint w < 0 then (Some (Inl RC_ERR), T\<lparr>tn_link := L1\<rparr>)
          else case mesh_reads E (ng16 (drop 5 msg)) 6 (T\<lparr>tn_link := L1\<rparr>) of
            (None, T1) \<Rightarrow> (None, T1)
          | (Some (Inl e), T1) \<Rightarrow> (Some (Inl e), T1)
          | (Some (Inr None), T1) \<Rightarrow> mesh_attempts E msg n T1
          | (Some (Inr (Some r)), T1) \<Rightarrow> (Some (Inr r), T1))"

definition mesh_rpc :: "port \<Rightarrow> byte list \<Rightarrow> tunnel \<Rightarrow> (rc + nat) option \<times> tunnel" where
  "mesh_rpc E body T = mesh_attempts E (np32 (of_nat (4 + length body)) @ body) 4 T"

subsection \<open>The peer's server\<close>

text \<open>Whether the reply is of the type wanted.\<close>

definition peer_reply :: "byte \<Rightarrow> (rc + nat) option \<times> tunnel \<Rightarrow> bool option \<times> tunnel" where
  "peer_reply want rT =
     (case rT of
        (None, T) \<Rightarrow> (None, T)
      | (Some (Inl e), T) \<Rightarrow> (Some False, T)
      | (Some (Inr r), T) \<Rightarrow> (Some (4 < r \<and> tn_rbuf T ! 4 = want), T))"

definition peer_version :: "port \<Rightarrow> tunnel \<Rightarrow> bool option \<times> tunnel" where
  "peer_version E T = peer_reply 101 (mesh_rpc E ([100] @ np16 0xffff @ np32 512 @ np16 6 @ ascii ''9P2000'') T)"

definition peer_attach :: "port \<Rightarrow> u32 \<Rightarrow> tunnel \<Rightarrow> bool option \<times> tunnel" where
  "peer_attach E fid T =
     peer_reply 105 (mesh_rpc E ([104] @ np16 (tn_tag T) @ np32 fid @ np32 0xffffffff @ np16 1 @ ascii ''t'' @ np16 0)
       (T\<lparr>tn_tag := tn_tag T + 1\<rparr>))"

definition peer_walk :: "port \<Rightarrow> u32 \<Rightarrow> u32 \<Rightarrow> byte list \<Rightarrow> tunnel \<Rightarrow> bool option \<times> tunnel" where
  "peer_walk E fid newfid name T =
     peer_reply 111 (mesh_rpc E ([110] @ np16 (tn_tag T) @ np32 fid @ np32 newfid @ np16 1
       @ np16 (of_nat (length name)) @ name) (T\<lparr>tn_tag := tn_tag T + 1\<rparr>))"

definition peer_open :: "port \<Rightarrow> u32 \<Rightarrow> byte \<Rightarrow> tunnel \<Rightarrow> bool option \<times> tunnel" where
  "peer_open E fid mode T =
     peer_reply 113 (mesh_rpc E ([112] @ np16 (tn_tag T) @ np32 fid @ [mode]) (T\<lparr>tn_tag := tn_tag T + 1\<rparr>))"

text \<open>
  The bytes to copy, as the code computes them: the count of the reply, cut to the room and to what
  the datagram of \<open>r\<close> bytes can hold behind its header of eleven, both compared as signed numbers.
\<close>

definition peer_count :: "nat \<Rightarrow> nat \<Rightarrow> u32 \<Rightarrow> u32" where
  "peer_count cap r n =
     (let m = (if int cap < sint n then of_nat cap else n)
      in if int r - 11 < sint m then of_int (int r - 11) else m)"

definition peer_read :: "port \<Rightarrow> u32 \<Rightarrow> u64 \<Rightarrow> nat \<Rightarrow> tunnel \<Rightarrow> byte list option option \<times> tunnel" where
  "peer_read E fid off cap T =
     (case mesh_rpc E ([116] @ np16 (tn_tag T) @ np32 fid @ np32 (ucast off) @ np32 (ucast (drop_bit 32 off))
             @ np32 (of_nat (min cap 400))) (T\<lparr>tn_tag := tn_tag T + 1\<rparr>) of
        (None, T1) \<Rightarrow> (None, T1)
      | (Some (Inl e), T1) \<Rightarrow> (Some None, T1)
      | (Some (Inr r), T1) \<Rightarrow>
          (if r \<le> 4 \<or> tn_rbuf T1 ! 4 \<noteq> 117 then (Some None, T1)
           else let n = unat (peer_count cap r (ng32 (drop 7 (tn_rbuf T1)))) in
             if cap < n \<or> 600 < 11 + n then (None, T1)
             else (Some (Some (segment 11 n (tn_rbuf T1))), T1)))"

subsection \<open>A peer's telemetry\<close>

text \<open>The session on the peer: version, attach, the walk to \<open>dev/mflt\<close>, open.\<close>

definition peer_session :: "port \<Rightarrow> tunnel \<Rightarrow> bool option \<times> tunnel" where
  "peer_session E T =
     (case peer_version E T of (None, T1) \<Rightarrow> (None, T1) | (Some False, T1) \<Rightarrow> (Some False, T1) | (Some True, T1) \<Rightarrow>
     (case peer_attach E FID_ROOT T1 of (None, T2) \<Rightarrow> (None, T2) | (Some False, T2) \<Rightarrow> (Some False, T2) | (Some True, T2) \<Rightarrow>
     (case peer_walk E FID_ROOT 1 (ascii ''dev'') T2 of (None, T3) \<Rightarrow> (None, T3) | (Some False, T3) \<Rightarrow> (Some False, T3) | (Some True, T3) \<Rightarrow>
     (case peer_walk E 1 2 (ascii ''mflt'') T3 of (None, T4) \<Rightarrow> (None, T4) | (Some False, T4) \<Rightarrow> (Some False, T4) | (Some True, T4) \<Rightarrow>
        peer_open E 2 0 T4))))"

text \<open>At most twelve reads, all at offset 0; \<open>late i\<close> tells whether the deadline has passed before the i-th.\<close>

fun peer_drain :: "port \<Rightarrow> (nat \<Rightarrow> bool) \<Rightarrow> nat \<Rightarrow> nat \<Rightarrow> byte list \<Rightarrow> tunnel \<Rightarrow> byte list option \<times> tunnel" where
  "peer_drain E late cap 0 out T = (Some out, T)"
| "peer_drain E late cap (Suc k) out T =
     (if cap \<le> length out + 8 \<or> late (12 - Suc k) then (Some out, T)
      else case peer_read E 2 0 (cap - 1 - length out) T of
        (None, T1) \<Rightarrow> (None, T1)
      | (Some None, T1) \<Rightarrow> (Some out, T1)
      | (Some (Some d), T1) \<Rightarrow> if d = [] then (Some out, T1) else peer_drain E late cap k (out @ d) T1)"

definition read_peer_mflt ::
    "port \<Rightarrow> (nat \<Rightarrow> bool) \<Rightarrow> byte list \<Rightarrow> nat \<Rightarrow> tunnel \<Rightarrow> (rc + byte list) option \<times> tunnel" where
  "read_peer_mflt E late cga cap T =
     (case mesh_connect E cga (tn_link T) of
        (None, L1) \<Rightarrow> (None, T\<lparr>tn_link := L1\<rparr>)
      | (Some (Inl e), L1) \<Rightarrow> (Some (if e = RC_ERR then Inl RC_ERR else Inr []), T\<lparr>tn_link := L1\<rparr>)
      | (Some (Inr _), L1) \<Rightarrow>
     (case peer_session E (T\<lparr>tn_link := L1\<rparr>) of
        (None, T2) \<Rightarrow> (None, T2)
      | (Some False, T2) \<Rightarrow> (Some (Inr []), T2\<lparr>tn_link := mesh_close E (tn_link T2)\<rparr>)
      | (Some True, T2) \<Rightarrow>
     (case peer_drain E late cap 12 [] T2 of
        (None, T3) \<Rightarrow> (None, T3)
      | (Some out, T3) \<Rightarrow> (Some (Inr out), T3\<lparr>tn_link := mesh_close E (tn_link T3)\<rparr>))))"

end
