(* ===== verification/ForwardTunnelProps.thy ===== *)
theory ForwardTunnelProps
  imports ForwardTunnel ForwardLinkProps
begin

text \<open>
  Properties of the forwarder's tunnel: what a reply to a read makes it copy, and that the control
  fid of the conversation is given back whatever happens.
\<close>

subsection \<open>The count of a reply\<close>

lemma uint_sint: "uint (w :: u32) = sint w + 4294967296 * of_bool (sint w < 0)"
proof -
  have "sint w = signed_take_bit 31 (uint w)" by (simp add: sint_uint)
  also have "\<dots> = take_bit 32 (uint w) - 4294967296 * of_bool (bit (uint w) 31)"
    by (simp add: signed_take_bit_eq_take_bit_minus)
  also have "take_bit 32 (uint w) = uint w"
    by (intro take_bit_int_eq_self) (use unsigned_less [of w, where 'a = int] in simp_all)
  finally have "sint w = uint w - 4294967296 * of_bool (bit (uint w) 31)" .
  moreover have "bit (uint w) 31 = (sint w < 0)" using bit_last_iff [of w] by (simp add: bit_uint_iff)
  ultimately have "sint w = uint w - 4294967296 * of_bool (sint w < 0)" by (simp only:)
  then show ?thesis by linarith
qed

lemma unat_negative:
  assumes "sint (w :: u32) < 0" shows "2147483648 \<le> unat w"
proof -
  have "uint w = sint w + 4294967296" using uint_sint [of w] assms by (simp only: of_bool_eq mult_1_right simp_thms)
  moreover have "- 2147483648 \<le> sint w" using sint_greater_eq [of w] by simp
  ultimately have "2147483648 \<le> uint w" by linarith
  then have "nat 2147483648 \<le> nat (uint w)" by (rule nat_mono)
  then show ?thesis by (simp only: unat_eq_nat_uint nat_numeral)
qed

lemma unat_nonnegative:
  assumes "0 \<le> sint (w :: u32)" shows "int (unat w) = sint w"
proof -
  have "\<not> sint w < 0" using assms by linarith
  then have "uint w = sint w" using uint_sint [of w] by (simp only: of_bool_eq mult_zero_right add_0_right)
  then show ?thesis by (simp add: unat_eq_nat_uint assms)
qed
lemma sint_small: "m < 2147483648 \<Longrightarrow> unat (of_nat m :: u32) = m \<and> sint (of_nat m :: u32) = int m"
  by (simp add: unsigned_of_nat take_bit_nat_eq_self signed_of_nat signed_take_bit_int_eq_self)

lemma peer_count_ok:
  assumes "11 \<le> r" "r \<le> 600" and "cap < 2147483648" and "0 \<le> sint n"
  shows "unat (peer_count cap r n) = min (unat n) (min cap (r - 11))"
proof -
  note n = unat_nonnegative [OF assms(4)]
  note c = sint_small [OF assms(3)]
  have r: "int r - 11 = int (r - 11)" using assms(1) by simp
  have r2: "unat (of_nat (r - 11) :: u32) = r - 11" using assms(2) sint_small [of "r - 11"] by simp
  have l: "int cap < sint n \<longleftrightarrow> cap < unat n" "int (r - 11) < sint n \<longleftrightarrow> r - 11 < unat n" using n by linarith+
  show ?thesis
    using c r2 unfolding peer_count_def Let_def r by (simp add: l min_def)
qed

lemma peer_count_bad:
  assumes "r < 11 \<or> sint n < 0" and "cap < 2147483648"
  shows "2147483648 \<le> unat (peer_count cap r n)"
proof -
  let ?m = "if int cap < sint n then of_nat cap else n"
  show ?thesis
  proof (cases "int r - 11 < sint ?m")
    case True
    have "r < 11"
    proof (rule ccontr)
      assume "\<not> r < 11"
      moreover from this have "sint n < 0" using assms(1) by simp
      ultimately show False using True by simp
    qed
    then have "sint (of_int (int r - 11) :: u32) = int r - 11"
      by (simp add: signed_of_int signed_take_bit_int_eq_self del: of_int_diff of_int_of_nat_eq)
    then have "sint (of_int (int r - 11) :: u32) < 0" using \<open>r < 11\<close> by simp
    from unat_negative [OF this] True show ?thesis by (simp add: peer_count_def Let_def)
  next
    case False
    then have "sint ?m < 0" using assms sint_small [OF assms(2)] by (auto split: if_splits)
    from unat_negative [OF this] False show ?thesis by (simp add: peer_count_def Let_def)
  qed
qed

text \<open>
  The reply to a read of the peer's telemetry is copied within its datagram and the room, if it
  has a whole header; one that has the right tag and type but fewer than eleven bytes, or a count
  of 2^31 or more, makes the length of the copy negative, and the copy runs out of both buffers.
\<close>

theorem peer_read_bounds:
  assumes r: "mesh_rpc E ([116] @ np16 (tn_tag T) @ np32 fid @ np32 (ucast off) @ np32 (ucast (drop_bit 32 off))
      @ np32 (of_nat (min cap 400))) (T\<lparr>tn_tag := tn_tag T + 1\<rparr>) = (Some (Inr r), T1)"
    and ty: "4 < r" "r \<le> 600" "tn_rbuf T1 ! 4 = 117" and cap: "cap < 2147483648"
  defines "n \<equiv> ng32 (drop 7 (tn_rbuf T1))"
  shows "peer_read E fid off cap T = (if r < 11 \<or> sint n < 0 then (None, T1)
    else (Some (Some (segment 11 (min (unat n) (min cap (r - 11))) (tn_rbuf T1))), T1))"
proof (cases "r < 11 \<or> sint n < 0")
  case True
  from peer_count_bad [OF this cap] True r ty show ?thesis by (simp add: peer_read_def n_def [symmetric] Let_def)
next
  case False
  then have "unat (peer_count cap r n) = min (unat n) (min cap (r - 11))" using peer_count_ok [of r cap n] ty cap by simp
  moreover have "r - 11 \<le> 589" using ty(2) by simp
  ultimately show ?thesis using False r ty by (auto simp: peer_read_def n_def [symmetric] Let_def)
qed

subsection \<open>Fids given back\<close>

lemma rpc_to_sent: "rpc_to E body L = (r, L1) \<Longrightarrow> lk_sent L1 = lk_sent L @ [frame body]"
  by (auto simp: rpc_to_def Let_def frame_def split: prod.splits option.splits if_splits)

definition clunk_frame_of :: "u32 \<Rightarrow> byte list" where
  "clunk_frame_of fid = frame ([120] @ np16 1 @ np32 fid)"

lemma do_clunk_sent [simp]: "lk_sent (do_clunk E fid L) = lk_sent L @ [clunk_frame_of fid]"
  unfolding do_clunk_def clunk_frame_of_def
  by (cases "rpc_to E ([120] @ np16 1 @ np32 fid) L") (auto dest: rpc_to_sent)

text \<open>Frames are only added.\<close>

definition extends :: "flink \<Rightarrow> flink \<Rightarrow> bool" where
  "extends L L' \<longleftrightarrow> (\<exists>fs. lk_sent L' = lk_sent L @ fs)"

lemma extends_refl [simp]: "extends L L"
  by (simp add: extends_def)

lemma extends_trans: "extends a b \<Longrightarrow> extends b c \<Longrightarrow> extends a c"
  by (auto simp: extends_def)

lemma rpc_to_extends: "rpc_to E body L = (r, L1) \<Longrightarrow> extends L L1"
  by (auto simp: extends_def dest: rpc_to_sent)

lemma do_extends:
  "do_walk E fid nf path L = (r1, L1) \<Longrightarrow> extends L L1"
  "do_open E fid mode L = (r1, L1) \<Longrightarrow> extends L L1"
  "do_read E fid off cap L = (r2, L1) \<Longrightarrow> extends L L1"
  "do_write_fid E fid d L = (r3, L1) \<Longrightarrow> extends L L1"
  unfolding do_walk_def do_open_def do_read_def do_write_fid_def
  by (auto simp: Let_def split: prod.splits sum.splits if_splits dest: rpc_to_extends)

lemma mesh_reads_extends: "mesh_reads E want k T = (r, T') \<Longrightarrow> extends (tn_link T) (tn_link T')"
proof (induction k arbitrary: T)
  case (Suc k)
  then show ?case
    by (auto simp: Let_def extends_def split: prod.splits option.splits sum.splits if_splits dest!: do_extends(3) Suc.IH)
qed simp

lemma mesh_attempts_extends: "mesh_attempts E msg n T = (r, T') \<Longrightarrow> extends (tn_link T) (tn_link T')"
proof (induction n arbitrary: T)
  case (Suc n)
  then show ?case
    by (auto split: prod.splits option.splits sum.splits if_splits dest!: do_extends(4) mesh_reads_extends Suc.IH simp: extends_def)
qed simp

lemma peer_extends:
  "peer_version E T = (r, T') \<Longrightarrow> extends (tn_link T) (tn_link T')"
  "peer_attach E fid T = (r, T') \<Longrightarrow> extends (tn_link T) (tn_link T')"
  "peer_walk E fid nf name T = (r, T') \<Longrightarrow> extends (tn_link T) (tn_link T')"
  "peer_open E fid mode T = (r, T') \<Longrightarrow> extends (tn_link T) (tn_link T')"
  "peer_read E fid off cap T = (x, T') \<Longrightarrow> extends (tn_link T) (tn_link T')"
  unfolding peer_version_def peer_attach_def peer_walk_def peer_open_def peer_read_def peer_reply_def mesh_rpc_def
  by (auto simp: Let_def split: prod.splits option.splits sum.splits if_splits dest!: mesh_attempts_extends)

lemma session_extends: "peer_session E T = (r, T') \<Longrightarrow> extends (tn_link T) (tn_link T')"
  unfolding peer_session_def
  by (auto split: prod.splits option.splits bool.splits dest!: peer_extends simp: extends_def)

lemma drain_extends: "peer_drain E late cap k out T = (r, T') \<Longrightarrow> extends (tn_link T) (tn_link T')"
proof (induction k arbitrary: out T)
  case (Suc k)
  then show ?case
    by (auto split: prod.splits option.splits if_splits dest!: peer_extends(5) Suc.IH simp: extends_def)
qed simp

text \<open>
  After a session on a peer the control fid of its conversation has been clunked last, whether the
  session succeeded, failed, or was never bound; only if the clone itself was refused was nothing
  opened, and then the one request sent was the walk. The caller cannot tell such a refusal from a
  lost line.
\<close>

theorem tunnel_gives_back:
  assumes "read_peer_mflt E late cga cap T = (Some r, T')"
  shows "(r = Inl RC_ERR \<and> (\<exists>e. fst (do_walk E FID_ROOT FID_CTL (ascii ''net/aether/clone'') (tn_link T)) = Inl e)) \<or>
    (\<exists>fs. lk_sent (tn_link T') = lk_sent (tn_link T) @ fs @ [clunk_frame_of FID_CTL])"
proof -
  have conn: "extends (tn_link T) L1 \<and> (case x of Some (Inl e) \<Rightarrow>
        (e = RC_ERR \<and> (\<exists>e. fst (do_walk E FID_ROOT FID_CTL (ascii ''net/aether/clone'') (tn_link T)) = Inl e)) \<or>
        (\<exists>fs. lk_sent L1 = lk_sent (tn_link T) @ fs @ [clunk_frame_of FID_CTL]) | _ \<Rightarrow> True)"
    if "mesh_connect E cga (tn_link T) = (x, L1)" for x L1
    using that unfolding mesh_connect_def Let_def
    by (auto split: prod.splits sum.splits option.splits if_splits dest!: do_extends simp: extends_def)
  obtain x L1 where c: "mesh_connect E cga (tn_link T) = (x, L1)" by fastforce
  note c' = conn [OF c]
  obtain y T2 where s: "peer_session E (T\<lparr>tn_link := L1\<rparr>) = (y, T2)" by fastforce
  obtain z T3 where d: "peer_drain E late cap 12 [] T2 = (z, T3)" by fastforce
  have e: "extends (tn_link T) (tn_link T2)" "extends (tn_link T) (tn_link T3)"
    using c' session_extends [OF s] drain_extends [OF d] by (auto intro: extends_trans)
  show ?thesis
    using assms c s d c' e
    by (auto simp: read_peer_mflt_def mesh_close_def extends_def split: option.splits sum.splits bool.splits if_splits)
qed

end
