(* ===== verification/ForwardMain.thy ===== *)
theory ForwardMain
  imports ForwardLink
begin

text \<open>
  The rest of \<open>aether_forwarder.c\<close>: the shell command by which a chunk is posted, the choice of the
  serial port, the arguments, and \<open>main\<close>. The shell, the file system and the terminal settings are
  not part of the repository; the first two are parameters.
\<close>

subsection \<open>Posting\<close>

text \<open>A shell: the status of a command with its standard input, \<open>None\<close> when it cannot be started.\<close>

type_synonym shell = "byte list \<Rightarrow> byte list \<Rightarrow> int option"

definition API_BASE :: "byte list" where
  "API_BASE = ascii ''https://chunks.memfault.com/api/v0/chunks''"

abbreviation quote :: byte where "quote \<equiv> 39"

definition post_text :: "byte list \<Rightarrow> byte list \<Rightarrow> byte list" where
  "post_text key serial =
     ascii ''curl -sS --fail --max-time 20 -X POST '' @ [quote] @ API_BASE @ [47] @ serial @ [quote]
     @ ascii '' -H '' @ [quote] @ ascii ''Memfault-Project-Key: '' @ key @ [quote]
     @ ascii '' -H '' @ [quote] @ ascii ''Content-Type: application/octet-stream'' @ [quote]
     @ ascii '' --data-binary @- >/dev/null 2>&1''"

definition post_cmd :: "byte list \<Rightarrow> byte list \<Rightarrow> byte list" where
  "post_cmd key serial = snprintf_out 512 (post_text key serial)"

definition post_chunk :: "shell \<Rightarrow> byte list \<Rightarrow> byte list \<Rightarrow> byte list \<Rightarrow> bool" where
  "post_chunk sh key serial data = (sh (post_cmd key serial) data = Some 0)"

text \<open>The collector behind the shell; what the shell answers may depend on the posts before.\<close>

definition shell_collector :: "(post list \<Rightarrow> shell) \<Rightarrow> (post list \<Rightarrow> int) \<Rightarrow> byte list \<Rightarrow> collector" where
  "shell_collector sh time key =
     \<lparr>co_accepts = (\<lambda>ps (serial, data). post_chunk (sh ps) key serial data), co_time = time\<rparr>"

subsection \<open>The serial port\<close>

text \<open>A path, or the end of the name of a USB modem: the first that matches.\<close>

definition resolve_dev :: "(byte list \<Rightarrow> bool) \<Rightarrow> (byte list \<Rightarrow> byte list list) \<Rightarrow> byte list \<Rightarrow> byte list option" where
  "resolve_dev exists glob arg =
     (if arg \<noteq> [] \<and> hd arg = 47
      then (let d = snprintf_out 256 arg in if exists d then Some d else None)
      else case glob (snprintf_out 256 (ascii ''/dev/cu.usbmodem'' @ arg)) of
        [] \<Rightarrow> None
      | p # _ \<Rightarrow> Some (snprintf_out 256 p))"

record host_fs =
  hf_exists :: "byte list \<Rightarrow> bool"
  hf_glob :: "byte list \<Rightarrow> byte list list"
  hf_open :: "byte list \<Rightarrow> io_event list option" \<comment> \<open>the line behind the port, if it opens\<close>

definition open_serial :: "host_fs \<Rightarrow> byte list \<Rightarrow> io_event list option" where
  "open_serial F arg =
     (case resolve_dev (hf_exists F) (hf_glob F) arg of None \<Rightarrow> None | Some d \<Rightarrow> hf_open F d)"

subsection \<open>The program\<close>

text \<open>The time between cycles: 30 seconds unless given, at least five.\<close>

definition fwd_interval :: "byte list list \<Rightarrow> int" where
  "fwd_interval args = max 5 (if 2 \<le> length args then atoi (args ! 1) else 30)"

text \<open>
  The words after the program's name, the key in the environment, and the file system as each turn
  of the loop finds it, until a signal ends it: the exit status and the posts; \<open>None\<close> for a copy out
  of bounds. The root fid is given back at the end if the port is held.
\<close>

definition forwarder_main ::
    "port \<Rightarrow> (post list \<Rightarrow> shell) \<Rightarrow> (post list \<Rightarrow> int) \<Rightarrow> byte list list \<Rightarrow> byte list option \<Rightarrow> host_fs list \<Rightarrow> flink \<Rightarrow>
       (nat \<times> post list \<times> flink) option" where
  "forwarder_main E sh time args key turns L =
     (if args = [] then Some (2, [], L)
      else case key of
        None \<Rightarrow> Some (2, [], L)
      | Some k \<Rightarrow>
          if k = [] then Some (2, [], L)
          else case main_loop E (shell_collector sh time k) (fwd_interval args)
                 (map (\<lambda>F. open_serial F (hd args)) turns) (False, L, \<lparr>fw_devs = [], fw_posts = []\<rparr>) of
            None \<Rightarrow> None
          | Some (held, L1, S1) \<Rightarrow> Some (0, fw_posts S1, if held then do_clunk E FID_ROOT L1 else L1))"

end
