(* ===== verification/ForwardMainProps.thy ===== *)
theory ForwardMainProps
  imports ForwardMain ForwardProps ForwardLinkProps
begin

text \<open>
  What the shell reads of the command that posts a chunk, and who decides it: the serial comes from
  the token stream, which other nodes write.
\<close>

subsection \<open>Quoting\<close>

text \<open>
  What a POSIX shell interprets of a command without double quotes and backslashes: the text outside
  single quotes. \<open>q\<close> tells whether a quote is open.
\<close>

fun shell_reads :: "bool \<Rightarrow> byte list \<Rightarrow> byte list" where
  "shell_reads q [] = []"
| "shell_reads q (c # s) =
     (if c = quote then shell_reads (\<not> q) s else if q then shell_reads q s else c # shell_reads q s)"

fun open_after :: "bool \<Rightarrow> byte list \<Rightarrow> bool" where
  "open_after q [] = q"
| "open_after q (c # s) = open_after (if c = quote then \<not> q else q) s"

lemma shell_reads_append: "shell_reads q (a @ b) = shell_reads q a @ shell_reads (open_after q a) b"
  by (induction q a rule: shell_reads.induct) auto

lemma open_after_append: "open_after q (a @ b) = open_after (open_after q a) b"
  by (induction q a rule: open_after.induct) auto

lemma plain_reads: "quote \<notin> set a \<Longrightarrow> shell_reads q a = (if q then [] else a) \<and> open_after q a = q"
  by (induction a) auto

lemma plain_reads_append:
  "quote \<notin> set a \<Longrightarrow> shell_reads q (a @ b) = (if q then [] else a) @ shell_reads q b"
  by (simp add: shell_reads_append plain_reads)

text \<open>The command as its author wrote it, without the words in quotes.\<close>

definition post_head :: "byte list" where
  "post_head = ascii ''curl -sS --fail --max-time 20 -X POST ''"

definition post_tail :: "byte list" where
  "post_tail = ascii '' -H  -H  --data-binary @- >/dev/null 2>&1''"

lemma tail_parts:
  "ascii '' -H '' @ ascii '' -H '' @ ascii '' --data-binary @- >/dev/null 2>&1'' = post_tail"
  by (simp add: post_tail_def ascii_def)

lemma length_post_text: "length (post_text key serial) = length key + length serial + 187"
  by (simp add: post_text_def API_BASE_def)

lemma no_quote: "quote \<notin> set API_BASE" "quote \<notin> set post_head" "quote \<notin> set (ascii '' -H '')"
  "quote \<notin> set (ascii ''Memfault-Project-Key: '')" "quote \<notin> set (ascii ''Content-Type: application/octet-stream'')"
  "quote \<notin> set (ascii '' --data-binary @- >/dev/null 2>&1'')"
  by code_simp+

text \<open>A serial whose quotes pair up leaves the rest of the command as it is, and adds what is between them.\<close>

lemma post_cmd_reads:
  assumes "quote \<notin> set key" and "length key + length serial \<le> 324" and "open_after True serial"
  shows "shell_reads False (post_cmd key serial) = post_head @ shell_reads True serial @ post_tail"
proof -
  have "post_cmd key serial = post_text key serial"
    using assms(2) by (simp add: post_cmd_def snprintf_out_def length_post_text)
  then show ?thesis
    using assms(1,3) no_quote plain_reads [OF no_quote(6), of False]
    unfolding post_text_def post_head_def [symmetric] tail_parts [symmetric]
    by (simp add: plain_reads_append shell_reads_append [of _ serial])
qed

subsection \<open>Who decides\<close>

lemma stream_loop_serials:
  "c \<notin> set p \<Longrightarrow> c \<notin> set serial \<Longrightarrow>
     \<exists>ps. fw_posts (snd (stream_loop C p serial k S)) = fw_posts S @ ps \<and> (\<forall>(s, d) \<in> set ps. c \<notin> set s \<and> length s \<le> max 39 (length serial))"
proof (induction "length p" arbitrary: p serial k S rule: less_induct)
  case less
  show ?case
  proof (cases rule: stream_loop_step [of C p serial k S])
    case stop
    then show ?thesis by simp
  next
    case (dev b rest)
    then have "c \<notin> set rest" "c \<notin> set (take 39 b)" using less.prems by (auto dest: in_set_takeD)
    from less.hyps [OF dev(1) this, of k S] show ?thesis unfolding dev(2) by fastforce
  next
    case (chunk b rest ok S1)
    then have "c \<notin> set rest" using less.prems by auto
    from less.hyps [OF chunk(1) this less.prems(2), of "if ok then k + 1 else k" S1] obtain ps where
      ps: "fw_posts (snd (stream_loop C p serial k S)) = fw_posts S1 @ ps"
      "\<forall>(s, d) \<in> set ps. c \<notin> set s \<and> length s \<le> max 39 (length serial)" unfolding chunk(3) by blast
    moreover have "fw_posts S1 = fw_posts S @ (if serial = [] \<or> b64dec b 512 = [] then [] else [(serial, b64dec b 512)])"
      using dev_find_posts [of C serial b S] chunk(2) by simp
    ultimately show ?thesis using less.prems(2) by (auto split: if_splits)
  qed
qed

text \<open>
  C34. What the forwarder makes the shell run is fixed only as long as no other node wants it
  otherwise. If the text read from the mesh has no quote in it, the shell reads of each command
  exactly what its author wrote outside quotes. But a node that names itself with a quoted text
  makes the forwarder hand the text between its quotes to the shell as a part of the command, for
  any text of up to 37 bytes without a colon.
\<close>

theorem forwarder_shell:
  assumes key: "quote \<notin> set key" "length key \<le> 285"
  shows "(quote \<notin> set text \<longrightarrow> (\<exists>ps. fw_posts (snd (forward_stream C text S)) = fw_posts S @ ps \<and>
      (\<forall>(s, d) \<in> set ps. shell_reads False (post_cmd key s) = post_head @ post_tail))) \<and>
    (\<forall>c d. {colon, 0, quote} \<inter> set c = {} \<and> length c \<le> 37 \<and> d \<noteq> [] \<and> length d \<le> 512 \<longrightarrow>
      (let s = [quote] @ c @ [quote] in
       fw_posts (snd (forward_stream C (render (Dev s) @ render (Chunk d)) S)) = fw_posts S @ [(s, d)] \<and>
       shell_reads False (post_cmd key s) = post_head @ c @ post_tail))"
proof (intro conjI impI allI)
  assume "quote \<notin> set text"
  then have "quote \<notin> set (cstr text)" by (auto simp: cstr_def dest: set_takeWhileD)
  from stream_loop_serials [OF this, of "[]" C 0 S] obtain ps where
    ps: "fw_posts (snd (forward_stream C text S)) = fw_posts S @ ps" "\<forall>(s, d) \<in> set ps. quote \<notin> set s \<and> length s \<le> 39"
    by (auto simp: forward_stream_def)
  have "shell_reads False (post_cmd key s) = post_head @ post_tail" if "quote \<notin> set s" "length s \<le> 39" for s
    using post_cmd_reads [OF key(1), of s] plain_reads [OF that(1), of True] that(2) key(2) by simp
  then show "\<exists>ps. fw_posts (snd (forward_stream C text S)) = fw_posts S @ ps \<and>
      (\<forall>(s, d) \<in> set ps. shell_reads False (post_cmd key s) = post_head @ post_tail)" using ps by fastforce
next
  fix c d :: "byte list"
  assume c: "{colon, 0, quote} \<inter> set c = {} \<and> length c \<le> 37 \<and> d \<noteq> [] \<and> length d \<le> 512"
  let ?s = "[quote] @ c @ [quote]"
  have q: "quote \<notin> set c" using c by auto
  have "list_all item_ok [Dev ?s, Chunk d]" using c by auto
  from stream_roundtrip_run [OF this, of C S] have
    "fw_posts (snd (forward_stream C (render (Dev ?s) @ render (Chunk d)) S)) = fw_posts S @ [(?s, d)]"
    using c post_one_posts [of ?s d C "(0, S)"] by simp
  moreover have "shell_reads True ?s = c" "open_after True ?s"
    using plain_reads [OF q, of False] by (simp_all add: plain_reads_append [OF q] open_after_append)
  then have "shell_reads False (post_cmd key ?s) = post_head @ c @ post_tail"
    using post_cmd_reads [OF key(1), of ?s] c key(2) by simp
  ultimately show "let s = ?s in
       fw_posts (snd (forward_stream C (render (Dev s) @ render (Chunk d)) S)) = fw_posts S @ [(s, d)] \<and>
       shell_reads False (post_cmd key s) = post_head @ c @ post_tail" by (simp add: Let_def)
qed

text \<open>A node that calls itself \<open>';reboot;'\<close>.\<close>

theorem forwarder_shell_witness:
  "let C = \<lparr>co_accepts = (\<lambda>_ _. True), co_time = (\<lambda>_. 0)\<rparr>; S = \<lparr>fw_devs = [], fw_posts = []\<rparr>; c = ascii '';reboot;''
   in fw_posts (snd (forward_stream C (render (Dev ([quote] @ c @ [quote])) @ render (Chunk [1])) S)) = [([quote] @ c @ [quote], [1])] \<and>
     shell_reads False (post_cmd (ascii ''k'') ([quote] @ c @ [quote])) = post_head @ c @ post_tail"
proof -
  have k: "quote \<notin> set (ascii ''k'')" "length (ascii ''k'') \<le> 285" by (simp_all add: ascii_def)
  have c: "{colon, 0, quote} \<inter> set (ascii '';reboot;'') = {}" "length (ascii '';reboot;'') \<le> 37" by code_simp+
  show ?thesis
    using forwarder_shell [OF k, THEN conjunct2, rule_format, of "ascii '';reboot;''" "[1]"
        "\<lparr>co_accepts = (\<lambda>_ _. True), co_time = (\<lambda>_. 0)\<rparr>" "\<lparr>fw_devs = [], fw_posts = []\<rparr>"] c
    by (simp add: Let_def)
qed

end
