(* ===== verification/P9do.thy ===== *)
theory P9do
  imports HostMain HostConvProps
begin

text \<open>
  \<open>p9do.c\<close>: several commands over one session. Its requests are those of \<open>aether_conv.c\<close>, byte for
  byte; it has one fid for all commands. \<open>None\<close> is a copy out of bounds; what is printed for the
  user is left out.
\<close>

subsection \<open>Commands\<close>

definition cmd_rd :: "port \<Rightarrow> byte list \<Rightarrow> flink \<Rightarrow> byte list option option \<times> flink" where
  "cmd_rd E path L =
     (case conv_do_walk E 0 1 path L of
        (False, L1) \<Rightarrow> (Some None, L1)
      | (True, L1) \<Rightarrow>
     (case conv_do_open E 1 0 L1 of
        (False, L2) \<Rightarrow> (Some None, conv_do_clunk E 1 L2)
      | (True, L2) \<Rightarrow>
     (case conv_do_read E 1 0 4095 L2 of
        (None, L3) \<Rightarrow> (None, L3)
      | (Some r, L3) \<Rightarrow>
          (Some (map_option (\<lambda>b. cstr (map (\<lambda>c. if c = nl then space else c) b)) r), conv_do_clunk E 1 L3))))"

text \<open>The text is copied behind the header into the buffer of 8192 bytes.\<close>

definition cmd_ws :: "port \<Rightarrow> byte list \<Rightarrow> byte list \<Rightarrow> flink \<Rightarrow> bool option \<times> flink" where
  "cmd_ws E path str L =
     (case conv_do_walk E 0 1 path L of
        (False, L1) \<Rightarrow> (Some False, L1)
      | (True, L1) \<Rightarrow>
     (case conv_do_open E 1 1 L1 of
        (False, L2) \<Rightarrow> (Some False, conv_do_clunk E 1 L2)
      | (True, L2) \<Rightarrow>
     (case conv_do_write E 1 str L2 of
        (None, L3) \<Rightarrow> (None, L3)
      | (Some w, L3) \<Rightarrow> (Some (0 \<le> w), conv_do_clunk E 1 L3))))"

definition cmd_wf :: "port \<Rightarrow> byte list \<Rightarrow> byte list \<Rightarrow> flink \<Rightarrow> bool \<times> flink" where
  "cmd_wf E path file L =
     (case conv_do_walk E 0 1 path L of
        (False, L1) \<Rightarrow> (False, L1)
      | (True, L1) \<Rightarrow>
     (case conv_do_open E 1 2 L1 of
        (False, L2) \<Rightarrow> (False, conv_do_clunk E 1 L2)
      | (True, L2) \<Rightarrow> (case wf_loop (conv_do_pwrite E 1) file 0 L2 of (ok, L3) \<Rightarrow> (ok, conv_do_clunk E 1 L3))))"

subsection \<open>The program\<close>

text \<open>A word of the command line: whether it sets the exit status. Sleeping and unknown words do not.\<close>

definition p9_word :: "port \<Rightarrow> (byte list \<Rightarrow> byte list option) \<Rightarrow> byte list \<Rightarrow> flink \<Rightarrow> bool option \<times> flink" where
  "p9_word E file c L =
     (if is_prefix (ascii ''rd:'') c
      then (case cmd_rd E (drop 3 c) L of (r, L1) \<Rightarrow> (map_option (\<lambda>x. x = None) r, L1))
      else if is_prefix (ascii ''wf:'') c
      then (case split_at colon (drop 3 c) of
          None \<Rightarrow> (Some True, L)
        | Some (p, f) \<Rightarrow>
            (case file f of
               None \<Rightarrow> (Some True, L)
             | Some img \<Rightarrow> (case cmd_wf E p img L of (ok, L1) \<Rightarrow> (Some (\<not> ok), L1))))
      else if is_prefix (ascii ''ws:'') c
      then (case split_at colon (drop 3 c) of
          None \<Rightarrow> (Some True, L)
        | Some (p, s) \<Rightarrow> (case cmd_ws E p s L of (r, L1) \<Rightarrow> (map_option Not r, L1)))
      else (Some False, L))"

fun p9_words :: "port \<Rightarrow> (byte list \<Rightarrow> byte list option) \<Rightarrow> byte list list \<Rightarrow> bool \<Rightarrow> flink \<Rightarrow> bool option \<times> flink" where
  "p9_words E file [] rc L = (Some rc, L)"
| "p9_words E file (c # cs) rc L =
     (case p9_word E file c L of
        (None, L1) \<Rightarrow> (None, L1)
      | (Some bad, L1) \<Rightarrow> p9_words E file cs (rc \<or> bad) L1)"

text \<open>The exit status, given the words after the program's name.\<close>

definition p9_main ::
    "port \<Rightarrow> (byte list \<Rightarrow> byte list option) \<Rightarrow> bool \<Rightarrow> byte list list \<Rightarrow> flink \<Rightarrow> nat option \<times> flink" where
  "p9_main E file connects args L =
     (if length args < 2 \<or> \<not> connects then (Some 2, L)
      else case conv_setup E L of
        (False, L1) \<Rightarrow> (Some 2, L1)
      | (True, L1) \<Rightarrow>
     (case p9_words E file (tl args) False L1 of
        (None, L2) \<Rightarrow> (None, L2)
      | (Some rc, L2) \<Rightarrow> (Some (if rc then 1 else 0), conv_do_clunk E 0 L2)))"

text \<open>What a run of \<open>p9do\<close> does with its one fid, and what its exit status tells.\<close>

subsection \<open>One fid\<close>

definition walk_of :: "byte list \<Rightarrow> byte list" where
  "walk_of path = frame (b_walk 1 0 1 path)"

text \<open>Requests that neither make nor give back a fid.\<close>

definition uses :: "byte list \<Rightarrow> bool" where
  "uses f \<longleftrightarrow> f ! 4 \<noteq> 110 \<and> f ! 4 \<noteq> 120"

text \<open>What a command sends: nothing, a walk that is refused, or a walk, uses of the fid, and its clunk.\<close>

definition block :: "byte list list \<Rightarrow> bool" where
  "block fs \<longleftrightarrow> fs = [] \<or> (\<exists>p. fs = [walk_of p]) \<or> (\<exists>p us. fs = walk_of p # us @ [clunk_of 1] \<and> list_all uses us)"

lemma rpc_uses: "conv_rpc E (t # b) L = (r, L1) \<Longrightarrow> t \<noteq> 110 \<Longrightarrow> t \<noteq> 120 \<Longrightarrow> sends uses L L1"
  using rpc_sent frame_type by (intro sends_one [where P = uses]) (auto simp: uses_def)

lemma open_uses: "conv_do_open E fid mode L = (r, L1) \<Longrightarrow> sends uses L L1"
  unfolding conv_do_open_def b_open_def by (auto split: prod.splits dest!: rpc_uses)

lemma read_uses: "conv_do_read E fid off cap L = (r, L1) \<Longrightarrow> sends uses L L1"
  unfolding conv_do_read_def by (auto simp: Let_def split: prod.splits if_splits dest!: rpc_uses)

lemma pwrite_uses: "conv_do_pwrite E fid off d L = (r, L1) \<Longrightarrow> sends uses L L1"
  unfolding conv_do_pwrite_def by (auto split: prod.splits if_splits dest!: rpc_uses)

lemma write_uses: "conv_do_write E fid d L = (r, L1) \<Longrightarrow> sends uses L L1"
  unfolding conv_do_write_def by (auto split: prod.splits if_splits dest!: pwrite_uses)

lemma wf_loop_uses: "wf_loop W img off L = (ok, L1) \<Longrightarrow> W = conv_do_pwrite E fid \<Longrightarrow> sends uses L L1"
proof (induction W img off L rule: wf_loop.induct)
  case (1 W img off L)
  obtain w L2 where w: "W off (take 4096 (drop off img)) L = (w, L2)" by fastforce
  then have u: "sends uses L L2" using pwrite_uses 1(3) by blast
  have eq: "wf_loop W img off L = (let blk = take 4096 (drop off img) in if blk = [] then (True, L)
      else if w \<noteq> int (length blk) then (False, L2) else wf_loop W img (off + length blk) L2)"
    using w by (subst wf_loop.simps) (simp add: Let_def)
  show ?case
    using 1(1) [OF refl _ w [symmetric] _ _ 1(3)] 1(2) u unfolding eq
    by (auto simp: Let_def split: if_splits intro: sends_trans)
qed

text \<open>The walk, what is done with the fid, and the clunk make a block.\<close>

lemma block_intro:
  assumes "conv_do_walk E 0 1 p L = (ok, L1)" and "sends uses L1 L2"
  shows "\<exists>fs. lk_sent L1 = lk_sent L @ fs \<and> block fs" "\<exists>fs. lk_sent (conv_do_clunk E 1 L2) = lk_sent L @ fs \<and> block fs"
  using walk_sent [OF assms(1)] assms(2) by (auto simp: sends_def block_def walk_of_def)

lemma rd_block: "cmd_rd E p L = (Some r, L') \<Longrightarrow> \<exists>fs. lk_sent L' = lk_sent L @ fs \<and> block fs"
  unfolding cmd_rd_def
  by (auto split: prod.splits bool.splits option.splits dest: block_intro(1) [OF _ sends_refl]
      dest!: open_uses read_uses intro: block_intro(2) sends_trans)

lemma ws_block: "cmd_ws E p s L = (Some r, L') \<Longrightarrow> \<exists>fs. lk_sent L' = lk_sent L @ fs \<and> block fs"
  unfolding cmd_ws_def
  by (auto split: prod.splits bool.splits option.splits dest: block_intro(1) [OF _ sends_refl]
      dest!: open_uses write_uses intro: block_intro(2) sends_trans)

lemma wf_block: "cmd_wf E p img L = (r, L') \<Longrightarrow> \<exists>fs. lk_sent L' = lk_sent L @ fs \<and> block fs"
  unfolding cmd_wf_def
  by (auto split: prod.splits bool.splits dest: block_intro(1) [OF _ sends_refl]
      dest!: open_uses wf_loop_uses [OF _ refl] intro: block_intro(2) sends_trans)

lemma word_block: "p9_word E file c L = (Some r, L') \<Longrightarrow> \<exists>fs. lk_sent L' = lk_sent L @ fs \<and> block fs"
  unfolding p9_word_def
  by (auto split: prod.splits option.splits if_splits dest!: rd_block ws_block wf_block simp: block_def)

lemma words_blocks:
  "p9_words E file cs rc L = (Some r, L') \<Longrightarrow>
     \<exists>fss. lk_sent L' = lk_sent L @ concat fss \<and> list_all block fss \<and> length fss = length cs"
proof (induction cs arbitrary: rc L)
  case (Cons c cs)
  obtain x L1 where x: "p9_word E file c L = (x, L1)" by fastforce
  then obtain bad where bad: "x = Some bad" using Cons.prems by (cases x) auto
  from word_block [OF x [unfolded bad]] obtain fs where fs: "lk_sent L1 = lk_sent L @ fs" "block fs" by blast
  have "p9_words E file cs (rc \<or> bad) L1 = (Some r, L')" using Cons.prems x bad by simp
  from Cons.IH [OF this] obtain fss where "lk_sent L' = lk_sent L1 @ concat fss" "list_all block fss" "length fss = length cs" by blast
  then show ?case using fs by (intro exI [of _ "fs # fss"]) simp
qed simp

text \<open>
  However many commands a session runs and whichever fail, none finds the fid still in use: what is
  sent is the set-up, for each command nothing, a walk that was refused, or a walk with its clunk,
  and last the clunk of the root.
\<close>

theorem p9_session:
  assumes "p9_main E file connects args L = (Some st, L')"
  shows "st = 2 \<and> (\<exists>k \<le> 2. lk_sent L' = lk_sent L @ take k [version_frame, attach_frame]) \<or>
    st \<le> 1 \<and> (\<exists>fss. lk_sent L' = lk_sent L @ [version_frame, attach_frame] @ concat fss @ [clunk_of 0] \<and>
      list_all block fss \<and> length fss + 1 = length args)"
proof (cases "length args < 2 \<or> \<not> connects")
  case True
  then show ?thesis using assms by (auto simp: p9_main_def)
next
  case False
  obtain ok L1 where st: "conv_setup E L = (ok, L1)" by fastforce
  have k: "lk_sent L1 = lk_sent L @ take 2 opening_frames \<or> \<not> ok \<and> lk_sent L1 = lk_sent L @ take 1 opening_frames"
    by (rule setup_sent [OF st])
  show ?thesis
  proof (cases ok)
    case no: False
    then have "st = 2" "L' = L1" using assms False st by (auto simp: p9_main_def)
    then show ?thesis using k by (auto simp: opening_frames_def intro: exI [of _ 1] exI [of _ 2])
  next
    case True
    obtain x L2 where w: "p9_words E file (tl args) False L1 = (x, L2)" by fastforce
    then obtain rc where rc: "x = Some rc" "L' = conv_do_clunk E 0 L2" "st \<le> 1"
      using assms False st True by (cases x) (auto simp: p9_main_def)
    from words_blocks [OF w [unfolded rc(1)]] show ?thesis
      using k True rc False by (auto simp: opening_frames_def)
  qed
qed

end
