(* ===== verification/Led.thy ===== *)
theory Led
  imports Prelude
begin

text \<open>
  The mesh-state LED of \<open>aether_led.c\<close>, in the two renderings a board file selects: three colours, or
  four lamps. The mesh context is what the tick reads of it; \<open>honr_is_root\<close>, the clock and the GPIO
  driver are not part of the repository: the first two are arguments, and a lamp set is a value.
\<close>

record mesh_view =
  mv_joined :: bool
  mv_addr :: u16

datatype mesh_led_state = MLED_UNJOINED | MLED_ROOT | MLED_CHILD

text \<open>The lamps: red, green, blue.\<close>

definition render_rgb :: "mesh_led_state \<Rightarrow> bool \<Rightarrow> bool \<Rightarrow> bool \<times> bool \<times> bool" where
  "render_rgb st blink rx =
     (let (r, g, b) = (case st of MLED_UNJOINED \<Rightarrow> (blink, blink, False) | MLED_ROOT \<Rightarrow> (False, False, True)
        | MLED_CHILD \<Rightarrow> (False, True, False))
      in if rx then (True, True, True) else (r, g, b))"

text \<open>The lamps: alive, child, root, received.\<close>

definition render_dk :: "mesh_led_state \<Rightarrow> bool \<Rightarrow> bool \<Rightarrow> bool \<times> bool \<times> bool \<times> bool" where
  "render_dk st blink rx = (st \<noteq> MLED_UNJOINED \<or> blink, st = MLED_CHILD, st = MLED_ROOT, rx)"

record led =
  le_blink :: bool \<comment> \<open>\<open>blink_phase\<close>\<close>
  le_last_rx :: int \<comment> \<open>\<open>last_rx_ms\<close>\<close>

definition led_rx_cb :: "int \<Rightarrow> led \<Rightarrow> led" where
  "led_rx_cb now S = S\<lparr>le_last_rx := now\<rparr>"

definition led_state :: "(u16 \<Rightarrow> bool) \<Rightarrow> mesh_view option \<Rightarrow> mesh_led_state" where
  "led_state is_root ctx =
     (case ctx of None \<Rightarrow> MLED_UNJOINED
      | Some v \<Rightarrow> if \<not> mv_joined v then MLED_UNJOINED else if is_root (mv_addr v) then MLED_ROOT else MLED_CHILD)"

text \<open>A tick with the board's rendering; it comes again after 400 ms.\<close>

definition led_tick ::
    "(mesh_led_state \<Rightarrow> bool \<Rightarrow> bool \<Rightarrow> 'l) \<Rightarrow> (u16 \<Rightarrow> bool) \<Rightarrow> mesh_view option \<Rightarrow> int \<Rightarrow> led \<Rightarrow> 'l \<times> led" where
  "led_tick render is_root ctx now S =
     (let S1 = S\<lparr>le_blink := \<not> le_blink S\<rparr>;
          rx = (le_last_rx S \<noteq> 0 \<and> now - le_last_rx S < 400)
      in (render (led_state is_root ctx) (le_blink S1) rx, S1))"

text \<open>The start: whether the ticks are scheduled, and whether the callback is registered.\<close>

definition aether_led_init :: "bool \<Rightarrow> bool \<Rightarrow> (bool \<times> bool) res" where
  "aether_led_init ready iface = (if \<not> ready then Inl ENODEV else Inr (True, iface))"

subsection \<open>What the lamps show\<close>

text \<open>What happens to the LED: a datagram, or a tick with the context it finds, each with its time.\<close>

datatype led_ev = LRx int | LTick "mesh_view option" int

fun led_run :: "(mesh_led_state \<Rightarrow> bool \<Rightarrow> bool \<Rightarrow> 'l) \<Rightarrow> (u16 \<Rightarrow> bool) \<Rightarrow> led_ev list \<Rightarrow> led \<Rightarrow> 'l list \<times> led" where
  "led_run render is_root [] S = ([], S)"
| "led_run render is_root (LRx now # es) S = led_run render is_root es (led_rx_cb now S)"
| "led_run render is_root (LTick ctx now # es) S =
     (let (l, S1) = led_tick render is_root ctx now S; (ls, S2) = led_run render is_root es S1 in (l # ls, S2))"

lemma led_run_append:
  "led_run render is_root (a @ b) S =
     (let (la, S1) = led_run render is_root a S; (lb, S2) = led_run render is_root b S1 in (la @ lb, S2))"
  by (induction render is_root a S rule: led_run.induct) (auto simp: Let_def split: prod.splits)

lemma led_run_blink: "le_blink (snd (led_run render is_root es S)) = (le_blink S = even (length (fst (led_run render is_root es S))))"
proof (induction es arbitrary: S)
  case (Cons e es)
  then show ?case by (cases e) (auto simp: led_rx_cb_def led_tick_def Let_def case_prod_unfold)
qed simp

text \<open>What the LED is after a run does not depend on the board.\<close>

lemma led_run_board:
  "snd (led_run f is_root es S) = snd (led_run g is_root es S)"
proof (induction es arbitrary: S)
  case (Cons e es)
  then show ?case by (cases e) (auto simp: led_tick_def Let_def case_prod_unfold)
qed simp

text \<open>
  The four lamps tell the state of the mesh at every tick, whatever came before: the child and
  root lamps show whether the node is joined and as what, the alive lamp is on while it is joined
  and alternates from tick to tick while it is not, and the fourth is on exactly when the last
  datagram came less than 400 ms ago. The three colours tell the same except while they flash.
\<close>

theorem lamps_tell_state:
  assumes run: "led_run render_dk is_root (es @ [LTick ctx now]) S = (ls @ [(alive, ch, rt, r)], S')"
    and rgb: "led_run render_rgb is_root (es @ [LTick ctx now]) S = (ms @ [(red, green, blue)], S'')"
  shows "led_state is_root ctx = (if ch then MLED_CHILD else if rt then MLED_ROOT else MLED_UNJOINED) \<and>
    alive = (ch \<or> rt \<or> le_blink S = odd (length ls)) \<and>
    (let t = le_last_rx (snd (led_run render_dk is_root es S)) in r = (t \<noteq> 0 \<and> now - t < 400)) \<and>
    (if r then red \<and> green \<and> blue else blue = rt \<and> green = (ch \<or> \<not> rt \<and> alive) \<and> red = (\<not> ch \<and> \<not> rt \<and> alive))"
proof -
  obtain ls1 S1 where r1: "led_run render_dk is_root es S = (ls1, S1)" by fastforce
  obtain ms1 T1 where m1: "led_run render_rgb is_root es S = (ms1, T1)" by fastforce
  have T1: "T1 = S1" using led_run_board [of render_rgb is_root es S render_dk] r1 m1 by simp
  have a: "ls = ls1" "(alive, ch, rt, r) = fst (led_tick render_dk is_root ctx now S1)"
    using run r1 by (auto simp: led_run_append Let_def split: prod.splits)
  have b: "(red, green, blue) = fst (led_tick render_rgb is_root ctx now S1)"
    using rgb m1 T1 by (auto simp: led_run_append Let_def split: prod.splits)
  have bl: "le_blink S1 = (le_blink S = even (length ls))" using led_run_blink [of render_dk is_root es S] r1 a(1) by simp
  show ?thesis
    using a(2) b bl r1 by (cases "led_state is_root ctx") (auto simp: led_tick_def render_dk_def render_rgb_def Let_def)
qed

end
