(* ===== verification/GuiWindow.thy ===== *)
theory GuiWindow
  imports Text "HOL-Library.Signed_Division"
begin

text \<open>
  The window of the chat program \<open>achat_gui.c\<close>: the ring of transcript lines, the layout, the wrapping
  of lines to the width of the transcript, and the panel of diagnostics. The drawing library is not
  part of the repository: what the window uses of it is the height of the font and the width of a
  string in it, which are parameters. A drawing is given as the strings and where they are drawn.
\<close>

subsection \<open>The transcript\<close>

abbreviation MAXLINES :: nat where "MAXLINES \<equiv> 400"
abbreviation LINEMAX :: nat where "LINEMAX \<equiv> 1100"
abbreviation INPUTMAX :: nat where "INPUTMAX \<equiv> 512"

record ring =
  rg_slots :: "nat \<Rightarrow> byte list option" \<comment> \<open>\<open>ring\<close>, by index below \<open>MAXLINES\<close>\<close>
  rg_nlines :: nat

definition ring_boot :: ring where
  "ring_boot = \<lparr>rg_slots = (\<lambda>_. None), rg_nlines = 0\<rparr>"

definition addline :: "byte list \<Rightarrow> ring \<Rightarrow> ring" where
  "addline s R = R\<lparr>rg_slots := (rg_slots R)(rg_nlines R mod MAXLINES := Some s), rg_nlines := Suc (rg_nlines R)\<rparr>"

text \<open>Line \<open>k\<close>, which must have been added.\<close>

definition ring_line :: "ring \<Rightarrow> nat \<Rightarrow> byte list" where
  "ring_line R k = the (rg_slots R (k mod MAXLINES))"

subsection \<open>The layout\<close>

record rect =
  rc_x0 :: int
  rc_y0 :: int
  rc_x1 :: int
  rc_y1 :: int

abbreviation Dx :: "rect \<Rightarrow> int" where "Dx r \<equiv> rc_x1 r - rc_x0 r"
abbreviation Dy :: "rect \<Rightarrow> int" where "Dy r \<equiv> rc_y1 r - rc_y0 r"

definition Rect :: "int \<Rightarrow> int \<Rightarrow> int \<Rightarrow> int \<Rightarrow> rect" where
  "Rect a b c d = \<lparr>rc_x0 = a, rc_y0 = b, rc_x1 = c, rc_y1 = d\<rparr>"

record areas =
  ar_trans :: rect
  ar_input :: rect
  ar_diag :: rect

text \<open>The panel takes two fifths of the width, at least 260, but leaves 200 for the transcript.\<close>

definition gui_layout :: "rect \<Rightarrow> int \<Rightarrow> bool \<Rightarrow> areas" where
  "gui_layout r height diagon =
     (let inputr = Rect (rc_x0 r) (rc_y1 r - (height + 6)) (rc_x1 r) (rc_y1 r) in
      if diagon then
        (let dw0 = Dx r * 2 sdiv 5;
             dw1 = if dw0 < 260 then 260 else dw0;
             dw = if Dx r - 200 < dw1 then Dx r - 200 else dw1;
             diagr = Rect (rc_x1 r - dw) (rc_y0 r) (rc_x1 r) (rc_y0 inputr) in
         \<lparr>ar_trans = Rect (rc_x0 r) (rc_y0 r) (rc_x0 diagr) (rc_y0 inputr), ar_input = inputr, ar_diag = diagr\<rparr>)
      else \<lparr>ar_trans = Rect (rc_x0 r) (rc_y0 r) (rc_x1 r) (rc_y0 inputr), ar_input = inputr, ar_diag = Rect 0 0 0 0\<rparr>)"

subsection \<open>Wrapping\<close>

type_synonym string_width = "byte list \<Rightarrow> int"

text \<open>\<open>fitchars\<close>: how many bytes from the start fit in \<open>w\<close>, at least one of a string that has one.\<close>

fun fit_loop :: "string_width \<Rightarrow> int \<Rightarrow> byte list \<Rightarrow> byte list \<Rightarrow> nat" where
  "fit_loop W w tmp [] = length tmp"
| "fit_loop W w tmp (b # s) =
     (if LINEMAX - 1 \<le> length tmp then length tmp
      else if w < W (tmp @ [b]) then (if 0 < length tmp then length tmp else 1)
      else fit_loop W w (tmp @ [b]) s)"

definition fitchars :: "string_width \<Rightarrow> byte list \<Rightarrow> int \<Rightarrow> nat" where
  "fitchars W s w = fit_loop W w [] s"

lemma fit_loop_pos: "tmp \<noteq> [] \<or> s \<noteq> [] \<Longrightarrow> 0 < fit_loop W w tmp s"
  by (induction W w tmp s rule: fit_loop.induct) auto

lemma fitchars_pos: "s \<noteq> [] \<Longrightarrow> 0 < fitchars W s w"
  by (simp add: fitchars_def fit_loop_pos)

text \<open>Rows of the display: the bytes, and whether the line is one of the user's own.\<close>

type_synonym row = "byte list \<times> bool"

definition MAXROWS :: nat where
  "MAXROWS = 512"

definition mine :: "byte list \<Rightarrow> bool" where
  "mine ln = is_prefix (ascii ''[me]'') ln"

text \<open>The rows of one line, from a position in it on, added to the rows so far while there is room.\<close>

function line_rows :: "string_width \<Rightarrow> int \<Rightarrow> bool \<Rightarrow> byte list \<Rightarrow> row list \<Rightarrow> row list" where
  "line_rows W avail col s rows =
     (let fit = min (fitchars W s avail) (length s);
          rows1 = rows @ [(take fit s, col)];
          s1 = drop fit s in
      if s1 \<noteq> [] \<and> length rows1 < MAXROWS then line_rows W avail col s1 rows1 else rows1)"
  by auto

termination
proof (relation "measure (\<lambda>(W, avail, col, s, rows). length s)", simp, clarify)
  fix W :: string_width and avail :: int and col :: bool and s :: "byte list" and rows :: "row list"
  assume "drop (min (fitchars W s avail) (length s)) s \<noteq> []"
  then have "s \<noteq> []" by auto
  with fitchars_pos [OF this, of W avail]
  show "((W, avail, col, drop (min (fitchars W s avail) (length s)) s, rows @ [(take (min (fitchars W s avail) (length s)) s, col)]),
      (W, avail, col, s, rows)) \<in> measure (\<lambda>(W, avail, col, s, rows). length s)" by simp
qed

declare line_rows.simps [simp del]

fun lines_rows :: "string_width \<Rightarrow> int \<Rightarrow> byte list list \<Rightarrow> row list \<Rightarrow> row list" where
  "lines_rows W avail [] rows = rows"
| "lines_rows W avail (ln # lns) rows =
     (if length rows < MAXROWS then lines_rows W avail lns (line_rows W avail (mine ln) ln rows) else rows)"

subsection \<open>The panel\<close>

text \<open>A line of the panel is cut to the width.\<close>

function cut_to :: "string_width \<Rightarrow> int \<Rightarrow> byte list \<Rightarrow> byte list" where
  "cut_to W avail s = (if s \<noteq> [] \<and> avail < W s then cut_to W avail (butlast s) else s)"
  by auto
termination by (relation "measure (\<lambda>(W, avail, s). length s)") auto

declare cut_to.simps [simp del]

text \<open>A line of the readout and what follows its end.\<close>

definition first_line :: "byte list \<Rightarrow> byte list \<times> byte list" where
  "first_line s = (case split_at nl s of None \<Rightarrow> (s, []) | Some p \<Rightarrow> p)"

lemma first_line_shorter: "s \<noteq> [] \<Longrightarrow> length (snd (first_line s)) < length s"
  by (auto simp: first_line_def split: option.splits dest!: split_at_Some)

function diag_rows :: "string_width \<Rightarrow> int \<Rightarrow> int \<Rightarrow> int \<Rightarrow> int \<Rightarrow> byte list \<Rightarrow> (int \<times> byte list) list" where
  "diag_rows W height avail maxy y s =
     (if s \<noteq> [] \<and> y + height \<le> maxy
      then (y, cut_to W avail (take 511 (fst (first_line s)))) # diag_rows W height avail maxy (y + height) (snd (first_line s))
      else [])"
  by auto
termination
  by (relation "measure (\<lambda>(W, height, avail, maxy, y, s). length s)") (auto simp: first_line_shorter)

declare diag_rows.simps [simp del]

subsection \<open>Drawing\<close>

record drawing =
  dr_trans :: "(int \<times> row) list" \<comment> \<open>the height at which a row is drawn, its text and colour\<close>
  dr_input :: "byte list"
  dr_diag :: "(int \<times> byte list) list option"

text \<open>The rows of the lines that \<open>redraw\<close> looks at, and those of them it draws.\<close>

definition window_rows :: "string_width \<Rightarrow> int \<Rightarrow> ring \<Rightarrow> areas \<Rightarrow> row list" where
  "window_rows W height R A =
     (let avail0 = Dx (ar_trans A) - 6;
          avail = if avail0 < height then height else avail0;
          nfit = Dy (ar_trans A) sdiv height;
          firstline = if nfit < int (rg_nlines R) then int (rg_nlines R) - nfit else 0;
          rows = lines_rows W avail (map (ring_line R) [nat firstline..<rg_nlines R]) [];
          start = if nfit < int (length rows) then int (length rows) - nfit else 0 in
      map (\<lambda>(s, col). (take (LINEMAX - 1) s, col)) (drop (nat start) rows))"

definition redraw :: "string_width \<Rightarrow> int \<Rightarrow> ring \<Rightarrow> areas \<Rightarrow> byte list \<Rightarrow> bool \<Rightarrow> byte list \<Rightarrow> drawing" where
  "redraw W height R A input diagon diagbuf =
     \<lparr>dr_trans = (let rows = window_rows W height R A in
        zip (map (\<lambda>i. rc_y0 (ar_trans A) + 2 + int i * height) [0..<length rows]) rows),
      dr_input = snprintf_out (INPUTMAX + 4) (ascii ''> '' @ input),
      dr_diag = (if diagon \<and> 0 < Dx (ar_diag A)
        then Some (diag_rows W height (Dx (ar_diag A) - 6) (rc_y1 (ar_diag A)) (rc_y0 (ar_diag A) + 2) diagbuf)
        else None)\<rparr>"

subsection \<open>The readout\<close>

text \<open>\<open>strtok\<close> at one separator, with the word that has been begun.\<close>

fun split_words :: "byte \<Rightarrow> byte list \<Rightarrow> byte list \<Rightarrow> byte list list" where
  "split_words c w [] = (if w = [] then [] else [w])"
| "split_words c w (b # s) =
     (if b = c then (if w = [] then [] else [w]) @ split_words c [] s else split_words c (w @ [b]) s)"

text \<open>
  \<open>tabulate\<close>: the words of a table, a new line at each that \<open>mark\<close> follows. The \<open>snprint\<close> of Plan 9
  returns the length that it stored.
\<close>

fun tab_loop :: "nat \<Rightarrow> byte list \<Rightarrow> byte list list \<Rightarrow> byte list \<Rightarrow> byte list" where
  "tab_loop dsz mark [] out = out"
| "tab_loop dsz mark (t # ts) out =
     (if dsz - 1 \<le> length out then out
      else let startline = (ts \<noteq> [] \<and> hd ts = mark);
               sep = (if out = [] then [] else if startline then [nl] else [space]) in
           tab_loop dsz mark ts (out @ snprintf_out (dsz - length out) (sep @ t)))"

definition tabulate_text :: "nat \<Rightarrow> byte list \<Rightarrow> byte list \<Rightarrow> byte list" where
  "tabulate_text dsz src mark = tab_loop dsz mark (take 192 (split_words space [] (take 1399 (cstr src)))) []"

text \<open>\<open>readfile\<close>, from what the read returns; \<open>None\<close> when the file cannot be opened.\<close>

definition readfile :: "byte list res option \<Rightarrow> nat \<Rightarrow> byte list" where
  "readfile file sz =
     (case file of
        None \<Rightarrow> snprintf_out sz (ascii ''(n/a)'')
      | Some r \<Rightarrow> cstr (strip_end (\<lambda>b. b = nl \<or> b = cr \<or> b = space) (take (sz - 1) (case r of Inl e \<Rightarrow> [] | Inr d \<Rightarrow> d))))"

text \<open>The text of the panel, from the five files in the order they are read.\<close>

definition diag_text ::
    "byte list \<Rightarrow> byte list res option \<Rightarrow> byte list res option \<Rightarrow> byte list res option \<Rightarrow> byte list res option
       \<Rightarrow> byte list res option \<Rightarrow> byte list" where
  "diag_text dst eui_file honr_file stats_file nbrs_file routes_file =
     (let eui = readfile eui_file 64; honr = readfile honr_file 64; stats = readfile stats_file 160;
          nbrs = readfile nbrs_file 1200; routes = readfile routes_file 600;
          nbrt = tabulate_text 1600 nbrs (ascii ''identity''); rtt = tabulate_text 800 routes (ascii ''via'') in
      snprintf_out 4096
        (ascii ''== mesh diag =='' @ [nl] @ ascii ''eui  '' @ eui @ [nl] @ ascii ''honr '' @ honr
         @ (if honr = ascii ''0000'' then ascii ''  <ROOT>'' else []) @ [nl] @ ascii ''conn '' @ dst @ [nl] @ stats
         @ [nl] @ ascii ''-- neighbors --'' @ [nl] @ nbrt @ [nl] @ ascii ''-- routes --'' @ [nl] @ rtt))"

end
