(* ===== verification/GuiChat.thy ===== *)
theory GuiChat
  imports Chat GuiWindow
begin

text \<open>
  The windowed chat \<open>achat_gui.c\<close> apart from drawing: the conversation and its recovery, commands, the
  input line, the reader process, the event loop and the start, with the choice of the serial port
  (\<open>serial.c\<close>). The 9P library of Plan 9 is a parameter: it works on a state of its own and gives out
  fids, which are numbers here; a nil fid is \<open>None\<close>. A call of the library with a nil fid has no result:
  the definitions that make one return \<open>None\<close>.
\<close>

datatype omode = OREAD | ORDWR

record 's p9lib =
  pl_open :: "byte list \<Rightarrow> omode \<Rightarrow> 's \<Rightarrow> nat option \<times> 's"
  pl_read :: "nat \<Rightarrow> nat \<Rightarrow> 's \<Rightarrow> byte list res \<times> 's" \<comment> \<open>at most so many bytes\<close>
  pl_write :: "nat \<Rightarrow> byte list \<Rightarrow> 's \<Rightarrow> nat res \<times> 's"
  pl_close :: "nat \<Rightarrow> 's \<Rightarrow> 's"
  pl_ready :: "nat \<Rightarrow> 's \<Rightarrow> bool" \<comment> \<open>whether a read returns now\<close>
  pl_error :: "errno \<Rightarrow> byte list" \<comment> \<open>\<open>%r\<close>\<close>

record gui =
  gu_ctl :: "nat option"
  gu_dataR :: "nat option"
  gu_dataW :: "nat option"
  gu_bcast :: bool
  gu_dst :: "byte list" \<comment> \<open>\<open>g_dst\<close>\<close>
  gu_switching :: bool
  gu_conv :: int
  gu_nick :: "byte list"
  gu_me :: "byte list" \<comment> \<open>\<open>myaddrbuf\<close>\<close>
  gu_ring :: ring
  gu_input :: "byte list" \<comment> \<open>\<open>input\<close>, its first \<open>ninput\<close> bytes\<close>
  gu_diagon :: bool
  gu_diagbuf :: "byte list"
  gu_incoming :: "byte list list" \<comment> \<open>lines from the reader that wait for the main process\<close>
  gu_fails :: nat \<comment> \<open>of the reader\<close>

definition add_line :: "byte list \<Rightarrow> gui \<Rightarrow> gui" where
  "add_line l G = G\<lparr>gu_ring := addline l (gu_ring G)\<rparr>"

definition close_fid :: "'s p9lib \<Rightarrow> nat option \<Rightarrow> 's \<Rightarrow> 's" where
  "close_fid P f s = (case f of None \<Rightarrow> s | Some c \<Rightarrow> pl_close P c s)"

subsection \<open>The conversation\<close>

definition clone_file :: "byte list" where
  "clone_file = ascii ''net/aether/clone''"

definition conv_data_path :: "int \<Rightarrow> byte list" where
  "conv_data_path k = snprintf_out 64 (ascii ''net/aether/'' @ dec_int k @ ascii ''/data'')"

text \<open>
  Clone, connect and open the data file twice; the result says whether both are open. What was opened
  before a failure stays open. \<open>reconv\<close> first gives back what it has.
\<close>

definition open_conv :: "'s p9lib \<Rightarrow> gui \<times> 's \<Rightarrow> bool \<times> gui \<times> 's" where
  "open_conv P Gs =
     (case Gs of (G, s) \<Rightarrow>
        case pl_open P clone_file ORDWR s of
          (None, s1) \<Rightarrow> (False, G\<lparr>gu_ctl := None\<rparr>, s1)
        | (Some c, s1) \<Rightarrow>
            (let G1 = G\<lparr>gu_ctl := Some c\<rparr> in
             case pl_read P c 31 s1 of
               (Inl e, s2) \<Rightarrow> (False, G1, s2)
             | (Inr nb, s2) \<Rightarrow>
                 if nb = [] then (False, G1, s2)
                 else let G2 = G1\<lparr>gu_conv := atoi (cstr nb)\<rparr> in
                   case pl_write P c (connect_line (gu_dst G)) s2 of
                     (Inl e, s3) \<Rightarrow> (False, G2, s3)
                   | (Inr n, s3) \<Rightarrow>
                       case pl_open P (conv_data_path (gu_conv G2)) ORDWR s3 of
                         (r, s4) \<Rightarrow>
                           case pl_open P (conv_data_path (gu_conv G2)) ORDWR s4 of
                             (w, s5) \<Rightarrow> (r \<noteq> None \<and> w \<noteq> None, G2\<lparr>gu_dataR := r, gu_dataW := w\<rparr>, s5)))"

definition reconv :: "'s p9lib \<Rightarrow> gui \<times> 's \<Rightarrow> bool \<times> gui \<times> 's" where
  "reconv P Gs =
     (case Gs of (G, s) \<Rightarrow>
        open_conv P (G\<lparr>gu_ctl := None, gu_dataR := None, gu_dataW := None\<rparr>,
          close_fid P (gu_dataW G) (close_fid P (gu_dataR G) (close_fid P (gu_ctl G) s))))"

definition hangup :: "'s p9lib \<Rightarrow> gui \<times> 's \<Rightarrow> gui \<times> 's" where
  "hangup P Gs = (case Gs of (G, s) \<Rightarrow> (G\<lparr>gu_ctl := None\<rparr>, close_fid P (gu_ctl G) s))"

text \<open>The notes at which the program is to end.\<close>

definition noteh :: "byte list \<Rightarrow> bool" where
  "noteh note \<longleftrightarrow> (\<exists>w \<in> set [''interrupt'', ''hangup'', ''term'', ''kill'']. strstr note (ascii w) \<noteq> None)"

text \<open>A file read once, with a fid of its own.\<close>

definition read_once :: "'s p9lib \<Rightarrow> byte list \<Rightarrow> nat \<Rightarrow> 's \<Rightarrow> byte list res option \<times> 's" where
  "read_once P path cnt s =
     (case pl_open P path OREAD s of
        (None, s1) \<Rightarrow> (None, s1)
      | (Some f, s1) \<Rightarrow> (case pl_read P f cnt s1 of (r, s2) \<Rightarrow> (Some r, pl_close P f s2)))"

definition gui_myaddr :: "'s p9lib \<Rightarrow> 's \<Rightarrow> byte list \<times> 's" where
  "gui_myaddr P s =
     (case read_once P (ascii ''net/aether/addr'') 23 s of
        (r, s1) \<Rightarrow> (myaddr (case r of None \<Rightarrow> Inl EIO | Some d \<Rightarrow> d) 24, s1))"

text \<open>A round of the diagnostic process.\<close>

definition diag_round :: "'s p9lib \<Rightarrow> gui \<times> 's \<Rightarrow> gui \<times> 's" where
  "diag_round P Gs =
     (case Gs of (G, s) \<Rightarrow>
        if \<not> gu_diagon G then (G, s)
        else case read_once P (ascii ''net/aether/addr'') 63 s of (eui, s1) \<Rightarrow>
          case read_once P (ascii ''dev/aether/addr'') 63 s1 of (honr, s2) \<Rightarrow>
          case read_once P (ascii ''net/aether/stats'') 159 s2 of (stats, s3) \<Rightarrow>
          case read_once P (ascii ''dev/aether/neighbors'') 1199 s3 of (nbrs, s4) \<Rightarrow>
          case read_once P (ascii ''dev/aether/routes'') 599 s4 of (routes, s5) \<Rightarrow>
            (G\<lparr>gu_diagbuf := diag_text (gu_dst G) eui honr stats nbrs routes\<rparr>, s5))"

subsection \<open>The reader\<close>

text \<open>Where the reader is: before a read, a line to hand over, the recovery, an empty datagram.\<close>

datatype gpc = GRead | GSend "byte list" gpc | GReconv | GEof

definition gui_shown :: "bool \<Rightarrow> byte list \<Rightarrow> byte list" where
  "gui_shown bcast d =
     snprintf_out LINEMAX
       (if bcast \<and> 6 \<le> length d
        then [91] @ fmt_addr (addr_at d) @ [93, space] @ cstr (drop 6 d) else cstr d)"

text \<open>A read that has returned after so many milliseconds.\<close>

definition reader_read :: "'s p9lib \<Rightarrow> int \<Rightarrow> gui \<times> 's \<Rightarrow> (gpc \<times> gui \<times> 's) option" where
  "reader_read P ms Gs =
     (case Gs of (G, s) \<Rightarrow>
        case gu_dataR G of
          None \<Rightarrow> None
        | Some f \<Rightarrow>
            (case pl_read P f LINEMAX s of
               (Inl e, s1) \<Rightarrow>
                 if 8000 < ms then Some (GRead, G, s1)
                 else Some (if gu_fails G = 0
                     then GSend (snprintf_out LINEMAX (ascii ''[rx hiccup: '' @ pl_error P e @ ascii '' -- reconnecting]'')) GReconv
                     else GReconv, G\<lparr>gu_fails := Suc (gu_fails G)\<rparr>, s1)
             | (Inr d, s1) \<Rightarrow>
                 Some (if d = [] then GEof else GSend (gui_shown (gu_bcast G) d) GRead, G\<lparr>gu_fails := 0\<rparr>, s1)))"

text \<open>After the pause, with the lock held.\<close>

definition reader_reconv :: "'s p9lib \<Rightarrow> gui \<times> 's \<Rightarrow> gpc \<times> gui \<times> 's" where
  "reader_reconv P Gs =
     (case reconv P Gs of
        (False, G1, s1) \<Rightarrow> (GRead, G1, s1)
      | (True, G1, s1) \<Rightarrow> (GSend (ascii ''[reconnected]'') GRead, G1\<lparr>gu_fails := 0\<rparr>, s1))"

definition gui_eof :: "'s p9lib \<Rightarrow> gui \<times> 's \<Rightarrow> (gpc \<times> gui \<times> 's) option" where
  "gui_eof P Gs =
     (case Gs of (G, s) \<Rightarrow>
        if \<not> gu_switching G then Some (GRead, G, s)
        else case gu_ctl G of
          None \<Rightarrow> None
        | Some c \<Rightarrow>
            (case pl_write P c (connect_line (gu_dst G)) s of
               (w, s1) \<Rightarrow>
                 Some (GSend (case w of
                     Inl e \<Rightarrow> ascii ''[connect failed -- try /connect again]''
                   | Inr _ \<Rightarrow>
                       if gu_bcast G then ascii ''[on the party line (broadcast, best-effort)]''
                       else snprintf_out LINEMAX
                         (ascii ''[connected (reliable) to '' @ gu_dst G @ ascii '' -- peer must /connect you too]'')) GRead,
                   G\<lparr>gu_switching := False\<rparr>, s1)))"

subsection \<open>Commands\<close>

definition gui_connect :: "'s p9lib \<Rightarrow> byte list \<Rightarrow> gui \<times> 's \<Rightarrow> (gui \<times> 's) option" where
  "gui_connect P newdst Gs =
     (case Gs of (G, s) \<Rightarrow>
        let G1 = G\<lparr>gu_dst := take 23 newdst, gu_bcast := (newdst = bcast_text), gu_switching := True\<rparr> in
        case gu_ctl G of
          None \<Rightarrow> None
        | Some c \<Rightarrow>
            (case pl_write P c (ascii ''hangup'') s of
               (Inl e, s1) \<Rightarrow>
                 Some (add_line (ascii ''[achat] /connect: hangup failed -- try again'') (G1\<lparr>gu_switching := False\<rparr>), s1)
             | (Inr _, s1) \<Rightarrow>
                 Some (add_line (snprintf_out 400 (ascii ''[achat] switching to '' @ newdst @ ascii '' ...'')) G1, s1)))"

text \<open>\<open>/who\<close>: the lines of the file that are not empty, the last one with or without its end.\<close>

function who_lines :: "byte list \<Rightarrow> byte list list" where
  "who_lines s =
     (case split_at nl s of
        None \<Rightarrow> (if s = [] then [] else [snprintf_out 400 (ascii ''  '' @ s)])
      | Some (l, rest) \<Rightarrow> (if l = [] then [] else [snprintf_out 400 (ascii ''  '' @ l)]) @ who_lines rest)"
  by auto
termination by (relation "measure length") (auto dest!: split_at_Some)

declare who_lines.simps [simp del]

definition gui_who :: "'s p9lib \<Rightarrow> gui \<times> 's \<Rightarrow> gui \<times> 's" where
  "gui_who P Gs =
     (case Gs of (G, s) \<Rightarrow>
        case read_once P (ascii ''dev/aether/neighbors'') 2047 s of
          (r, s1) \<Rightarrow>
            (fold add_line
               (case r of
                  None \<Rightarrow> [ascii ''[who] unavailable'']
                | Some (Inl e) \<Rightarrow> [ascii ''[who] no neighbours'']
                | Some (Inr d) \<Rightarrow>
                    if d = [] then [ascii ''[who] no neighbours'']
                    else ascii ''[who] neighbours:'' # who_lines (cstr d)) G, s1))"

text \<open>A word of a command: the word alone, or followed by a space.\<close>

definition command_word :: "string \<Rightarrow> byte list \<Rightarrow> bool" where
  "command_word w s \<longleftrightarrow> take (length w) s = ascii w \<and> (length s = length w \<or> s ! length w = space)"

text \<open>The result says whether the program goes on.\<close>

definition gui_docmd :: "'s p9lib \<Rightarrow> byte list \<Rightarrow> gui \<times> 's \<Rightarrow> (bool \<times> gui \<times> 's) option" where
  "gui_docmd P s Gs =
     (case Gs of (G, st) \<Rightarrow>
        if command_word ''/nick'' s then
          (let n = take 63 (dropWhile (\<lambda>b. b = space) (drop 5 s)) in
           Some (True, add_line (snprintf_out 400 (ascii ''[achat] nick set to '' @ [39] @ n @ [39])) (G\<lparr>gu_nick := n\<rparr>), st))
        else if s = ascii ''/who'' then Some (True, gui_who P (G, st))
        else if s = ascii ''/addr'' then
          Some (True, add_line (snprintf_out 400 (ascii ''[achat] my address: '' @ gu_me G @ ascii ''   (peer: /connect '' @ gu_me G @ ascii '')'')) G, st)
        else if command_word ''/connect'' s then
          (let p = dropWhile (\<lambda>b. b = space) (drop 8 s) in
           if p = [] then Some (True, add_line (ascii ''[achat] usage: /connect <addr>   (or /connect bcast for the party line)'') G, st)
           else map_option (Pair True) (gui_connect P (new_target p) (G, st)))
        else if s = ascii ''/diag'' then Some (True, G\<lparr>gu_diagon := \<not> gu_diagon G\<rparr>, st)
        else if s = ascii ''/quit'' then Some (False, hangup P (G, st))
        else if s = ascii ''/help'' then
          Some (True, fold add_line
            [ascii ''[achat] /nick NAME | /who | /addr | /connect <addr>|bcast | /diag | /quit  (or ^D)'',
             ascii ''[achat]   /connect <peer-addr> = reliable 1:1 (both sides connect); bcast = party line'',
             ascii ''[achat]   /diag = toggle the live mesh-state panel (neighbors / routes / stats)''] G, st)
        else Some (True, add_line (snprintf_out 400 (ascii ''[achat] unknown command: '' @ s @ ascii '' (try /help)'')) G, st))"

subsection \<open>The input line\<close>

definition gui_payload :: "gui \<Rightarrow> byte list" where
  "gui_payload G = snprintf_out (INPUTMAX + 80) (if gu_nick G \<noteq> [] then gu_nick G @ ascii '': '' @ gu_input G else gu_input G)"

definition sendline :: "'s p9lib \<Rightarrow> gui \<times> 's \<Rightarrow> (bool \<times> gui \<times> 's) option" where
  "sendline P Gs =
     (case Gs of (G, s) \<Rightarrow>
        if gu_input G = [] then Some (True, G, s)
        else if hd (gu_input G) = 47 then
          map_option (\<lambda>(goes_on, G1, s1). (goes_on, G1\<lparr>gu_input := []\<rparr>, s1)) (gui_docmd P (gu_input G) (G, s))
        else case gu_dataW G of
          None \<Rightarrow> None
        | Some f \<Rightarrow>
            (case pl_write P f (gui_payload G) s of
               (w, s1) \<Rightarrow>
                 Some (True, add_line (case w of
                     Inl e \<Rightarrow> ascii ''[send failed -- reconnecting]''
                   | Inr _ \<Rightarrow> snprintf_out (INPUTMAX + 8) (ascii ''[me] '' @ gu_input G)) G\<lparr>gu_input := []\<rparr>, s1)))"

text \<open>A key, as its Unicode character: end of line, backspace, escape, \<open>^D\<close>, or a printing one.\<close>

definition key :: "'s p9lib \<Rightarrow> nat \<Rightarrow> gui \<times> 's \<Rightarrow> (bool \<times> gui \<times> 's) option" where
  "key P r Gs =
     (case Gs of (G, s) \<Rightarrow>
        if r = 10 \<or> r = 13 then sendline P (G, s)
        else if r = 8 then Some (True, G\<lparr>gu_input := take (length (gu_input G) - 1) (gu_input G)\<rparr>, s)
        else if r = 27 then Some (True, G\<lparr>gu_input := []\<rparr>, s)
        else if r = 4 then Some (False, hangup P (G, s))
        else if 0x20 \<le> r \<and> r < 0x7f \<and> length (gu_input G) < INPUTMAX - 1
          then Some (True, G\<lparr>gu_input := gu_input G @ [of_nat r]\<rparr>, s)
        else Some (True, G, s))"

subsection \<open>The event loop\<close>

text \<open>
  What the main process waits for: a key, a new size (and whether the display is there), a line of
  the reader, a note that ends the program, the heart beat (and whether the display is there), a new
  readout.
\<close>

datatype gui_event = Key nat | Resized bool | Incoming | Quit_note | Tick bool | Diag

definition gui_handle :: "'s p9lib \<Rightarrow> gui_event \<Rightarrow> gui \<times> 's \<Rightarrow> (bool \<times> gui \<times> 's) option" where
  "gui_handle P ev Gs =
     (case Gs of (G, s) \<Rightarrow>
        case ev of
          Key r \<Rightarrow> key P r (G, s)
        | Resized there \<Rightarrow> Some (if there then (True, G, s) else (False, hangup P (G, s)))
        | Incoming \<Rightarrow>
            (case gu_incoming G of
               [] \<Rightarrow> Some (True, G, s)
             | l # ls \<Rightarrow> Some (True, add_line l (G\<lparr>gu_incoming := ls\<rparr>), s))
        | Quit_note \<Rightarrow> Some (False, hangup P (G, s))
        | Tick there \<Rightarrow> Some (if there then (True, G, s) else (False, hangup P (G, s)))
        | Diag \<Rightarrow> Some (True, G, s))"

subsection \<open>The start\<close>

text \<open>\<open>serial_autodetect\<close>: of the names in \<open>/dev\<close> that are a USB modem's and end in 03, the first shortest.\<close>

definition nine_port :: "byte list \<Rightarrow> bool" where
  "nine_port n \<longleftrightarrow> is_prefix (ascii ''cu.usbmodem'') n \<and> 2 \<le> length n \<and>
     n ! (length n - 2) = 48 \<and> n ! (length n - 1) = 51"

definition better_port :: "byte list \<Rightarrow> byte list option \<Rightarrow> byte list option" where
  "better_port n best =
     (if nine_port n
      then (let path = snprintf_out 128 (ascii ''/dev/'' @ n) in
        case best of None \<Rightarrow> Some path | Some b \<Rightarrow> if length path < length b then Some path else best)
      else best)"

definition serial_autodetect :: "byte list list option \<Rightarrow> byte list option" where
  "serial_autodetect dev = (case dev of None \<Rightarrow> None | Some ns \<Rightarrow> fold better_port ns None)"

text \<open>\<open>bundle_setup\<close>: the value of \<open>DEVDRAW\<close> when the program runs from a bundle; \<open>dirname\<close> is a parameter.\<close>

definition bundle_setup :: "(byte list \<Rightarrow> byte list) \<Rightarrow> byte list option \<Rightarrow> byte list option" where
  "bundle_setup dirname exe =
     (case exe of
        None \<Rightarrow> None
      | Some e \<Rightarrow>
          if strstr e (ascii ''/Contents/MacOS/'') = None then None
          else Some (snprintf_out 1100 (dirname (take 1023 e) @ ascii ''/devdraw'')))"

definition gui_boot :: gui where
  "gui_boot = \<lparr>gu_ctl = None, gu_dataR = None, gu_dataW = None, gu_bcast = False, gu_dst = [], gu_switching = False,
     gu_conv = 0, gu_nick = [], gu_me = [], gu_ring = ring_boot, gu_input = [], gu_diagon = True, gu_diagbuf = [],
     gu_incoming = [], gu_fails = 0\<rparr>"

text \<open>
  The chat on a mounted port, when everything could be opened. On a failure the program ends, which
  gives the conversation back.
\<close>

definition gui_open :: "'s p9lib \<Rightarrow> byte list \<Rightarrow> byte list \<Rightarrow> 's \<Rightarrow> bool \<times> gui \<times> 's" where
  "gui_open P port dst s =
     (let G = (add_line (ascii ''[achat] connecting...'') gui_boot)\<lparr>gu_bcast := (dst = bcast_text), gu_dst := dst\<rparr> in
      case open_conv P (G, s) of
        (False, G1, s1) \<Rightarrow> (False, hangup P (G1, s1))
      | (True, G1, s1) \<Rightarrow>
          (case gui_myaddr P s1 of
             (me, s2) \<Rightarrow>
               (True, fold add_line
                 [snprintf_out 128 (ascii ''[achat] '' @ port @ ascii '' conv '' @ dec_int (gu_conv G1) @ ascii '' -- ''
                    @ (if dst = bcast_text then ascii ''party line (broadcast, best-effort)'' else ascii ''connected (reliable)'')
                    @ ascii '' -- /help, ^D quits''),
                  snprintf_out 128 (ascii ''[achat] my address: '' @ me @ ascii ''   (peer: /connect '' @ me @ ascii '' for reliable 1:1)'')]
                 (G1\<lparr>gu_dst := take 23 dst, gu_me := me\<rparr>), s2)))"

text \<open>
  The start, from the arguments and the names in \<open>/dev\<close>. The mount is a parameter: the library's state
  on a port, if there is one.
\<close>

definition gui_start ::
    "'s p9lib \<Rightarrow> byte list list \<Rightarrow> byte list list option \<Rightarrow> (byte list \<Rightarrow> 's option) \<Rightarrow> (bool \<times> gui \<times> 's) option" where
  "gui_start P args dev mount =
     (case (if args = [] then serial_autodetect dev else Some (hd args)) of
        None \<Rightarrow> None
      | Some port \<Rightarrow> map_option (gui_open P port (if 2 \<le> length args then args ! 1 else bcast_text)) (mount port))"

subsection \<open>All processes\<close>

text \<open>
  A step of the main process, of the reader, or of the diagnostic process. The reader's lines go
  through a channel of 32. When the main process ends, all do. What happens at the other end of the
  line meanwhile is a relation on the library's state.
\<close>

datatype 's gui_run = Running gpc gui 's | Ended gui 's | Crashed

inductive gui_step :: "'s p9lib \<Rightarrow> ('s \<Rightarrow> 's \<Rightarrow> bool) \<Rightarrow> 's gui_run \<Rightarrow> 's gui_run \<Rightarrow> bool" for P world where
  main: "gui_handle P ev (G, s) = Some (goes_on, G1, s1) \<Longrightarrow>
     gui_step P world (Running pc G s) (if goes_on then Running pc G1 s1 else Ended G1 s1)"
| main_crash: "gui_handle P ev (G, s) = None \<Longrightarrow> gui_step P world (Running pc G s) Crashed"
| reads: "gu_dataR G = Some f \<Longrightarrow> pl_ready P f s \<Longrightarrow> reader_read P ms (G, s) = Some (pc, G1, s1) \<Longrightarrow>
     gui_step P world (Running GRead G s) (Running pc G1 s1)"
| read_crash: "gu_dataR G = None \<Longrightarrow> gui_step P world (Running GRead G s) Crashed"
| sends: "length (gu_incoming G) < 32 \<Longrightarrow>
     gui_step P world (Running (GSend l pc) G s) (Running pc (G\<lparr>gu_incoming := gu_incoming G @ [l]\<rparr>) s)"
| reconvs: "reader_reconv P (G, s) = (pc, G1, s1) \<Longrightarrow> gui_step P world (Running GReconv G s) (Running pc G1 s1)"
| eof: "gui_eof P (G, s) = Some (pc, G1, s1) \<Longrightarrow> gui_step P world (Running GEof G s) (Running pc G1 s1)"
| eof_crash: "gui_eof P (G, s) = None \<Longrightarrow> gui_step P world (Running GEof G s) Crashed"
| diag: "diag_round P (G, s) = (G1, s1) \<Longrightarrow> gui_step P world (Running pc G s) (Running pc G1 s1)"
| elsewhere: "world s s1 \<Longrightarrow> gui_step P world (Running pc G s) (Running pc G s1)"

inductive_cases gui_step_Running: "gui_step P world (Running pc G s) R"

end
