(* ===== verification/GuiProps.thy ===== *)
theory GuiProps
  imports GuiChat
begin

text \<open>
  Properties of the windowed chat for any 9P library: which fids an operation keeps, when a call is
  made with a nil fid, what typing sends. What the library promises of its fids is a locale; inside
  it every run keeps to one conversation and gives it back at its end.
\<close>

subsection \<open>What an operation does with the fids\<close>

definition gui_fids :: "gui \<Rightarrow> nat option \<times> nat option \<times> nat option" where
  "gui_fids G = (gu_ctl G, gu_dataR G, gu_dataW G)"

definition whole :: "gui \<Rightarrow> bool" where
  "whole G \<longleftrightarrow> gu_ctl G \<noteq> None \<and> gu_dataR G \<noteq> None \<and> gu_dataW G \<noteq> None"

lemma fids_frame [simp]:
  "gui_fids (add_line l G) = gui_fids G" "gui_fids (fold add_line ls G) = gui_fids G"
  "gui_fids (G\<lparr>gu_input := i\<rparr>) = gui_fids G" "gui_fids (G\<lparr>gu_nick := n\<rparr>) = gui_fids G"
  "gui_fids (G\<lparr>gu_diagon := b\<rparr>) = gui_fids G" "gui_fids (G\<lparr>gu_diagbuf := d\<rparr>) = gui_fids G"
  "gui_fids (G\<lparr>gu_incoming := ls\<rparr>) = gui_fids G" "gui_fids (G\<lparr>gu_fails := k\<rparr>) = gui_fids G"
  "gui_fids (G\<lparr>gu_switching := b\<rparr>) = gui_fids G"
proof -
  show "gui_fids (add_line l G) = gui_fids G" for l G by (simp add: gui_fids_def add_line_def)
  then show "gui_fids (fold add_line ls G) = gui_fids G" by (induction ls arbitrary: G) auto
qed (simp_all add: gui_fids_def)

lemma whole_fids: "gui_fids G = gui_fids G' \<Longrightarrow> whole G = whole G'"
  by (simp add: gui_fids_def whole_def)

lemma connect_fids: "gui_connect P d (G, s) = Some (G1, s1) \<Longrightarrow> gui_fids G1 = gui_fids G"
  by (auto simp: gui_connect_def Let_def gui_fids_def add_line_def split: option.splits prod.splits sum.splits)

lemma docmd_fids: "gui_docmd P c (G, s) = Some (True, G1, s1) \<Longrightarrow> gui_fids G1 = gui_fids G"
  by (auto simp: gui_docmd_def Let_def gui_who_def map_option_case dest: connect_fids split: if_splits option.splits prod.splits)

lemma sendline_fids: "sendline P (G, s) = Some (True, G1, s1) \<Longrightarrow> gui_fids G1 = gui_fids G"
  by (auto simp: sendline_def map_option_case dest: docmd_fids split: if_splits option.splits prod.splits)

lemma event_fids: "gui_handle P ev (G, s) = Some (True, G1, s1) \<Longrightarrow> gui_fids G1 = gui_fids G"
  by (auto simp: gui_handle_def key_def dest: sendline_fids split: gui_event.splits if_splits list.splits)

lemma eof_fids: "gui_eof P (G, s) = Some (pc, G1, s1) \<Longrightarrow> gui_fids G1 = gui_fids G"
  by (auto simp: gui_eof_def split: if_splits option.splits prod.splits)

lemma read_fids: "reader_read P ms (G, s) = Some (pc, G1, s1) \<Longrightarrow> gui_fids G1 = gui_fids G"
  by (auto simp: reader_read_def split: if_splits option.splits prod.splits sum.splits)

lemma diag_fids: "diag_round P (G, s) = (G1, s1) \<Longrightarrow> gui_fids G1 = gui_fids G"
  by (auto simp: diag_round_def split: if_splits prod.splits)

subsection \<open>Nil fids\<close>

lemma docmd_None: "gui_docmd P c (G, s) = None \<Longrightarrow> gu_ctl G = None"
  by (auto simp: gui_docmd_def gui_connect_def Let_def split: if_splits option.splits prod.splits sum.splits)

lemma event_None: "gui_handle P ev (G, s) = None \<Longrightarrow> \<not> whole G"
  by (auto simp: gui_handle_def key_def sendline_def whole_def dest: docmd_None
    split: gui_event.splits if_splits list.splits option.splits prod.splits)

lemma eof_None: "gui_eof P (G, s) = None \<Longrightarrow> \<not> whole G"
  by (auto simp: gui_eof_def whole_def split: if_splits option.splits prod.splits)

lemmas whole_kept = event_fids [THEN whole_fids] eof_fids [THEN whole_fids] read_fids [THEN whole_fids] diag_fids [THEN whole_fids]

lemma open_conv_whole:
  assumes "open_conv P (G, s) = (b, G1, s1)" and "gu_dataR G = None"
  shows "b \<longleftrightarrow> gu_dataR G1 \<noteq> None \<and> gu_dataW G1 \<noteq> None" "b \<longrightarrow> whole G1"
  using assms by (auto simp: open_conv_def whole_def Let_def split: option.splits prod.splits sum.splits if_splits)

text \<open>
  C20. The program makes no call with a nil fid unless the recovery of the conversation has failed:
  from a state that holds its three fids, no process crashes in its next step, and each keeps the
  fids, but for a reader whose recovery fails. After that a data fid is missing: the reader's next
  read, or the next message typed, is a call with a nil fid.
\<close>

theorem crash_only_after_failed_recovery:
  assumes "gui_step P world (Running pc G s) R" and "whole G"
  shows "R \<noteq> Crashed \<and>
    (\<forall>pc' G' s'. R = Running pc' G' s' \<longrightarrow> whole G' \<or>
       (pc = GReconv \<and> reconv P (G, s) = (False, G', s') \<and>
        (\<forall>ms. gu_dataR G' = None \<and> reader_read P ms (G', s') = None \<or>
           gu_dataW G' = None \<and> (\<forall>msg. msg \<noteq> [] \<longrightarrow> hd msg \<noteq> 47 \<longrightarrow> sendline P (G'\<lparr>gu_input := msg\<rparr>, s') = None))))"
  using assms(1)
proof (cases rule: gui_step.cases)
  case (reconvs pc' G1 s1)
  then have e: "pc = GReconv" "reader_reconv P (G, s) = (pc', G1, s1)" "R = Running pc' G1 s1" by simp_all
  obtain b G2 s2 where r: "reconv P (G, s) = (b, G2, s2)" by (cases "reconv P (G, s)")
  have o: "open_conv P (G\<lparr>gu_ctl := None, gu_dataR := None, gu_dataW := None\<rparr>,
      close_fid P (gu_dataW G) (close_fid P (gu_dataR G) (close_fid P (gu_ctl G) s))) = (b, G2, s2)"
    using r by (simp add: reconv_def)
  note w = open_conv_whole [OF o, simplified]
  show ?thesis
  proof (cases b)
    case True
    then have "gui_fids G1 = gui_fids G2" using e r by (auto simp: reader_reconv_def)
    then show ?thesis using w(2) True e whole_fids by blast
  next
    case False
    then have "G1 = G2" "s1 = s2" using e r by (auto simp: reader_reconv_def)
    moreover have "gu_dataR G2 = None \<or> gu_dataW G2 = None" using w(1) False by auto
    ultimately show ?thesis using e r False by (auto simp: reader_read_def sendline_def)
  qed
next
  case (sends l pc1)
  then show ?thesis using assms(2) by (auto simp: whole_def)
next
  case read_crash
  then show ?thesis using assms(2) by (simp add: whole_def)
qed (use assms(2) in \<open>auto simp: whole_kept dest: event_None eof_None split: if_splits\<close>)

subsection \<open>Typing\<close>

fun keys :: "'s p9lib \<Rightarrow> nat list \<Rightarrow> gui \<times> 's \<Rightarrow> (bool \<times> gui \<times> 's) option" where
  "keys P [] Gs = Some (True, Gs)"
| "keys P (r # rs) Gs =
     (case key P r Gs of None \<Rightarrow> None | Some (goes_on, Gs1) \<Rightarrow> if goes_on then keys P rs Gs1 else Some (False, Gs1))"

definition printing :: "nat \<Rightarrow> bool" where
  "printing r \<longleftrightarrow> 0x20 \<le> r \<and> r < 0x7f"

lemma keys_printing:
  "list_all printing rs \<Longrightarrow> length (gu_input G) \<le> 511 \<Longrightarrow>
    keys P (rs @ ks) (G, s) = keys P ks (G\<lparr>gu_input := take 511 (gu_input G @ map of_nat rs)\<rparr>, s)"
proof (induction rs arbitrary: G)
  case (Cons r rs)
  show ?case
  proof (cases "length (gu_input G) < 511")
    case True
    then show ?thesis using Cons by (simp add: key_def printing_def take_Cons')
  next
    case False
    then have "length (gu_input G) = 511" using Cons.prems by simp
    then show ?thesis using Cons.IH [of G] Cons.prems by (simp add: key_def printing_def)
  qed
qed simp

text \<open>
  What is typed is what is sent. A message of printing characters, typed on an empty line and
  ended with the return key, is written as one datagram after the nick name, if there is one; it is
  cut only where the input line is full, at 511 characters. It appears in the transcript if the
  write went well, and the input line is empty again.
\<close>

theorem typed_message_sent:
  assumes "list_all printing rs" and "rs \<noteq> []" and "hd rs \<noteq> 47" and "gu_input G = []" and "gu_dataW G = Some f"
    and "length (gu_nick G) \<le> 63" and "text = map of_nat (take 511 rs)"
  shows "keys P (rs @ [13]) (G, s) =
    (case pl_write P f (if gu_nick G = [] then text else gu_nick G @ ascii '': '' @ text) s of
       (w, s1) \<Rightarrow> Some (True,
          G\<lparr>gu_ring := addline (case w of Inl e \<Rightarrow> ascii ''[send failed -- reconnecting]'' | Inr n \<Rightarrow> ascii ''[me] '' @ text) (gu_ring G)\<rparr>, s1))"
proof -
  have t: "take 511 (map of_nat rs) = text" using assms(7) by (simp add: take_map)
  have l: "length text \<le> 511" using assms(7) by simp
  have "text \<noteq> []" "hd text \<noteq> 47"
  proof -
    obtain r rs' where r: "rs = r # rs'" using assms(2) by (cases rs) auto
    then have "hd text = of_nat r" "text \<noteq> []" using assms(7) by simp_all
    moreover have "(of_nat r :: byte) \<noteq> 47"
    proof
      assume "(of_nat r :: byte) = 47"
      then have "unat (of_nat r :: byte) = 47" by simp
      then show False using assms(1,3) r by (simp add: printing_def unat_of_nat)
    qed
    ultimately show "text \<noteq> []" "hd text \<noteq> 47" by simp_all
  qed
  moreover have "gui_payload (G\<lparr>gu_input := text\<rparr>) = (if gu_nick G = [] then text else gu_nick G @ ascii '': '' @ text)"
    using l assms(6) by (simp add: gui_payload_def snprintf_out_def ascii_def)
  moreover have "snprintf_out (INPUTMAX + 8) (ascii ''[me] '' @ text) = ascii ''[me] '' @ text"
    using l by (simp add: snprintf_out_def ascii_def)
  moreover have "G\<lparr>gu_input := []\<rparr> = G" using assms(4) by (cases G) simp
  ultimately have "sendline P (G\<lparr>gu_input := text\<rparr>, s) =
    (case pl_write P f (if gu_nick G = [] then text else gu_nick G @ ascii '': '' @ text) s of
       (w, s1) \<Rightarrow> Some (True,
          G\<lparr>gu_ring := addline (case w of Inl e \<Rightarrow> ascii ''[send failed -- reconnecting]'' | Inr n \<Rightarrow> ascii ''[me] '' @ text) (gu_ring G)\<rparr>, s1))"
    using assms(4,5) by (cases G) (simp add: sendline_def add_line_def split: prod.splits sum.splits)
  then show ?thesis using keys_printing [OF assms(1), of G P "[13]" s] assms(4) t
    by (simp add: key_def split: prod.splits)
qed

subsection \<open>One conversation, given back\<close>

text \<open>The files the program opens besides \<open>clone\<close>.\<close>

definition gui_file :: "byte list \<Rightarrow> bool" where
  "gui_file path \<longleftrightarrow> path \<in> set (map ascii [''net/aether/addr'', ''net/aether/stats'', ''dev/aether/addr'', ''dev/aether/neighbors'',
     ''dev/aether/routes'']) \<or> (\<exists>k. path = conv_data_path k)"

text \<open>
  What a 9P library promises: the fids that are held, and those of them that hold a conversation. The
  state may also change on its own.
\<close>

locale conv_lib =
  fixes P :: "'s p9lib" and world :: "'s \<Rightarrow> 's \<Rightarrow> bool" and ok :: "'s \<Rightarrow> bool" and held ctls :: "'s \<Rightarrow> nat set"
  assumes ctls_held: "ok s \<Longrightarrow> ctls s \<subseteq> held s"
    and open_clone: "ok s \<Longrightarrow> pl_open P clone_file ORDWR s = (r, s1) \<Longrightarrow> ok s1 \<and>
      (case r of None \<Rightarrow> held s1 = held s \<and> ctls s1 = ctls s
       | Some f \<Rightarrow> f \<notin> held s \<and> held s1 = insert f (held s) \<and> ctls s1 = insert f (ctls s))"
    and open_file: "ok s \<Longrightarrow> gui_file path \<Longrightarrow> pl_open P path m s = (r, s1) \<Longrightarrow> ok s1 \<and> ctls s1 = ctls s \<and>
      (case r of None \<Rightarrow> held s1 = held s | Some f \<Rightarrow> f \<notin> held s \<and> held s1 = insert f (held s))"
    and read_keeps: "ok s \<Longrightarrow> pl_read P f n s = (rr, s1) \<Longrightarrow> ok s1 \<and> held s1 = held s \<and> ctls s1 = ctls s"
    and write_keeps: "ok s \<Longrightarrow> pl_write P f d s = (w, s1) \<Longrightarrow> ok s1 \<and> held s1 = held s \<and> ctls s1 = ctls s"
    and close_gives_back: "ok s \<Longrightarrow> ok (pl_close P f s) \<and> held (pl_close P f s) = held s - {f} \<and> ctls (pl_close P f s) = ctls s - {f}"
    and world_keeps: "ok s \<Longrightarrow> world s s1 \<Longrightarrow> ok s1 \<and> held s1 = held s \<and> ctls s1 = ctls s"
begin

definition same :: "'s \<Rightarrow> 's \<Rightarrow> bool" where
  "same s s1 \<longleftrightarrow> ok s1 \<and> held s1 = held s \<and> ctls s1 = ctls s"

lemma same_trans: "same s s1 \<Longrightarrow> same s1 s2 \<Longrightarrow> same s s2"
  by (simp add: same_def)

lemma read_once_same:
  assumes "ok s" and "gui_file path" and "read_once P path n s = (r, s1)"
  shows "same s s1"
proof -
  obtain f s0 where o: "pl_open P path OREAD s = (f, s0)" by (cases "pl_open P path OREAD s")
  note k = open_file [OF assms(1,2) o]
  show ?thesis
  proof (cases f)
    case None
    then show ?thesis using assms(3) o k by (simp add: read_once_def same_def)
  next
    case (Some c)
    obtain rr s2 where r: "pl_read P c n s0 = (rr, s2)" by (cases "pl_read P c n s0")
    have "ok s2 \<and> held s2 = insert c (held s) \<and> ctls s2 = ctls s" using k Some read_keeps [OF _ r] by simp
    moreover have "s1 = pl_close P c s2" using assms(3) o r Some by (simp add: read_once_def)
    moreover have "c \<notin> held s" "c \<notin> ctls s" using k Some ctls_held [OF assms(1)] by auto
    ultimately show ?thesis using close_gives_back [of s2 c] by (simp add: same_def)
  qed
qed

lemma close_fid_ok:
  "ok s \<Longrightarrow> ok (close_fid P f s) \<and> held (close_fid P f s) = held s - set_option f \<and> ctls (close_fid P f s) = ctls s - set_option f"
  by (cases f) (auto simp: close_fid_def close_gives_back)

definition owns :: "gui \<Rightarrow> 's \<Rightarrow> bool" where
  "owns G s \<longleftrightarrow> ok s \<and> held s = set_option (gu_ctl G) \<union> set_option (gu_dataR G) \<union> set_option (gu_dataW G) \<and>
     ctls s = set_option (gu_ctl G)"

definition done_with :: "gui \<Rightarrow> 's \<Rightarrow> bool" where
  "done_with G s \<longleftrightarrow> ok s \<and> ctls s = {} \<and> held s \<subseteq> set_option (gu_dataR G) \<union> set_option (gu_dataW G)"

lemma owns_same: "owns G s \<Longrightarrow> same s s1 \<Longrightarrow> gui_fids G1 = gui_fids G \<Longrightarrow> owns G1 s1"
  by (simp add: owns_def same_def gui_fids_def)

lemma hangup_done: "owns G s \<Longrightarrow> hangup P (G, s) = (G1, s1) \<Longrightarrow> done_with G1 s1"
  using close_fid_ok [of s "gu_ctl G"] by (auto simp: hangup_def owns_def done_with_def)

lemma open_conv_owns:
  assumes "ok s" "held s = {}" "ctls s = {}" and "gui_fids G = (None, None, None)" and "open_conv P (G, s) = (b, G1, s1)"
  shows "owns G1 s1"
proof -
  obtain r0 s0 where o: "pl_open P clone_file ORDWR s = (r0, s0)" by (cases "pl_open P clone_file ORDWR s")
  note c = open_clone [OF assms(1) o]
  show ?thesis
  proof (cases r0)
    case None
    then show ?thesis using assms o c by (auto simp: open_conv_def owns_def gui_fids_def)
  next
    case (Some f)
    obtain nb s2 where r: "pl_read P f 31 s0 = (nb, s2)" by (cases "pl_read P f 31 s0")
    have k: "ok s2" "held s2 = {f}" "ctls s2 = {f}" using c Some assms read_keeps [OF _ r] by auto
    show ?thesis
    proof (cases "nb = Inr [] \<or> (\<exists>e. nb = Inl e)")
      case True
      then show ?thesis using assms o Some r k by (auto simp: open_conv_def owns_def gui_fids_def Let_def)
    next
      case False
      then obtain d where d: "nb = Inr d" "d \<noteq> []" by (cases nb) auto
      obtain w s3 where w: "pl_write P f (connect_line (gu_dst G)) s2 = (w, s3)" by (cases "pl_write P f (connect_line (gu_dst G)) s2")
      have k3: "ok s3" "held s3 = {f}" "ctls s3 = {f}" using write_keeps [OF k(1) w] k by auto
      have gf: "gui_file (conv_data_path n)" for n by (auto simp: gui_file_def)
      let ?p = "conv_data_path (atoi (cstr d))"
      obtain r1 s4 where o1: "pl_open P ?p ORDWR s3 = (r1, s4)" by (cases "pl_open P ?p ORDWR s3")
      note c1 = open_file [OF k3(1) gf o1]
      obtain r2 s5 where o2: "pl_open P ?p ORDWR s4 = (r2, s5)" by (cases "pl_open P ?p ORDWR s4")
      have c2: "ok s5 \<and> ctls s5 = ctls s4 \<and> (case r2 of None \<Rightarrow> held s5 = held s4 | Some f \<Rightarrow> f \<notin> held s4 \<and> held s5 = insert f (held s4))"
        using open_file [OF _ gf o2] c1 by blast
      show ?thesis
      proof (cases w)
        case (Inl e)
        then have "G1 = G\<lparr>gu_ctl := Some f, gu_conv := atoi (cstr d)\<rparr>" "s1 = s3"
          using assms(5) o Some r d w by (simp_all add: open_conv_def)
        then show ?thesis using assms(4) k3 by (simp add: owns_def gui_fids_def)
      next
        case (Inr n)
        then have g: "G1 = G\<lparr>gu_ctl := Some f, gu_conv := atoi (cstr d), gu_dataR := r1, gu_dataW := r2\<rparr>" "s1 = s5"
          using assms(5) o Some r d w o1 o2 by (simp_all add: open_conv_def)
        have "held s5 = insert f (set_option r1 \<union> set_option r2)" "ctls s5 = {f}" "ok s5"
          using c1 c2 k3 by (cases r1; cases r2; auto)+
        then show ?thesis unfolding g owns_def by simp
      qed
    qed
  qed
qed

lemma reconv_owns:
  assumes "owns G s" and "reconv P (G, s) = (b, G1, s1)"
  shows "owns G1 s1"
proof -
  let ?s1 = "close_fid P (gu_ctl G) s" and ?s2 = "close_fid P (gu_dataR G) (close_fid P (gu_ctl G) s)"
  have "ok ?s1" "ok ?s2" using assms(1) close_fid_ok by (auto simp: owns_def)
  then have c: "ok (close_fid P (gu_dataW G) ?s2)" "held (close_fid P (gu_dataW G) ?s2) = {}" "ctls (close_fid P (gu_dataW G) ?s2) = {}"
    using assms(1) close_fid_ok [of s "gu_ctl G"] close_fid_ok [of ?s1 "gu_dataR G"] close_fid_ok [of ?s2 "gu_dataW G"]
    by (auto simp: owns_def)
  show ?thesis
    by (rule open_conv_owns [OF c]) (use assms(2) in \<open>auto simp: reconv_def gui_fids_def\<close>)
qed

lemma connect_same: "ok s \<Longrightarrow> gui_connect P d (G, s) = Some (G1, s1) \<Longrightarrow> same s s1"
  by (auto simp: gui_connect_def Let_def same_def split: option.splits prod.splits sum.splits dest: write_keeps)

lemma gui_files: "gui_file (ascii ''net/aether/addr'')" "gui_file (ascii ''net/aether/stats'')" "gui_file (ascii ''dev/aether/addr'')"
    "gui_file (ascii ''dev/aether/neighbors'')" "gui_file (ascii ''dev/aether/routes'')"
  by (simp_all add: gui_file_def)

lemma docmd_owns:
  assumes "owns G s" and "gui_docmd P c (G, s) = Some (b, G1, s1)"
  shows "if b then owns G1 s1 else done_with G1 s1"
proof (cases b)
  case True
  have ok: "ok s" using assms(1) by (simp add: owns_def)
  then have s: "same s s" by (simp add: same_def)
  have "same s s1"
    using assms(2) True s connect_same [OF ok] read_once_same [OF ok gui_files(4)]
    by (auto simp: gui_docmd_def gui_who_def Let_def map_option_case split: if_splits option.splits prod.splits)
  then show ?thesis using True owns_same [OF assms(1) _ docmd_fids] assms(2) by simp
next
  case False
  then have "hangup P (G, s) = (G1, s1)"
    using assms(2) by (auto simp: gui_docmd_def Let_def map_option_case split: if_splits option.splits)
  then show ?thesis using False hangup_done [OF assms(1)] by auto
qed

lemma done_fids: "done_with G s \<Longrightarrow> gui_fids G1 = gui_fids G \<Longrightarrow> done_with G1 s"
  by (simp add: done_with_def gui_fids_def)

lemma sendline_owns:
  assumes "owns G s" and "sendline P (G, s) = Some (b, G1, s1)"
  shows "if b then owns G1 s1 else done_with G1 s1"
proof (cases "gu_input G \<noteq> [] \<and> hd (gu_input G) = 47")
  case True
  then obtain G2 where d: "gui_docmd P (gu_input G) (G, s) = Some (b, G2, s1)" "G1 = G2\<lparr>gu_input := []\<rparr>"
    using assms(2) by (auto simp: sendline_def)
  then show ?thesis using docmd_owns [OF assms(1) d(1)] by (cases b) (simp_all add: owns_def done_with_def)
next
  case False
  have ok: "ok s" using assms(1) by (simp add: owns_def)
  then have "b \<and> same s s1" using assms(2) False write_keeps [OF ok]
    by (auto simp: sendline_def same_def split: if_splits option.splits prod.splits)
  then show ?thesis using assms(2) owns_same [OF assms(1) _ sendline_fids] by auto
qed

lemma key_owns:
  assumes "owns G s" and "key P r (G, s) = Some (b, G1, s1)"
  shows "if b then owns G1 s1 else done_with G1 s1"
proof -
  have "same s s" using assms(1) by (simp add: owns_def same_def)
  then show ?thesis using assms sendline_owns [OF assms(1)] hangup_done [OF assms(1)] owns_same [OF assms(1)]
    by (auto simp: key_def split: if_splits)
qed

lemma event_owns:
  assumes "owns G s" and "gui_handle P ev (G, s) = Some (b, G1, s1)"
  shows "if b then owns G1 s1 else done_with G1 s1"
proof -
  have "same s s" using assms(1) by (simp add: owns_def same_def)
  then show ?thesis using assms key_owns [OF assms(1)] hangup_done [OF assms(1)] owns_same [OF assms(1)]
    by (auto simp: gui_handle_def split: gui_event.splits if_splits list.splits)
qed

lemma read_owns:
  assumes "owns G s" and "reader_read P ms (G, s) = Some (pc, G1, s1)"
  shows "owns G1 s1"
proof -
  have ok: "ok s" using assms(1) by (simp add: owns_def)
  obtain f where d: "gu_dataR G = Some f" using assms(2) by (cases "gu_dataR G") (auto simp: reader_read_def)
  obtain r s2 where r: "pl_read P f LINEMAX s = (r, s2)" by (cases "pl_read P f LINEMAX s")
  note f = d r
  then have "s1 = s2" using assms(2) by (cases r) (auto simp: reader_read_def split: if_splits)
  then have "same s s1" using read_keeps [OF ok f(2)] by (simp add: same_def)
  then show ?thesis by (rule owns_same [OF assms(1) _ read_fids [OF assms(2)]])
qed

lemma eof_owns:
  assumes "owns G s" and "gui_eof P (G, s) = Some (pc, G1, s1)"
  shows "owns G1 s1"
proof -
  have ok: "ok s" using assms(1) by (simp add: owns_def)
  have "same s s1"
  proof (cases "gu_switching G")
    case True
    obtain c where c: "gu_ctl G = Some c" using assms(2) True by (cases "gu_ctl G") (auto simp: gui_eof_def)
    obtain w s2 where w: "pl_write P c (connect_line (gu_dst G)) s = (w, s2)" by (cases "pl_write P c (connect_line (gu_dst G)) s")
    then have "s1 = s2" using assms(2) True c by (simp add: gui_eof_def)
    then show ?thesis using write_keeps [OF ok w] by (simp add: same_def)
  qed (use assms(2) ok in \<open>simp add: gui_eof_def same_def\<close>)
  then show ?thesis by (rule owns_same [OF assms(1) _ eof_fids [OF assms(2)]])
qed

lemma diag_same:
  assumes "ok s" and "diag_round P (G, s) = (G1, s1)"
  shows "same s s1"
proof -
  have t: "read_once P path n s0 = (r, s2) \<Longrightarrow> gui_file path \<Longrightarrow> same s s0 \<Longrightarrow> same s s2" for path n s0 r s2
    using read_once_same [of s0 path n r s2] same_trans by (auto simp: same_def)
  have "same s s" using assms(1) by (simp add: same_def)
  then show ?thesis using assms(2) unfolding diag_round_def
    by (auto split: if_splits prod.splits dest!: t [OF _ gui_files(1)] t [OF _ gui_files(2)] t [OF _ gui_files(3)]
      t [OF _ gui_files(4)] t [OF _ gui_files(5)])
qed

fun run_ok :: "'s gui_run \<Rightarrow> bool" where
  "run_ok (Running pc G s) = owns G s"
| "run_ok (Ended G s) = done_with G s"
| "run_ok Crashed = True"

lemma step_ok: "gui_step P world R R1 \<Longrightarrow> run_ok R \<Longrightarrow> run_ok R1"
proof (induction rule: gui_step.induct)
  case (main ev G s goes_on G1 s1 pc)
  then show ?case using event_owns by auto
next
  case (reads G f s ms pc G1 s1)
  then show ?case using read_owns by auto
next
  case (sends G l pc s)
  then show ?case by (simp add: owns_def)
next
  case (reconvs G s pc G1 s1)
  obtain b G2 s2 where r: "reconv P (G, s) = (b, G2, s2)" by (cases "reconv P (G, s)")
  then have "owns G2 s2" using reconvs reconv_owns by auto
  moreover have "gui_fids G1 = gui_fids G2" "s1 = s2" using reconvs r by (auto simp: reader_reconv_def split: bool.splits)
  ultimately show ?case by (simp add: owns_def gui_fids_def)
next
  case (eof G s pc G1 s1)
  then show ?case using eof_owns by auto
next
  case (diag G s G1 s1 pc)
  then show ?case using diag_same [of s G G1 s1] diag_fids [of P G s G1 s1] owns_same [of G s s1 G1] by (auto simp: owns_def)
next
  case (elsewhere s s1 pc G)
  then show ?case using world_keeps [of s s1] by (simp add: owns_def)
qed auto

lemma runs_ok: "(gui_step P world)\<^sup>*\<^sup>* R R1 \<Longrightarrow> run_ok R \<Longrightarrow> run_ok R1"
  by (induction rule: rtranclp_induct) (auto simp: step_ok)

lemma start_ok:
  assumes "gui_start P args dev mount = Some (b, G, s)" and "\<And>port s0. mount port = Some s0 \<Longrightarrow> ok s0 \<and> held s0 = {} \<and> ctls s0 = {}"
  shows "if b then owns G s else done_with G s"
proof -
  obtain port dst s0 where p: "mount port = Some s0" "gui_open P port dst s0 = (b, G, s)"
    using assms(1) by (auto simp: gui_start_def split: option.splits if_splits)
  define G0 where "G0 = (add_line (ascii ''[achat] connecting...'') gui_boot)\<lparr>gu_bcast := (dst = bcast_text), gu_dst := dst\<rparr>"
  obtain b1 G1 s1 where o: "open_conv P (G0, s0) = (b1, G1, s1)" by (cases "open_conv P (G0, s0)")
  have "gui_fids G0 = (None, None, None)" by (simp add: G0_def gui_fids_def add_line_def gui_boot_def)
  then have own: "owns G1 s1" using open_conv_owns [OF _ _ _ _ o] assms(2) [OF p(1)] by auto
  note g = p(2) [unfolded gui_open_def, folded G0_def, unfolded Let_def o]
  show ?thesis
  proof (cases b1)
    case False
    then have "\<not> b" "hangup P (G1, s1) = (G, s)" using g by simp_all
    then show ?thesis using hangup_done [OF own] by simp
  next
    case True
    obtain me s2 where m: "gui_myaddr P s1 = (me, s2)" by (cases "gui_myaddr P s1")
    then have same: "same s1 s2" using own read_once_same [OF _ gui_files(1), of s1 23]
      by (auto simp: gui_myaddr_def owns_def split: prod.splits)
    have "b" "gui_fids G = gui_fids G1" "s = s2" using g m True by (auto simp: gui_fids_def add_line_def)
    then show ?thesis using owns_same [OF own same] by simp
  qed
qed

end

end
