(* ===== verification/GuiNode.thy ===== *)
theory GuiNode
  imports GuiProps TestRun
begin

text \<open>
  The windowed chat on the node: the 9P library with the conversation layer of the node at the other
  end of the line. It keeps the promises of \<open>conv_lib\<close>, so every run of the program gives its
  conversation back; and towards the node the window and the line-based chat do the same.
\<close>

type_synonym 'q node_state = "'q net \<times> (nat \<Rightarrow> nid option) \<times> nat"

text \<open>The files outside \<open>/net/aether\<close> cannot be opened here.\<close>

definition node_lib :: "'q env \<Rightarrow> 'q node_state p9lib" where
  "node_lib E =
     \<lparr>pl_open = (\<lambda>path mode (N, F, k).
        case aether_names path of
          None \<Rightarrow> (None, (N, F, k))
        | Some ns \<Rightarrow>
            (case walk_names E (Some NRoot) ns N of
               (None, N1) \<Rightarrow> (None, (N1, F, k))
             | (Some n, N1) \<Rightarrow> (Some k, (N1, F(k \<mapsto> n), Suc k)))),
      pl_read = (\<lambda>f cnt (N, F, k).
        case F f of
          None \<Rightarrow> (Inl EIO, (N, F, k))
        | Some n \<Rightarrow>
            (case anet_read E n 0 cnt N of
               (Returns r, N1) \<Rightarrow> (r, (N1, F, k))
             | (Blocks, N1) \<Rightarrow> (Inl EAGAIN, (N, F, k)))),
      pl_write = (\<lambda>f d (N, F, k).
        case F f of
          None \<Rightarrow> (Inl EIO, (N, F, k))
        | Some n \<Rightarrow> (case anet_write E n d N of (r, N1) \<Rightarrow> (r, (N1, F, k)))),
      pl_close = (\<lambda>f (N, F, k). (case F f of None \<Rightarrow> N | Some n \<Rightarrow> anet_clunk E n N, F(f := None), k)),
      pl_ready = (\<lambda>f (N, F, k). case F f of None \<Rightarrow> True | Some n \<Rightarrow> fst (anet_read E n 0 LINEMAX N) \<noteq> Blocks),
      pl_error = (\<lambda>e. ascii ''error'')\<rparr>"

text \<open>Frames that arrive from the mesh.\<close>

definition node_world :: "'q env \<Rightarrow> 'q node_state \<Rightarrow> 'q node_state \<Rightarrow> bool" where
  "node_world E s s1 \<longleftrightarrow> (\<exists>f. s1 = (aether_recv_cb E f (fst s), snd s))"

subsection \<open>The fids\<close>

definition node_held :: "'q node_state \<Rightarrow> nat set" where
  "node_held s = dom (fst (snd s))"

definition node_ctls :: "'q node_state \<Rightarrow> nat set" where
  "node_ctls s = {f. \<exists>i. fst (snd s) f = Some (NCtl i)}"

text \<open>Every slot in use has one fid on its control file, and no other slot has one.\<close>

definition fids_wf :: "'q env \<Rightarrow> ('q \<Rightarrow> dgram list) \<Rightarrow> ('q \<Rightarrow> nat) \<Rightarrow> 'q node_state \<Rightarrow> bool" where
  "fids_wf E cts cap s \<longleftrightarrow> (case s of (N, F, k) \<Rightarrow>
     net_wf E cts cap N \<and> (\<forall>f n. F f = Some n \<longrightarrow> f < k \<and> fid_ok E (n_nodes N) n) \<and>
     (\<forall>i. i \<in> slots_in_use N \<longleftrightarrow> (\<exists>f. F f = Some (NCtl i))) \<and>
     (\<forall>f g i. F f = Some (NCtl i) \<longrightarrow> F g = Some (NCtl i) \<longrightarrow> f = g))"

lemma slots_same: "tree_view N1 = tree_view N \<Longrightarrow> length (n_convs N) = AETHER_MAX_CONNS \<Longrightarrow> slots_in_use N1 = slots_in_use N"
  using tree_view_same [of N1 N] by (auto simp: slots_in_use_def)

lemma fids_wf_same:
  assumes "fids_wf E cts cap (N, F, k)" and "net_wf E cts cap N1" and "tree_view N1 = tree_view N"
  shows "fids_wf E cts cap (N1, F, k)"
proof -
  have w: "net_wf E cts cap N" using assms(1) by (simp add: fids_wf_def)
  have e: "slots_in_use N1 = slots_in_use N" "n_nodes N1 = n_nodes N"
    using slots_same [OF assms(3) net_wf_length [OF w]] tree_view_same(1) [OF assms(3)] by simp_all
  show ?thesis using assms(1,2) unfolding fids_wf_def prod.case e by blast
qed

lemma fids_wf_bind:
  assumes "fids_wf E cts cap (N, F, k)" and "fid_ok E (n_nodes N) n" and "\<forall>i. n \<noteq> NCtl i"
  shows "fids_wf E cts cap (N, F(k \<mapsto> n), Suc k)"
proof -
  have new: "F k = None" using assms(1) by (cases "F k") (auto simp: fids_wf_def)
  have "(F(k \<mapsto> n)) f = Some (NCtl i) \<longleftrightarrow> F f = Some (NCtl i)" for f i using assms(3) new by (cases "f = k") auto
  moreover have "f < Suc k \<and> fid_ok E (n_nodes N) m" if "(F(k \<mapsto> n)) f = Some m" for f m
    using that assms(1,2) by (cases "f = k") (auto simp: fids_wf_def less_Suc_eq)
  ultimately show ?thesis using assms(1) unfolding fids_wf_def prod.case by blast
qed

lemma take_slot_in_use: "i < length (n_convs N) \<Longrightarrow> length (n_convs N) = AETHER_MAX_CONNS \<Longrightarrow>
    slots_in_use (conv_take_slot E i N) = insert i (slots_in_use N)"
  by (auto simp: slots_in_use_def conv_take_slot_convs nth_list_update)

lemma free_in_use: "length (n_convs N) = AETHER_MAX_CONNS \<Longrightarrow> i \<in> slots_in_use N \<Longrightarrow>
    slots_in_use (conv_free E i N) = slots_in_use N - {i}"
  by (auto simp: slots_in_use_def conv_free_convs nth_list_update)

subsection \<open>Walks\<close>

lemma ctl_named: "fid_ok E nodes (NCtl i) \<Longrightarrow> 2 \<le> e_name_cap E \<Longrightarrow> 99 \<in> set (nd_name (nodes (NCtl i)))"
proof -
  assume a: "fid_ok E nodes (NCtl i)" "2 \<le> e_name_cap E"
  then obtain m where "e_name_cap E - 1 = Suc m" by (cases "e_name_cap E - 1") auto
  then show ?thesis using a(1) by (auto simp: slot_built_def slot_file_def ascii_def)
qed

text \<open>A walk along names without a \<open>c\<close> allocates nothing and does not end on a control file.\<close>

lemma plain_walk:
  assumes "net_wf E cts cap N" and "2 \<le> e_name_cap E"
  shows "fid_ok E (n_nodes N) p \<Longrightarrow> \<forall>i. p \<noteq> NCtl i \<Longrightarrow> \<forall>w \<in> set ns. 99 \<notin> set w \<Longrightarrow>
    walk_names E (Some p) ns N = (r, N1) \<Longrightarrow> N1 = N \<and> (\<forall>n. r = Some n \<longrightarrow> fid_ok E (n_nodes N) n \<and> (\<forall>i. n \<noteq> NCtl i))"
proof (induction ns arbitrary: p)
  case (Cons w ns)
  have none: "walk_names E None ns' N = (None, N)" for ns' by (induction ns') (auto simp: anet_walk_def)
  have c: "w \<noteq> ascii ''clone''" using Cons.prems by (auto simp: ascii_def)
  then obtain q where q: "anet_walk E (Some p) w N = (q, N)" by (cases "nd_isdir (n_nodes N p)") (simp_all add: anet_walk_def)
  show ?case
  proof (cases q)
    case None
    then show ?thesis using Cons.prems q none by simp
  next
    case (Some n)
    have ok: "fid_ok E (n_nodes N) n" by (rule fid_ok_walk [OF assms(1) Cons.prems(1)]) (use q Some in simp)
    have "nd_name (n_nodes N n) = w" using q Some c
      by (auto simp: anet_walk_def split: if_splits dest: find_child_SomeD)
    then have "\<forall>i. n \<noteq> NCtl i" using ctl_named [OF _ assms(2)] ok Cons.prems by auto
    then show ?thesis using Cons.IH [OF ok] Cons.prems q Some by simp
  qed
qed auto

lemma slash_parts_sub: "\<forall>w \<in> set (slash_parts cur s). set w \<subseteq> set cur \<union> set s"
proof (induction cur s rule: slash_parts.induct)
  case (2 cur b s)
  then show ?case by (auto split: if_splits)
qed auto

lemma slash_parts_prefix: "slash_parts [] (ascii ''net/aether/'' @ s) = ascii ''net'' # ascii ''aether'' # slash_parts [] s"
  by (simp add: ascii_def)

lemma gui_file_names:
  assumes "gui_file path" and "aether_names path = Some ns"
  shows "\<forall>w \<in> set ns. 99 \<notin> set w"
proof -
  have "path \<in> set (map ascii [''dev/aether/addr'', ''dev/aether/neighbors'', ''dev/aether/routes'']) \<or> (\<exists>s. path = ascii ''net/aether/'' @ s \<and> 99 \<notin> set s)"
  proof (cases "\<exists>k. path = conv_data_path k")
    case True
    then obtain k where "path = take 63 (ascii ''net/aether/'' @ dec_int k @ ascii ''/data'')" by (auto simp: conv_data_path_def snprintf_out_def)
    then have "path = ascii ''net/aether/'' @ take 52 (dec_int k @ ascii ''/data'')" by (simp add: ascii_def)
    moreover have "99 \<notin> set (dec_int k @ ascii ''/data'')"
      using set_dec_nat [of "nat k"] set_dec_nat [of "nat (- k)"] by (auto simp: dec_int_def ascii_def)
    ultimately show ?thesis by (auto dest: in_set_takeD)
  next
    case False
    have "ascii ''net/aether/addr'' = ascii ''net/aether/'' @ ascii ''addr''" "ascii ''net/aether/stats'' = ascii ''net/aether/'' @ ascii ''stats''"
      "99 \<notin> set (ascii ''addr'')" "99 \<notin> set (ascii ''stats'')" by (simp_all add: ascii_def)
    then show ?thesis using assms(1) False by (auto simp: gui_file_def)
  qed
  then show ?thesis
  proof
    assume "path \<in> set (map ascii [''dev/aether/addr'', ''dev/aether/neighbors'', ''dev/aether/routes''])"
    then show ?thesis using assms(2) by (auto simp: aether_names_def ascii_def)
  next
    assume "\<exists>s. path = ascii ''net/aether/'' @ s \<and> 99 \<notin> set s"
    then obtain s where s: "path = ascii ''net/aether/'' @ s" "99 \<notin> set s" by blast
    then have "ns = slash_parts [] s" using assms(2) unfolding aether_names_def s(1) slash_parts_prefix by simp
    then show ?thesis using slash_parts_sub [of "[]" s] s(2) by auto
  qed
qed

subsection \<open>The promises\<close>

definition lib_ok :: "'q env \<Rightarrow> ('q \<Rightarrow> dgram list) \<Rightarrow> ('q \<Rightarrow> nat) \<Rightarrow> 'q node_state \<Rightarrow> bool" where
  "lib_ok E cts cap s \<longleftrightarrow> msgq_ok E cts cap \<and> 2 \<le> e_name_cap E \<and> fids_wf E cts cap s"

lemma root_ok: "fid_ok E nodes NRoot" by simp

lemma clone_walk:
  assumes "net_wf E cts cap N"
  shows "walk_names E (Some NRoot) [ascii ''clone''] N =
    (case least_free N of None \<Rightarrow> (None, N) | Some i \<Rightarrow> (Some (NCtl i), conv_take_slot E i N))"
  using assms by (auto simp: net_wf_def tree_wf_def root_dir_def node_zero_def anet_walk_def conv_alloc_eq split: option.splits)

lemma clone_names: "aether_names clone_file = Some [ascii ''clone'']"
  by (simp add: aether_names_def clone_file_def ascii_def)

lemma node_open_clone:
  assumes "lib_ok E cts cap (N, F, k)" and "pl_open (node_lib E) clone_file ORDWR (N, F, k) = (r, s1)"
  shows "lib_ok E cts cap s1 \<and> (case r of None \<Rightarrow> node_held s1 = node_held (N, F, k) \<and> node_ctls s1 = node_ctls (N, F, k)
    | Some f \<Rightarrow> f \<notin> node_held (N, F, k) \<and> node_held s1 = insert f (node_held (N, F, k)) \<and> node_ctls s1 = insert f (node_ctls (N, F, k)))"
proof -
  have ok: "msgq_ok E cts cap" "2 \<le> e_name_cap E" "fids_wf E cts cap (N, F, k)" and w: "net_wf E cts cap N"
    using assms(1) by (auto simp: lib_ok_def fids_wf_def)
  have len: "length (n_convs N) = AETHER_MAX_CONNS" by (rule net_wf_length [OF w])
  show ?thesis
  proof (cases "least_free N")
    case None
    then show ?thesis using assms clone_walk [OF w] by (simp add: node_lib_def clone_names del: walk_names.simps)
  next
    case (Some i)
    then have i: "i < AETHER_MAX_CONNS" "i \<notin> slots_in_use N" by (auto simp: least_free_Some slots_in_use_def)
    let ?N1 = "conv_take_slot E i N" and ?F1 = "F(k \<mapsto> NCtl i)"
    have r: "r = Some k" "s1 = (?N1, ?F1, Suc k)"
      using assms(2) clone_walk [OF w] Some by (simp_all add: node_lib_def clone_names del: walk_names.simps)
    have new: "F k = None" using ok(3) by (cases "F k") (auto simp: fids_wf_def)
    have none: "F f \<noteq> Some (NCtl i)" for f using ok(3) i by (auto simp: fids_wf_def)
    have c: "?F1 f = Some (NCtl j) \<longleftrightarrow> (f = k \<and> j = i) \<or> F f = Some (NCtl j)" for f j using new by auto
    have "f < Suc k \<and> fid_ok E (n_nodes ?N1) m" if "?F1 f = Some m" for f m
    proof (cases "f = k")
      case True
      then show ?thesis using that i len slot_built_take_slot [of i N E] by auto
    next
      case False
      then show ?thesis using that ok(3) fid_ok_take_slot [of i N E m] i len by (auto simp: fids_wf_def less_Suc_eq)
    qed
    moreover have "j \<in> slots_in_use ?N1 \<longleftrightarrow> (\<exists>f. ?F1 f = Some (NCtl j))" for j
      unfolding c take_slot_in_use [OF i(1) [folded len] len] using ok(3) by (auto simp: fids_wf_def)
    moreover have "?F1 f = Some (NCtl j) \<Longrightarrow> ?F1 g = Some (NCtl j) \<Longrightarrow> f = g" for f g j
      unfolding c using ok(3) none by (auto simp: fids_wf_def)
    moreover have "net_wf E cts cap ?N1" using net_wf_take_slot [OF ok(1) w i(1)] i by (simp add: slots_in_use_def)
    ultimately have "fids_wf E cts cap s1" unfolding r fids_wf_def prod.case by blast
    then have "lib_ok E cts cap s1" using ok unfolding lib_ok_def by blast
    moreover have "k \<notin> node_held (N, F, k)" "node_held s1 = insert k (node_held (N, F, k))"
      using new by (auto simp: r node_held_def)
    moreover have "node_ctls s1 = insert k (node_ctls (N, F, k))" unfolding node_ctls_def r fst_conv snd_conv c by auto
    ultimately show ?thesis by (simp add: r(1))
  qed
qed

lemma node_open_file:
  assumes "lib_ok E cts cap (N, F, k)" and "gui_file path" and "pl_open (node_lib E) path m (N, F, k) = (r, s1)"
  shows "lib_ok E cts cap s1 \<and> node_ctls s1 = node_ctls (N, F, k) \<and> (case r of None \<Rightarrow> node_held s1 = node_held (N, F, k)
    | Some f \<Rightarrow> f \<notin> node_held (N, F, k) \<and> node_held s1 = insert f (node_held (N, F, k)))"
proof (cases "aether_names path")
  case None
  then show ?thesis using assms by (simp add: node_lib_def)
next
  case (Some ns)
  have ok: "msgq_ok E cts cap" "2 \<le> e_name_cap E" "fids_wf E cts cap (N, F, k)" and w: "net_wf E cts cap N"
    using assms(1) by (auto simp: lib_ok_def fids_wf_def)
  have new: "F k = None" using ok(3) by (cases "F k") (auto simp: fids_wf_def)
  obtain q N1 where q: "walk_names E (Some NRoot) ns N = (q, N1)" by (cases "walk_names E (Some NRoot) ns N")
  have pw: "N1 = N \<and> (\<forall>n. q = Some n \<longrightarrow> fid_ok E (n_nodes N) n \<and> (\<forall>i. n \<noteq> NCtl i))"
    by (rule plain_walk [OF w ok(2) root_ok _ gui_file_names [OF assms(2) Some] q]) simp
  show ?thesis
  proof (cases q)
    case None
    then show ?thesis using assms(1,3) Some q pw by (simp add: node_lib_def)
  next
    case (Some n)
    then have r: "r = Some k" "s1 = (N, F(k \<mapsto> n), Suc k)"
      using assms(3) \<open>aether_names path = Some ns\<close> q pw by (simp_all add: node_lib_def)
    have "lib_ok E cts cap s1" unfolding r lib_ok_def using ok fids_wf_bind [OF ok(3)] pw Some by blast
    then show ?thesis using new pw Some by (auto simp: r node_held_def node_ctls_def)
  qed
qed

lemma node_same:
  assumes "lib_ok E cts cap (N, F, k)" and "net_wf E cts cap N1" and "tree_view N1 = tree_view N"
  shows "lib_ok E cts cap (N1, F, k) \<and> node_held (N1, F, k) = node_held (N, F, k) \<and> node_ctls (N1, F, k) = node_ctls (N, F, k)"
  using assms fids_wf_same by (auto simp: lib_ok_def node_held_def node_ctls_def)

lemma node_close:
  assumes "lib_ok E cts cap (N, F, k)"
  shows "lib_ok E cts cap (pl_close (node_lib E) f (N, F, k)) \<and>
    node_held (pl_close (node_lib E) f (N, F, k)) = node_held (N, F, k) - {f} \<and>
    node_ctls (pl_close (node_lib E) f (N, F, k)) = node_ctls (N, F, k) - {f}"
proof -
  have ok: "msgq_ok E cts cap" "2 \<le> e_name_cap E" "fids_wf E cts cap (N, F, k)" and w: "net_wf E cts cap N"
    using assms by (auto simp: lib_ok_def fids_wf_def)
  have len: "length (n_convs N) = AETHER_MAX_CONNS" by (rule net_wf_length [OF w])
  define N1 where "N1 = (case F f of None \<Rightarrow> N | Some n \<Rightarrow> anet_clunk E n N)"
  have c: "pl_close (node_lib E) f (N, F, k) = (N1, F(f := None), k)" by (simp add: node_lib_def N1_def)
  have fid: "fid_ok E (n_nodes N) n" if "F g = Some n" for g n using ok(3) that by (auto simp: fids_wf_def)
  have nodes: "slot_built E (n_nodes N1) j = slot_built E (n_nodes N) j" for j
    by (auto simp: N1_def anet_clunk_def split: option.splits)
  have wf: "net_wf E cts cap N1" using w net_wf_clunk [OF ok(1) w fid] by (auto simp: N1_def split: option.splits)
  have slots: "slots_in_use N1 = slots_in_use N - {i. F f = Some (NCtl i)}"
  proof (cases "\<exists>i. F f = Some (NCtl i)")
    case True
    then obtain i where i: "F f = Some (NCtl i)" by blast
    then have "slot_built E (n_nodes N) i" "i \<in> slots_in_use N" using fid [OF i] ok(3) by (auto simp: fids_wf_def)
    then show ?thesis using i by (simp add: N1_def clunk_NCtl free_in_use [OF len])
  next
    case False
    have "anet_clunk E n N = N" if "F f = Some n" for n
      using that False fid [OF that] w
      by (cases n) (auto simp: anet_clunk_def net_wf_def tree_wf_def statics_built_def static_file_def root_dir_def node_zero_def
        slot_built_def slot_dir_def slot_file_def split: option.splits)
    then show ?thesis using False by (auto simp: N1_def split: option.splits)
  qed
  have "g < k \<and> fid_ok E (n_nodes N1) m" if "(F(f := None)) g = Some m" for g m
    using that ok(3) fid_ok_mono [of E "n_nodes N" m "n_nodes N1"] nodes by (auto simp: fids_wf_def split: if_splits)
  moreover have "j \<in> slots_in_use N1 \<longleftrightarrow> (\<exists>g. (F(f := None)) g = Some (NCtl j))" for j
    unfolding slots using ok(3) by (auto simp: fids_wf_def)
  moreover have "(F(f := None)) g = Some (NCtl j) \<Longrightarrow> (F(f := None)) h = Some (NCtl j) \<Longrightarrow> g = h" for g h j
    using ok(3) by (auto simp: fids_wf_def split: if_splits)
  ultimately have "fids_wf E cts cap (N1, F(f := None), k)" unfolding fids_wf_def prod.case using wf by blast
  then show ?thesis unfolding c using ok by (auto simp: lib_ok_def node_held_def node_ctls_def)
qed

interpretation gui_node: conv_lib "node_lib E" "node_world E" "lib_ok E cts cap" node_held node_ctls for E cts cap
proof
  fix s :: "'a node_state"
  obtain N F k where s: "s = (N, F, k)" by (metis prod.exhaust)
  show "node_ctls s \<subseteq> node_held s" by (auto simp: node_ctls_def node_held_def)
  assume ok: "lib_ok E cts cap s"
  have k: "msgq_ok E cts cap" and w: "net_wf E cts cap N" using ok by (auto simp: s lib_ok_def fids_wf_def)
  show "pl_open (node_lib E) clone_file ORDWR s = (r, s1) \<Longrightarrow> lib_ok E cts cap s1 \<and>
      (case r of None \<Rightarrow> node_held s1 = node_held s \<and> node_ctls s1 = node_ctls s
       | Some f \<Rightarrow> f \<notin> node_held s \<and> node_held s1 = insert f (node_held s) \<and> node_ctls s1 = insert f (node_ctls s))" for r s1
    using node_open_clone [of E cts cap N F k r s1] ok unfolding s by blast
  show "gui_file path \<Longrightarrow> pl_open (node_lib E) path m s = (r, s1) \<Longrightarrow> lib_ok E cts cap s1 \<and> node_ctls s1 = node_ctls s \<and>
      (case r of None \<Rightarrow> node_held s1 = node_held s | Some f \<Rightarrow> f \<notin> node_held s \<and> node_held s1 = insert f (node_held s))" for path m r s1
    using node_open_file [of E cts cap N F k path m r s1] ok unfolding s by blast
  show "pl_read (node_lib E) f n s = (rr, s1) \<Longrightarrow> lib_ok E cts cap s1 \<and> node_held s1 = node_held s \<and> node_ctls s1 = node_ctls s" for f n rr s1
  proof -
    assume r: "pl_read (node_lib E) f n s = (rr, s1)"
    have "net_wf E cts cap (snd (anet_read E m 0 n N))" for m by (rule net_wf_read [OF k w])
    then have same: "anet_read E m 0 n N = (x, N1) \<Longrightarrow> lib_ok E cts cap (N1, F, k) \<and> node_held (N1, F, k) = node_held s \<and> node_ctls (N1, F, k) = node_ctls s" for m x N1
      using node_same [OF ok [unfolded s]] anet_read_tree [of E m 0 n N] unfolding s by (metis snd_conv)
    show ?thesis using r same ok unfolding s by (auto simp: node_lib_def split: option.splits prod.splits read_result.splits)
  qed
  show "pl_write (node_lib E) f d s = (ww, s1) \<Longrightarrow> lib_ok E cts cap s1 \<and> node_held s1 = node_held s \<and> node_ctls s1 = node_ctls s" for f d ww s1
  proof -
    assume r: "pl_write (node_lib E) f d s = (ww, s1)"
    have "net_wf E cts cap (snd (anet_write E m d N))" for m by (rule net_wf_write [OF k w])
    then have same: "anet_write E m d N = (x, N1) \<Longrightarrow> lib_ok E cts cap (N1, F, k) \<and> node_held (N1, F, k) = node_held s \<and> node_ctls (N1, F, k) = node_ctls s" for m x N1
      using node_same [OF ok [unfolded s]] anet_write_tree [of E m d N] unfolding s by (metis snd_conv)
    show ?thesis using r same ok unfolding s by (auto simp: node_lib_def split: option.splits prod.splits)
  qed
  show "lib_ok E cts cap (pl_close (node_lib E) f s) \<and> node_held (pl_close (node_lib E) f s) = node_held s - {f} \<and>
      node_ctls (pl_close (node_lib E) f s) = node_ctls s - {f}" for f
    using node_close ok unfolding s by blast
  show "node_world E s s1 \<Longrightarrow> lib_ok E cts cap s1 \<and> node_held s1 = node_held s \<and> node_ctls s1 = node_ctls s" for s1
    using node_same [OF ok [unfolded s]] net_wf_recv_cb [OF k w] recv_cb_tree [of E _ N] unfolding s by (auto simp: node_world_def)
qed

lemma slots_of_ctls:
  assumes "lib_ok E cts cap s"
  shows "slots_in_use (fst s) = {i. \<exists>f \<in> node_ctls s. fst (snd s) f = Some (NCtl i)}"
proof (cases s)
  case (fields N F k)
  then have "\<forall>i. i \<in> slots_in_use N \<longleftrightarrow> (\<exists>f. F f = Some (NCtl i))" using assms by (simp add: lib_ok_def fids_wf_def)
  then show ?thesis unfolding fields node_ctls_def fst_conv snd_conv by blast
qed


subsection \<open>The window and the line program\<close>

definition core_of :: "gui \<Rightarrow> chat" where
  "core_of G = \<lparr>ac_bcast = gu_bcast G, ac_dst = gu_dst G, ac_switching = gu_switching G, ac_out = []\<rparr>"

definition seen :: "gui \<times> 'q node_state \<Rightarrow> chat \<times> 'q net" where
  "seen Gs = (core_of (fst Gs), fst (snd Gs))"

definition quiet :: "chat \<times> 'q net \<Rightarrow> chat \<times> 'q net" where
  "quiet SN = ((fst SN)\<lparr>ac_out := []\<rparr>, snd SN)"

lemma core_add_line [simp]: "core_of (add_line l G) = core_of G"
  by (simp add: core_of_def add_line_def)

lemma node_write_ctl: "F c = Some n \<Longrightarrow> pl_write (node_lib E) c d (N, F, k) = (case anet_write E n d N of (r, N1) \<Rightarrow> (r, N1, F, k))"
  by (simp add: node_lib_def)

lemma connect_as_core:
  assumes "gu_ctl G = Some c" and "F c = Some (NCtl i)"
  shows "map_option seen (gui_connect (node_lib E) d (G, N, F, k)) = Some (quiet (chat_connect E i d (core_of G, N)))"
  using assms by (auto simp: gui_connect_def chat_connect_def Let_def node_write_ctl seen_def quiet_def core_of_def say_def add_line_def
      split: prod.splits sum.splits)

lemma eof_as_core:
  assumes "gu_ctl G = Some c" and "F c = Some (NCtl i)"
  shows "map_option (\<lambda>r. seen (snd r)) (gui_eof (node_lib E) (G, N, F, k)) = Some (quiet (reader_eof E i (core_of G, N)))"
  using assms by (auto simp: gui_eof_def reader_eof_def Let_def node_write_ctl seen_def quiet_def core_of_def say_def
      split: prod.splits)

lemma plain_line: "\<forall>b \<in> set t. b \<notin> {0, nl, cr} \<Longrightarrow> length t \<le> 1023 \<Longrightarrow>
    strip_end (\<lambda>b. b = nl \<or> b = cr) (take 1023 t) = t \<and> cstr t = t"
proof (cases "t = []")
  case True
  then show ?thesis by (simp add: strip_end_def cstr_def)
next
  case False
  assume a: "\<forall>b \<in> set t. b \<notin> {0, nl, cr}" "length t \<le> 1023"
  then have "\<not> (last t = nl \<or> last t = cr)" "0 \<notin> set t" using False last_in_set [OF False] by auto
  then show ?thesis using a(2) False by (simp add: strip_end_id cstr_id)
qed


end
