(* ===== verification/GuiWindowProps.thy ===== *)
theory GuiWindowProps
  imports GuiWindow
begin

text \<open>
  What the window shows. The wrapping of \<open>redraw\<close> is compared with a reference that wraps the whole
  transcript, however long; the ring and the bound on the rows are shown to make no difference, and
  where they do, what is lost.
\<close>

subsection \<open>The ring\<close>

definition transcript :: "byte list list \<Rightarrow> ring" where
  "transcript ls = fold addline ls ring_boot"

lemma transcript_snoc: "transcript (ls @ [l]) = addline l (transcript ls)"
  by (simp add: transcript_def)

lemma transcript_nlines [simp]: "rg_nlines (transcript ls) = length ls"
  by (induction ls rule: rev_induct) (simp_all add: transcript_snoc addline_def, simp add: transcript_def ring_boot_def)

lemma mod_apart:
  assumes "k < n" "n < k + m"
  shows "k mod m \<noteq> n mod (m :: nat)"
proof
  assume "k mod m = n mod m"
  then have "m dvd n - k" using assms mod_eq_dvd_iff_nat [of k n m] by simp
  then have "m \<le> n - k" using assms by (intro dvd_imp_le) auto
  then show False using assms by simp
qed

lemma ring_line_transcript: "k < length ls \<Longrightarrow> length ls \<le> k + MAXLINES \<Longrightarrow> ring_line (transcript ls) k = ls ! k"
proof (induction ls rule: rev_induct)
  case (snoc l ls)
  show ?case
  proof (cases "k = length ls")
    case True
    then show ?thesis by (simp add: transcript_snoc addline_def ring_line_def)
  next
    case False
    then have "k < length ls" "k mod MAXLINES \<noteq> length ls mod MAXLINES"
      using snoc.prems mod_apart [of k "length ls" MAXLINES] by auto
    then show ?thesis using snoc by (simp add: transcript_snoc addline_def ring_line_def nth_append)
  qed
qed simp

lemma ring_lines_transcript:
  assumes "length ls \<le> m + MAXLINES"
  shows "map (ring_line (transcript ls)) [m..<length ls] = drop m ls"
  using assms by (intro nth_equalityI) (auto simp: ring_line_transcript)

subsection \<open>Wrapping\<close>

text \<open>The rows of a line when there is no bound on them.\<close>

function wrap :: "string_width \<Rightarrow> int \<Rightarrow> byte list \<Rightarrow> byte list list" where
  "wrap W avail s =
     (let fit = min (fitchars W s avail) (length s) in
      take fit s # (if drop fit s = [] then [] else wrap W avail (drop fit s)))"
  by auto
termination
  by (relation "measure (\<lambda>(W, avail, s). length s)")
    (auto simp: not_le dest: fitchars_pos [of _ W avail for W avail] intro!: diff_less,
     metis fitchars_pos length_greater_0_conv less_nat_zero_code list.size(3))

declare wrap.simps [simp del]

definition wrapped :: "string_width \<Rightarrow> int \<Rightarrow> byte list \<Rightarrow> row list" where
  "wrapped W avail ln = map (\<lambda>t. (t, mine ln)) (wrap W avail ln)"

lemma line_rows_wrap:
  "length rows < MAXROWS \<Longrightarrow> line_rows W avail col s rows = take MAXROWS (rows @ map (\<lambda>t. (t, col)) (wrap W avail s))"
proof (induction W avail col s rows rule: line_rows.induct)
  case (1 W avail col s rows)
  let ?fit = "min (fitchars W s avail) (length s)"
  show ?case
    using 1 by (subst line_rows.simps, subst wrap.simps) (auto simp: Let_def take_Cons')
qed

lemma lines_rows_wrap:
  "length rows \<le> MAXROWS \<Longrightarrow> lines_rows W avail lns rows = take MAXROWS (rows @ concat (map (wrapped W avail) lns))"
proof (induction lns arbitrary: rows)
  case (Cons ln lns)
  show ?case
  proof (cases "length rows < MAXROWS")
    case True
    let ?r = "take MAXROWS (rows @ wrapped W avail ln)"
    have "lines_rows W avail (ln # lns) rows = lines_rows W avail lns ?r"
      using True by (simp add: line_rows_wrap wrapped_def)
    also have "\<dots> = take MAXROWS (?r @ concat (map (wrapped W avail) lns))"
      by (rule Cons.IH) simp
    finally show ?thesis by (simp add: min_def)
  qed (use Cons.prems in simp)
qed simp

lemma fit_loop_fits:
  "W tmp \<le> w \<or> length tmp \<le> 1 \<Longrightarrow> length tmp \<le> LINEMAX - 1 \<Longrightarrow>
    fit_loop W w tmp s \<le> LINEMAX - 1 \<and>
    (W (take (fit_loop W w tmp s) (tmp @ s)) \<le> w \<or> fit_loop W w tmp s \<le> 1)"
proof (induction W w tmp s rule: fit_loop.induct)
  case (2 W w tmp b s)
  then show ?case by (auto simp: Suc_le_eq)
qed auto

lemma wrap_ok: "concat (wrap W avail s) = s \<and>
    (\<forall>t \<in> set (wrap W avail s). (W t \<le> avail \<or> length t \<le> 1) \<and> length t \<le> LINEMAX - 1 \<and> (t = [] \<longrightarrow> s = []))"
proof (induction W avail s rule: wrap.induct)
  case (1 W avail s)
  let ?fit = "min (fitchars W s avail) (length s)"
  have "fitchars W s avail \<le> LINEMAX - 1 \<and> (W (take (fitchars W s avail) s) \<le> avail \<or> fitchars W s avail \<le> 1)"
    using fit_loop_fits [of W "[]" avail s] by (simp add: fitchars_def)
  then have h: "(W (take ?fit s) \<le> avail \<or> length (take ?fit s) \<le> 1) \<and> length (take ?fit s) \<le> LINEMAX - 1 \<and> (take ?fit s = [] \<longrightarrow> s = [])"
    using fitchars_pos [of s W avail] by (auto simp: min_def)
  show ?case
  proof (cases "drop ?fit s = []")
    case True
    then have "take ?fit s = s" by simp
    moreover from True have "wrap W avail s = [s]" by (subst wrap.simps) simp
    ultimately have "take ?fit s = s" "wrap W avail s = [s]" by blast+
    then show ?thesis using h by simp
  next
    case False
    note i = conjunct1 [OF 1 [OF refl False]] conjunct2 [OF 1 [OF refl False]]
    have w: "wrap W avail s = take ?fit s # wrap W avail (drop ?fit s)" by (subst wrap.simps) (simp only: Let_def False if_False)
    have "s \<noteq> []" using False by auto
    have "concat (wrap W avail s) = s" unfolding w by (simp only: concat.simps i(1) append_take_drop_id)
    moreover have "\<forall>t \<in> set (wrap W avail s). (W t \<le> avail \<or> length t \<le> 1) \<and> length t \<le> LINEMAX - 1 \<and> (t = [] \<longrightarrow> s = [])"
      unfolding w list.set ball_simps(7) using h i(2) False by blast
    ultimately show ?thesis by blast
  qed
qed

lemma wrapped_nonempty: "1 \<le> length (wrapped W avail ln)"
  by (subst wrapped_def, subst wrap.simps) (simp add: Let_def)

lemma rows_of_lines: "length lns \<le> length (concat (map (wrapped W avail) lns))"
proof (induction lns)
  case (Cons l lns)
  then show ?case using wrapped_nonempty [of W avail l] by simp
qed simp

lemma wrapped_rows: "r \<in> set (wrapped W avail ln) \<Longrightarrow> length (fst r) \<le> LINEMAX - 1 \<and> (W (fst r) \<le> avail \<or> length (fst r) \<le> 1)"
  using wrap_ok [of W avail ln] by (auto simp: wrapped_def)

lemma rows_fit: "r \<in> set (concat (map (wrapped W avail) ls)) \<Longrightarrow>
    length (fst r) \<le> LINEMAX - 1 \<and> (W (fst r) \<le> avail \<or> length (fst r) \<le> 1)"
  unfolding set_concat set_map using wrapped_rows by blast

lemma last_of_append: "k \<le> length ys \<Longrightarrow> drop (length (xs @ ys) - k) (xs @ ys) = drop (length ys - k) ys"
  by simp

lemma concat_split: "concat (map f ls) = concat (map f (take m ls)) @ concat (map f (drop m ls))"
  by (metis append_take_drop_id concat_append map_append)

lemma last_rows:
  "drop (length (concat (map (wrapped W avail) ls)) - k) (concat (map (wrapped W avail) ls)) =
   (let rows = concat (map (wrapped W avail) (drop (length ls - k) ls)) in drop (length rows - k) rows)"
proof (cases "length ls \<le> k")
  case False
  then have "k \<le> length (concat (map (wrapped W avail) (drop (length ls - k) ls)))"
    using rows_of_lines [of "drop (length ls - k) ls" W avail] by simp
  from last_of_append [OF this, of "concat (map (wrapped W avail) (take (length ls - k) ls))"]
  show ?thesis by (simp only: Let_def concat_split [symmetric])
qed (simp add: Let_def)

lemma cut_rows_id: "\<forall>r \<in> set rows. length (fst r) \<le> LINEMAX - 1 \<Longrightarrow> map (\<lambda>(s, col). (take (LINEMAX - 1) s, col)) rows = rows"
  by (induction rows) auto

lemma window_rows_eq:
  assumes "Dy (ar_trans A) sdiv height = int k" and "k \<le> MAXLINES"
  shows "window_rows W height (transcript ls) A =
    (let rows = take MAXROWS (concat (map (wrapped W (max height (Dx (ar_trans A) - 6))) (drop (length ls - k) ls))) in
     drop (length rows - k) rows)"
proof -
  let ?avail = "max height (Dx (ar_trans A) - 6)"
  let ?rows = "take MAXROWS (concat (map (wrapped W ?avail) (drop (length ls - k) ls)))"
  have a: "(if Dx (ar_trans A) - 6 < height then height else Dx (ar_trans A) - 6) = ?avail" by auto
  have f: "nat (if int k < int (length ls) then int (length ls) - int k else 0) = length ls - k" by auto
  have s: "nat (if int k < int m then int m - int k else 0) = m - k" for m by auto
  have l: "lines_rows W ?avail (map (ring_line (transcript ls)) [length ls - k..<length ls]) [] = ?rows"
    using assms(2) by (simp add: ring_lines_transcript lines_rows_wrap)
  have "\<forall>r \<in> set (drop (length ?rows - k) ?rows). length (fst r) \<le> LINEMAX - 1"
    using rows_fit by (blast dest!: in_set_dropD in_set_takeD)
  from cut_rows_id [OF this] show ?thesis
    unfolding window_rows_def Let_def a assms(1) transcript_nlines f l s .
qed

text \<open>
  C23. The transcript shows the end of the conversation. Of all lines ever added, wrapped to the width
  of the window without bounds, it draws the last rows that fit, although it keeps 400 lines only
  and wraps no more lines than there are rows. Every row fits the width or is a single byte. This
  holds while the lines looked at make no more than 512 rows; beyond that the rows are counted from
  the oldest of these lines, and the newest are not drawn.
\<close>

theorem window_shows_newest:
  assumes "Dy (ar_trans A) sdiv height = int k" and "k \<le> MAXLINES"
    and "avail = max height (Dx (ar_trans A) - 6)"
    and "all = concat (map (wrapped W avail) ls)" and "rows = concat (map (wrapped W avail) (drop (length ls - k) ls))"
  shows "(length rows \<le> 512 \<longrightarrow> window_rows W height (transcript ls) A = drop (length all - k) all) \<and>
    (512 < length rows \<longrightarrow> window_rows W height (transcript ls) A = take k (drop (512 - k) rows)) \<and>
    (\<forall>r \<in> set (window_rows W height (transcript ls) A). W (fst r) \<le> avail \<or> length (fst r) \<le> 1)"
proof -
  have w: "window_rows W height (transcript ls) A =
      (let rs = take MAXROWS rows in drop (length rs - k) rs)"
    using window_rows_eq [OF assms(1,2)] assms(3,5) by simp
  have "\<forall>r \<in> set (window_rows W height (transcript ls) A). W (fst r) \<le> avail \<or> length (fst r) \<le> 1"
    unfolding w Let_def assms(5) using rows_fit by (blast dest!: in_set_dropD in_set_takeD)
  moreover have "window_rows W height (transcript ls) A = drop (length all - k) all" if "length rows \<le> 512"
    using that unfolding w assms(4) last_rows by (simp add: assms(5) MAXROWS_def)
  moreover have "window_rows W height (transcript ls) A = take k (drop (512 - k) rows)" if "512 < length rows"
    using that assms(2) unfolding w by (simp add: MAXROWS_def drop_take)
  ultimately show ?thesis by blast
qed

subsection \<open>The panel\<close>

lemma cut_to_prefix: "\<exists>n. cut_to W avail s = take n s \<and> (cut_to W avail s = [] \<or> W (cut_to W avail s) \<le> avail)"
proof (induction W avail s rule: cut_to.induct)
  case (1 W avail s)
  show ?case
  proof (cases "s \<noteq> [] \<and> avail < W s")
    case True
    then obtain n where "cut_to W avail (butlast s) = take n (butlast s)"
      "cut_to W avail (butlast s) = [] \<or> W (cut_to W avail (butlast s)) \<le> avail" using 1 by blast
    moreover have "take n (butlast s) = take (min n (length s - 1)) s" by (simp add: butlast_conv_take)
    ultimately show ?thesis using True by (subst (1 2 3) cut_to.simps) (simp, metis)
  next
    case False
    then show ?thesis by (subst (1 2 3) cut_to.simps) (auto intro: exI [of _ "length s"])
  qed
qed

end
