(* ===== verification/GuiPanel.thy ===== *)
theory GuiPanel
  imports GuiWindow MeshShellProps NodeProps
begin

text \<open>
  The tables of the diagnostic panel. \<open>tabulate\<close> expects the entries of a table separated by spaces;
  the node ends each with a newline, which is not a separator there. What the panel shows of the
  node's files is given by \<open>panel\<close>.
\<close>

subsection \<open>Words\<close>

definition plain_word :: "byte list \<Rightarrow> bool" where
  "plain_word w \<longleftrightarrow> w \<noteq> [] \<and> space \<notin> set w \<and> nl \<notin> set w \<and> cr \<notin> set w \<and> 0 \<notin> set w"

lemma split_words_word: "space \<notin> set w \<Longrightarrow> split_words space v (w @ s) = split_words space (v @ w) s"
  by (induction w arbitrary: v) auto

lemma split_words_unwords:
  "\<forall>w \<in> set ws. w \<noteq> [] \<and> space \<notin> set w \<Longrightarrow> split_words space [] (unwords ws) = ws"
proof (induction ws rule: unwords.induct)
  case (2 w)
  then show ?case using split_words_word [of w "[]" "[]"] by simp
next
  case (3 w v ws)
  then show ?case by (simp add: split_words_word)
qed simp

lemma unwords_append: "xs \<noteq> [] \<Longrightarrow> ys \<noteq> [] \<Longrightarrow> unwords (xs @ ys) = unwords xs @ space # unwords ys"
  by (cases xs; cases ys) (simp_all add: unwords_Cons)

lemma length_unwords: "ws \<noteq> [] \<Longrightarrow> length (unwords ws) = sum_list (map length ws) + length ws - 1"
  by (cases ws) (simp_all add: unwords_Cons length_concat comp_def sum_list_Suc)

subsection \<open>\<open>tabulate\<close> without bounds\<close>

fun tabs :: "byte list \<Rightarrow> byte list list \<Rightarrow> byte list" where
  "tabs mark [] = []"
| "tabs mark (t # ts) = (if ts \<noteq> [] \<and> hd ts = mark then nl else space) # t @ tabs mark ts"

lemma length_tabs: "length (tabs mark ts) = sum_list (map length ts) + length ts"
  by (induction ts) auto

lemma tab_loop_tabs:
  "out \<noteq> [] \<Longrightarrow> length out + length (tabs mark ts) < dsz \<Longrightarrow> tab_loop dsz mark ts out = out @ tabs mark ts"
  by (induction ts arbitrary: out) (auto simp: snprintf_out_def)

lemma tab_loop_all:
  assumes "t \<noteq> []" and "length t + length (tabs mark ts) < dsz"
  shows "tab_loop dsz mark (t # ts) [] = t @ tabs mark ts"
proof -
  have "1 < dsz" using assms by (cases t) auto
  then show ?thesis using assms tab_loop_tabs [of t mark ts dsz] by (simp add: snprintf_out_def)
qed

lemma tabs_plain:
  "mark \<notin> set (tl (ws @ [t])) \<Longrightarrow> tabs mark (ws @ t # ts) = concat (map (\<lambda>w. space # w) ws) @ tabs mark (t # ts)"
proof (induction ws)
  case (Cons w ws)
  have "hd (ws @ t # ts) \<noteq> mark" using Cons.prems by (cases ws) auto
  moreover have "mark \<notin> set (tl (ws @ [t]))" using Cons.prems by (cases ws) auto
  ultimately show ?case using Cons.IH by simp
qed simp

lemma tabs_last: "mark \<notin> set (tl ws) \<Longrightarrow> tabs mark ws = concat (map (\<lambda>w. space # w) ws)"
proof (induction ws)
  case (Cons w ws)
  then show ?case by (cases ws) auto
qed simp

subsection \<open>Entries that end with a newline\<close>

text \<open>The words that \<open>strtok\<close> finds: the last of an entry and the first of the next are one.\<close>

fun fuse :: "byte list list list \<Rightarrow> byte list list" where
  "fuse [] = []"
| "fuse [e] = e"
| "fuse (e # f # es) = butlast e @ (last e @ nl # hd (fuse (f # es))) # tl (fuse (f # es))"

text \<open>What the panel shows: the last word of an entry, the last entry apart, has a line of its own.\<close>

fun panel :: "byte list list list \<Rightarrow> byte list" where
  "panel [] = []"
| "panel [e] = unwords e"
| "panel (e # f # es) = unwords (butlast e) @ [nl] @ last e @ [nl] @ panel (f # es)"

definition entry_ok :: "byte list \<Rightarrow> byte list list \<Rightarrow> bool" where
  "entry_ok mark e \<longleftrightarrow> 3 \<le> length e \<and> e ! 1 = mark \<and> mark \<notin> set (drop 2 e) \<and> (\<forall>w \<in> set e. plain_word w)"

lemma entry_shape: "entry_ok mark e \<Longrightarrow> \<exists>a r. e = a # mark # r \<and> r \<noteq> [] \<and> mark \<notin> set r \<and> a \<noteq> []"
  by (cases e; cases "tl e") (auto simp: entry_ok_def plain_word_def)

lemma fuse_Cons: "entry_ok mark e \<Longrightarrow> fuse (e # es) = hd e # tl (fuse (e # es)) \<and>
    tl (fuse (e # es)) \<noteq> [] \<and> hd (tl (fuse (e # es))) = mark"
  by (drule entry_shape, cases es) auto

lemma fuse_text:
  "\<forall>e \<in> set es. entry_ok mark e \<Longrightarrow> es \<noteq> [] \<Longrightarrow> unwords (fuse es) @ [nl] = concat (map (\<lambda>e. unwords e @ [nl]) es)"
proof (induction es rule: fuse.induct)
  case (3 e f es)
  obtain a r where e: "e = a # mark # r" "r \<noteq> []" using entry_shape [of mark e] 3 by auto
  have ih: "unwords (fuse (f # es)) @ [nl] = concat (map (\<lambda>e. unwords e @ [nl]) (f # es))" using 3 by simp
  have f: "fuse (f # es) = hd f # tl (fuse (f # es))" using fuse_Cons [of mark f es] 3 by simp
  have "unwords ((last e @ nl # hd f) # tl (fuse (f # es))) = last e @ nl # unwords (hd f # tl (fuse (f # es)))"
    unfolding unwords_Cons by simp
  moreover have "unwords e = unwords (butlast e) @ space # last e"
    using unwords_append [of "butlast e" "[last e]"] e by simp
  moreover have "butlast e \<noteq> []" using e by simp
  moreover have "hd (fuse (f # es)) = hd f" by (subst f) simp
  ultimately have "unwords (fuse (e # f # es)) @ [nl] = unwords e @ nl # unwords (fuse (f # es)) @ [nl]"
    using f by (simp add: unwords_append)
  then show ?case using ih by simp
qed auto

lemma tabs_fuse:
  "\<forall>e \<in> set es. entry_ok mark e \<Longrightarrow> entry_ok mark e0 \<Longrightarrow> nl \<notin> set mark \<Longrightarrow>
     hd e0 @ tabs mark (tl (fuse (e0 # es))) = panel (e0 # es)"
proof (induction es arbitrary: e0)
  case Nil
  obtain a r where e: "e0 = a # mark # r" "mark \<notin> set r" using entry_shape [OF Nil(2)] by blast
  then show ?case using tabs_last [of mark "mark # r"] by (simp add: unwords_Cons)
next
  case (Cons f es)
  obtain a r where e: "e0 = a # mark # r" "r \<noteq> []" "mark \<notin> set r" using entry_shape [OF Cons.prems(2)] by blast
  have fm: "entry_ok mark f" using Cons.prems by simp
  note fc = fuse_Cons [OF fm, of es]
  have hf: "hd (fuse (f # es)) = hd f" using fc by (metis list.sel(1))
  let ?X = "last r @ nl # hd f"
  have x: "?X \<noteq> mark" using Cons.prems(3) by auto
  have "mark \<notin> set (tl ((mark # butlast r) @ [?X]))" using e(3) x by (auto dest: in_set_butlastD)
  then have "tabs mark ((mark # butlast r) @ ?X # tl (fuse (f # es)))
      = concat (map (\<lambda>w. space # w) (mark # butlast r)) @ tabs mark (?X # tl (fuse (f # es)))"
    by (rule tabs_plain)
  moreover have "tabs mark (?X # tl (fuse (f # es))) = nl # last r @ nl # panel (f # es)"
    using fc Cons.IH [of f] Cons.prems by simp
  moreover have "tl (fuse (e0 # f # es)) = (mark # butlast r) @ ?X # tl (fuse (f # es))"
    using e hf by simp
  moreover have "unwords (butlast e0) = a @ concat (map (\<lambda>w. space # w) (mark # butlast r))"
    using e by (simp add: unwords_Cons)
  ultimately show ?case using e by simp
qed

lemma fuse_words: "\<forall>e \<in> set es. entry_ok mark e \<Longrightarrow> \<forall>w \<in> set (fuse es). w \<noteq> [] \<and> space \<notin> set w"
proof (induction es rule: fuse.induct)
  case (2 e)
  then show ?case by (auto simp: entry_ok_def plain_word_def)
next
  case (3 e f es)
  let ?F = "fuse (f # es)"
  have F: "\<forall>w \<in> set ?F. w \<noteq> [] \<and> space \<notin> set w" using 3 by simp
  have "entry_ok mark f" using 3 by simp
  then have "?F \<noteq> []" using fuse_Cons [of mark f es] by force
  then have h: "hd ?F \<in> set ?F" by simp
  have t: "set (tl ?F) \<subseteq> set ?F" by (cases ?F) auto
  have entry: "entry_ok mark e" using "3.prems" by simp
  have e: "\<forall>w \<in> set e. w \<noteq> [] \<and> space \<notin> set w" "e \<noteq> []" using entry by (auto simp: entry_ok_def plain_word_def)
  have "\<forall>w \<in> set (butlast e). w \<noteq> [] \<and> space \<notin> set w" using e(1) by (blast dest: in_set_butlastD)
  moreover have "space \<notin> set (last e @ nl # hd ?F)" using e bspec [OF F h] last_in_set [OF e(2)] by auto
  moreover have "\<forall>w \<in> set (tl ?F). w \<noteq> [] \<and> space \<notin> set w" using F t by blast
  ultimately show ?case by (simp add: ball_Un)
qed simp

lemma length_fuse: "\<forall>e \<in> set es. length e = m \<Longrightarrow> 0 < m \<Longrightarrow> length (fuse es) \<le> m * length es"
  by (induction es rule: fuse.induct) auto

lemma tabulate_entries:
  assumes ok: "\<forall>e \<in> set es. entry_ok mark e" "nl \<notin> set mark" and es: "es \<noteq> []"
    and fit: "length (concat (map (\<lambda>e. unwords e @ [nl]) es)) \<le> min 1399 dsz" "length (fuse es) \<le> 192"
    and src: "src = butlast (concat (map (\<lambda>e. unwords e @ [nl]) es))" "cstr src = src"
  shows "tabulate_text dsz src mark = panel es"
proof -
  obtain e es' where e: "es = e # es'" using es by (cases es) auto
  have t: "src = unwords (fuse es)" unfolding src(1) fuse_text [OF ok(1) es, symmetric] by simp
  have l: "length (unwords (fuse es)) + 1 \<le> min 1399 dsz" using fit(1) unfolding fuse_text [OF ok(1) es, symmetric] by simp
  have c: "fuse es = hd e # tl (fuse es)" using fuse_Cons [of mark e es'] ok e by simp
  have ne: "hd e \<noteq> []" using ok e entry_shape [of mark e] by auto
  have "split_words space [] (take 1399 (cstr src)) = fuse es"
    unfolding src(2) using l split_words_unwords [OF fuse_words [OF ok(1)]] by (simp add: t)
  then have "tabulate_text dsz src mark = tab_loop dsz mark (hd e # tl (fuse es)) []"
    using fit(2) c by (simp add: tabulate_text_def)
  also have "\<dots> = hd e @ tabs mark (tl (fuse es))"
  proof (rule tab_loop_all [OF ne])
    have "length (unwords (fuse es)) = length (hd e) + length (tabs mark (tl (fuse es)))"
      by (subst c) (simp add: unwords_Cons length_tabs length_concat comp_def sum_list_Suc)
    then show "length (hd e) + length (tabs mark (tl (fuse es))) < dsz" using l by simp
  qed
  also have "\<dots> = panel es" unfolding e using tabs_fuse [of es' mark e] ok e by simp
  finally show ?thesis .
qed

subsection \<open>The node's files\<close>

definition neighbor_words :: "u32 \<Rightarrow> neighbor \<Rightarrow> byte list list" where
  "neighbor_words now nb =
     [last2 (nb_addr nb), ascii ''identity'', fmt_addr (nb_eui nb), ascii ''rssi'', dec_int (nb_rssi nb),
      ascii ''snr'', dec_int (nb_snr nb), ascii ''age'', dec_nat (unat (now - nb_last_seen nb) div 1000) @ ascii ''s'']"

definition route_words :: "mroute \<Rightarrow> byte list list" where
  "route_words r = [last2 (mr_dest r), ascii ''via'', last2 (mr_next_hop r), ascii ''hops'', dec_nat (mr_hops r)]"

lemma file_lines:
  "neighbor_line now nb = unwords (neighbor_words now nb) @ [nl]" "route_line r = unwords (route_words r) @ [nl]"
  by (simp_all add: neighbor_line_def neighbor_words_def route_line_def route_words_def ascii_def)

lemma plain_last2: "plain_word (last2 a)"
  by (cases a) (auto simp: last2_def plain_word_def fmt_02x_no_nul)

lemma plain_dec_nat: "plain_word (dec_nat n)"
  using set_dec_nat [of n] by (auto simp: plain_word_def)

lemma plain_dec_int: "plain_word (dec_int n)"
  using plain_dec_nat by (auto simp: dec_int_def plain_word_def)

lemma digits_not_letter: "105 \<notin> set (dec_nat n)" "118 \<notin> set (dec_nat n)" "105 \<notin> set (dec_int k)"
  using set_dec_nat [of n] set_dec_nat [of "nat (- k)"] set_dec_nat [of "nat k"] by (auto simp: dec_int_def)

lemma not_mark: "105 \<notin> set w \<Longrightarrow> w \<noteq> ascii ''identity''" "118 \<notin> set w \<Longrightarrow> w \<noteq> ascii ''via''"
  by (auto simp: ascii_def)

lemma words_ok: "entry_ok (ascii ''identity'') (neighbor_words now nb)" "entry_ok (ascii ''via'') (route_words r)"
proof -
  have f: "plain_word (fmt_addr a)" "fmt_addr a \<noteq> ascii ''identity''" for a
    using fmt_addr_chars [of a] length_fmt_addr [of a] by (auto simp: plain_word_def ascii_def simp del: length_fmt_addr)
  have l: "last2 a \<noteq> ascii ''via''" for a by (cases a) (simp add: last2_def fmt_02x_def ascii_def)
  have s: "plain_word (dec_nat n @ ascii ''s'')" for n using plain_dec_nat [of n] by (auto simp: plain_word_def ascii_def)
  have c: "plain_word (ascii w)" if "w \<in> {''identity'', ''rssi'', ''snr'', ''age'', ''via'', ''hops''}" for w
    using that by (auto simp: plain_word_def ascii_def)
  have a: "ascii w \<noteq> ascii ''identity'' \<and> ascii w \<noteq> ascii ''via''" if "w \<in> {''rssi'', ''snr'', ''age'', ''hops''}" for w
    using that by (auto simp: ascii_def)
  have d: "dec_nat n @ ascii ''s'' \<noteq> ascii ''identity''" for n
    by (rule not_mark) (auto simp: digits_not_letter ascii_def)
  show "entry_ok (ascii ''identity'') (neighbor_words now nb)"
    using a d not_mark(1) [OF digits_not_letter(3)]
    by (simp add: entry_ok_def neighbor_words_def f s c plain_last2 plain_dec_int not_sym [OF f(2)] not_sym [OF d]
      not_sym [OF not_mark(1) [OF digits_not_letter(3)]] not_sym [OF conjunct1 [OF a]])
  show "entry_ok (ascii ''via'') (route_words r)"
    by (simp add: entry_ok_def route_words_def c plain_last2 plain_dec_nat not_sym [OF l]
      not_sym [OF not_mark(2) [OF digits_not_letter(2)]] not_sym [OF conjunct2 [OF a]])
qed

text \<open>A file of plain entries, as it comes through \<open>readfile\<close>.\<close>

lemma readfile_entries:
  assumes "\<forall>e \<in> set es. entry_ok mark e" and "es \<noteq> []" and "t = concat (map (\<lambda>e. unwords e @ [nl]) es)" and "length t < sz"
  shows "readfile (Some (Inr t)) sz = butlast t" "cstr (butlast t) = butlast t"
proof -
  have w: "\<forall>e \<in> set es. \<forall>w \<in> set e. plain_word w" "\<forall>e \<in> set es. e \<noteq> []" using assms(1) by (auto simp: entry_ok_def)
  have u: "0 \<notin> set (unwords ws)" if "\<forall>w \<in> set ws. plain_word w" for ws
    using that by (induction ws rule: unwords.induct) (auto simp: plain_word_def)
  have n: "0 \<notin> set t" using u w(1) by (auto simp: assms(3))
  obtain es' e where e: "es = es' @ [e]" using assms(2) by (metis rev_exhaust)
  have l: "unwords ws \<noteq> [] \<and> last (unwords ws) \<notin> {nl, cr, space}" if "\<forall>w \<in> set ws. plain_word w" "ws \<noteq> []" for ws
    using that
  proof (induction ws rule: unwords.induct)
    case (2 w)
    then have "last w \<in> set w" "plain_word w" by (auto simp: plain_word_def)
    then show ?case by (metis emptyE insertE plain_word_def unwords.simps(2))
  qed auto
  have b: "butlast t = concat (map (\<lambda>e. unwords e @ [nl]) es') @ unwords e" by (simp add: assms(3) e butlast_append)
  have t: "t = butlast t @ [nl]" by (simp add: b) (simp add: assms(3) e)
  have "butlast t \<noteq> []" "last (butlast t) \<notin> {nl, cr, space}" using l [of e] w e by (auto simp: b)
  then have "strip_end (\<lambda>b. b = nl \<or> b = cr \<or> b = space) (butlast t) = butlast t" by (intro strip_end_id) auto
  then have "strip_end (\<lambda>b. b = nl \<or> b = cr \<or> b = space) t = butlast t" by (subst t) simp
  moreover show c: "cstr (butlast t) = butlast t" using n by (intro cstr_id) (auto dest: in_set_butlastD)
  ultimately show "readfile (Some (Inr t)) sz = butlast t" using assms(4) by (simp add: readfile_def)
qed

lemma file_table:
  assumes ok: "\<forall>e \<in> set es. entry_ok mark e" "nl \<notin> set mark" and t: "t = concat (map (\<lambda>e. unwords e @ [nl]) es)"
    and fit: "length t < 512" "length (fuse es) \<le> 192" and sz: "512 \<le> sz" "512 \<le> dsz"
  shows "tabulate_text dsz (readfile (Some (Inr t)) sz) mark = panel es"
proof (cases "es = []")
  case True
  then show ?thesis by (simp add: t readfile_def strip_end_def cstr_def tabulate_text_def)
next
  case False
  have "length t < sz" using fit sz by simp
  note r = readfile_entries [OF ok(1) False t this]
  have "length (concat (map (\<lambda>e. unwords e @ [nl]) es)) \<le> min 1399 dsz" using fit(1) sz unfolding t by simp
  then show ?thesis unfolding r(1) by (rule tabulate_entries [OF ok False _ fit(2) _ r(2)]) (simp only: t)
qed

lemma nl_marks: "nl \<notin> set (ascii ''identity'')" "nl \<notin> set (ascii ''via'')"
  by (simp_all add: ascii_def)

lemma enough_lines:
  assumes "\<And>x. k \<le> length (f x)" and "length (concat (map f xs)) < 512"
  shows "k * length xs < 512"
proof -
  have "k * length xs \<le> length (concat (map f xs))" using assms(1) by (induction xs) (auto simp: add_le_mono)
  then show ?thesis using assms(2) by simp
qed

text \<open>
  C24. The tables of the panel, for the files as the node writes them. The words come in order, each
  entry begins a line, and nothing is lost while the files fit their 512 bytes; but the node's
  newlines are not separators to \<open>tabulate\<close>: of every entry but the last, the last word (the age of a
  neighbour, the hops of a route) is on a line of its own.
\<close>

theorem panel_tables:
  assumes "length (concat (neighbor_lines now m)) < 512" and "length (concat (route_lines m)) < 512"
  shows "tabulate_text 1600 (readfile (Some (Inr (concat (neighbor_lines now m)))) 1200) (ascii ''identity'')
      = panel (map (neighbor_words now) (filter nb_active (mc_neighbors m))) \<and>
    tabulate_text 800 (readfile (Some (Inr (concat (route_lines m)))) 600) (ascii ''via'')
      = panel (map route_words (filter mr_active (mc_routes m)))"
proof
  let ?ns = "filter nb_active (mc_neighbors m)" and ?rs = "filter mr_active (mc_routes m)"
  have l: "neighbor_line now = (\<lambda>x. unwords (neighbor_words now x) @ [nl])" "route_line = (\<lambda>x. unwords (route_words x) @ [nl])"
    by (auto simp: file_lines)
  have n: "53 * length ?ns < 512" "23 * length ?rs < 512"
    using enough_lines [OF neighbor_line_length] enough_lines [OF route_line_length] assms
    by (simp_all only: neighbor_lines_def route_lines_def)
  show "tabulate_text 1600 (readfile (Some (Inr (concat (neighbor_lines now m)))) 1200) (ascii ''identity'') = panel (map (neighbor_words now) ?ns)"
  proof (rule file_table [OF _ _ _ assms(1)])
    show "concat (neighbor_lines now m) = concat (map (\<lambda>e. unwords e @ [nl]) (map (neighbor_words now) ?ns))"
      by (simp add: neighbor_lines_def l comp_def)
    show "length (fuse (map (neighbor_words now) ?ns)) \<le> 192"
      using length_fuse [of "map (neighbor_words now) ?ns" 9] n(1) by (simp add: neighbor_words_def)
  qed (simp_all add: words_ok nl_marks)
  show "tabulate_text 800 (readfile (Some (Inr (concat (route_lines m)))) 600) (ascii ''via'') = panel (map route_words ?rs)"
  proof (rule file_table [OF _ _ _ assms(2)])
    show "concat (route_lines m) = concat (map (\<lambda>e. unwords e @ [nl]) (map route_words ?rs))"
      by (simp add: route_lines_def l comp_def)
    show "length (fuse (map route_words ?rs)) \<le> 192"
      using length_fuse [of "map route_words ?rs" 5] n(2) by (simp add: route_words_def)
  qed (simp_all add: words_ok nl_marks)
qed

end
