(* ===== verification/GuiWitness.thy ===== *)
theory GuiWitness
  imports GuiNode GuiWindowProps GuiPanel Demo NodeWitness
begin

text \<open>Concrete windows, panels and runs at which the properties of the windowed chat apply.\<close>

subsection \<open>The window\<close>

text \<open>A font of 8 by 16, a window of eight rows, and one that is narrower than a character.\<close>

definition demo_width :: string_width where
  "demo_width s = 8 * int (length s)"

definition demo_areas :: "int \<Rightarrow> areas" where
  "demo_areas w = \<lparr>ar_trans = Rect 0 0 w 32, ar_input = Rect 0 32 w 54, ar_diag = Rect 0 0 0 0\<rparr>"

lemma wrap_narrow: "s \<noteq> [] \<Longrightarrow> wrap (\<lambda>s. 20 * int (length s)) 16 s = map (\<lambda>b. [b]) s"
proof (induction s)
  case (Cons b s)
  then show ?case by (subst wrap.simps) (auto simp: fitchars_def)
qed simp

theorem window_shows_newest_witness:
  "window_rows demo_width 16 (transcript [ascii ''[me] hi'', ascii ''hello world'']) (demo_areas 46)
     = [(ascii '' worl'', False), (ascii ''d'', False)] \<and>
   window_rows (\<lambda>s. 20 * int (length s)) 16 (transcript [replicate 600 97, [98]]) (demo_areas 22) = [([97], False), ([97], False)]"
proof
  let ?ls = "[ascii ''[me] hi'', ascii ''hello world'']"
  have "concat (map (wrapped demo_width 40) ?ls) = [(ascii ''[me] '', True), (ascii ''hi'', True),
      (ascii ''hello'', False), (ascii '' worl'', False), (ascii ''d'', False)]"
    by code_simp
  then show "window_rows demo_width 16 (transcript ?ls) (demo_areas 46) = [(ascii '' worl'', False), (ascii ''d'', False)]"
    using window_shows_newest [of "demo_areas 46" 16 2 40 _ demo_width ?ls, OF _ _ _ refl refl]
    by (simp add: demo_areas_def Rect_def)
  let ?W = "\<lambda>s :: byte list. 20 * int (length s)" and ?m = "[replicate 600 97, [98]] :: byte list list"
  have m: "mine (replicate 600 97) = False" "mine [98] = False" by (simp_all add: mine_def is_prefix_def ascii_def)
  have rows: "wrapped ?W 16 (replicate 600 97) = replicate 600 ([97], False)" "wrapped ?W 16 [98] = [([98], False)]"
    unfolding wrapped_def m using wrap_narrow [of "replicate 600 97"] wrap_narrow [of "[98]"] by simp_all
  have "take 2 (drop 510 (replicate 600 ([97 :: byte], False) @ [([98], False)])) = [([97], False), ([97], False)]"
    by (simp add: numeral_2_eq_2)
  then have two: "replicate 2 ([97 :: byte], False) = [([97], False), ([97], False)]" by simp
  show "window_rows ?W 16 (transcript ?m) (demo_areas 22) = [([97], False), ([97], False)]"
    using window_shows_newest [of "demo_areas 22" 16 2 16 _ ?W ?m, OF _ _ _ refl refl]
    by (simp add: demo_areas_def Rect_def rows two)
qed

subsection \<open>The panel\<close>

theorem panel_tables_witness:
  "tabulate_text 1600 (readfile (Some (Inr (concat (neighbor_lines 9000 (demo_mesh\<lparr>mc_neighbors := [demo_neighbor, demo_neighbor]\<rparr>))))) 1200)
      (ascii ''identity'')
    = ascii ''12:34 identity 0a:1b:2c:3d:4e:5f rssi -60 snr 12 age'' @ [nl] @ ascii ''8s'' @ [nl]
      @ ascii ''12:34 identity 0a:1b:2c:3d:4e:5f rssi -60 snr 12 age 8s''"
proof -
  let ?m = "demo_mesh\<lparr>mc_neighbors := [demo_neighbor, demo_neighbor]\<rparr>"
  have "length (concat (neighbor_lines 9000 ?m)) < 512" "length (concat (route_lines ?m)) < 512" by code_simp+
  note p = conjunct1 [OF panel_tables [OF this]]
  have "panel (map (neighbor_words 9000) (filter nb_active (mc_neighbors ?m))) =
      ascii ''12:34 identity 0a:1b:2c:3d:4e:5f rssi -60 snr 12 age'' @ [nl] @ ascii ''8s'' @ [nl]
      @ ascii ''12:34 identity 0a:1b:2c:3d:4e:5f rssi -60 snr 12 age 8s''" by code_simp
  then show ?thesis using p by simp
qed

subsection \<open>A library that has forgotten the conversation\<close>

text \<open>Every call fails.\<close>

definition dead_lib :: "unit p9lib" where
  "dead_lib = \<lparr>pl_open = (\<lambda>_ _ s. (None, s)), pl_read = (\<lambda>_ _ s. (Inl EIO, s)), pl_write = (\<lambda>_ _ s. (Inl EIO, s)),
     pl_close = (\<lambda>_ s. s), pl_ready = (\<lambda>_ _. True), pl_error = (\<lambda>_. ascii ''eof'')\<rparr>"

definition demo_gui :: gui where
  "demo_gui = gui_boot\<lparr>gu_ctl := Some 0, gu_dataR := Some 1, gu_dataW := Some 2, gu_dst := bcast_text, gu_bcast := True\<rparr>"

theorem crash_only_after_failed_recovery_witness:
  "\<exists>G1. gui_step dead_lib (\<lambda>_ _. False) (Running GReconv demo_gui ()) (Running GRead G1 ()) \<and>
     reader_read dead_lib 0 (G1, ()) = None"
proof -
  let ?G1 = "demo_gui\<lparr>gu_ctl := None, gu_dataR := None, gu_dataW := None\<rparr>"
  have "reader_reconv dead_lib (demo_gui, ()) = (GRead, ?G1, ())"
    by (simp add: reader_reconv_def reconv_def open_conv_def dead_lib_def close_fid_def demo_gui_def)
  then have s: "gui_step dead_lib (\<lambda>_ _. False) (Running GReconv demo_gui ()) (Running GRead ?G1 ())" by (rule gui_step.reconvs)
  moreover have "whole demo_gui" "\<not> whole ?G1" by (simp_all add: whole_def demo_gui_def)
  ultimately have "\<forall>ms. reader_read dead_lib ms (?G1, ()) = None \<or>
      gu_dataW ?G1 = None \<and> (\<forall>msg. msg \<noteq> [] \<longrightarrow> hd msg \<noteq> 47 \<longrightarrow> sendline dead_lib (?G1\<lparr>gu_input := msg\<rparr>, ()) = None)"
    using crash_only_after_failed_recovery [of dead_lib _ GReconv demo_gui "()"] by blast
  then show ?thesis using s by (auto simp: reader_read_def intro!: exI [of _ ?G1])
qed

theorem typed_message_sent_witness:
  "keys dead_lib [104, 105, 13] (demo_gui\<lparr>gu_nick := ascii ''bo''\<rparr>, ()) =
    Some (True, demo_gui\<lparr>gu_nick := ascii ''bo'', gu_ring := addline (ascii ''[send failed -- reconnecting]'') ring_boot\<rparr>, ())"
  using typed_message_sent [of "[104, 105]" "demo_gui\<lparr>gu_nick := ascii ''bo''\<rparr>" 2 "[104, 105]" dead_lib "()"]
  by (simp add: printing_def demo_gui_def gui_boot_def dead_lib_def ascii_def)

subsection \<open>Runs on the node\<close>

abbreviation demo_run :: "(bool \<times> gui \<times> (nat \<times> dgram list) node_state) option" where
  "demo_run \<equiv> gui_start (node_lib demo_env) [ascii ''/dev/cu.usbmodem1203''] None (\<lambda>_. Some (demo_start, Map.empty, 0))"



end
