(* ===== verification/Spec2Isabelle.thy ===== *)
theory Spec2Isabelle
  imports Witness NodeWitness RelayWitness ForwardWitness BootWitness HostWitness HostConvWitness
    ForwardTunnelProps ForwardMainProps P9do Led GuiWitness
begin

text \<open>
  A verification development for the firmware of the DECT NR+ mesh (\<open>dect_mesh\<close>, on the nRF9151),
  its relay (\<open>dect_relay\<close>, on the nRF5340) and the host programs that talk to them (\<open>tools\<close>): the
  forwarder of telemetry, the verifier of identities, the client that pushes images.

  \<^bold>\<open>The program.\<close> A node of the mesh serves a 9P file tree. \<open>/net/aether\<close> is its datagram service:
  walking \<open>clone\<close> opens one of four conversations, writing \<open>connect\<close>, \<open>announce\<close> or \<open>hangup\<close> to
  its \<open>ctl\<close> binds it, and its \<open>data\<close> file sends and receives. \<open>/dev\<close> holds the state of the mesh,
  a chat log, the node's telemetry, that of its neighbours, and the files by which a new image is
  pushed to another node over the mesh. The same tree is served to the other nodes over the mesh
  itself; a client inside the node uses that to drain a neighbour's telemetry and to stream an
  image to it. The relay holds the nRF9151 as a 9P client on a UART, re-exports its files, carries
  a second 9P session through a conversation to any other node, streams images to the nRF9151 and
  confirms them after the swap. The forwarder on the host reads the telemetry files and posts
  their chunks to a collector. The verifier checks a node's proof that it owns its address. The relay
  also bridges the console of the nRF9151 to USB. Other host programs run the conversations: one
  command at a time (\<open>aether_conv\<close>), a list of file commands (\<open>p9do\<close>), a chat on lines and one in a
  window (\<open>achat\<close>), and a conformance test (\<open>aether_test\<close>).

  \<^bold>\<open>Theories.\<close>

  \<^item> \<open>Prelude\<close>, \<open>Text\<close>, \<open>Wire\<close>, \<open>Fifo\<close>: machine types, error values, segments of buffers; C strings,
    printing and scanning; little-endian fields (a locale of codecs) and the T-messages of the
    node's client; the contract of a bounded queue (a locale), met by the request ring.

  \<^item> \<open>Net\<close>, \<open>NetFs\<close> (\<open>aether_net.c\<close>): conversations, the node tree, the receive callback; walking,
    reading, writing, clunking, the \<open>ctl\<close> grammar. The record \<open>net\<close> is \<open>g_fs\<close>, \<open>conv\<close> is
    \<open>struct aether_conv\<close>, \<open>nid\<close> names the nodes that \<open>struct anode\<close> pointers name. \<open>NetInv\<close>,
    \<open>NetReach\<close>, \<open>NetRecv\<close>, \<open>NetData\<close>, \<open>NetFiles\<close> hold the invariant and its preservation, and what
    each operation does; \<open>NetSpec\<close> the abstract table of slots and the refinement.

  \<^item> \<open>NetClient\<close>, \<open>NetPush\<close> (\<open>m9_rpc\<close>, \<open>aether_net_drain_peer\<close>, \<open>aether_net_probe_peer\<close>,
    \<open>aether_net_push_*\<close> of \<open>aether_net.c\<close>): the client in the node and the push of an image, with
    \<open>NetClientProps\<close>, \<open>NetPushProps\<close>, \<open>NetConfirm\<close> on what they send, what they give
    back, and why a confirmation over the mesh cannot succeed.

  \<^item> \<open>Mesh9p\<close> (\<open>aether_9p_mesh.c\<close>): the request ring between the receive thread and the work queue,
    sequentially and as a step relation of atomic actions. \<open>Cga\<close> (\<open>cga.c\<close>): seed, address,
    ownership proof.

  \<^item> \<open>Node9p\<close>, \<open>NodeProps\<close> (\<open>aether_9p.c\<close>): the generated files, chat log, telemetry, OTA control.
    \<open>Base64\<close>: the encoder of the chips and the decoder of the forwarder. \<open>Forward\<close>, \<open>ForwardProps\<close>
    (\<open>aether_forwarder.c\<close>): token stream, posts, device table, peer discovery, and the composition
    with the node's telemetry file.

  \<^item> \<open>Ninep\<close>: the 9P client library as the relay sees it, a parameter that logs calls and answers.
    \<open>ConvTransport\<close>, \<open>ConvTransportProps\<close> (\<open>aether_conv_transport.c\<close>): the transport of the nested
    session. \<open>RelayRx\<close> (\<open>dect_relay/src/main.c\<close>): the framer of the UART. \<open>Relay\<close>, \<open>RelayProps\<close>,
    \<open>RelaySafety\<close>: link, mounts, proxied files, image and push streams, auto-confirm, monitor.

  \<^item> \<open>ForwardLink\<close>, \<open>ForwardLinkProps\<close> (\<open>aether_forwarder.c\<close>): the 9P client on the serial port, a list
    of events, with the cycle and the main loop. \<open>ForwardTunnel\<close>, \<open>ForwardTunnelProps\<close>: its tunnel to
    one peer. \<open>ForwardMain\<close>, \<open>ForwardMainProps\<close>: the shell command of a post, the choice of the port,
    \<open>main\<close>; what the shell reads of the command.

  \<^item> \<open>HostClient\<close>, \<open>HostClientProps\<close> (\<open>aether_conv.c\<close>): the client that waits without a deadline, and the
    commands that write files. \<open>HostConv\<close>, \<open>HostCmds\<close>: requests with tags, and the commands that open
    conversations. \<open>HostBridge\<close>: the bridge from a socket to a conversation, and the probe. \<open>HostMain\<close>:
    arguments and \<open>main\<close>. \<open>HostConvProps\<close>, \<open>HostBridgeProps\<close>: what is sent, given back, answered;
    \<open>HostNode\<close>: the commands against the model of the node. \<open>P9do\<close> (\<open>p9do.c\<close>): its session.

  \<^item> \<open>HostTest\<close> (\<open>aether_test.c\<close>): the conformance test as a program in the state monad over the requests it
    uses. \<open>TestRun\<close>: the node behind an ideal 9P server, an abstract table of slots, and a locale that
    carries runs of the test from one to the other; \<open>NodeTest\<close>: the node follows the table, the table
    passes. The server of \<open>TestRun\<close> stands for the library in between: a fid names a node, and each
    request calls the file operation once.

  \<^item> \<open>Chat\<close>, \<open>ChatProps\<close> (\<open>achat_core.c\<close>): the chat, its reader process and its input loop as a step
    relation together with the node. \<open>GuiWindow\<close>, \<open>GuiChat\<close> (\<open>achat_gui.c\<close>, \<open>serial.c\<close>): the chat in a
    window: transcript, layout, wrapping and panel, given by the strings drawn; the conversation and its
    recovery, commands, input line, reader and event loop over a 9P library, which is a record of
    functions on a state of its own. \<open>GuiWindowProps\<close>, \<open>GuiPanel\<close>: what the window shows; \<open>GuiProps\<close>: nil
    fids, typing, and a locale of what the library promises of its fids; \<open>GuiNode\<close>: that library with the
    node at the other end. \<open>Led\<close> (\<open>aether_led.c\<close>): the state shown and its rendering.
    \<open>Verify\<close> (\<open>aether_verify.c\<close>): the check of a proof, composed with the node that gives it.

  \<^item> \<open>Bridge\<close>, \<open>BridgeProps\<close> (\<open>dect_relay/src/main.c\<close>): the two interrupt handlers of the console bridge,
    as whole passes and action by action. \<open>RelayBoot\<close>, \<open>RelayBootProps\<close>: the relay's telemetry, the
    composition of its tree, its start and its advertising, and the start of its client on the serial
    line. \<open>MeshShell\<close>, \<open>MeshShellProps\<close>, \<open>NodeConsole\<close> (\<open>dect_mesh/src/main.c\<close>, \<open>dect_metrics.c\<close>): the console commands, the throughput, the sampling of the metrics. \<open>NodeMain\<close>,
    \<open>NodeMainProps\<close> (\<open>main.c\<close>, \<open>aether_9p.c\<close>): the start of the node as a sequence of calls of which each
    may fail, its main loop; the order of the start, console and files compared, the events of the metrics.

  \<^item> \<open>Demo\<close>, \<open>Witness\<close>, \<open>NodeWitness\<close>, \<open>RelayWitness\<close>, \<open>ForwardWitness\<close>,
    \<open>BootWitness\<close>, \<open>HostWitness\<close>, \<open>HostConvWitness\<close>, \<open>GuiWitness\<close>:
    concrete environments and the properties applied there.

  \<^bold>\<open>How the code is modelled.\<close> A C function that returns a count or a negated error number is a
  function into \<open>errno + 'a\<close>. Machine integers that can wrap are words. Code outside the repository
  (mesh layer, kernel queue, crypto and settings, packetizer, 9P client library, collector) is a
  record of functions given to the definitions; its answers may depend on everything that was
  called before, which the states record. What the code relies on is a named predicate:
  \<open>msgq_ok\<close>, \<open>cga_env_ok\<close>, \<open>chunks_fit\<close>, \<open>ncl_ok\<close>, \<open>peers_run_mesh9p\<close>, \<open>isr_in_ok\<close>,
  \<open>crypto_agrees\<close>. A write past a buffer is the
  value \<open>None\<close>. Frames from the mesh arrive when the client sends or waits. A handler of the relay
  is one step, because its locks serialise handlers; the calls of the 9P client inside it are
  logged one by one.

  \<^bold>\<open>Loops.\<close> Loops over buffers end by a measure. \<open>push_reap\<close> reads at most the queue's 16
  datagrams and one more, so its fuel is 17. The pump makes 8 attempts of 6 polls, the client 2 of
  4, as the code does. The loop that forwards a block (\<open>chunk_loop\<close>) ends only if its pieces are
  not empty, so it is a partial function and its termination a property. The push makes 15 attempts
  for a block, in as many passes as it is given; the forwarder reads a file at most eight times. Its
  main loop runs as long as there are states of the port in the list it is given. The bridge of the
  host serves a client for as many turns as its input has events; the probe polls 40 or 60 times, the
  test fills at most eight conversations, as the code does. The window wraps a line by a measure, since
  every row takes a byte of it, into at most 512 rows.

  \<^bold>\<open>What is shown.\<close> Conversations: invariant, refinement, delivery, sends, files, hang-up. Mesh
  server: order, no loss, agreement of acknowledgement and queue. Client and push: tags, bounds,
  in-order streaming, nothing leaked. Identity: stability. Node files: bounds, and where the code
  leaves them. Forwarder: exact reading of the token stream, end-to-end delivery, device table.
  Relay: framing independent of fragmentation, its loss of a second reply, no fid leaked in any
  run, the streams, termination, the condition of a confirmation, that the link comes up; that its
  tree is complete when served, and that it stays discoverable. Bridge: order, and the race that
  leaves a byte behind. Host programs: that a file is read whole however its answers are cut, that
  a push writes nothing but the image; that every command gives back its fids; that the bridge
  answers in step, and where a reused tag defeats it; that the stash of the tag demultiplexer
  overruns small arrays; that the host's commands mean to the node what the host intends, and that
  what is queued at the node is printed; that a change of target of the chat completes, and what holds
  until then; that the chat in a window gives its conversation back however it ends, does to the node
  what the line chat does, makes calls without a fid only after a failed recovery, and shows the end of
  the transcript, with the bounds where it does not; the order of a node's start; what a
  node's name can make the forwarder's shell run; that a node's proof is accepted
  for its address only; that the node passes the conformance test.

  \<^bold>\<open>Not modelled.\<close> Terminal settings and log lines of the host programs; the drawing library, of which
  only the height of the font and the width of a string matter here, and characters of more than one
  byte in what it draws; the probe of a pin by the relay (\<open>nrf91_probe\<close>); scripts and documents.
\<close>

end
